(* ===== verification/Prelude.thy ===== *)
theory Prelude
  imports Main
begin

text \<open>
  Shared vocabulary of the development: the clock, the values a request handler can end
  with, and the generic facts on lists that the components use.

  A handler of the service either returns a response or raises. The exceptions are values:
  \<open>HTTPException status detail headers\<close> is FastAPI's exception of that name,
  \<open>RequestValidationError\<close> a body that the schema rejects (a 422 response),
  \<open>WebSocketException code\<close> the one used before a socket is accepted, and
  \<open>Unhandled what\<close> any other Python exception, which \<open>app/core/exceptions.py\<close> turns
  into a 500 response. State changes made before a raise stay made, so every handler returns
  the state beside its result.
\<close>

named_theorems handler_defs \<open>definitions of the request handlers\<close>
named_theorems frame \<open>parts of the state an operation leaves alone\<close>
named_theorems wf_intros \<open>operations keep the database well formed\<close>

text \<open>Instants are microseconds since the epoch, the resolution of Python's \<open>datetime\<close>.\<close>

type_synonym time = int

abbreviation second :: int where "second \<equiv> 1000000"

datatype failure =
    HTTPException (failure_status: int) (failure_detail: string) "(string \<times> string) list"
  | RequestValidationError string
  | WebSocketException int
  | Unhandled string

type_synonym ('a, 's) handled = "(failure + 'a) \<times> 's"

fun unforeseen :: "failure \<Rightarrow> bool" where
  "unforeseen (Unhandled w) = True"
| "unforeseen _ = False"

definition is_unhandled :: "failure + 'a \<Rightarrow> bool" where
  "is_unhandled res = (case res of Inl e \<Rightarrow> unforeseen e | Inr _ \<Rightarrow> False)"

lemma is_unhandled_simps [simp]:
  "is_unhandled (Inl e) = unforeseen e"
  "\<not> is_unhandled (Inr x)"
  by (simp_all add: is_unhandled_def)

text \<open>FastAPI runs the dependencies of a route first and its body only when none raised.\<close>

definition after_dependency ::
  "(failure + 'd) \<times> 's \<Rightarrow> ('d \<Rightarrow> 's \<Rightarrow> ('a, 's) handled) \<Rightarrow> ('a, 's) handled" where
  "after_dependency d body =
     (case d of (Inl e, s) \<Rightarrow> (Inl e, s) | (Inr v, s) \<Rightarrow> body v s)"

lemma after_dependency_simps [simp]:
  "after_dependency (Inl e, s) body = (Inl e, s)"
  "after_dependency (Inr v, s) body = body v s"
  by (simp_all add: after_dependency_def)

lemma after_dependency_Inr:
  "after_dependency d body = (Inr x, t) \<longleftrightarrow>
     (\<exists>v s. d = (Inr v, s) \<and> body v s = (Inr x, t))"
  by (auto simp: after_dependency_def split: prod.splits sum.splits)

subsection \<open>Lists of rows\<close>

lemma find_Some_set: "List.find P xs = Some x \<Longrightarrow> x \<in> set xs \<and> P x"
  by (auto simp: find_Some_iff)

lemma find_None_all: "List.find P xs = None \<Longrightarrow> x \<in> set xs \<Longrightarrow> \<not> P x"
  by (auto simp: find_None_iff)

lemma find_append:
  "List.find P (xs @ ys) = (case List.find P xs of None \<Rightarrow> List.find P ys | Some x \<Rightarrow> Some x)"
  by (induction xs) auto

lemma distinct_map_eq:
  "distinct (map f xs) \<Longrightarrow> x \<in> set xs \<Longrightarrow> y \<in> set xs \<Longrightarrow> f x = f y \<Longrightarrow> x = y"
  by (auto simp: distinct_map inj_on_def)

lemma find_distinct_key:
  assumes "distinct (map f xs)" and "x \<in> set xs"
  shows "List.find (\<lambda>y. f y = f x) xs = Some x"
  using assms by (induction xs) (auto simp: image_iff)

lemma distinct_map_filterI: "distinct (map f xs) \<Longrightarrow> distinct (map f (filter P xs))"
  by (induction xs) auto

end
