(* ===== verification/PyText.thy ===== *)
theory PyText
  imports Complex_Main Prelude
begin

text \<open>
  The part of Python's \<open>str\<close>, \<open>int\<close> and dynamic values that the program uses.

  A \<open>string\<close> is a list of characters, each an 8-bit code; it stands for a Python string
  whose code points are below 256 (the Latin-1 block), and the character classes below are
  CPython's for exactly those code points. Code points above are outside the model.
\<close>

subsection \<open>Character classes\<close>

definition code :: "char \<Rightarrow> nat" where
  "code c = of_char c"

definition is_upper_char :: "char \<Rightarrow> bool" where
  "is_upper_char c = (let n = code c in
     (65 \<le> n \<and> n \<le> 90) \<or> (192 \<le> n \<and> n \<le> 222 \<and> n \<noteq> 215))"

definition is_lower_char :: "char \<Rightarrow> bool" where
  "is_lower_char c = (let n = code c in
     (97 \<le> n \<and> n \<le> 122) \<or> n = 170 \<or> n = 181 \<or> n = 186 \<or> (223 \<le> n \<and> n \<noteq> 247))"

definition is_decimal_char :: "char \<Rightarrow> bool" where
  "is_decimal_char c = (let n = code c in 48 \<le> n \<and> n \<le> 57)"

text \<open>\<open>str.isdigit\<close> also accepts the superscripts two, three and one.\<close>

definition is_digit_char :: "char \<Rightarrow> bool" where
  "is_digit_char c = (is_decimal_char c \<or> code c = 178 \<or> code c = 179 \<or> code c = 185)"

definition is_space_char :: "char \<Rightarrow> bool" where
  "is_space_char c = (let n = code c in
     (9 \<le> n \<and> n \<le> 13) \<or> (28 \<le> n \<and> n \<le> 32) \<or> n = 133 \<or> n = 160)"

text \<open>The white space that the \<open>int\<close> constructor skips is a smaller set.\<close>

definition is_int_space :: "char \<Rightarrow> bool" where
  "is_int_space c = (let n = code c in (9 \<le> n \<and> n \<le> 13) \<or> n = 32 \<or> n = 133 \<or> n = 160)"

lemma code_less_256 [simp]: "code c < 256"
  by (simp add: code_def)

lemma code_char_of: "n < 256 \<Longrightarrow> code (char_of n) = n"
  by (simp add: code_def)

lemma code_inject: "code c = code d \<longleftrightarrow> c = d"
  by (simp add: code_def)

subsection \<open>Case conversion\<close>

definition lower_char :: "char \<Rightarrow> char" where
  "lower_char c = (if is_upper_char c then char_of (code c + 32) else c)"

definition lower :: "string \<Rightarrow> string" where
  "lower s = map lower_char s"

text \<open>
  \<open>str.upper\<close>: the sharp s becomes two letters; the micro sign and the y with diaeresis map
  outside Latin-1 and are left alone here.
\<close>

definition upper_char :: "char \<Rightarrow> string" where
  "upper_char c = (let n = code c in
     if n = 223 then ''SS''
     else if (97 \<le> n \<and> n \<le> 122) \<or> (224 \<le> n \<and> n \<le> 254 \<and> n \<noteq> 247)
     then [char_of (n - 32)] else [c])"

definition upper :: "string \<Rightarrow> string" where
  "upper s = concat (map upper_char s)"

lemma lower_char_not_upper: "\<not> is_upper_char (lower_char c)"
proof (cases "is_upper_char c")
  case True
  then have n: "code c + 32 < 256"
    by (auto simp: is_upper_char_def Let_def)
  from True have "\<not> is_upper_char (char_of (code c + 32))"
    unfolding is_upper_char_def [of "char_of _"] Let_def code_char_of [OF n]
    by (auto simp: is_upper_char_def Let_def)
  with True show ?thesis by (simp add: lower_char_def)
next
  case False
  then show ?thesis by (simp add: lower_char_def)
qed

lemma lower_char_idem [simp]: "lower_char (lower_char c) = lower_char c"
  using lower_char_not_upper [of c] by (simp add: lower_char_def [of "lower_char c"])

lemma lower_idem [simp]: "lower (lower s) = lower s"
  by (simp add: lower_def)

lemma length_lower [simp]: "length (lower s) = length s"
  by (simp add: lower_def)

subsection \<open>Prefixes, splitting, stripping, replacing\<close>

fun startswith :: "string \<Rightarrow> string \<Rightarrow> bool" where
  "startswith s [] = True"
| "startswith [] (p # ps) = False"
| "startswith (c # cs) (p # ps) = (c = p \<and> startswith cs ps)"

lemma startswith_iff: "startswith s p \<longleftrightarrow> (\<exists>r. s = p @ r)"
  by (induction s p rule: startswith.induct) auto

lemma startswith_append [simp]: "startswith (p @ r) p"
  by (auto simp: startswith_iff)

definition contains_char :: "string \<Rightarrow> char \<Rightarrow> bool" where
  "contains_char s c = (c \<in> set s)"

text \<open>\<open>s.split(sep)\<close> for a one-character separator: always at least one piece.\<close>

fun split_on :: "char \<Rightarrow> string \<Rightarrow> string list" where
  "split_on sep [] = [[]]"
| "split_on sep (c # cs) =
     (if c = sep then [] # split_on sep cs
      else (case split_on sep cs of [] \<Rightarrow> [[c]] | p # ps \<Rightarrow> (c # p) # ps))"

definition lstrip_by :: "(char \<Rightarrow> bool) \<Rightarrow> string \<Rightarrow> string" where
  "lstrip_by P s = dropWhile P s"

definition strip_by :: "(char \<Rightarrow> bool) \<Rightarrow> string \<Rightarrow> string" where
  "strip_by P s = rev (dropWhile P (rev (dropWhile P s)))"

definition strip :: "string \<Rightarrow> string" where
  "strip s = strip_by is_space_char s"

definition replace_char :: "char \<Rightarrow> char \<Rightarrow> string \<Rightarrow> string" where
  "replace_char old new s = map (\<lambda>c. if c = old then new else c) s"

fun join :: "string \<Rightarrow> string list \<Rightarrow> string" where
  "join sep [] = []"
| "join sep [p] = p"
| "join sep (p # q # ps) = p @ sep @ join sep (q # ps)"

lemma strip_by_none: "(\<And>c. c \<in> set s \<Longrightarrow> \<not> P c) \<Longrightarrow> strip_by P s = s"
proof -
  assume a: "\<And>c. c \<in> set s \<Longrightarrow> \<not> P c"
  have "dropWhile P t = t" if "set t \<subseteq> set s" for t
    using that a by (cases t) auto
  then show ?thesis by (simp add: strip_by_def)
qed

lemma split_on_not_Nil [simp]: "split_on sep s \<noteq> []"
  by (induction s) (auto split: list.splits)

lemma join_split_on: "join [sep] (split_on sep s) = s"
proof (induction s)
  case Nil
  show ?case by simp
next
  case (Cons c cs)
  obtain p ps where ps: "split_on sep cs = p # ps"
    using split_on_not_Nil [of sep cs] by (cases "split_on sep cs") auto
  with Cons.IH show ?case by (cases ps) auto
qed

lemma split_on_no_sep: "sep \<notin> set s \<Longrightarrow> split_on sep s = [s]"
  by (induction s) auto

lemma split_on_first: "sep \<notin> set p \<Longrightarrow> split_on sep (p @ sep # r) = p # split_on sep r"
  by (induction p) auto

lemma split_on_piece: "p \<in> set (split_on sep s) \<Longrightarrow> sep \<notin> set p"
proof (induction s arbitrary: p)
  case Nil
  then show ?case by simp
next
  case (Cons c cs)
  then show ?case by (cases "split_on sep cs") (auto split: if_splits)
qed

subsection \<open>Decimal integers\<close>

definition digit_char :: "nat \<Rightarrow> char" where
  "digit_char d = char_of (48 + d)"

definition digit_value :: "char \<Rightarrow> nat" where
  "digit_value c = code c - 48"

fun nat_digits :: "nat \<Rightarrow> string" where
  "nat_digits n =
     (if n < 10 then [digit_char n] else nat_digits (n div 10) @ [digit_char (n mod 10)])"

declare nat_digits.simps [simp del]

text \<open>\<open>str(n)\<close>.\<close>

definition py_str :: "int \<Rightarrow> string" where
  "py_str n = (if n < 0 then CHR ''-'' # nat_digits (nat (- n)) else nat_digits (nat n))"

text \<open>Digits with single underscores between them, the literal syntax that \<open>int\<close> accepts.\<close>

fun digit_groups :: "string \<Rightarrow> bool" where
  "digit_groups [] = False"
| "digit_groups [c] = is_decimal_char c"
| "digit_groups (c # d # r) =
     (is_decimal_char c \<and> (if d = CHR ''_'' then digit_groups r else digit_groups (d # r)))"

definition digits_value :: "string \<Rightarrow> nat" where
  "digits_value s = foldl (\<lambda>acc c. 10 * acc + digit_value c) 0 (filter is_decimal_char s)"

text \<open>CPython refuses to convert more than 4300 digits (\<open>sys.int_info\<close>).\<close>

definition max_str_digits :: nat where "max_str_digits = 4300"

definition magnitude :: "string \<Rightarrow> nat option" where
  "magnitude s =
     (if digit_groups s \<and> length (filter is_decimal_char s) \<le> max_str_digits
      then Some (digits_value s) else None)"

text \<open>\<open>int(s)\<close> on a string; \<open>None\<close> is \<open>ValueError\<close>.\<close>

definition py_int :: "string \<Rightarrow> int option" where
  "py_int s =
     (case strip_by is_int_space s of
        [] \<Rightarrow> None
      | c # r \<Rightarrow>
          if c = CHR ''-'' then map_option (\<lambda>n. - int n) (magnitude r)
          else if c = CHR ''+'' then map_option int (magnitude r)
          else map_option int (magnitude (c # r)))"

lemma code_digit_char: "d < 10 \<Longrightarrow> code (digit_char d) = 48 + d"
  by (simp add: digit_char_def code_char_of)

lemma digit_char_decimal [simp]: "d < 10 \<Longrightarrow> is_decimal_char (digit_char d)"
  by (simp add: is_decimal_char_def code_digit_char)

lemma digit_value_char [simp]: "d < 10 \<Longrightarrow> digit_value (digit_char d) = d"
  by (simp add: digit_value_def code_digit_char)

lemma nat_digits_decimal: "c \<in> set (nat_digits n) \<Longrightarrow> is_decimal_char c"
proof (induction n rule: nat_digits.induct)
  case (1 n)
  then show ?case
    by (cases "n < 10") (auto simp: nat_digits.simps [of n])
qed

lemma nat_digits_not_Nil [simp]: "nat_digits n \<noteq> []"
  by (simp add: nat_digits.simps [of n])

lemma all_decimal_groups:
  "s \<noteq> [] \<Longrightarrow> (\<And>c. c \<in> set s \<Longrightarrow> is_decimal_char c) \<Longrightarrow> digit_groups s"
proof (induction s rule: digit_groups.induct)
  case (3 c d r)
  have "\<not> is_decimal_char CHR ''_''" by (simp add: is_decimal_char_def code_def)
  with 3 show ?case by auto
qed auto

lemma filter_nat_digits [simp]: "filter is_decimal_char (nat_digits n) = nat_digits n"
  by (auto simp: filter_id_conv intro: nat_digits_decimal)

lemma digits_value_nat_digits: "digits_value (nat_digits n) = n"
proof (induction n rule: nat_digits.induct)
  case (1 n)
  show ?case
  proof (cases "n < 10")
    case True
    then show ?thesis by (simp add: digits_value_def nat_digits.simps [of n])
  next
    case False
    with 1 have "foldl (\<lambda>acc c. 10 * acc + digit_value c) 0 (nat_digits (n div 10)) = n div 10"
      by (simp add: digits_value_def)
    moreover have "10 * (n div 10) + n mod 10 = n" by simp
    ultimately show ?thesis
      using False by (simp add: digits_value_def nat_digits.simps [of n])
  qed
qed

lemma length_nat_digits: "n < 10 ^ k \<Longrightarrow> 0 < k \<Longrightarrow> length (nat_digits n) \<le> k"
proof (induction k arbitrary: n)
  case 0
  then show ?case by simp
next
  case (Suc k)
  show ?case
  proof (cases "n < 10")
    case True
    then show ?thesis by (simp add: nat_digits.simps [of n])
  next
    case False
    then have "0 < k" using Suc.prems by (cases k) auto
    moreover have "n div 10 < 10 ^ k" using Suc.prems(1) by (simp add: div_less_iff_less_mult mult.commute)
    ultimately have "length (nat_digits (n div 10)) \<le> k" by (rule Suc.IH [rotated])
    with False show ?thesis by (simp add: nat_digits.simps [of n])
  qed
qed

lemma max_str_digits_pos: "0 < max_str_digits"
  by (simp add: max_str_digits_def)

lemma below_digit_limit: "n < 10 ^ 20 \<Longrightarrow> n < (10 :: 'a :: linordered_semidom) ^ max_str_digits"
proof -
  assume n: "n < 10 ^ 20"
  have "(10 :: 'a) ^ 20 \<le> 10 ^ max_str_digits"
    by (rule power_increasing) (simp_all add: max_str_digits_def)
  with n show ?thesis by (rule less_le_trans)
qed

lemma magnitude_nat_digits: "n < 10 ^ max_str_digits \<Longrightarrow> magnitude (nat_digits n) = Some n"
  using length_nat_digits [of n max_str_digits] max_str_digits_pos
  by (auto simp: magnitude_def digits_value_nat_digits intro!: all_decimal_groups nat_digits_decimal)

lemma decimal_not_int_space: "is_decimal_char c \<Longrightarrow> \<not> is_int_space c"
  by (auto simp: is_decimal_char_def is_int_space_def Let_def)

lemma strip_nat_digits: "strip_by is_int_space (nat_digits n) = nat_digits n"
  by (intro strip_by_none decimal_not_int_space) (rule nat_digits_decimal)

lemma strip_minus_digits:
  "strip_by is_int_space (CHR ''-'' # nat_digits n) = CHR ''-'' # nat_digits n"
proof (rule strip_by_none)
  fix c assume "c \<in> set (CHR ''-'' # nat_digits n)"
  then consider "c = CHR ''-''" | "c \<in> set (nat_digits n)" by auto
  then show "\<not> is_int_space c"
  proof cases
    case 1
    then show ?thesis by (simp add: is_int_space_def code_def)
  next
    case 2
    then show ?thesis by (intro decimal_not_int_space nat_digits_decimal)
  qed
qed

text \<open>\<open>int(str(n)) == n\<close>, below the digit limit.\<close>

lemma py_int_py_str:
  assumes "\<bar>n\<bar> < 10 ^ max_str_digits"
  shows "py_int (py_str n) = Some n"
proof (cases "n < 0")
  case True
  then have "nat (- n) < 10 ^ max_str_digits" using assms by (simp add: nat_less_iff)
  with True show ?thesis
    by (simp add: py_str_def py_int_def strip_minus_digits magnitude_nat_digits)
next
  case False
  then have m: "nat n < 10 ^ max_str_digits" using assms by (simp add: nat_less_iff)
  obtain c r where cr: "nat_digits (nat n) = c # r"
    using nat_digits_not_Nil by (meson neq_Nil_conv)
  then have "is_decimal_char c" using nat_digits_decimal [of c "nat n"] by simp
  then have "c \<noteq> CHR ''-''" and "c \<noteq> CHR ''+''"
    by (auto simp: is_decimal_char_def code_def)
  with False m cr show ?thesis
    using magnitude_nat_digits [OF m]
    by (simp add: py_str_def py_int_def strip_nat_digits [of "nat n", unfolded cr])
qed

lemma py_str_inject: "py_str m = py_str n \<longleftrightarrow> m = n"
proof
  assume eq: "py_str m = py_str n"
  have dec: "CHR ''-'' \<notin> set (nat_digits k)" for k
    by (auto dest!: nat_digits_decimal simp: is_decimal_char_def code_def)
  have inj: "nat_digits a = nat_digits b \<Longrightarrow> a = b" for a b
    by (metis digits_value_nat_digits)
  have hd: "CHR ''-'' # xs \<noteq> nat_digits k" for xs k
    using dec [of k] by (metis list.set_intros(1))
  show "m = n"
  proof (cases "m < 0"; cases "n < 0")
    assume "m < 0" "n < 0"
    with eq show ?thesis by (auto simp: py_str_def dest!: inj)
  next
    assume "\<not> m < 0" "\<not> n < 0"
    with eq show ?thesis by (auto simp: py_str_def dest!: inj)
  next
    assume "m < 0" "\<not> n < 0"
    with eq hd show ?thesis by (auto simp: py_str_def)
  next
    assume "\<not> m < 0" "n < 0"
    with eq hd show ?thesis by (auto simp: py_str_def dest: sym)
  qed
qed simp

subsection \<open>Dynamic values\<close>

text \<open>
  The values that claims of a token and messages of a socket are made of. Decoded JSON has no
  \<open>PTime\<close>; the claims passed to the encoder do (a \<open>datetime\<close>). In Python \<open>bool\<close> is a
  subclass of \<open>int\<close>, so \<open>isinstance(v, int)\<close> holds for \<open>True\<close>.
\<close>

datatype pyval =
    PNone
  | PBool bool
  | PInt int
  | PFloat rat
  | PStr string
  | PTime time
  | PList "pyval list"
  | PDict "(string \<times> pyval) list"

type_synonym pydict = "(string \<times> pyval) list"

text \<open>\<open>d.get(k)\<close>, with \<open>None\<close> for a missing key.\<close>

definition dict_get :: "pydict \<Rightarrow> string \<Rightarrow> pyval" where
  "dict_get d k = (case map_of d k of None \<Rightarrow> PNone | Some v \<Rightarrow> v)"

fun as_str :: "pyval \<Rightarrow> string option" where
  "as_str (PStr s) = Some s"
| "as_str _ = None"

text \<open>The value of an \<open>isinstance(v, int)\<close>, with the booleans as 0 and 1.\<close>

fun as_int :: "pyval \<Rightarrow> int option" where
  "as_int (PInt n) = Some n"
| "as_int (PBool b) = Some (of_bool b)"
| "as_int _ = None"

fun as_number :: "pyval \<Rightarrow> rat option" where
  "as_number (PInt n) = Some (of_int n)"
| "as_number (PBool b) = Some (of_bool b)"
| "as_number (PFloat q) = Some q"
| "as_number _ = None"

definition round_half_even :: "rat \<Rightarrow> int" where
  "round_half_even q =
     (let f = \<lfloor>q\<rfloor>; d = q - of_int f in
      if d < 1 / 2 then f else if 1 / 2 < d then f + 1
      else if even f then f else f + 1)"

text \<open>\<open>datetime.fromtimestamp(x, tz=utc)\<close>, rounded to a microsecond.\<close>

definition from_timestamp :: "rat \<Rightarrow> time" where
  "from_timestamp q = round_half_even (q * of_int second)"

lemma round_half_even_of_int [simp]: "round_half_even (of_int n) = n"
  by (simp add: round_half_even_def Let_def)

lemma from_timestamp_of_int [simp]: "from_timestamp (of_int n) = n * second"
proof -
  have "(of_int n :: rat) * of_int second = of_int (n * second)" by simp
  then show ?thesis unfolding from_timestamp_def by (simp only: round_half_even_of_int)
qed

end
