(* ===== verification/Redis.thy ===== *)
theory Redis
  imports PyText
begin

text \<open>
  The interface to the Redis server (\<open>app/core/redis_client.py\<close> hands out the client). The
  server is not part of the repository, so it is a parameter: a record of the six commands
  that the program sends, each at the instant it is executed. What the program relies on is
  the locale \<open>redis_server\<close>, which states the documented effect of a command only through
  what a later \<open>GET\<close> returns. A small reference server shows that the laws can be met and
  is what the witnesses run on. Lost connections are not modelled.
\<close>

record 'r redis_ops =
  r_get :: "'r \<Rightarrow> time \<Rightarrow> string \<Rightarrow> string option"
  r_exists :: "'r \<Rightarrow> time \<Rightarrow> string \<Rightarrow> int"
  r_set :: "'r \<Rightarrow> time \<Rightarrow> string \<Rightarrow> string \<Rightarrow> int \<Rightarrow> 'r"
  r_delete :: "'r \<Rightarrow> time \<Rightarrow> string \<Rightarrow> 'r"
  r_incr :: "'r \<Rightarrow> time \<Rightarrow> string \<Rightarrow> int \<times> 'r"
  r_expire :: "'r \<Rightarrow> time \<Rightarrow> string \<Rightarrow> int \<Rightarrow> 'r"

text \<open>
  \<open>SET k v EX s\<close> stores \<open>v\<close> for \<open>s\<close> seconds; \<open>INCR\<close> counts up and keeps the deadline of
  a live key, starting from a missing key at 1 without one; \<open>EXPIRE\<close> gives a live key a new
  deadline. Counters are 64-bit: the laws of \<open>INCR\<close> stop below the largest one. Each command
  leaves the other keys alone.
\<close>

definition counter_range :: "int \<Rightarrow> bool" where
  "counter_range n = (0 \<le> n \<and> n < 2 ^ 63 - 1)"

locale redis_server =
  fixes R :: "'r redis_ops"
  assumes exists_get: "r_exists R r t k = (if r_get R r t k = None then 0 else 1)"
    and get_set: "0 < s \<Longrightarrow> t \<le> t' \<Longrightarrow>
      r_get R (r_set R r t k v s) t' k' =
        (if k' = k then (if t' < t + s * second then Some v else None) else r_get R r t' k')"
    and get_delete: "t \<le> t' \<Longrightarrow>
      r_get R (r_delete R r t k) t' k' = (if k' = k then None else r_get R r t' k')"
    and incr_missing: "r_get R r t k = None \<Longrightarrow> fst (r_incr R r t k) = 1"
    and incr_counter: "r_get R r t k = Some (py_str n) \<Longrightarrow> counter_range n \<Longrightarrow> fst (r_incr R r t k) = n + 1"
    and get_incr_missing: "r_get R r t k = None \<Longrightarrow> t \<le> t' \<Longrightarrow>
      r_get R (snd (r_incr R r t k)) t' k' = (if k' = k then Some (py_str 1) else r_get R r t' k')"
    and get_incr_counter: "r_get R r t k = Some (py_str n) \<Longrightarrow> counter_range n \<Longrightarrow> t \<le> t' \<Longrightarrow>
      r_get R (snd (r_incr R r t k)) t' k' =
        (if k' = k then (if r_get R r t' k = None then None else Some (py_str (n + 1)))
         else r_get R r t' k')"
    and get_expire: "r_get R r t k = Some v \<Longrightarrow> 0 < s \<Longrightarrow> t \<le> t' \<Longrightarrow>
      r_get R (r_expire R r t k s) t' k' =
        (if k' = k then (if t' < t + s * second then Some v else None) else r_get R r t' k')"
    and incr_other: "k' \<noteq> k \<Longrightarrow> t \<le> t' \<Longrightarrow> r_get R (snd (r_incr R r t k)) t' k' = r_get R r t' k'"
    and expire_other: "k' \<noteq> k \<Longrightarrow> t \<le> t' \<Longrightarrow> r_get R (r_expire R r t k s) t' k' = r_get R r t' k'"

subsection \<open>A reference server\<close>

text \<open>Every key has a value and, possibly, the instant it expires at.\<close>

type_synonym ref_store = "string \<Rightarrow> (string \<times> time option) option"

definition ref_get :: "ref_store \<Rightarrow> time \<Rightarrow> string \<Rightarrow> string option" where
  "ref_get r t k =
     (case r k of
        None \<Rightarrow> None
      | Some (v, None) \<Rightarrow> Some v
      | Some (v, Some d) \<Rightarrow> if t < d then Some v else None)"

definition ref_set :: "ref_store \<Rightarrow> time \<Rightarrow> string \<Rightarrow> string \<Rightarrow> int \<Rightarrow> ref_store" where
  "ref_set r t k v s = r(k \<mapsto> (v, Some (t + s * second)))"

definition ref_delete :: "ref_store \<Rightarrow> time \<Rightarrow> string \<Rightarrow> ref_store" where
  "ref_delete r t k = r(k := None)"

definition ref_incr :: "ref_store \<Rightarrow> time \<Rightarrow> string \<Rightarrow> int \<times> ref_store" where
  "ref_incr r t k =
     (case ref_get r t k of
        None \<Rightarrow> (1, r(k \<mapsto> (py_str 1, None)))
      | Some v \<Rightarrow>
          (let n = (case py_int v of None \<Rightarrow> 0 | Some m \<Rightarrow> m);
               d = (case r k of None \<Rightarrow> None | Some e \<Rightarrow> snd e)
           in (n + 1, r(k \<mapsto> (py_str (n + 1), d)))))"

definition ref_expire :: "ref_store \<Rightarrow> time \<Rightarrow> string \<Rightarrow> int \<Rightarrow> ref_store" where
  "ref_expire r t k s =
     (case ref_get r t k of None \<Rightarrow> r | Some v \<Rightarrow> r(k \<mapsto> (v, Some (t + s * second))))"

definition ref_redis :: "ref_store redis_ops" where
  "ref_redis = \<lparr>r_get = ref_get, r_exists = (\<lambda>r t k. if ref_get r t k = None then 0 else 1),
     r_set = ref_set, r_delete = ref_delete, r_incr = ref_incr, r_expire = ref_expire\<rparr>"

lemmas ref_defs = ref_redis_def ref_get_def ref_set_def ref_delete_def ref_incr_def ref_expire_def

lemma py_int_counter: "counter_range n \<Longrightarrow> py_int (py_str n) = Some n"
  by (rule py_int_py_str, rule below_digit_limit) (simp add: counter_range_def)

interpretation ref: redis_server ref_redis
proof unfold_locales
  fix r :: ref_store and t t' :: time and k k' v :: string and s n :: int
  note [simp] = ref_defs Let_def
  show "r_exists ref_redis r t k = (if r_get ref_redis r t k = None then 0 else 1)"
    by simp
  show "r_get ref_redis (r_set ref_redis r t k v s) t' k' =
      (if k' = k then (if t' < t + s * second then Some v else None) else r_get ref_redis r t' k')"
    by simp
  show "r_get ref_redis (r_delete ref_redis r t k) t' k' =
      (if k' = k then None else r_get ref_redis r t' k')"
    by simp
  show "r_get ref_redis r t k = None \<Longrightarrow> fst (r_incr ref_redis r t k) = 1"
    by simp
  show "r_get ref_redis r t k = None \<Longrightarrow>
      r_get ref_redis (snd (r_incr ref_redis r t k)) t' k' =
        (if k' = k then Some (py_str 1) else r_get ref_redis r t' k')"
    by simp
  show "r_get ref_redis r t k = Some (py_str n) \<Longrightarrow> counter_range n \<Longrightarrow>
      fst (r_incr ref_redis r t k) = n + 1"
    by (simp add: py_int_counter)
  show "r_get ref_redis r t k = Some (py_str n) \<Longrightarrow> counter_range n \<Longrightarrow> t \<le> t' \<Longrightarrow>
      r_get ref_redis (snd (r_incr ref_redis r t k)) t' k' =
        (if k' = k then (if r_get ref_redis r t' k = None then None else Some (py_str (n + 1)))
         else r_get ref_redis r t' k')"
    by (auto simp: py_int_counter split: option.splits if_splits)
  show "r_get ref_redis r t k = Some v \<Longrightarrow> t \<le> t' \<Longrightarrow>
      r_get ref_redis (r_expire ref_redis r t k s) t' k' =
        (if k' = k then (if t' < t + s * second then Some v else None)
         else r_get ref_redis r t' k')"
    by simp
  show "k' \<noteq> k \<Longrightarrow> t \<le> t' \<Longrightarrow>
      r_get ref_redis (snd (r_incr ref_redis r t k)) t' k' = r_get ref_redis r t' k'"
    by (simp split: option.split)
  show "k' \<noteq> k \<Longrightarrow> t \<le> t' \<Longrightarrow>
      r_get ref_redis (r_expire ref_redis r t k s) t' k' = r_get ref_redis r t' k'"
    by (simp split: option.split)
qed

end
