(* ===== verification/RateLimit.thy ===== *)
theory RateLimit
  imports Redis
begin

text \<open>
  The fixed-window rate limiter: \<open>app/services/rate_limit.py\<close>. A call counts one request of
  a client in a Redis counter whose deadline is set by the first request of a window. The
  abstract limiter \<open>window_call\<close> keeps the count and the deadline of every client in a plain
  map; the code's limiter refines it, and the bounds are proved on the abstract one.
\<close>

record rate_limiter =
  rl_times :: int
  rl_seconds :: int
  rl_scope :: string

definition too_many_requests :: failure where
  "too_many_requests =
     HTTPException 429 ''Too many requests. Please try again later.'' []"

text \<open>\<open>request.client.host if request.client else "unknown"\<close>.\<close>

definition client_host :: "string option \<Rightarrow> string" where
  "client_host client = (case client of None \<Rightarrow> ''unknown'' | Some h \<Rightarrow> h)"

definition rate_limit_key :: "rate_limiter \<Rightarrow> string \<Rightarrow> string" where
  "rate_limit_key rl host = ''ratelimit:'' @ rl_scope rl @ '':'' @ host"

definition rate_limit_call ::
  "'r redis_ops \<Rightarrow> rate_limiter \<Rightarrow> time \<Rightarrow> string option \<Rightarrow> 'r \<Rightarrow> (unit, 'r) handled" where
  "rate_limit_call R rl now client r =
     (let key = rate_limit_key rl (client_host client);
          (current, r1) = r_incr R r now key;
          r2 = (if current = 1 then r_expire R r1 now key (rl_seconds rl) else r1)
      in if rl_times rl < current then (Inl too_many_requests, r2) else (Inr (), r2))"

text \<open>A history of calls, each with its instant and client, and what each call answered.\<close>

fun limiter_run ::
  "'r redis_ops \<Rightarrow> rate_limiter \<Rightarrow> 'r \<Rightarrow> (time \<times> string option) list \<Rightarrow>
     (time \<times> string \<times> bool) list" where
  "limiter_run R rl r [] = []"
| "limiter_run R rl r ((now, client) # evs) =
     (let (res, r') = rate_limit_call R rl now client r
      in (now, client_host client, res = Inr ()) # limiter_run R rl r' evs)"

subsection \<open>The abstract limiter\<close>

text \<open>The count of a client and the end of its window; no end means the window never closes.\<close>

type_synonym window = "(int \<times> time option) option"

definition window_open :: "time \<Rightarrow> time option \<Rightarrow> bool" where
  "window_open now d = (case d of None \<Rightarrow> True | Some e \<Rightarrow> now < e)"

definition window_call :: "rate_limiter \<Rightarrow> time \<Rightarrow> window \<Rightarrow> bool \<times> window" where
  "window_call rl now w =
     (let fresh = (1, Some (now + rl_seconds rl * second));
          (n, d) = (case w of
                      None \<Rightarrow> fresh
                    | Some (m, e) \<Rightarrow> if window_open now e then (m + 1, e) else fresh)
      in (n \<le> rl_times rl, Some (n, d)))"

fun window_run ::
  "rate_limiter \<Rightarrow> (string \<Rightarrow> window) \<Rightarrow> (time \<times> string option) list \<Rightarrow>
     (time \<times> string \<times> bool) list" where
  "window_run rl S [] = []"
| "window_run rl S ((now, client) # evs) =
     (let h = client_host client; (ok, w) = window_call rl now (S h)
      in (now, h, ok) # window_run rl (S(h := w)) evs)"

definition count_of :: "window \<Rightarrow> int" where
  "count_of w = (case w of None \<Rightarrow> 0 | Some (n, _) \<Rightarrow> n)"

lemma window_call_cases:
  "w = None \<Longrightarrow> window_call rl now w =
     (1 \<le> rl_times rl, Some (1, Some (now + rl_seconds rl * second)))"
  "w = Some (m, d) \<Longrightarrow> \<not> window_open now d \<Longrightarrow> window_call rl now w =
     (1 \<le> rl_times rl, Some (1, Some (now + rl_seconds rl * second)))"
  "w = Some (m, d) \<Longrightarrow> window_open now d \<Longrightarrow> window_call rl now w =
     (m + 1 \<le> rl_times rl, Some (m + 1, d))"
  by (simp_all add: window_call_def)

lemma count_of_call: "count_of (snd (window_call rl now w)) \<le> max 0 (count_of w) + 1"
  by (auto simp: window_call_def count_of_def Let_def split: option.splits)

lemma count_of_call_pos: "0 \<le> count_of w \<Longrightarrow> 0 \<le> count_of (snd (window_call rl now w))"
  by (auto simp: window_call_def count_of_def Let_def split: option.splits)

text \<open>What a server state must answer from now on for the window of a client.\<close>

definition shows_window :: "'r redis_ops \<Rightarrow> 'r \<Rightarrow> time \<Rightarrow> string \<Rightarrow> window \<Rightarrow> bool" where
  "shows_window R r t key w \<longleftrightarrow>
     (\<forall>t'\<ge>t. r_get R r t' key =
        (case w of None \<Rightarrow> None
         | Some (n, d) \<Rightarrow> if window_open t' d then Some (py_str n) else None))"

lemma shows_window_later: "shows_window R r t key w \<Longrightarrow> t \<le> t' \<Longrightarrow> shows_window R r t' key w"
  by (auto simp: shows_window_def)

lemma rate_limit_key_inject [simp]: "rate_limit_key rl h = rate_limit_key rl h' \<longleftrightarrow> h = h'"
  by (simp add: rate_limit_key_def)

subsection \<open>The code's limiter refines the abstract one\<close>

context redis_server begin

lemma call_opens_window:
  assumes "r_get R r now key = None" and "0 < rl_seconds rl"
    and "key = rate_limit_key rl (client_host c)"
  defines "r' \<equiv> snd (rate_limit_call R rl now c r)"
  shows "fst (rate_limit_call R rl now c r) = Inr () \<longleftrightarrow> 1 \<le> rl_times rl"
    and "shows_window R r' now key (Some (1, Some (now + rl_seconds rl * second)))"
    and "now \<le> t' \<Longrightarrow> k \<noteq> key \<Longrightarrow> r_get R r' t' k = r_get R r t' k"
proof -
  obtain n r1 where i: "r_incr R r now key = (n, r1)" by fastforce
  have n: "n = 1" using incr_missing [OF assms(1)] i by simp
  have g: "now \<le> t' \<Longrightarrow> r_get R r1 t' k = (if k = key then Some (py_str 1) else r_get R r t' k)"
    for t' k
    using get_incr_missing [OF assms(1), of t' k] i by simp
  have r': "r' = r_expire R r1 now key (rl_seconds rl)"
    using assms(3) i n by (simp add: r'_def rate_limit_call_def Let_def)
  have e: "now \<le> t' \<Longrightarrow> r_get R r' t' k =
      (if k = key then (if t' < now + rl_seconds rl * second then Some (py_str 1) else None)
       else r_get R r t' k)" for t' k
    using get_expire [of r1 now key "py_str 1" "rl_seconds rl" t' k] g assms(2)
    by (simp add: r')
  show "fst (rate_limit_call R rl now c r) = Inr () \<longleftrightarrow> 1 \<le> rl_times rl"
    using assms(3) i n by (auto simp: rate_limit_call_def Let_def too_many_requests_def)
  show "shows_window R r' now key (Some (1, Some (now + rl_seconds rl * second)))"
    using e by (simp add: shows_window_def window_open_def)
  show "now \<le> t' \<Longrightarrow> k \<noteq> key \<Longrightarrow> r_get R r' t' k = r_get R r t' k"
    using e by simp
qed

lemma call_counts_up:
  assumes w: "shows_window R r now key (Some (m, d))" and "window_open now d"
    and "counter_range m" and "1 \<le> m"
    and "key = rate_limit_key rl (client_host c)"
  defines "r' \<equiv> snd (rate_limit_call R rl now c r)"
  shows "fst (rate_limit_call R rl now c r) = Inr () \<longleftrightarrow> m + 1 \<le> rl_times rl"
    and "shows_window R r' now key (Some (m + 1, d))"
    and "now \<le> t' \<Longrightarrow> k \<noteq> key \<Longrightarrow> r_get R r' t' k = r_get R r t' k"
proof -
  obtain n r1 where i: "r_incr R r now key = (n, r1)" by fastforce
  have s: "r_get R r now key = Some (py_str m)"
    using w assms(2) by (simp add: shows_window_def)
  have n: "n = m + 1" using incr_counter [OF s assms(3)] i by simp
  have g: "now \<le> t' \<Longrightarrow> r_get R r1 t' k =
      (if k = key then (if r_get R r t' key = None then None else Some (py_str (m + 1)))
       else r_get R r t' k)" for t' k
    using get_incr_counter [OF s assms(3), of t' k] i by simp
  have r': "r' = r1"
    using assms(4,5) i n by (simp add: r'_def rate_limit_call_def Let_def)
  show "fst (rate_limit_call R rl now c r) = Inr () \<longleftrightarrow> m + 1 \<le> rl_times rl"
    using assms(5) i n by (auto simp: rate_limit_call_def Let_def too_many_requests_def)
  show "shows_window R r' now key (Some (m + 1, d))"
    using g w by (auto simp: shows_window_def r')
  show "now \<le> t' \<Longrightarrow> k \<noteq> key \<Longrightarrow> r_get R r' t' k = r_get R r t' k"
    using g by (simp add: r')
qed

lemma call_simulates:
  assumes w: "shows_window R r now (rate_limit_key rl (client_host c)) w"
    and "0 < rl_seconds rl" and "count_of w = 0 \<longrightarrow> w = None"
    and "0 \<le> count_of w" and "count_of w < 2 ^ 63 - 1"
  defines "r' \<equiv> snd (rate_limit_call R rl now c r)"
  shows "(fst (rate_limit_call R rl now c r) = Inr ()) = fst (window_call rl now w)"
    and "shows_window R r' now (rate_limit_key rl (client_host c)) (snd (window_call rl now w))"
    and "now \<le> t' \<Longrightarrow> k \<noteq> rate_limit_key rl (client_host c) \<Longrightarrow> r_get R r' t' k = r_get R r t' k"
proof -
  let ?key = "rate_limit_key rl (client_host c)"
  consider (fresh) "r_get R r now ?key = None"
      and "window_call rl now w =
        (1 \<le> rl_times rl, Some (1, Some (now + rl_seconds rl * second)))"
    | (counting) m d where "w = Some (m, d)" "window_open now d"
        "window_call rl now w = (m + 1 \<le> rl_times rl, Some (m + 1, d))"
  proof (cases w)
    case None
    with w fresh show ?thesis by (simp add: shows_window_def window_call_cases)
  next
    case (Some p)
    obtain m d where p: "p = (m, d)" by fastforce
    show ?thesis
    proof (cases "window_open now d")
      case True
      with Some p counting show ?thesis by (simp add: window_call_cases)
    next
      case False
      with w Some p fresh show ?thesis by (simp add: shows_window_def window_call_cases)
    qed
  qed
  then have "((fst (rate_limit_call R rl now c r) = Inr ()) = fst (window_call rl now w)) \<and>
      shows_window R r' now ?key (snd (window_call rl now w)) \<and>
      (\<forall>t' k. now \<le> t' \<longrightarrow> k \<noteq> ?key \<longrightarrow> r_get R r' t' k = r_get R r t' k)"
  proof cases
    case fresh
    then show ?thesis using call_opens_window [OF fresh(1) assms(2) refl] by (simp add: r'_def)
  next
    case (counting m d)
    then have "counter_range m" "1 \<le> m"
      using assms(3-5) by (auto simp: counter_range_def count_of_def)
    with counting show ?thesis
      using call_counts_up [of r now ?key m d rl c] w by (simp add: r'_def)
  qed
  then show "(fst (rate_limit_call R rl now c r) = Inr ()) = fst (window_call rl now w)"
    and "shows_window R r' now ?key (snd (window_call rl now w))"
    and "now \<le> t' \<Longrightarrow> k \<noteq> ?key \<Longrightarrow> r_get R r' t' k = r_get R r t' k"
    by auto
qed

lemma run_simulates:
  assumes "\<And>h. shows_window R r t0 (rate_limit_key rl h) (S h)"
    and "\<And>h. 0 \<le> count_of (S h) \<and> (count_of (S h) = 0 \<longrightarrow> S h = None)"
    and "\<And>h. count_of (S h) + int (length evs) < 2 ^ 63 - 1"
    and "sorted (map fst evs)" and "\<forall>t \<in> fst ` set evs. t0 \<le> t" and "0 < rl_seconds rl"
  shows "limiter_run R rl r evs = window_run rl S evs"
  using assms(1-5)
proof (induction evs arbitrary: r t0 S)
  case Nil
  show ?case by simp
next
  case (Cons ev evs)
  obtain now c where ev: "ev = (now, c)" by fastforce
  let ?h = "client_host c"
  let ?w = "snd (window_call rl now (S ?h))"
  let ?r = "snd (rate_limit_call R rl now c r)"
  have now: "t0 \<le> now" using Cons.prems(5) ev by simp
  have sh: "shows_window R r now (rate_limit_key rl h) (S h)" for h
    using Cons.prems(1) now by (rule shows_window_later)
  have range: "count_of (S h) < 2 ^ 63 - 1" for h
    using Cons.prems(3) [of h] by simp
  note sim = call_simulates [OF sh assms(6) _ _ range]
  have pos: "0 \<le> count_of (S h)" "count_of (S h) = 0 \<longrightarrow> S h = None" for h
    using Cons.prems(2) by auto
  have "limiter_run R rl ?r evs = window_run rl (S(?h := ?w)) evs"
  proof (rule Cons.IH)
    fix h
    show "shows_window R ?r now (rate_limit_key rl h) ((S(?h := ?w)) h)"
    proof (cases "h = ?h")
      case True
      then show ?thesis using sim(2) [OF pos(2,1)] by simp
    next
      case False
      then show ?thesis
        using sh [of h] sim(3) [OF pos(2,1)] by (simp add: shows_window_def)
    qed
    show "0 \<le> count_of ((S(?h := ?w)) h) \<and>
        (count_of ((S(?h := ?w)) h) = 0 \<longrightarrow> (S(?h := ?w)) h = None)"
      using pos [of h]
      by (auto simp: window_call_def count_of_def Let_def split: option.splits)
    show "count_of ((S(?h := ?w)) h) + int (length evs) < 2 ^ 63 - 1"
      using Cons.prems(3) [of h] pos [of h] count_of_call [of rl now "S ?h"] by auto
  next
    show "sorted (map fst evs)" using Cons.prems(4) by simp
    show "\<forall>t \<in> fst ` set evs. now \<le> t" using Cons.prems(4) ev by auto
  qed
  moreover have "(fst (rate_limit_call R rl now c r) = Inr ()) = fst (window_call rl now (S ?h))"
    by (rule sim(1) [OF pos(2,1)])
  ultimately show ?case
    by (simp add: ev Let_def case_prod_beta)
qed

end

subsection \<open>Bounds on what is let through\<close>

definition allowed_in :: "(time \<times> string \<times> bool) list \<Rightarrow> string \<Rightarrow> time \<Rightarrow> time \<Rightarrow> int" where
  "allowed_in calls h a b =
     int (length (filter (\<lambda>(t, h', ok). h' = h \<and> ok \<and> a \<le> t \<and> t < b) calls))"

lemma allowed_in_simps [simp]:
  "allowed_in [] h a b = 0"
  "allowed_in ((t, h', ok) # calls) h a b =
     of_bool (h' = h \<and> ok \<and> a \<le> t \<and> t < b) + allowed_in calls h a b"
  by (simp_all add: allowed_in_def)

lemma allowed_in_none:
  "\<forall>t \<in> fst ` set evs. b \<le> t \<Longrightarrow> allowed_in (window_run rl S evs) h a b = 0"
  by (induction evs arbitrary: S) (auto simp: Let_def split: prod.splits)

text \<open>
  What an interval of one window length can still let through, given the window of the client:
  nothing but the rest of the present window when that covers the interval's end, and one
  further window otherwise.
\<close>

definition budget :: "rate_limiter \<Rightarrow> time \<Rightarrow> window \<Rightarrow> int" where
  "budget rl a w =
     (case w of
        None \<Rightarrow> 2 * rl_times rl
      | Some (n, d) \<Rightarrow>
          (if window_open (a + rl_seconds rl * second - 1) d then max 0 (rl_times rl - n)
           else if window_open a d then max 0 (rl_times rl - n) + rl_times rl
           else 2 * rl_times rl))"

lemma budget_call:
  assumes "0 \<le> rl_times rl" and "0 < rl_seconds rl" and "0 \<le> count_of w"
    and "t < a + rl_seconds rl * second"
  shows "of_bool (fst (window_call rl t w) \<and> a \<le> t) + budget rl a (snd (window_call rl t w))
           \<le> budget rl a w"
proof (cases "\<exists>m d. w = Some (m, d) \<and> window_open t d")
  case True
  then obtain m d where w: "w = Some (m, d)" "window_open t d" by blast
  then have "0 \<le> m" using assms(3) by (simp add: count_of_def)
  with w show ?thesis
    using assms(1,2,4) by (cases d) (auto simp: window_call_cases budget_def window_open_def)
next
  case False
  then have c: "window_call rl t w =
      (1 \<le> rl_times rl, Some (1, Some (t + rl_seconds rl * second)))"
    by (cases w) (auto simp: window_call_cases)
  show ?thesis
  proof (cases w)
    case None
    then show ?thesis using assms(1,2,4) c by (auto simp: budget_def window_open_def)
  next
    case (Some p)
    obtain m d where p: "p = (m, d)" by fastforce
    with False Some have "\<not> window_open t d" by auto
    then obtain e where "d = Some e" "e \<le> t" by (cases d) (auto simp: window_open_def)
    moreover have "0 \<le> m" using assms(3) Some p by (simp add: count_of_def)
    ultimately show ?thesis
      using assms(1,2,4) c Some p by (auto simp: budget_def window_open_def)
  qed
qed

lemma allowed_in_budget:
  assumes "0 \<le> rl_times rl" and "0 < rl_seconds rl" and "sorted (map fst evs)"
    and "0 \<le> count_of (S h)"
  shows "allowed_in (window_run rl S evs) h a (a + rl_seconds rl * second) \<le> budget rl a (S h)"
  using assms(3,4)
proof (induction evs arbitrary: S)
  case Nil
  have "0 \<le> budget rl a (S h)"
    using assms(1) by (auto simp: budget_def split: option.splits)
  then show ?case by simp
next
  case (Cons ev evs)
  obtain t c where ev: "ev = (t, c)" by fastforce
  show ?case
  proof (cases "t < a + rl_seconds rl * second")
    case False
    then have "\<forall>u \<in> fst ` set (ev # evs). a + rl_seconds rl * second \<le> u"
      using Cons.prems(1) ev by auto
    then have "allowed_in (window_run rl S (ev # evs)) h a (a + rl_seconds rl * second) = 0"
      by (rule allowed_in_none)
    moreover have "0 \<le> budget rl a (S h)"
      using assms(1) by (auto simp: budget_def split: option.splits)
    ultimately show ?thesis by simp
  next
    case True
    let ?k = "client_host c"
    let ?w = "snd (window_call rl t (S ?k))"
    have "0 \<le> count_of ((S(?k := ?w)) h)"
      using Cons.prems(2) by (auto intro: count_of_call_pos)
    then have "allowed_in (window_run rl (S(?k := ?w)) evs) h a (a + rl_seconds rl * second)
        \<le> budget rl a ((S(?k := ?w)) h)"
      using Cons.prems(1) by (intro Cons.IH) simp_all
    moreover have "h = ?k \<Longrightarrow> of_bool (fst (window_call rl t (S ?k)) \<and> a \<le> t) + budget rl a ?w
        \<le> budget rl a (S ?k)"
      using budget_call [OF assms(1,2) _ True] Cons.prems(2) by blast
    ultimately show ?thesis
      using True by (cases "h = ?k") (auto simp: ev Let_def case_prod_beta)
  qed
qed

text \<open>Inside one window of one client: the calls are allowed in order until the count is used up.\<close>

lemma window_run_counts:
  assumes "S (client_host c) = Some (m, d)" and "\<forall>t \<in> set ts. window_open t d"
  shows "map (snd \<circ> snd) (window_run rl S (map (\<lambda>t. (t, c)) ts)) =
           map (\<lambda>i. m + int i < rl_times rl) [0..<length ts]"
  using assms
proof (induction ts arbitrary: S m)
  case Nil
  show ?case by simp
next
  case (Cons t ts)
  let ?h = "client_host c"
  have w: "window_call rl t (S ?h) = (m + 1 \<le> rl_times rl, Some (m + 1, d))"
    using Cons.prems by (simp add: window_call_cases)
  have "map (snd \<circ> snd) (window_run rl (S(?h := Some (m + 1, d))) (map (\<lambda>t. (t, c)) ts)) =
      map (\<lambda>i. m + 1 + int i < rl_times rl) [0..<length ts]"
    using Cons.prems(2) by (intro Cons.IH) simp_all
  moreover have "[0..<length (t # ts)] = 0 # map Suc [0..<length ts]"
    by (simp only: list.size(4) add_Suc_right add_0_right upt_conv_Cons map_Suc_upt)
  ultimately show ?case
    by (auto simp: w Let_def comp_def add.assoc simp del: upt_Suc)
qed

subsection \<open>The limiter of the code\<close>

definition no_window :: "'r redis_ops \<Rightarrow> rate_limiter \<Rightarrow> 'r \<Rightarrow> time \<Rightarrow> bool" where
  "no_window R rl r t0 \<longleftrightarrow> (\<forall>h t. t0 \<le> t \<longrightarrow> r_get R r t (rate_limit_key rl h) = None)"

context redis_server begin

lemma limiter_run_refines:
  assumes "no_window R rl r t0" and "0 < rl_seconds rl"
    and "sorted (map fst evs)" and "\<forall>t \<in> fst ` set evs. t0 \<le> t"
    and "int (length evs) < 2 ^ 63 - 1"
  shows "limiter_run R rl r evs = window_run rl (\<lambda>_. None) evs"
  using assms by (intro run_simulates) (auto simp: no_window_def shows_window_def count_of_def)

end

subsection \<open>Properties\<close>

text \<open>C9. The limiter as coded, on any Redis server, answers every history of calls by any
  mix of clients like the abstract fixed-window limiter: one count per client, started by the
  first call of a window and gone when the window ends.\<close>

theorem rate_limiter_refines_window:
  assumes "redis_server R" and "no_window R rl r t0" and "0 < rl_seconds rl"
    and "sorted (map fst evs)" and "\<forall>t \<in> fst ` set evs. t0 \<le> t"
    and "int (length evs) < 2 ^ 63 - 1"
  shows "limiter_run R rl r evs = window_run rl (\<lambda>_. None) evs"
  by (rule redis_server.limiter_run_refines [OF assms])

lemma ex_no_window: "no_window ref_redis rl (\<lambda>_. None) t0"
  by (simp add: no_window_def ref_redis_def ref_get_def)

theorem rate_limiter_refines_window_witness:
  "limiter_run ref_redis \<lparr>rl_times = 1, rl_seconds = 60, rl_scope = ''login''\<rparr> (\<lambda>_. None)
     [(0, Some ''a''), (5, None), (7, Some ''a''), (60 * second, Some ''a'')] =
   [(0, ''a'', True), (5, ''unknown'', True), (7, ''a'', False), (60 * second, ''a'', True)]"
  using rate_limiter_refines_window [OF ref.redis_server_axioms ex_no_window, of
      "\<lparr>rl_times = 1, rl_seconds = 60, rl_scope = ''login''\<rparr>"
      "[(0, Some ''a''), (5, None), (7, Some ''a''), (60 * second, Some ''a'')]" 0]
  by (simp add: client_host_def window_call_def window_open_def Let_def)

text \<open>C10. Whatever the clients do, in any interval of one window length, aligned with the
  windows or not, a client gets at most twice the configured number of requests through.\<close>

theorem rate_limiter_bound:
  assumes "redis_server R" and "no_window R rl r t0" and "0 < rl_seconds rl" and "0 \<le> rl_times rl"
    and "sorted (map fst evs)" and "\<forall>t \<in> fst ` set evs. t0 \<le> t"
    and "int (length evs) < 2 ^ 63 - 1"
  shows "allowed_in (limiter_run R rl r evs) h a (a + rl_seconds rl * second) \<le> 2 * rl_times rl"
  using redis_server.limiter_run_refines [OF assms(1-3,5-7)]
    allowed_in_budget [OF assms(4,3,5), of "\<lambda>_. None" h a]
  by (simp add: count_of_def budget_def)

theorem rate_limiter_bound_witness:
  "allowed_in (limiter_run ref_redis \<lparr>rl_times = 5, rl_seconds = 60, rl_scope = ''login''\<rparr>
     (\<lambda>_. None) [(0, Some ''a''), (5, None)]) ''a'' 0 (60 * second) \<le> 10"
  using rate_limiter_bound [OF ref.redis_server_axioms ex_no_window, of
      "\<lparr>rl_times = 5, rl_seconds = 60, rl_scope = ''login''\<rparr>" "[(0, Some ''a''), (5, None)]" 0 "''a''" 0]
  by simp

text \<open>The first window of a client is exact: of the requests it makes within one window
  length of its first, the first \<open>times\<close> are let through and every later one is refused.\<close>

theorem rate_limiter_first_window:
  assumes "redis_server R" and "no_window R rl r t" and "0 < rl_seconds rl"
    and "sorted (t # ts)" and "\<forall>t' \<in> set ts. t' < t + rl_seconds rl * second"
    and "int (length ts) + 1 < 2 ^ 63 - 1"
  shows "map (snd \<circ> snd) (limiter_run R rl r (map (\<lambda>t. (t, c)) (t # ts))) =
    map (\<lambda>i. int i < rl_times rl) [0..<length (t # ts)]"
proof -
  let ?h = "client_host c"
  let ?w = "Some (1, Some (t + rl_seconds rl * second))"
  have "map (snd \<circ> snd) (window_run rl ((\<lambda>_. None)(?h := ?w)) (map (\<lambda>t. (t, c)) ts)) =
      map (\<lambda>i. 1 + int i < rl_times rl) [0..<length ts]"
    using assms(5) window_run_counts [of "(\<lambda>_. None)(?h := ?w)" c 1 "Some (t + rl_seconds rl * second)"]
    by (simp add: window_open_def)
  moreover have "limiter_run R rl r (map (\<lambda>t. (t, c)) (t # ts)) =
      window_run rl (\<lambda>_. None) (map (\<lambda>t. (t, c)) (t # ts))"
    using assms(4,6) by (intro redis_server.limiter_run_refines [OF assms(1-3)]) (auto simp: comp_def)
  moreover have "[0..<length (t # ts)] = 0 # map Suc [0..<length ts]"
    by (simp only: list.size(4) add_Suc_right add_0_right upt_conv_Cons map_Suc_upt)
  ultimately show ?thesis
    by (auto simp: window_call_cases Let_def comp_def add.assoc simp del: upt_Suc)
qed

theorem rate_limiter_first_window_witness:
  "map (snd \<circ> snd) (limiter_run ref_redis \<lparr>rl_times = 2, rl_seconds = 60, rl_scope = ''login''\<rparr>
     (\<lambda>_. None) (map (\<lambda>t. (t, None)) [0, 3, 9])) = [True, True, False]"
  using rate_limiter_first_window [OF ref.redis_server_axioms ex_no_window, of
      "\<lparr>rl_times = 2, rl_seconds = 60, rl_scope = ''login''\<rparr>" 0 "[3, 9]" None]
  by (simp add: upt_rec)

text \<open>The count and its deadline are two commands. If the process dies between them on
  the first call of a window, the key never expires: from then on that client gets one request
  fewer than the limit, and after those none, for ever.\<close>

theorem interrupted_call_locks_out:
  assumes "redis_server R" and "no_window R rl r t" and "0 < rl_seconds rl"
    and "sorted (t # ts)" and "int (length ts) + 1 < 2 ^ 63 - 1"
    and "r1 = snd (r_incr R r t (rate_limit_key rl (client_host c)))"
  shows "map (snd \<circ> snd) (limiter_run R rl r1 (map (\<lambda>t. (t, c)) ts)) =
    map (\<lambda>i. 1 + int i < rl_times rl) [0..<length ts]"
proof -
  let ?S = "(\<lambda>_. None)(client_host c := Some (1, None :: time option))"
  have none: "r_get R r t' (rate_limit_key rl h) = None" if "t \<le> t'" for t' h
    using assms(2) that by (simp add: no_window_def)
  have shown: "shows_window R r1 t (rate_limit_key rl h) (?S h)" for h
    using none redis_server.get_incr_missing [OF assms(1) none [OF order_refl]]
    by (auto simp: shows_window_def window_open_def assms(6))
  have "limiter_run R rl r1 (map (\<lambda>t. (t, c)) ts) = window_run rl ?S (map (\<lambda>t. (t, c)) ts)"
    by (rule redis_server.run_simulates [OF assms(1) shown])
       (use assms(3-5) in \<open>auto simp: count_of_def comp_def\<close>)
  then show ?thesis
    using window_run_counts [of ?S c 1 None ts rl] by (simp add: window_open_def)
qed

theorem interrupted_call_locks_out_witness:
  "map (snd \<circ> snd) (limiter_run ref_redis \<lparr>rl_times = 2, rl_seconds = 60, rl_scope = ''login''\<rparr>
     (snd (ref_incr (\<lambda>_. None) 0 ''ratelimit:login:a''))
     (map (\<lambda>t. (t, Some ''a'')) [second, 3600 * second, 9999999 * second])) = [True, False, False]"
  using interrupted_call_locks_out [OF ref.redis_server_axioms ex_no_window _ _ _ refl, of
      "\<lparr>rl_times = 2, rl_seconds = 60, rl_scope = ''login''\<rparr>" 0
      "[second, 3600 * second, 9999999 * second]" "Some ''a''"]
  by (simp add: upt_rec ref_redis_def rate_limit_key_def client_host_def)

end
