(* ===== verification/TokenStore.thy ===== *)
theory TokenStore
  imports Redis
begin

text \<open>
  Revoked and spent tokens: \<open>app/services/token_blacklist.py\<close>. A token is known by its
  identifier (\<open>jti\<close>). Two families of Redis keys hold the marks, each for a number of
  seconds given by the caller. The locale \<open>token_marks\<close> is the contract both families keep
  and the handlers rely on; it is derived from the laws of the server.
\<close>

definition BLACKLIST_KEY_PREFIX :: string where
  "BLACKLIST_KEY_PREFIX = ''blacklist:token:''"

definition USED_KEY_PREFIX :: string where
  "USED_KEY_PREFIX = ''used:token:''"

definition blacklist_token :: "'r redis_ops \<Rightarrow> 'r \<Rightarrow> time \<Rightarrow> string \<Rightarrow> int \<Rightarrow> 'r" where
  "blacklist_token R r now jti ttl_seconds =
     (if ttl_seconds \<le> 0 then r
      else r_set R r now (BLACKLIST_KEY_PREFIX @ jti) ''1'' ttl_seconds)"

definition is_token_blacklisted :: "'r redis_ops \<Rightarrow> 'r \<Rightarrow> time \<Rightarrow> string \<Rightarrow> bool" where
  "is_token_blacklisted R r now jti = (r_exists R r now (BLACKLIST_KEY_PREFIX @ jti) \<noteq> 0)"

definition mark_token_used :: "'r redis_ops \<Rightarrow> 'r \<Rightarrow> time \<Rightarrow> string \<Rightarrow> int \<Rightarrow> 'r" where
  "mark_token_used R r now jti ttl_seconds =
     (if ttl_seconds \<le> 0 then r
      else r_set R r now (USED_KEY_PREFIX @ jti) ''1'' ttl_seconds)"

definition is_token_used :: "'r redis_ops \<Rightarrow> 'r \<Rightarrow> time \<Rightarrow> string \<Rightarrow> bool" where
  "is_token_used R r now jti = (r_exists R r now (USED_KEY_PREFIX @ jti) \<noteq> 0)"

subsection \<open>The contract of a family of marks\<close>

locale token_marks =
  fixes mark :: "'r \<Rightarrow> time \<Rightarrow> string \<Rightarrow> int \<Rightarrow> 'r"
    and marked :: "'r \<Rightarrow> time \<Rightarrow> string \<Rightarrow> bool"
  assumes marked_mark: "t \<le> t' \<Longrightarrow>
    marked (mark r t j ttl) t' j' =
      (if j' = j \<and> 0 < ttl then t' < t + ttl * second else marked r t' j')"
begin

lemma marked_until: "t \<le> t' \<Longrightarrow> t' < t + ttl * second \<Longrightarrow> marked (mark r t j ttl) t' j"
  using marked_mark [of t t' r j ttl j] by (cases "0 < ttl") (auto simp: mult_le_0_iff)

lemma marked_other: "t \<le> t' \<Longrightarrow> j' \<noteq> j \<Longrightarrow> marked (mark r t j ttl) t' j' = marked r t' j'"
  by (simp add: marked_mark)

lemma mark_expires:
  "t \<le> t' \<Longrightarrow> 0 < ttl \<Longrightarrow> t + ttl * second \<le> t' \<Longrightarrow> \<not> marked (mark r t j ttl) t' j"
  by (simp add: marked_mark)

lemma mark_nothing: "t \<le> t' \<Longrightarrow> ttl \<le> 0 \<Longrightarrow> marked (mark r t j ttl) t' j' = marked r t' j'"
  by (simp add: marked_mark)

text \<open>Two marks made at the same instant, as a logout does for both of its tokens.\<close>

lemma marked_first_of_two:
  assumes "t \<le> t'" and "t' < t + ttl * second" and "j2 = j \<Longrightarrow> ttl \<le> ttl2"
  shows "marked (mark (mark r t j ttl) t j2 ttl2) t' j"
proof (cases "j2 = j \<and> 0 < ttl2")
  case True
  then have "ttl * second \<le> ttl2 * second" using assms(3) by simp
  with True assms(1,2) show ?thesis by (auto simp: marked_mark)
next
  case False
  then have "marked (mark (mark r t j ttl) t j2 ttl2) t' j = marked (mark r t j ttl) t' j"
    using assms(1) by (auto simp: marked_mark)
  with assms(1,2) show ?thesis by (simp add: marked_until)
qed

end

text \<open>The two families of keys are kept apart by their prefixes.\<close>

lemma key_prefixes_differ [simp]:
  "BLACKLIST_KEY_PREFIX @ j \<noteq> USED_KEY_PREFIX @ j'"
  "USED_KEY_PREFIX @ j \<noteq> BLACKLIST_KEY_PREFIX @ j'"
  by (simp_all add: BLACKLIST_KEY_PREFIX_def USED_KEY_PREFIX_def)

context redis_server begin

lemma blacklist_marks: "token_marks (blacklist_token R) (is_token_blacklisted R)"
  by unfold_locales (auto simp: blacklist_token_def is_token_blacklisted_def exists_get get_set)

lemma used_marks: "token_marks (mark_token_used R) (is_token_used R)"
  by unfold_locales (auto simp: mark_token_used_def is_token_used_def exists_get get_set)

lemma blacklist_keeps_used [frame]:
  "t \<le> t' \<Longrightarrow> is_token_used R (blacklist_token R r t j ttl) t' j' = is_token_used R r t' j'"
  by (simp add: blacklist_token_def is_token_used_def exists_get get_set)

lemma used_keeps_blacklist [frame]:
  "t \<le> t' \<Longrightarrow>
     is_token_blacklisted R (mark_token_used R r t j ttl) t' j' = is_token_blacklisted R r t' j'"
  by (simp add: mark_token_used_def is_token_blacklisted_def exists_get get_set)

end

sublocale redis_server \<subseteq> blacklist: token_marks "blacklist_token R" "is_token_blacklisted R"
  by (rule blacklist_marks)

sublocale redis_server \<subseteq> used: token_marks "mark_token_used R" "is_token_used R"
  by (rule used_marks)

end
