(* ===== verification/Config.thy ===== *)
theory Config
  imports PyText
begin

text \<open>
  The settings and their validation: \<open>app/core/config.py\<close>. Reading the environment and
  converting its strings to the declared types is pydantic's work; the validators written in
  the file are modelled. Field validators run first, in the order of the fields, and their
  errors are collected; the validator of the whole model runs only when there are none.
\<close>

datatype environment = DEVELOPMENT | TEST | STAGING | PRODUCTION

fun environment_value :: "environment \<Rightarrow> string" where
  "environment_value DEVELOPMENT = ''development''"
| "environment_value TEST = ''test''"
| "environment_value STAGING = ''staging''"
| "environment_value PRODUCTION = ''production''"

record settings =
  app_name :: string
  app_version :: string
  environment :: environment
  database_url :: string
  secret_key :: string
  access_token_expire_minutes :: int
  refresh_token_expire_days :: int
  smtp_host :: string
  smtp_port :: int
  smtp_username :: string
  smtp_password :: string
  smtp_from_email :: string
  smtp_from_name :: string
  frontend_url :: string
  cors_origins :: "string list"
  trusted_hosts :: "string list"
  trusted_proxy_ips :: "string list"
  log_level :: string
  redis_url :: string
  google_client_id :: "string option"
  google_client_secret :: "string option"
  github_client_id :: "string option"
  github_client_secret :: "string option"
  microsoft_client_id :: "string option"
  microsoft_client_secret :: "string option"
  microsoft_tenant :: string
  s3_endpoint_url :: "string option"
  s3_bucket_name :: string
  s3_region :: string
  s3_access_key_id :: "string option"
  s3_secret_access_key :: "string option"

definition INSECURE_SECRET_KEYS :: "string list" where
  "INSECURE_SECRET_KEYS =
     [''replace-this-with-a-long-random-secret-key'', ''your-generated-secret-key'',
      ''changeme'', ''secret'', ''secretkey'']"

definition MIN_SECRET_KEY_LENGTH :: nat where "MIN_SECRET_KEY_LENGTH = 16"

definition MIN_PRODUCTION_SECRET_KEY_LENGTH :: nat where
  "MIN_PRODUCTION_SECRET_KEY_LENGTH = 32"

text \<open>The defaults of the optional fields; the required ones are arguments.\<close>

definition default_settings ::
  "string \<Rightarrow> string \<Rightarrow> string \<Rightarrow> string \<Rightarrow> string \<Rightarrow> string \<Rightarrow> string \<Rightarrow> string \<Rightarrow> settings" where
  "default_settings db_url secret host username password from_email from_name frontend =
     \<lparr>app_name = ''FastAPI Authentication API'', app_version = ''0.2.0'',
      environment = DEVELOPMENT, database_url = db_url, secret_key = secret,
      access_token_expire_minutes = 30, refresh_token_expire_days = 7,
      smtp_host = host, smtp_port = 587, smtp_username = username, smtp_password = password,
      smtp_from_email = from_email, smtp_from_name = from_name, frontend_url = frontend,
      cors_origins = [''http://localhost:3000''], trusted_hosts = [''*''],
      trusted_proxy_ips = [], log_level = ''INFO'', redis_url = ''redis://localhost:6379/0'',
      google_client_id = None, google_client_secret = None,
      github_client_id = None, github_client_secret = None,
      microsoft_client_id = None, microsoft_client_secret = None,
      microsoft_tenant = ''common'',
      s3_endpoint_url = None, s3_bucket_name = ''fastapi-auth-uploads'',
      s3_region = ''us-east-1'', s3_access_key_id = None, s3_secret_access_key = None\<rparr>"

subsection \<open>The validators\<close>

text \<open>A list-typed setting arrives as a comma-separated string or as a list.\<close>

datatype list_input = CommaSeparated string | AsList "string list"

fun split_comma_separated :: "list_input \<Rightarrow> string list" where
  "split_comma_separated (CommaSeparated v) =
     map strip (filter (\<lambda>item. strip item \<noteq> []) (split_on CHR '','' v))"
| "split_comma_separated (AsList items) = items"

definition normalize_database_url :: "string \<Rightarrow> string" where
  "normalize_database_url v =
     (if startswith v ''postgres://''
      then ''postgresql+psycopg2://'' @ drop (length ''postgres://'') v
      else v)"

definition validate_secret_key_length :: "string \<Rightarrow> string + string" where
  "validate_secret_key_length v =
     (if length v < MIN_SECRET_KEY_LENGTH
      then Inl ''SECRET_KEY must be at least 16 characters long''
      else Inr v)"

definition LOG_LEVELS :: "string list" where
  "LOG_LEVELS = [''DEBUG'', ''INFO'', ''WARNING'', ''ERROR'', ''CRITICAL'']"

definition validate_log_level :: "string \<Rightarrow> string + string" where
  "validate_log_level v =
     (let normalized = upper v in
      if normalized \<notin> set LOG_LEVELS
      then Inl ''LOG_LEVEL must be one of ['CRITICAL', 'DEBUG', 'ERROR', 'INFO', 'WARNING']''
      else Inr normalized)"

definition validate_production_invariants :: "settings \<Rightarrow> string + settings" where
  "validate_production_invariants s =
     (if environment s \<noteq> PRODUCTION then Inr s
      else if length (secret_key s) < MIN_PRODUCTION_SECRET_KEY_LENGTH
      then Inl ''SECRET_KEY must be at least 32 characters long in production''
      else if lower (secret_key s) \<in> set INSECURE_SECRET_KEYS
      then Inl ''SECRET_KEY must be changed for production use''
      else if startswith (database_url s) ''sqlite''
      then Inl ''SQLite is not permitted in production; set a PostgreSQL DATABASE_URL''
      else if \<not> startswith (frontend_url s) ''https://''
      then Inl ''FRONTEND_URL must use https:// in production''
      else if ''*'' \<in> set (trusted_hosts s)
      then Inl ''TRUSTED_HOSTS must be explicit in production (wildcard not allowed)''
      else Inr s)"

text \<open>
  Building the settings: \<open>raw\<close> carries the scalar fields, the three list inputs are apart.
  The result is the list of error messages or the settings.
\<close>

definition build_settings ::
  "settings \<Rightarrow> list_input \<Rightarrow> list_input \<Rightarrow> list_input \<Rightarrow> string list + settings" where
  "build_settings raw origins hosts proxies =
     (case (validate_secret_key_length (secret_key raw), validate_log_level (log_level raw)) of
        (Inl e1, Inl e2) \<Rightarrow> Inl [e1, e2]
      | (Inl e1, Inr _) \<Rightarrow> Inl [e1]
      | (Inr _, Inl e2) \<Rightarrow> Inl [e2]
      | (Inr key, Inr level) \<Rightarrow>
          (case validate_production_invariants
             (raw\<lparr>database_url := normalize_database_url (database_url raw), secret_key := key,
                  cors_origins := split_comma_separated origins,
                  trusted_hosts := split_comma_separated hosts,
                  trusted_proxy_ips := split_comma_separated proxies,
                  log_level := level\<rparr>) of
             Inl e \<Rightarrow> Inl [e]
           | Inr s \<Rightarrow> Inr s))"

definition is_production :: "settings \<Rightarrow> bool" where
  "is_production s = (environment s = PRODUCTION)"

definition is_development :: "settings \<Rightarrow> bool" where
  "is_development s = (environment s = DEVELOPMENT)"

definition debug :: "settings \<Rightarrow> bool" where
  "debug s = (environment s = DEVELOPMENT \<or> environment s = TEST)"

definition docs_enabled :: "settings \<Rightarrow> bool" where
  "docs_enabled s = (\<not> is_production s)"

text \<open>Whether a pair of optional credentials is set (the empty string counts as unset).\<close>

definition configured :: "string option \<Rightarrow> string option \<Rightarrow> bool" where
  "configured client_id client_secret =
     (client_id \<noteq> None \<and> client_id \<noteq> Some [] \<and> client_secret \<noteq> None \<and> client_secret \<noteq> Some [])"

subsection \<open>What the validators guarantee\<close>

lemma strip_by_ends:
  assumes "strip_by P s \<noteq> []"
  shows "\<not> P (hd (strip_by P s))" and "\<not> P (last (strip_by P s))"
proof -
  let ?u = "dropWhile P s"
  let ?v = "dropWhile P (rev ?u)"
  have v: "?v \<noteq> []" using assms by (simp add: strip_by_def)
  then have "\<not> P (hd ?v)" by (rule hd_dropWhile)
  with v show "\<not> P (last (strip_by P s))" by (simp add: strip_by_def last_rev)
  obtain xs where xs: "rev ?u = xs @ ?v"
    by (metis takeWhile_dropWhile_id)
  then have "?u = rev ?v @ rev xs" by (metis rev_append rev_rev_ident)
  then have "hd (rev ?v) = hd ?u" using v by (metis hd_append rev_is_Nil_conv)
  moreover have "?u \<noteq> []" using v by (cases "?u") simp_all
  then have "\<not> P (hd ?u)" by (rule hd_dropWhile)
  ultimately show "\<not> P (hd (strip_by P s))" by (simp add: strip_by_def)
qed

lemma set_strip_by: "set (strip_by P s) \<subseteq> set s"
  by (auto simp: strip_by_def dest!: set_dropWhileD)

lemma split_comma_items:
  assumes "item \<in> set (split_comma_separated (CommaSeparated v))"
  shows "item \<noteq> []" and "CHR '','' \<notin> set item"
    and "\<not> is_space_char (hd item)" and "\<not> is_space_char (last item)"
proof -
  obtain p where p: "p \<in> set (split_on CHR '','' v)" "item = strip p" "strip p \<noteq> []"
    using assms by auto
  then show "item \<noteq> []" by simp
  show "CHR '','' \<notin> set item"
    using p split_on_piece [OF p(1)] set_strip_by [of is_space_char p] by (auto simp: strip_def)
  show "\<not> is_space_char (hd item)" "\<not> is_space_char (last item)"
    using p strip_by_ends [of is_space_char p] by (simp_all add: strip_def)
qed

lemma normalize_database_url_not_postgres:
  "\<not> startswith (normalize_database_url v) ''postgres://''"
  by (simp add: normalize_database_url_def)

lemma normalize_database_url_idem:
  "normalize_database_url (normalize_database_url v) = normalize_database_url v"
  using normalize_database_url_not_postgres [of v]
  by (simp add: normalize_database_url_def [of "normalize_database_url v"])

lemma validate_log_level_Inr:
  "validate_log_level v = Inr l \<longleftrightarrow> l = upper v \<and> l \<in> set LOG_LEVELS"
  by (auto simp: validate_log_level_def Let_def)

lemma validate_secret_key_Inr:
  "validate_secret_key_length v = Inr k \<longleftrightarrow> k = v \<and> MIN_SECRET_KEY_LENGTH \<le> length v"
  by (auto simp: validate_secret_key_length_def)

lemma validate_production_Inr:
  "validate_production_invariants s = Inr s' \<longleftrightarrow> s' = s \<and>
     (environment s = PRODUCTION \<longrightarrow>
        MIN_PRODUCTION_SECRET_KEY_LENGTH \<le> length (secret_key s) \<and>
        lower (secret_key s) \<notin> set INSECURE_SECRET_KEYS \<and>
        \<not> startswith (database_url s) ''sqlite'' \<and>
        startswith (frontend_url s) ''https://'' \<and> ''*'' \<notin> set (trusted_hosts s))"
  by (auto simp: validate_production_invariants_def)

lemma validate_production_same: "validate_production_invariants s = Inr s' \<Longrightarrow> s' = s"
  by (simp add: validate_production_Inr)

text \<open>The settings that \<open>build_settings\<close> hands out, when it hands out any.\<close>

definition normalized_settings ::
  "settings \<Rightarrow> list_input \<Rightarrow> list_input \<Rightarrow> list_input \<Rightarrow> settings" where
  "normalized_settings raw origins hosts proxies =
     raw\<lparr>database_url := normalize_database_url (database_url raw),
         cors_origins := split_comma_separated origins,
         trusted_hosts := split_comma_separated hosts,
         trusted_proxy_ips := split_comma_separated proxies,
         log_level := upper (log_level raw)\<rparr>"

lemma build_settings_Inr:
  "build_settings raw origins hosts proxies = Inr s \<longleftrightarrow>
     s = normalized_settings raw origins hosts proxies \<and>
     MIN_SECRET_KEY_LENGTH \<le> length (secret_key raw) \<and> upper (log_level raw) \<in> set LOG_LEVELS \<and>
     validate_production_invariants s = Inr s"
proof (cases "validate_secret_key_length (secret_key raw)")
  case (Inl e)
  then show ?thesis
    by (auto simp: build_settings_def validate_secret_key_length_def split: sum.splits if_splits)
next
  case (Inr k)
  then have k: "k = secret_key raw" "MIN_SECRET_KEY_LENGTH \<le> length (secret_key raw)"
    by (simp_all add: validate_secret_key_Inr)
  show ?thesis
  proof (cases "validate_log_level (log_level raw)")
    case (Inl e)
    then show ?thesis using \<open>validate_secret_key_length _ = _\<close>
      by (auto simp: build_settings_def validate_log_level_def Let_def split: if_splits)
  next
    case (Inr l)
    then have "l = upper (log_level raw)" "upper (log_level raw) \<in> set LOG_LEVELS"
      by (auto simp: validate_log_level_Inr)
    with k Inr \<open>validate_secret_key_length _ = _\<close> show ?thesis
      by (auto simp: build_settings_def normalized_settings_def
          split: sum.splits dest: validate_production_same)
  qed
qed

text \<open>Of the listed placeholder keys only one is long enough to get past the length check.\<close>

lemma insecure_keys_that_are_long:
  "filter (\<lambda>k. MIN_PRODUCTION_SECRET_KEY_LENGTH \<le> length k) INSECURE_SECRET_KEYS =
     [''replace-this-with-a-long-random-secret-key'']"
  by (simp add: INSECURE_SECRET_KEYS_def MIN_PRODUCTION_SECRET_KEY_LENGTH_def)

subsection \<open>Properties\<close>

text \<open>C19. Settings that come up in production are safe: the key is long and no placeholder in
  any case, the database is not SQLite and its URL not the legacy scheme, links go over https,
  no wildcard host is trusted, and debugging and the API docs are off. The comma-separated
  lists have been split into stripped, non-empty items.\<close>

theorem production_settings_are_safe:
  assumes "build_settings raw origins (CommaSeparated hosts) proxies = Inr s"
    and "environment raw = PRODUCTION"
  shows "32 \<le> length (secret_key s) \<and> lower (secret_key s) \<notin> set INSECURE_SECRET_KEYS \<and>
    \<not> startswith (database_url s) ''sqlite'' \<and> \<not> startswith (database_url s) ''postgres://'' \<and>
    startswith (frontend_url s) ''https://'' \<and> ''*'' \<notin> set (trusted_hosts s) \<and>
    \<not> debug s \<and> \<not> docs_enabled s \<and>
    (\<forall>h \<in> set (trusted_hosts s). h \<noteq> [] \<and> CHR '','' \<notin> set h \<and>
       \<not> is_space_char (hd h) \<and> \<not> is_space_char (last h))"
proof -
  have s: "s = normalized_settings raw origins (CommaSeparated hosts) proxies"
    and v: "validate_production_invariants s = Inr s"
    using assms(1) [unfolded build_settings_Inr] by blast+
  have e: "environment s = PRODUCTION" using assms(2) by (simp add: s normalized_settings_def)
  have h: "trusted_hosts s = split_comma_separated (CommaSeparated hosts)"
    and d: "\<not> startswith (database_url s) ''postgres://''"
    by (simp_all add: s normalized_settings_def normalize_database_url_not_postgres
        del: split_comma_separated.simps startswith.simps)
  have "\<forall>h \<in> set (trusted_hosts s). h \<noteq> [] \<and> CHR '','' \<notin> set h \<and>
      \<not> is_space_char (hd h) \<and> \<not> is_space_char (last h)"
    unfolding h using split_comma_items by blast
  with v e d show ?thesis
    by (simp add: validate_production_Inr MIN_PRODUCTION_SECRET_KEY_LENGTH_def debug_def
        docs_enabled_def is_production_def del: startswith.simps)
qed

definition ex_production :: settings where
  "ex_production = (default_settings ''postgres://db/app'' ''abcdefghijklmnopqrstuvwxyzabcdefghij''
     ''h'' ''u'' ''p'' ''f'' ''n'' ''https://app'')\<lparr>environment := PRODUCTION\<rparr>"

lemma ex_production_builds:
  "\<exists>s. build_settings ex_production (AsList []) (CommaSeparated ''a.io, b.io'') (AsList []) = Inr s"
proof -
  have "case build_settings ex_production (AsList []) (CommaSeparated ''a.io, b.io'') (AsList []) of
      Inl _ \<Rightarrow> False | Inr _ \<Rightarrow> True"
    by code_simp
  then show ?thesis by (simp split: sum.splits)
qed

theorem production_settings_are_safe_witness:
  "\<exists>s. build_settings ex_production (AsList []) (CommaSeparated ''a.io, b.io'') (AsList []) = Inr s \<and>
     \<not> debug s"
proof -
  have "environment ex_production = PRODUCTION" by (simp add: ex_production_def)
  with ex_production_builds production_settings_are_safe show ?thesis by blast
qed

end
