(* ===== verification/Jwt.thy ===== *)
theory Jwt
  imports Config
begin

text \<open>
  Tokens: \<open>app/auth/jwt.py\<close>. The JWT library (python-jose) is a parameter, a record of its
  two functions; \<open>None\<close> of the decoder is \<open>JWTError\<close>. The locale \<open>jwt_codec\<close> states what
  the program relies on. An encoded token decodes under the same key to the claims that went
  in, with every \<open>datetime\<close> turned into whole seconds; it does so at any instant before the
  second of its \<open>exp\<close> claim, and no longer once that second is over. What the library does
  within that second is left open.
\<close>

record jwt_ops =
  j_encode :: "pydict \<Rightarrow> string \<Rightarrow> string \<Rightarrow> string"
  j_decode :: "string \<Rightarrow> string \<Rightarrow> string list \<Rightarrow> time \<Rightarrow> pydict option"

definition ALGORITHM :: string where "ALGORITHM = ''HS256''"

record token_claims =
  claims_subject :: string
  claims_jti :: string
  claims_expires_at :: time

text \<open>The claims of \<open>create_token\<close>; \<open>jti\<close> is the fresh \<open>uuid4\<close> of the call.\<close>

definition token_payload ::
  "string \<Rightarrow> string \<Rightarrow> string \<Rightarrow> time \<Rightarrow> time \<Rightarrow> pydict" where
  "token_payload sub ty jti iat expiry =
     [(''sub'', PStr sub), (''type'', PStr ty), (''jti'', PStr jti),
      (''iat'', PTime iat), (''exp'', PTime expiry)]"

definition create_token ::
  "jwt_ops \<Rightarrow> settings \<Rightarrow> time \<Rightarrow> string \<Rightarrow> string \<Rightarrow> string \<Rightarrow> int \<Rightarrow> string" where
  "create_token J cfg now jti sub token_type expires_delta =
     j_encode J (token_payload sub token_type jti now (now + expires_delta))
       (secret_key cfg) ALGORITHM"

abbreviation minutes :: "int \<Rightarrow> int" where "minutes n \<equiv> n * 60 * second"

abbreviation days :: "int \<Rightarrow> int" where "days n \<equiv> n * 86400 * second"

definition create_access_token ::
  "jwt_ops \<Rightarrow> settings \<Rightarrow> time \<Rightarrow> string \<Rightarrow> string \<Rightarrow> string" where
  "create_access_token J cfg now jti sub =
     create_token J cfg now jti sub ''access'' (minutes (access_token_expire_minutes cfg))"

definition create_refresh_token ::
  "jwt_ops \<Rightarrow> settings \<Rightarrow> time \<Rightarrow> string \<Rightarrow> string \<Rightarrow> string" where
  "create_refresh_token J cfg now jti sub =
     create_token J cfg now jti sub ''refresh'' (days (refresh_token_expire_days cfg))"

definition create_email_verification_token ::
  "jwt_ops \<Rightarrow> settings \<Rightarrow> time \<Rightarrow> string \<Rightarrow> string \<Rightarrow> string" where
  "create_email_verification_token J cfg now jti sub =
     create_token J cfg now jti sub ''email_verification'' (minutes 30)"

definition create_password_reset_token ::
  "jwt_ops \<Rightarrow> settings \<Rightarrow> time \<Rightarrow> string \<Rightarrow> string \<Rightarrow> string" where
  "create_password_reset_token J cfg now jti sub =
     create_token J cfg now jti sub ''password_reset'' (minutes 15)"

definition decode_token ::
  "jwt_ops \<Rightarrow> settings \<Rightarrow> time \<Rightarrow> string \<Rightarrow> string \<Rightarrow> token_claims option" where
  "decode_token J cfg now token expected_type =
     (case j_decode J token (secret_key cfg) [ALGORITHM] now of
        None \<Rightarrow> None
      | Some payload \<Rightarrow>
          (case (as_str (dict_get payload ''sub''), as_str (dict_get payload ''jti'')) of
             (Some sub, Some jti) \<Rightarrow>
               (if dict_get payload ''type'' \<noteq> PStr expected_type then None
                else (case as_number (dict_get payload ''exp'') of
                        None \<Rightarrow> None
                      | Some q \<Rightarrow>
                          Some \<lparr>claims_subject = sub, claims_jti = jti,
                                claims_expires_at = from_timestamp q\<rparr>))
           | _ \<Rightarrow> None))"

definition decode_access_token :: "jwt_ops \<Rightarrow> settings \<Rightarrow> time \<Rightarrow> string \<Rightarrow> token_claims option"
  where "decode_access_token J cfg now token = decode_token J cfg now token ''access''"

definition decode_refresh_token :: "jwt_ops \<Rightarrow> settings \<Rightarrow> time \<Rightarrow> string \<Rightarrow> token_claims option"
  where "decode_refresh_token J cfg now token = decode_token J cfg now token ''refresh''"

definition decode_email_verification_token ::
  "jwt_ops \<Rightarrow> settings \<Rightarrow> time \<Rightarrow> string \<Rightarrow> token_claims option" where
  "decode_email_verification_token J cfg now token =
     decode_token J cfg now token ''email_verification''"

definition decode_password_reset_token ::
  "jwt_ops \<Rightarrow> settings \<Rightarrow> time \<Rightarrow> string \<Rightarrow> token_claims option" where
  "decode_password_reset_token J cfg now token =
     decode_token J cfg now token ''password_reset''"

text \<open>\<open>int(delta.total_seconds())\<close> cuts towards zero.\<close>

definition whole_seconds :: "int \<Rightarrow> int" where
  "whole_seconds d = (if d < 0 then - ((- d) div second) else d div second)"

definition remaining_ttl_seconds :: "time \<Rightarrow> time \<Rightarrow> int" where
  "remaining_ttl_seconds expires_at now = max (whole_seconds (expires_at - now)) 0"

lemma remaining_ttl_eq: "remaining_ttl_seconds e now = max ((e - now) div second) 0"
  by (auto simp: remaining_ttl_seconds_def whole_seconds_def max_def) 

lemma remaining_ttl_bounds:
  "now + remaining_ttl_seconds e now * second \<le> max e now"
  "e < now + (remaining_ttl_seconds e now + 1) * second"
  by (auto simp: remaining_ttl_eq max_def)

lemma remaining_ttl_mono: "e \<le> e' \<Longrightarrow> remaining_ttl_seconds e now \<le> remaining_ttl_seconds e' now"
  by (auto simp: remaining_ttl_eq intro: max.mono zdiv_mono1)

subsection \<open>The JWT library\<close>

text \<open>What decoding gives back for the claims of \<open>create_token\<close>.\<close>

definition decoded_payload ::
  "string \<Rightarrow> string \<Rightarrow> string \<Rightarrow> time \<Rightarrow> time \<Rightarrow> pydict" where
  "decoded_payload sub ty jti iat expiry =
     [(''sub'', PStr sub), (''type'', PStr ty), (''jti'', PStr jti),
      (''iat'', PInt (iat div second)), (''exp'', PInt (expiry div second))]"

text \<open>The instant that the \<open>exp\<close> claim of a token issued with expiry \<open>e\<close> denotes.\<close>

definition expiry_second :: "time \<Rightarrow> time" where
  "expiry_second e = e div second * second"

lemma expiry_second_bounds: "expiry_second e \<le> e" "e < expiry_second e + second"
  by (simp_all add: expiry_second_def) 

definition issued_claims :: "string \<Rightarrow> string \<Rightarrow> time \<Rightarrow> token_claims" where
  "issued_claims sub jti e =
     \<lparr>claims_subject = sub, claims_jti = jti, claims_expires_at = expiry_second e\<rparr>"

locale jwt_codec =
  fixes J :: jwt_ops
  assumes decode_issued:
      "j_decode J (j_encode J (token_payload sub ty jti iat e) key alg) key [alg] t \<in>
         {None, Some (decoded_payload sub ty jti iat e)}"
    and decode_live: "t < expiry_second e \<Longrightarrow>
      j_decode J (j_encode J (token_payload sub ty jti iat e) key alg) key [alg] t =
        Some (decoded_payload sub ty jti iat e)"
    and decode_over: "expiry_second e + second \<le> t \<Longrightarrow>
      j_decode J (j_encode J (token_payload sub ty jti iat e) key alg) key [alg] t = None"
begin

lemma decode_token_payload:
  assumes "j_decode J token (secret_key cfg) [ALGORITHM] t = Some (decoded_payload sub ty jti iat e)"
  shows "decode_token J cfg t token expected =
    (if expected = ty then Some (issued_claims sub jti e) else None)"
  using assms
  by (simp add: decode_token_def decoded_payload_def dict_get_def issued_claims_def
      expiry_second_def)

lemma decode_created:
  assumes "t' < expiry_second (t + delta)"
  shows "decode_token J cfg t' (create_token J cfg t jti sub ty delta) expected =
    (if expected = ty then Some (issued_claims sub jti (t + delta)) else None)"
  unfolding create_token_def by (rule decode_token_payload, rule decode_live, rule assms)

lemma decode_created_cases:
  "decode_token J cfg t' (create_token J cfg t jti sub ty delta) expected \<in>
    {None, if expected = ty then Some (issued_claims sub jti (t + delta)) else None}"
proof -
  let ?tok = "create_token J cfg t jti sub ty delta"
  consider "j_decode J ?tok (secret_key cfg) [ALGORITHM] t' = None"
    | "j_decode J ?tok (secret_key cfg) [ALGORITHM] t' =
        Some (decoded_payload sub ty jti t (t + delta))"
    using decode_issued [of sub ty jti t "t + delta" "secret_key cfg" ALGORITHM t']
    by (auto simp: create_token_def)
  then show ?thesis
  proof cases
    case 1
    then show ?thesis by (simp add: decode_token_def)
  next
    case 2
    from decode_token_payload [OF this] show ?thesis by simp
  qed
qed

lemma decode_created_over:
  "expiry_second (t + delta) + second \<le> t' \<Longrightarrow>
     decode_token J cfg t' (create_token J cfg t jti sub ty delta) expected = None"
  by (simp add: decode_token_def create_token_def decode_over)

lemma decode_other_type:
  "ty \<noteq> expected \<Longrightarrow>
     decode_token J cfg t' (create_token J cfg t jti sub ty delta) expected = None"
  using decode_created_cases [of cfg t' t jti sub ty delta expected] by auto

end

subsection \<open>A reference codec\<close>

text \<open>
  A token is the key, the algorithm and the five claims written one after the other, each
  with its length in front. It signs nothing; it shows that the laws can be met.
\<close>

definition put_text :: "string \<Rightarrow> string" where
  "put_text s = replicate (length s) CHR ''1'' @ CHR ''0'' # s"

definition get_text :: "string \<Rightarrow> string \<times> string" where
  "get_text s =
     (let n = length (takeWhile (\<lambda>c. c = CHR ''1'') s); r = drop (Suc n) s
      in (take n r, drop n r))"

definition read_int :: "string \<Rightarrow> int" where
  "read_int s =
     (case s of [] \<Rightarrow> 0
      | c # r \<Rightarrow> if c = CHR ''-'' then - int (digits_value r) else int (digits_value s))"

fun time_of :: "pyval \<Rightarrow> time" where
  "time_of (PTime t) = t"
| "time_of _ = 0"

definition ref_encode :: "pydict \<Rightarrow> string \<Rightarrow> string \<Rightarrow> string" where
  "ref_encode c key alg =
     (let txt = (\<lambda>k. put_text (case as_str (dict_get c k) of None \<Rightarrow> [] | Some s \<Rightarrow> s));
          num = (\<lambda>k. put_text (py_str (time_of (dict_get c k) div second)))
      in put_text key @ put_text alg @ txt ''sub'' @ txt ''type'' @ txt ''jti'' @
         num ''iat'' @ num ''exp'')"

definition ref_decode :: "string \<Rightarrow> string \<Rightarrow> string list \<Rightarrow> time \<Rightarrow> pydict option" where
  "ref_decode token key algs now =
     (let (k, t1) = get_text token; (alg, t2) = get_text t1; (sub, t3) = get_text t2;
          (ty, t4) = get_text t3; (jti, t5) = get_text t4; (iat, t6) = get_text t5;
          (ex, t7) = get_text t6
      in if k \<noteq> key \<or> alg \<notin> set algs \<or> read_int ex * second \<le> now then None
         else Some [(''sub'', PStr sub), (''type'', PStr ty), (''jti'', PStr jti),
                    (''iat'', PInt (read_int iat)), (''exp'', PInt (read_int ex))])"

definition ref_jwt :: jwt_ops where
  "ref_jwt = \<lparr>j_encode = ref_encode, j_decode = ref_decode\<rparr>"

lemma get_put_text [simp]: "get_text (put_text s @ r) = (s, r)"
  by (simp add: get_text_def put_text_def takeWhile_append Let_def)

lemma get_put_text_end [simp]: "get_text (put_text s) = (s, [])"
  using get_put_text [of s "[]"] by simp

lemma read_int_digits: "read_int (nat_digits n) = int n"
proof -
  obtain c r where cr: "nat_digits n = c # r"
    using nat_digits_not_Nil by (meson neq_Nil_conv)
  then have "is_decimal_char c" using nat_digits_decimal [of c n] by simp
  then have "c \<noteq> CHR ''-''" by (auto simp: is_decimal_char_def code_def)
  with cr show ?thesis
    using digits_value_nat_digits [of n] by (simp add: read_int_def)
qed

lemma read_int_py_str [simp]: "read_int (py_str n) = n"
proof (cases "n < 0")
  case True
  then show ?thesis by (simp add: py_str_def read_int_def digits_value_nat_digits)
next
  case False
  then show ?thesis by (simp add: py_str_def read_int_digits)
qed

interpretation ref_jwt: jwt_codec ref_jwt
  by unfold_locales
     (auto simp: ref_jwt_def ref_encode_def ref_decode_def token_payload_def decoded_payload_def
       dict_get_def Let_def expiry_second_def)

end
