(* ===== verification/Password.thy ===== *)
theory Password
  imports PyText
begin

text \<open>
  Passwords: \<open>app/auth/password.py\<close> and the strength rule of \<open>app/schemas/user.py\<close>. The
  hashing library (pwdlib) is a parameter, a record of its two functions; hashing takes a
  fresh salt. A hash verifies the password it was made from (\<open>password_hasher\<close>); that it
  verifies no other one is the idealised assumption \<open>exact_hasher\<close>, used only where a
  property says that an old password stops working.
\<close>

record hash_ops =
  h_hash :: "string \<Rightarrow> string \<Rightarrow> string"
  h_verify :: "string \<Rightarrow> string \<Rightarrow> bool"

definition hash_password :: "hash_ops \<Rightarrow> string \<Rightarrow> string \<Rightarrow> string" where
  "hash_password H salt password = h_hash H salt password"

definition verify_password :: "hash_ops \<Rightarrow> string \<Rightarrow> string \<Rightarrow> bool" where
  "verify_password H plain_password hashed_password = h_verify H plain_password hashed_password"

locale password_hasher =
  fixes H :: hash_ops
  assumes verify_own: "h_verify H password (h_hash H salt password)"
begin

lemma verify_hash_password [simp]: "verify_password H p (hash_password H salt p)"
  by (simp add: verify_password_def hash_password_def verify_own)

end

locale exact_hasher = password_hasher +
  assumes verify_only: "h_verify H other (h_hash H salt password) \<Longrightarrow> other = password"
begin

lemma verify_hash_iff: "verify_password H q (hash_password H salt p) \<longleftrightarrow> q = p"
  using verify_own verify_only by (auto simp: verify_password_def hash_password_def)

end

definition ref_hash :: hash_ops where
  "ref_hash = \<lparr>h_hash = (\<lambda>salt p. ''hash:'' @ p), h_verify = (\<lambda>p h. h = ''hash:'' @ p)\<rparr>"

interpretation ref_hash: exact_hasher ref_hash
  by unfold_locales (simp_all add: ref_hash_def)

subsection \<open>Password strength\<close>

text \<open>\<open>validate_password_strength\<close>: the first missing class is reported.\<close>

definition validate_password_strength :: "string \<Rightarrow> string + string" where
  "validate_password_strength password =
     (if \<not> list_ex is_lower_char password then Inl ''Password must contain a lowercase letter''
      else if \<not> list_ex is_upper_char password then Inl ''Password must contain an uppercase letter''
      else if \<not> list_ex is_digit_char password then Inl ''Password must contain a number''
      else Inr password)"

text \<open>
  A new password in a request body (\<open>UserCreate\<close>, \<open>PasswordChange\<close>,
  \<open>ResetPasswordRequest\<close>): between 8 and 128 characters, then the strength rule.
\<close>

definition validate_new_password :: "string \<Rightarrow> string + string" where
  "validate_new_password password =
     (if length password < 8 then Inl ''String should have at least 8 characters''
      else if 128 < length password then Inl ''String should have at most 128 characters''
      else validate_password_strength password)"

lemma validate_new_password_Inr:
  "validate_new_password p = Inr q \<longleftrightarrow>
     q = p \<and> 8 \<le> length p \<and> length p \<le> 128 \<and>
     list_ex is_lower_char p \<and> list_ex is_upper_char p \<and> list_ex is_digit_char p"
  by (auto simp: validate_new_password_def validate_password_strength_def)

end
