(* ===== verification/Tables.thy ===== *)
theory Tables
  imports Prelude
begin

text \<open>
  A database table as the list of its rows, addressed by primary key: what
  \<open>Session.get\<close>, the flush of a changed row, \<open>Session.add\<close> and \<open>Session.delete\<close> do to it.
  The locale \<open>table\<close> is the contract of such a table, stated through \<open>get\<close>; its facts are
  proved once and used for every table of the model.
\<close>

definition row_get :: "('a \<Rightarrow> int) \<Rightarrow> 'a list \<Rightarrow> int \<Rightarrow> 'a option" where
  "row_get pk rows i = List.find (\<lambda>r. pk r = i) rows"

definition row_put :: "('a \<Rightarrow> int) \<Rightarrow> 'a list \<Rightarrow> 'a \<Rightarrow> 'a list" where
  "row_put pk rows r = map (\<lambda>x. if pk x = pk r then r else x) rows"

definition row_add :: "'a list \<Rightarrow> 'a \<Rightarrow> 'a list" where
  "row_add rows r = rows @ [r]"

definition row_delete :: "('a \<Rightarrow> int) \<Rightarrow> 'a list \<Rightarrow> int \<Rightarrow> 'a list" where
  "row_delete pk rows i = filter (\<lambda>r. pk r \<noteq> i) rows"

locale table =
  fixes get :: "'t \<Rightarrow> int \<Rightarrow> 'a option"
    and put :: "'t \<Rightarrow> 'a \<Rightarrow> 't"
    and add :: "'t \<Rightarrow> 'a \<Rightarrow> 't"
    and del :: "'t \<Rightarrow> int \<Rightarrow> 't"
    and pk :: "'a \<Rightarrow> int"
  assumes get_pk: "get t i = Some r \<Longrightarrow> pk r = i"
    and get_put: "get t (pk r) \<noteq> None \<Longrightarrow> get (put t r) i = (if i = pk r then Some r else get t i)"
    and get_add: "get t (pk r) = None \<Longrightarrow> get (add t r) i = (if i = pk r then Some r else get t i)"
    and get_del: "get (del t i) j = (if j = i then None else get t j)"
begin

lemma get_put_same: "get t i = Some r \<Longrightarrow> pk r' = i \<Longrightarrow> get (put t r') i = Some r'"
  by (auto simp: get_put)

lemma get_put_other: "get t (pk r) \<noteq> None \<Longrightarrow> i \<noteq> pk r \<Longrightarrow> get (put t r) i = get t i"
  by (simp add: get_put)

lemma get_add_other: "get t (pk r) = None \<Longrightarrow> get t i = Some x \<Longrightarrow> get (add t r) i = Some x"
  by (auto simp: get_add)

lemma get_del_other: "j \<noteq> i \<Longrightarrow> get (del t i) j = get t j"
  by (simp add: get_del)

lemma get_add_del: "get t (pk r) = None \<Longrightarrow> get (del (add t r) (pk r)) i = get t i"
  by (simp add: get_del get_add)

end

lemma row_get_set: "row_get pk rows i = Some r \<Longrightarrow> r \<in> set rows \<and> pk r = i"
  by (auto simp: row_get_def dest: find_Some_set)

lemma row_get_None: "row_get pk rows i = None \<longleftrightarrow> i \<notin> pk ` set rows"
  by (auto simp: row_get_def find_None_iff image_iff)

lemma row_get_in: "distinct (map pk rows) \<Longrightarrow> r \<in> set rows \<Longrightarrow> row_get pk rows (pk r) = Some r"
  by (simp add: row_get_def find_distinct_key)

lemma row_get_put_other: "i \<noteq> pk r \<Longrightarrow> row_get pk (row_put pk t r) i = row_get pk t i"
  by (induction t) (auto simp: row_get_def row_put_def)

lemma row_get_put_same: "pk r \<in> pk ` set t \<Longrightarrow> row_get pk (row_put pk t r) (pk r) = Some r"
  by (induction t) (auto simp: row_get_def row_put_def)

lemma row_table: "table (row_get pk) (row_put pk) row_add (row_delete pk) pk"
proof unfold_locales
  fix t :: "'a list" and i j :: int and r :: 'a
  show "row_get pk t i = Some r \<Longrightarrow> pk r = i" by (simp add: row_get_set)
  show "row_get pk t (pk r) \<noteq> None \<Longrightarrow>
      row_get pk (row_put pk t r) i = (if i = pk r then Some r else row_get pk t i)"
    by (auto simp: row_get_put_other row_get_put_same row_get_None)
  show "row_get pk t (pk r) = None \<Longrightarrow>
      row_get pk (row_add t r) i = (if i = pk r then Some r else row_get pk t i)"
    by (auto simp: row_get_def row_add_def find_append split: option.splits)
  show "row_get pk (row_delete pk t i) j = (if j = i then None else row_get pk t j)"
    by (induction t) (auto simp: row_get_def row_delete_def)
qed

interpretation rows: table "row_get pk" "row_put pk" row_add "row_delete pk" pk for pk
  by (rule row_table)

lemma map_pk_row_put [simp]: "map pk (row_put pk rows r) = map pk rows"
  by (simp add: row_put_def)

lemma set_pk_row_put [simp]: "pk ` set (row_put pk rows r) = pk ` set rows"
  by (metis list.set_map map_pk_row_put)

lemma row_put_cases: "x \<in> set (row_put pk rows r) \<Longrightarrow> x = r \<or> (x \<in> set rows \<and> pk x \<noteq> pk r)"
  by (auto simp: row_put_def split: if_splits)

lemma set_row_put:
  "pk r \<in> pk ` set rows \<Longrightarrow> set (row_put pk rows r) = insert r {x \<in> set rows. pk x \<noteq> pk r}"
  by (auto simp: row_put_def)

lemma distinct_row_put:
  assumes "distinct (map f rows)" and "distinct (map pk rows)"
    and "\<And>x. x \<in> set rows \<Longrightarrow> pk x \<noteq> pk r \<Longrightarrow> f x \<noteq> f r"
  shows "distinct (map f (row_put pk rows r))"
proof -
  have "x = y" if "x \<in> set (row_put pk rows r)" "y \<in> set (row_put pk rows r)" "f x = f y" for x y
    using row_put_cases [OF that(1)] row_put_cases [OF that(2)] that(3) assms(3)
      distinct_map_eq [OF assms(1)] by metis
  then have "inj_on f (set (row_put pk rows r))" by (rule inj_onI)
  moreover have "distinct (row_put pk rows r)"
    using assms(2) by (metis distinct_map map_pk_row_put)
  ultimately show ?thesis by (simp add: distinct_map)
qed

lemma set_row_add [simp]: "set (row_add rows r) = insert r (set rows)"
  by (auto simp: row_add_def)

lemma map_row_add [simp]: "map f (row_add rows r) = map f rows @ [f r]"
  by (simp add: row_add_def)

lemma set_row_delete [simp]: "set (row_delete pk rows i) = {x \<in> set rows. pk x \<noteq> i}"
  by (auto simp: row_delete_def)

lemma distinct_row_delete: "distinct (map f rows) \<Longrightarrow> distinct (map f (row_delete pk rows i))"
  by (simp add: row_delete_def distinct_map_filterI)

lemma row_delete_remove1:
  "distinct (map pk rows) \<Longrightarrow> r \<in> set rows \<Longrightarrow> row_delete pk rows (pk r) = remove1 r rows"
proof (induction rows)
  case Nil
  then show ?case by simp
next
  case (Cons x rows)
  show ?case
  proof (cases "x = r")
    case True
    with Cons.prems have "\<forall>y \<in> set rows. pk y \<noteq> pk r" by (auto simp: image_iff)
    with True show ?thesis by (simp add: row_delete_def filter_id_conv)
  next
    case False
    with Cons show ?thesis by (auto simp: row_delete_def image_iff)
  qed
qed

end
