(* ===== verification/Database.thy ===== *)
theory Database
  imports PyText Tables
begin

text \<open>
  The tables of \<open>app/models\<close> and what the program does to them through a SQLAlchemy session.

  A statement \<open>select(M).where(c)\<close> read with \<open>scalar\<close> is the first row with \<open>c\<close>; a commit
  writes the added or changed rows and checks the unique constraints of the models, whose
  violation is \<open>IntegrityError\<close>. Primary keys come from a sequence that never hands out a
  number twice. Lengths of string
  columns are not checked here; \<open>Columns\<close> shows where the program keeps to them.
\<close>

record user =
  user_id :: int
  user_email :: string
  user_hashed_password :: "string option"
  user_is_active :: bool
  user_is_verified :: bool
  user_created_at :: time

record oauth_account =
  oauth_id :: int
  oauth_user_id :: int
  oauth_provider :: string
  oauth_provider_user_id :: string
  oauth_email :: "string option"
  oauth_created_at :: time

record permission =
  permission_id :: int
  permission_name :: string
  permission_description :: "string option"

record role =
  role_id :: int
  role_name :: string
  role_description :: "string option"

record file_upload =
  file_id :: int
  file_user_id :: int
  file_filename :: string
  file_content_type :: string
  file_category :: string
  file_size_bytes :: int
  file_storage_key :: string
  file_created_at :: time

text \<open>The two association tables \<open>role_permissions\<close> and \<open>user_roles\<close> hold pairs of keys.\<close>

record database =
  users :: "user list"
  oauth_accounts :: "oauth_account list"
  permissions :: "permission list"
  roles :: "role list"
  role_permissions :: "(int \<times> int) list"
  user_roles :: "(int \<times> int) list"
  file_uploads :: "file_upload list"
  seq_users :: int
  seq_oauth_accounts :: int
  seq_permissions :: int
  seq_roles :: int
  seq_file_uploads :: int

definition empty_database :: database where
  "empty_database =
     \<lparr>users = [], oauth_accounts = [], permissions = [], roles = [], role_permissions = [],
      user_roles = [], file_uploads = [], seq_users = 1, seq_oauth_accounts = 1,
      seq_permissions = 1, seq_roles = 1, seq_file_uploads = 1\<rparr>"

definition integrity_error :: failure where
  "integrity_error = Unhandled ''IntegrityError''"

subsection \<open>Users\<close>

definition get_user :: "database \<Rightarrow> int \<Rightarrow> user option" where
  "get_user d i = row_get user_id (users d) i"

definition select_user_by_email :: "database \<Rightarrow> string \<Rightarrow> user option" where
  "select_user_by_email d e = List.find (\<lambda>u. user_email u = e) (users d)"

definition insert_user ::
  "database \<Rightarrow> string \<Rightarrow> string option \<Rightarrow> bool \<Rightarrow> bool \<Rightarrow> time \<Rightarrow> failure + (user \<times> database)" where
  "insert_user d e hashed active verified now =
     (if select_user_by_email d e \<noteq> None then Inl integrity_error
      else let u = \<lparr>user_id = seq_users d, user_email = e, user_hashed_password = hashed,
                    user_is_active = active, user_is_verified = verified,
                    user_created_at = now\<rparr>
           in Inr (u, d\<lparr>users := row_add (users d) u, seq_users := seq_users d + 1\<rparr>))"

text \<open>The commit of a user whose attributes were assigned to.\<close>

definition update_user :: "database \<Rightarrow> user \<Rightarrow> failure + database" where
  "update_user d u =
     (if list_ex (\<lambda>x. user_email x = user_email u \<and> user_id x \<noteq> user_id u) (users d)
      then Inl integrity_error
      else Inr (d\<lparr>users := row_put user_id (users d) u\<rparr>))"

text \<open>
  Deleting a user: the ORM deletes the linked OAuth accounts and role assignments with it,
  the foreign key of \<open>file_uploads\<close> (\<open>ON DELETE CASCADE\<close>) its file rows.
\<close>

definition delete_user :: "database \<Rightarrow> int \<Rightarrow> database" where
  "delete_user d i =
     d\<lparr>users := row_delete user_id (users d) i,
       oauth_accounts := filter (\<lambda>a. oauth_user_id a \<noteq> i) (oauth_accounts d),
       user_roles := filter (\<lambda>(uid, rid). uid \<noteq> i) (user_roles d),
       file_uploads := filter (\<lambda>f. file_user_id f \<noteq> i) (file_uploads d)\<rparr>"

subsection \<open>OAuth accounts\<close>

definition select_oauth_account :: "database \<Rightarrow> string \<Rightarrow> string \<Rightarrow> oauth_account option" where
  "select_oauth_account d provider puid =
     List.find (\<lambda>a. oauth_provider a = provider \<and> oauth_provider_user_id a = puid)
       (oauth_accounts d)"

definition oauth_accounts_of :: "database \<Rightarrow> int \<Rightarrow> oauth_account list" where
  "oauth_accounts_of d uid = filter (\<lambda>a. oauth_user_id a = uid) (oauth_accounts d)"

definition insert_oauth_account ::
  "database \<Rightarrow> int \<Rightarrow> string \<Rightarrow> string \<Rightarrow> string option \<Rightarrow> time \<Rightarrow> failure + database" where
  "insert_oauth_account d uid provider puid e now =
     (if select_oauth_account d provider puid \<noteq> None \<or> get_user d uid = None
      then Inl integrity_error
      else let a = \<lparr>oauth_id = seq_oauth_accounts d, oauth_user_id = uid,
                    oauth_provider = provider, oauth_provider_user_id = puid,
                    oauth_email = e, oauth_created_at = now\<rparr>
           in Inr (d\<lparr>oauth_accounts := row_add (oauth_accounts d) a,
                     seq_oauth_accounts := seq_oauth_accounts d + 1\<rparr>))"

definition delete_oauth_account :: "database \<Rightarrow> int \<Rightarrow> database" where
  "delete_oauth_account d i =
     d\<lparr>oauth_accounts := row_delete oauth_id (oauth_accounts d) i\<rparr>"

subsection \<open>Roles\<close>

definition select_role_by_name :: "database \<Rightarrow> string \<Rightarrow> role option" where
  "select_role_by_name d n = List.find (\<lambda>r. role_name r = n) (roles d)"

definition select_permission_by_name :: "database \<Rightarrow> string \<Rightarrow> permission option" where
  "select_permission_by_name d n = List.find (\<lambda>p. permission_name p = n) (permissions d)"

text \<open>The relationship attributes \<open>user.roles\<close> and \<open>role.permissions\<close>.\<close>

definition roles_of :: "database \<Rightarrow> int \<Rightarrow> role list" where
  "roles_of d uid = filter (\<lambda>r. (uid, role_id r) \<in> set (user_roles d)) (roles d)"

definition permissions_of :: "database \<Rightarrow> int \<Rightarrow> permission list" where
  "permissions_of d rid =
     filter (\<lambda>p. (rid, permission_id p) \<in> set (role_permissions d)) (permissions d)"

text \<open>\<open>user.roles.append(role)\<close> and the assignment of a filtered list, committed.\<close>

definition append_role :: "database \<Rightarrow> int \<Rightarrow> int \<Rightarrow> failure + database" where
  "append_role d uid rid =
     (if (uid, rid) \<in> set (user_roles d) then Inl integrity_error
      else Inr (d\<lparr>user_roles := user_roles d @ [(uid, rid)]\<rparr>))"

definition set_roles :: "database \<Rightarrow> int \<Rightarrow> role list \<Rightarrow> database" where
  "set_roles d uid rs =
     d\<lparr>user_roles := filter (\<lambda>(u, r). u \<noteq> uid \<or> r \<in> role_id ` set rs) (user_roles d)\<rparr>"

subsection \<open>Well-formed databases\<close>

text \<open>What the constraints of the schema promise: keys, unique columns, foreign keys.\<close>

definition users_wf :: "database \<Rightarrow> bool" where
  "users_wf d \<longleftrightarrow> distinct (map user_id (users d)) \<and> distinct (map user_email (users d)) \<and>
     (\<forall>u \<in> set (users d). 0 < user_id u \<and> user_id u < seq_users d) \<and> 0 < seq_users d"

definition oauth_wf :: "database \<Rightarrow> bool" where
  "oauth_wf d \<longleftrightarrow> distinct (map oauth_id (oauth_accounts d)) \<and>
     distinct (map (\<lambda>a. (oauth_provider a, oauth_provider_user_id a)) (oauth_accounts d)) \<and>
     (\<forall>a \<in> set (oauth_accounts d). oauth_id a < seq_oauth_accounts d \<and>
        oauth_user_id a \<in> user_id ` set (users d))"

definition rbac_wf :: "database \<Rightarrow> bool" where
  "rbac_wf d \<longleftrightarrow> distinct (map role_id (roles d)) \<and> distinct (map role_name (roles d)) \<and>
     (\<forall>r \<in> set (roles d). role_id r < seq_roles d) \<and>
     distinct (map permission_id (permissions d)) \<and>
     distinct (map permission_name (permissions d)) \<and>
     (\<forall>p \<in> set (permissions d). permission_id p < seq_permissions d) \<and>
     distinct (role_permissions d) \<and>
     (\<forall>(r, p) \<in> set (role_permissions d).
        r \<in> role_id ` set (roles d) \<and> p \<in> permission_id ` set (permissions d)) \<and>
     distinct (user_roles d) \<and>
     (\<forall>(u, r) \<in> set (user_roles d).
        u \<in> user_id ` set (users d) \<and> r \<in> role_id ` set (roles d))"

definition files_wf :: "database \<Rightarrow> bool" where
  "files_wf d \<longleftrightarrow> distinct (map file_id (file_uploads d)) \<and>
     distinct (map file_storage_key (file_uploads d)) \<and>
     (\<forall>f \<in> set (file_uploads d). file_id f < seq_file_uploads d \<and>
        file_user_id f \<in> user_id ` set (users d))"

definition db_wf :: "database \<Rightarrow> bool" where
  "db_wf d \<longleftrightarrow> users_wf d \<and> oauth_wf d \<and> rbac_wf d \<and> files_wf d"

lemmas wf_defs = users_wf_def oauth_wf_def rbac_wf_def files_wf_def

lemma db_wf_empty: "db_wf empty_database"
  by (simp add: db_wf_def wf_defs empty_database_def)

subsection \<open>Facts on the operations\<close>

lemma get_user_SomeD: "get_user d i = Some u \<Longrightarrow> u \<in> set (users d) \<and> user_id u = i"
  by (simp add: get_user_def row_get_set)

lemma get_user_in: "users_wf d \<Longrightarrow> u \<in> set (users d) \<Longrightarrow> get_user d (user_id u) = Some u"
  by (simp add: get_user_def users_wf_def row_get_in)

lemma get_user_None: "get_user d i = None \<longleftrightarrow> i \<notin> user_id ` set (users d)"
  by (simp add: get_user_def row_get_None)

lemma select_user_SomeD: "select_user_by_email d e = Some u \<Longrightarrow> u \<in> set (users d) \<and> user_email u = e"
  by (auto simp: select_user_by_email_def dest: find_Some_set)

lemma select_user_in: "users_wf d \<Longrightarrow> u \<in> set (users d) \<Longrightarrow> select_user_by_email d (user_email u) = Some u"
  by (simp add: select_user_by_email_def users_wf_def find_distinct_key)

lemma select_user_None: "select_user_by_email d e = None \<longleftrightarrow> e \<notin> user_email ` set (users d)"
  by (auto simp: select_user_by_email_def find_None_iff image_iff)

lemma users_wf_same_id:
  "users_wf d \<Longrightarrow> u \<in> set (users d) \<Longrightarrow> v \<in> set (users d) \<Longrightarrow> user_id u = user_id v \<Longrightarrow> u = v"
  by (auto simp: users_wf_def dest: distinct_map_eq)

lemma insert_user_Inr:
  "insert_user d e hashed active verified now = Inr (u, d') \<longleftrightarrow>
     select_user_by_email d e = None \<and>
     u = \<lparr>user_id = seq_users d, user_email = e, user_hashed_password = hashed,
          user_is_active = active, user_is_verified = verified, user_created_at = now\<rparr> \<and>
     d' = d\<lparr>users := row_add (users d) u, seq_users := seq_users d + 1\<rparr>"
  by (auto simp: insert_user_def Let_def)

lemma update_user_Inr:
  "update_user d u = Inr d' \<longleftrightarrow>
     (\<forall>x \<in> set (users d). user_email x = user_email u \<longrightarrow> user_id x = user_id u) \<and>
     d' = d\<lparr>users := row_put user_id (users d) u\<rparr>"
  by (auto simp: update_user_def list_ex_iff)

text \<open>A change that leaves the email alone never violates the unique constraint.\<close>

lemma update_user_same_email:
  assumes "users_wf d" and "x \<in> set (users d)" and "user_id u = user_id x"
    and "user_email u = user_email x"
  shows "update_user d u = Inr (d\<lparr>users := row_put user_id (users d) u\<rparr>)"
  using assms by (auto simp: update_user_Inr users_wf_def dest: distinct_map_eq)

lemma insert_user_wf [wf_intros]:
  assumes "insert_user d e hashed active verified now = Inr (u, d')" and "db_wf d"
  shows "db_wf d'"
  using assms
  by (fastforce simp: insert_user_Inr db_wf_def wf_defs select_user_None image_iff)

lemma update_user_wf [wf_intros]:
  assumes "update_user d u = Inr d'" and "db_wf d" and "user_id u \<in> user_id ` set (users d)"
  shows "db_wf d'"
proof -
  have d': "d' = d\<lparr>users := row_put user_id (users d) u\<rparr>"
    and uniq: "\<And>x. x \<in> set (users d) \<Longrightarrow> user_id x \<noteq> user_id u \<Longrightarrow> user_email x \<noteq> user_email u"
    using assms(1) by (auto simp: update_user_Inr)
  have "users_wf d'"
    using assms(2,3) uniq
    by (auto simp: d' db_wf_def users_wf_def intro!: distinct_row_put dest!: row_put_cases)
  moreover have "oauth_wf d'" "rbac_wf d'" "files_wf d'"
    using assms(2) by (simp_all add: d' db_wf_def wf_defs)
  ultimately show ?thesis by (simp add: db_wf_def)
qed

lemma delete_user_wf [wf_intros]: "db_wf d \<Longrightarrow> db_wf (delete_user d i)"
  by (fastforce simp: db_wf_def wf_defs delete_user_def distinct_row_delete
      distinct_map_filterI)

lemma insert_oauth_Inr:
  "insert_oauth_account d uid provider puid e now = Inr d' \<longleftrightarrow>
     select_oauth_account d provider puid = None \<and> get_user d uid \<noteq> None \<and>
     d' = d\<lparr>oauth_accounts := row_add (oauth_accounts d)
               \<lparr>oauth_id = seq_oauth_accounts d, oauth_user_id = uid,
                oauth_provider = provider, oauth_provider_user_id = puid,
                oauth_email = e, oauth_created_at = now\<rparr>,
            seq_oauth_accounts := seq_oauth_accounts d + 1\<rparr>"
  by (auto simp: insert_oauth_account_def Let_def)

lemma select_oauth_SomeD:
  "select_oauth_account d provider puid = Some a \<Longrightarrow>
     a \<in> set (oauth_accounts d) \<and> oauth_provider a = provider \<and> oauth_provider_user_id a = puid"
  by (auto simp: select_oauth_account_def dest: find_Some_set)

lemma select_oauth_None:
  "select_oauth_account d provider puid = None \<longleftrightarrow>
     (provider, puid) \<notin> (\<lambda>a. (oauth_provider a, oauth_provider_user_id a)) ` set (oauth_accounts d)"
  by (auto simp: select_oauth_account_def find_None_iff image_iff)

lemma insert_oauth_wf [wf_intros]:
  assumes "insert_oauth_account d uid provider puid e now = Inr d'" and "db_wf d"
  shows "db_wf d'"
  using assms
  by (fastforce simp: insert_oauth_Inr db_wf_def wf_defs select_oauth_None get_user_None image_iff)

lemma delete_oauth_wf [wf_intros]: "db_wf d \<Longrightarrow> db_wf (delete_oauth_account d i)"
  by (simp add: db_wf_def wf_defs delete_oauth_account_def distinct_row_delete)

lemma append_role_wf [wf_intros]:
  assumes "append_role d uid rid = Inr d'" and "db_wf d"
    and "uid \<in> user_id ` set (users d)" and "rid \<in> role_id ` set (roles d)"
  shows "db_wf d'"
proof -
  have d': "d' = d\<lparr>user_roles := user_roles d @ [(uid, rid)]\<rparr>"
    and new: "(uid, rid) \<notin> set (user_roles d)"
    using assms(1) by (auto simp: append_role_def split: if_splits)
  have "users_wf d'" "oauth_wf d'" "files_wf d'"
    using assms(2) by (simp_all add: d' db_wf_def users_wf_def oauth_wf_def files_wf_def)
  moreover have "rbac_wf d'"
    using assms(2-4) new by (simp add: d' db_wf_def rbac_wf_def)
  ultimately show ?thesis by (simp add: db_wf_def)
qed

lemma set_roles_wf [wf_intros]: "db_wf d \<Longrightarrow> db_wf (set_roles d uid rs)"
  by (auto simp: set_roles_def db_wf_def wf_defs)

subsection \<open>Ways to sign in\<close>

text \<open>
  A user can sign in with a password or through a linked provider account. The program keeps
  at least one way open for every user; \<open>db_inv\<close> is the invariant of the whole database.
\<close>

definition can_sign_in :: "database \<Rightarrow> user \<Rightarrow> bool" where
  "can_sign_in d u \<longleftrightarrow> user_hashed_password u \<noteq> None \<or> oauth_accounts_of d (user_id u) \<noteq> []"

definition sign_in_ok :: "database \<Rightarrow> bool" where
  "sign_in_ok d \<longleftrightarrow> list_all (can_sign_in d) (users d)"

definition db_inv :: "database \<Rightarrow> bool" where
  "db_inv d \<longleftrightarrow> db_wf d \<and> sign_in_ok d"

lemma db_inv_wf [simp]: "db_inv d \<Longrightarrow> db_wf d" "db_inv d \<Longrightarrow> users_wf d"
  by (simp_all add: db_inv_def db_wf_def)

lemma can_sign_in_iff:
  "can_sign_in d u \<longleftrightarrow> user_hashed_password u \<noteq> None \<or>
     (\<exists>a \<in> set (oauth_accounts d). oauth_user_id a = user_id u)"
  by (auto simp: can_sign_in_def oauth_accounts_of_def filter_empty_conv)

lemma sign_in_ok_iff: "sign_in_ok d \<longleftrightarrow> (\<forall>u \<in> set (users d). can_sign_in d u)"
  by (simp add: sign_in_ok_def list_all_iff)

lemma sign_in_ok_mono:
  "users d' = users d \<Longrightarrow> set (oauth_accounts d) \<subseteq> set (oauth_accounts d') \<Longrightarrow>
     sign_in_ok d \<Longrightarrow> sign_in_ok d'"
  by (fastforce simp: sign_in_ok_iff can_sign_in_iff)

lemma db_inv_empty: "db_inv empty_database"
  by (simp add: db_inv_def db_wf_empty sign_in_ok_def) (simp add: empty_database_def)

lemma insert_user_inv:
  assumes "insert_user d e (Some h) active verified now = Inr (u, d')" and "db_inv d"
  shows "db_inv d'"
  using assms insert_user_wf [OF assms(1)]
  by (auto simp: db_inv_def sign_in_ok_iff can_sign_in_iff insert_user_Inr)

text \<open>A row may be changed as long as its password is not taken away.\<close>

lemma update_user_inv:
  assumes "update_user d u = Inr d'" and "db_inv d" and "x \<in> set (users d)"
    and "user_id u = user_id x" and "user_hashed_password u = None \<Longrightarrow> user_hashed_password x = None"
  shows "db_inv d'"
proof -
  have d': "d' = d\<lparr>users := row_put user_id (users d) u\<rparr>"
    using assms(1) by (simp add: update_user_Inr)
  have "db_wf d'"
    using update_user_wf [OF assms(1)] assms(2-4) by (auto simp: db_inv_def)
  moreover have "can_sign_in d' y" if "y \<in> set (users d')" for y
  proof -
    have same: "can_sign_in d' z = can_sign_in d z" for z
      by (simp add: can_sign_in_iff d')
    have old: "can_sign_in d z" if "z \<in> set (users d)" for z
      using assms(2) that by (simp add: db_inv_def sign_in_ok_iff)
    have "can_sign_in d u"
      using old [OF assms(3)] assms(4,5) by (auto simp: can_sign_in_iff)
    moreover have "y = u \<or> y \<in> set (users d)"
      using that row_put_cases [of y user_id "users d" u] by (auto simp: d')
    ultimately show ?thesis using old same by blast
  qed
  then have "sign_in_ok d'" by (simp add: sign_in_ok_iff)
  ultimately show ?thesis by (simp add: db_inv_def)
qed

lemma delete_user_sign_in: "sign_in_ok d \<Longrightarrow> sign_in_ok (delete_user d i)"
  by (fastforce simp: sign_in_ok_iff can_sign_in_iff delete_user_def)

lemma delete_user_inv: "db_inv d \<Longrightarrow> db_inv (delete_user d i)"
  by (simp add: db_inv_def delete_user_wf delete_user_sign_in)

lemma insert_oauth_inv:
  assumes "insert_oauth_account d uid provider puid e now = Inr d'" and "db_inv d"
  shows "db_inv d'"
  using assms(2) insert_oauth_wf [OF assms(1)] sign_in_ok_mono [of d' d] assms(1)
  by (auto simp: db_inv_def insert_oauth_Inr)

text \<open>A user without a password is admitted together with a first provider account.\<close>

lemma insert_user_with_oauth_inv:
  assumes "insert_user d e None active verified now = Inr (u, d1)"
    and "insert_oauth_account d1 (user_id u) provider puid oe now' = Inr d2" and "db_inv d"
  shows "db_inv d2"
proof -
  have d1: "users d1 = row_add (users d) u" "oauth_accounts d1 = oauth_accounts d"
    using assms(1) by (auto simp: insert_user_Inr)
  have d2: "users d2 = users d1"
    "\<exists>a \<in> set (oauth_accounts d2). oauth_user_id a = user_id u"
    "set (oauth_accounts d1) \<subseteq> set (oauth_accounts d2)"
    using assms(2) by (auto simp: insert_oauth_Inr)
  have "\<forall>x \<in> set (users d). can_sign_in d x"
    using assms(3) by (simp add: db_inv_def sign_in_ok_iff)
  then have "sign_in_ok d2"
    using d1 d2 by (fastforce simp: sign_in_ok_iff can_sign_in_iff)
  moreover have "db_wf d2"
    using insert_oauth_wf [OF assms(2)] insert_user_wf [OF assms(1)] assms(3) by simp
  ultimately show ?thesis by (simp add: db_inv_def)
qed

lemma append_role_inv:
  assumes "append_role d uid rid = Inr d'" and "db_inv d"
    and "uid \<in> user_id ` set (users d)" and "rid \<in> role_id ` set (roles d)"
  shows "db_inv d'"
  using assms(2) append_role_wf [OF assms(1) _ assms(3,4)] sign_in_ok_mono [of d' d] assms(1)
  by (auto simp: db_inv_def append_role_def split: if_splits)

lemma set_roles_inv: "db_inv d \<Longrightarrow> db_inv (set_roles d uid rs)"
  using sign_in_ok_mono [of "set_roles d uid rs" d]
  by (simp add: db_inv_def set_roles_wf) (simp add: set_roles_def)

lemma select_role_SomeD:
  "select_role_by_name d n = Some r \<Longrightarrow> r \<in> set (roles d) \<and> role_name r = n"
  by (auto simp: select_role_by_name_def dest: find_Some_set)

lemma select_role_in:
  "rbac_wf d \<Longrightarrow> r \<in> set (roles d) \<Longrightarrow> select_role_by_name d (role_name r) = Some r"
  by (simp add: select_role_by_name_def rbac_wf_def find_distinct_key)

lemma select_role_None:
  "select_role_by_name d n = None \<longleftrightarrow> n \<notin> role_name ` set (roles d)"
  by (auto simp: select_role_by_name_def find_None_iff image_iff)

lemma role_same_id:
  "rbac_wf d \<Longrightarrow> r \<in> set (roles d) \<Longrightarrow> r' \<in> set (roles d) \<Longrightarrow> role_id r = role_id r' \<longleftrightarrow> r = r'"
  by (auto simp: rbac_wf_def dest: distinct_map_eq)

lemma append_role_new_user:
  "rbac_wf d \<Longrightarrow> uid \<notin> user_id ` set (users d) \<Longrightarrow> (uid, rid) \<notin> set (user_roles d)"
  by (auto simp: rbac_wf_def)

text \<open>Setting flags or the password of an existing user cannot fail.\<close>

lemma update_existing:
  assumes "db_inv d" and "get_user d i = Some x" and "user_id u = user_id x"
    and "user_email u = user_email x"
    and "user_hashed_password u = None \<Longrightarrow> user_hashed_password x = None"
  shows "update_user d u = Inr (d\<lparr>users := row_put user_id (users d) u\<rparr>)"
    and "db_inv (d\<lparr>users := row_put user_id (users d) u\<rparr>)"
proof -
  have x: "x \<in> set (users d)" using get_user_SomeD [OF assms(2)] by blast
  show u: "update_user d u = Inr (d\<lparr>users := row_put user_id (users d) u\<rparr>)"
    using assms(1,3,4) x by (intro update_user_same_email) auto
  show "db_inv (d\<lparr>users := row_put user_id (users d) u\<rparr>)"
    by (rule update_user_inv [OF u assms(1) x assms(3,5)])
qed

end
