(* ===== verification/Services.thy ===== *)
theory Services
  imports RateLimit TokenStore Jwt Password Database
begin

text \<open>
  What a request handler is given: the environment \<open>env\<close> (the Redis client, the JWT and the
  hashing library, the settings) and the state \<open>app_state\<close> (the database, the Redis server's
  state, the queue of Celery tasks that were sent, the messages handed to
  \<open>publish_to_user\<close>). A handler runs at one instant, \<open>now\<close>;
  the \<open>uuid4\<close> values and the salt it draws are arguments. The locale \<open>auth_services\<close>
  collects the contracts of the parameters.
\<close>

record 'r env =
  e_redis :: "'r redis_ops"
  e_jwt :: jwt_ops
  e_hash :: hash_ops
  e_settings :: settings

datatype task =
    SendVerificationEmail string string
  | SendPasswordResetEmail string string
  | GenerateUserSummaryReport string

record 'r app_state =
  st_db :: database
  st_redis :: 'r
  st_queue :: "task list"
  st_outbox :: "(int \<times> pydict) list"

locale auth_services =
  redis_server "e_redis E" + jwt_codec "e_jwt E" + password_hasher "e_hash E"
  for E :: "'r env"

locale exact_auth_services = auth_services E + exact_hasher "e_hash E" for E :: "'r env"

definition ref_env :: "settings \<Rightarrow> ref_store env" where
  "ref_env cfg = \<lparr>e_redis = ref_redis, e_jwt = ref_jwt, e_hash = ref_hash, e_settings = cfg\<rparr>"

lemma ref_env_simps [simp]:
  "e_redis (ref_env cfg) = ref_redis" "e_jwt (ref_env cfg) = ref_jwt"
  "e_hash (ref_env cfg) = ref_hash" "e_settings (ref_env cfg) = cfg"
  by (simp_all add: ref_env_def)

interpretation ref_env: exact_auth_services "ref_env cfg" for cfg
  by unfold_locales
     (simp_all add: ref.get_set ref.get_delete ref.exists_get ref.incr_missing ref.incr_counter
       ref.get_incr_missing ref.get_incr_counter ref.get_expire ref.incr_other ref.expire_other
       ref_jwt.decode_live ref_jwt.decode_over ref_hash.verify_own ref_hash.verify_only
       ref_jwt.decode_issued [simplified])

text \<open>The dependency on a rate limiter, in front of the body of a route.\<close>

definition limited ::
  "'r env \<Rightarrow> rate_limiter \<Rightarrow> time \<Rightarrow> string option \<Rightarrow>
     ('r app_state \<Rightarrow> ('a, 'r app_state) handled) \<Rightarrow> 'r app_state \<Rightarrow> ('a, 'r app_state) handled" where
  "limited E rl now client body s =
     (case rate_limit_call (e_redis E) rl now client (st_redis s) of
        (Inl e, r) \<Rightarrow> (Inl e, s\<lparr>st_redis := r\<rparr>)
      | (Inr _, r) \<Rightarrow> body (s\<lparr>st_redis := r\<rparr>))"

subsection \<open>The authenticated user: \<open>app/auth/dependencies.py\<close>\<close>

definition bearer_challenge :: "(string \<times> string) list" where
  "bearer_challenge = [(''WWW-Authenticate'', ''Bearer'')]"

definition get_current_user ::
  "'r env \<Rightarrow> time \<Rightarrow> string \<Rightarrow> 'r app_state \<Rightarrow> failure + user" where
  "get_current_user E now credentials s =
     (case decode_access_token (e_jwt E) (e_settings E) now credentials of
        None \<Rightarrow> Inl (HTTPException 401 ''Invalid or expired access token'' bearer_challenge)
      | Some claims \<Rightarrow>
          if is_token_blacklisted (e_redis E) (st_redis s) now (claims_jti claims)
          then Inl (HTTPException 401 ''Token has been revoked'' bearer_challenge)
          else (case select_user_by_email (st_db s) (claims_subject claims) of
                  None \<Rightarrow> Inl (HTTPException 401 ''User not found'' [])
                | Some u \<Rightarrow>
                    if \<not> user_is_active u
                    then Inl (HTTPException 403 ''User account is inactive'' [])
                    else Inr u))"

definition WS_1008_POLICY_VIOLATION :: int where "WS_1008_POLICY_VIOLATION = 1008"

definition get_current_user_ws ::
  "'r env \<Rightarrow> time \<Rightarrow> string \<Rightarrow> 'r app_state \<Rightarrow> failure + user" where
  "get_current_user_ws E now token s =
     (let policy_violation = Inl (WebSocketException WS_1008_POLICY_VIOLATION) in
      case decode_access_token (e_jwt E) (e_settings E) now token of
        None \<Rightarrow> policy_violation
      | Some claims \<Rightarrow>
          if is_token_blacklisted (e_redis E) (st_redis s) now (claims_jti claims)
          then policy_violation
          else (case select_user_by_email (st_db s) (claims_subject claims) of
                  None \<Rightarrow> policy_violation
                | Some u \<Rightarrow> if \<not> user_is_active u then policy_violation else Inr u))"

lemma get_current_user_Inr:
  "get_current_user E now tok s = Inr u \<longleftrightarrow>
     (\<exists>claims. decode_access_token (e_jwt E) (e_settings E) now tok = Some claims \<and>
        \<not> is_token_blacklisted (e_redis E) (st_redis s) now (claims_jti claims) \<and>
        select_user_by_email (st_db s) (claims_subject claims) = Some u \<and> user_is_active u)"
  by (auto simp: get_current_user_def split: option.splits)

lemma get_current_user_cong:
  "users (st_db s') = users (st_db s) \<Longrightarrow> st_redis s' = st_redis s \<Longrightarrow>
     get_current_user E now tok s' = get_current_user E now tok s"
  by (simp add: get_current_user_def select_user_by_email_def split: option.split)

lemma get_current_user_not_unhandled [simp]: "\<not> is_unhandled (get_current_user E now tok s)"
  by (auto simp: get_current_user_def split: option.splits)

text \<open>A route that depends on the current user.\<close>

definition authenticated ::
  "'r env \<Rightarrow> time \<Rightarrow> string \<Rightarrow> (user \<Rightarrow> 'r app_state \<Rightarrow> ('a, 'r app_state) handled) \<Rightarrow>
     'r app_state \<Rightarrow> ('a, 'r app_state) handled" where
  "authenticated E now credentials body s =
     after_dependency (get_current_user E now credentials s, s) body"

lemma authenticated_Inr:
  "authenticated E now tok body s = (Inr x, t) \<longleftrightarrow>
     (\<exists>u. get_current_user E now tok s = Inr u \<and> body u s = (Inr x, t))"
  by (auto simp: authenticated_def after_dependency_Inr)

lemma authenticated_state:
  "(\<And>u. get_current_user E now tok s = Inr u \<Longrightarrow> P (snd (body u s))) \<Longrightarrow> P s \<Longrightarrow>
     P (snd (authenticated E now tok body s))"
  by (cases "get_current_user E now tok s") (simp_all add: authenticated_def)

subsection \<open>Safe results\<close>

text \<open>
  A handler started in a database that satisfies the invariant ends in one, and does not raise
  an exception the code did not mean to raise (an \<open>IntegrityError\<close> in particular).
\<close>

named_theorems safety \<open>handlers keep the database invariant and raise nothing unforeseen\<close>

definition safe_result :: "('a, 'r app_state) handled \<Rightarrow> bool" where
  "safe_result res \<longleftrightarrow> db_inv (st_db (snd res)) \<and> \<not> is_unhandled (fst res)"

lemma safe_result_simps [simp]:
  "safe_result (Inr x, s) \<longleftrightarrow> db_inv (st_db s)"
  "safe_result (Inl (HTTPException c m h), s) \<longleftrightarrow> db_inv (st_db s)"
  "safe_result (Inl (RequestValidationError m'), s) \<longleftrightarrow> db_inv (st_db s)"
  by (simp_all add: safe_result_def)

lemma limited_safe [safety]:
  assumes "db_inv (st_db s)" and "\<And>r. safe_result (body (s\<lparr>st_redis := r\<rparr>))"
  shows "safe_result (limited E rl now client body s)"
proof -
  obtain res r where c: "rate_limit_call (e_redis E) rl now client (st_redis s) = (res, r)"
    by fastforce
  then have "res = Inr () \<or> res = Inl too_many_requests"
    by (auto simp: rate_limit_call_def Let_def split: prod.splits if_splits)
  with c assms show ?thesis by (auto simp: limited_def too_many_requests_def)
qed

lemma authenticated_safe [safety]:
  assumes "db_inv (st_db s)"
    and "\<And>u. get_current_user E now tok s = Inr u \<Longrightarrow> safe_result (body u s)"
  shows "safe_result (authenticated E now tok body s)"
  using assms get_current_user_not_unhandled [of E now tok s]
  by (cases "get_current_user E now tok s") (simp_all add: authenticated_def safe_result_def)

lemma current_user_in:
  "get_current_user E now tok s = Inr u \<Longrightarrow> u \<in> set (users (st_db s))"
  by (auto simp: get_current_user_Inr dest: select_user_SomeD)

end
