(* ===== verification/AuthApi.thy ===== *)
theory AuthApi
  imports Services
begin

text \<open>
  The authentication routes: \<open>app/api/auth.py\<close> with the request schemas of
  \<open>app/schemas/token.py\<close>, \<open>user.py\<close> and \<open>password_reset.py\<close>. A handler is one definition with
  the guards in the order of the code; a route puts the rate limiter and the validation of
  the body in front. The address validator behind \<open>EmailStr\<close> is a parameter: it gives the
  address it accepts, or \<open>None\<close>.
\<close>

definition DEFAULT_USER_ROLE_NAME :: string where "DEFAULT_USER_ROLE_NAME = ''user''"

type_synonym email_validator = "string \<Rightarrow> string option"

record user_create =
  uc_email :: string
  uc_password :: string

record registration_response =
  reg_id :: int
  reg_email :: string
  reg_is_active :: bool
  reg_is_verified :: bool
  reg_message :: string

record token_response =
  tr_access_token :: string
  tr_refresh_token :: string
  tr_token_type :: string

record access_token_response =
  atr_access_token :: string
  atr_token_type :: string

subsection \<open>Registration\<close>

definition validate_user_create :: "email_validator \<Rightarrow> string \<Rightarrow> string \<Rightarrow> failure + user_create" where
  "validate_user_create valid e p =
     (case valid e of
        None \<Rightarrow> Inl (RequestValidationError ''email'')
      | Some e' \<Rightarrow>
          (case validate_new_password p of
             Inl m \<Rightarrow> Inl (RequestValidationError m)
           | Inr p' \<Rightarrow> Inr \<lparr>uc_email = e', uc_password = p'\<rparr>))"

definition email_taken :: failure where
  "email_taken = HTTPException 409 ''A user with this email already exists'' []"

definition register_user ::
  "'r env \<Rightarrow> time \<Rightarrow> string \<Rightarrow> string \<Rightarrow> user_create \<Rightarrow> 'r app_state \<Rightarrow>
     (registration_response, 'r app_state) handled" where
  "register_user E now jti salt user_data s =
     (let e = lower (uc_email user_data); d = st_db s in
      case select_user_by_email d e of
        Some _ \<Rightarrow> (Inl email_taken, s)
      | None \<Rightarrow>
          (case insert_user d e (Some (hash_password (e_hash E) salt (uc_password user_data)))
                  True False now of
             Inl err \<Rightarrow> (Inl err, s)
           | Inr (u, d1) \<Rightarrow>
               (case (case select_role_by_name d DEFAULT_USER_ROLE_NAME of
                        None \<Rightarrow> Inr d1
                      | Some r \<Rightarrow> append_role d1 (user_id u) (role_id r)) of
                  Inl err \<Rightarrow> (Inl err, s)
                | Inr d2 \<Rightarrow>
                    (let token = create_email_verification_token (e_jwt E) (e_settings E) now jti
                                   (py_str (user_id u))
                     in (Inr \<lparr>reg_id = user_id u, reg_email = user_email u,
                              reg_is_active = user_is_active u,
                              reg_is_verified = user_is_verified u,
                              reg_message = ''Registration successful. Check your email to verify your account.''\<rparr>,
                         s\<lparr>st_db := d2,
                           st_queue := st_queue s @ [SendVerificationEmail (user_email u) token]\<rparr>)))))"

definition register_limiter :: rate_limiter where
  "register_limiter = \<lparr>rl_times = 5, rl_seconds = 60, rl_scope = ''register''\<rparr>"

definition register_route ::
  "'r env \<Rightarrow> email_validator \<Rightarrow> time \<Rightarrow> string option \<Rightarrow> string \<Rightarrow> string \<Rightarrow> string \<Rightarrow> string \<Rightarrow>
     'r app_state \<Rightarrow> (registration_response, 'r app_state) handled" where
  "register_route E valid now client jti salt e p s =
     limited E register_limiter now client
       (\<lambda>s. case validate_user_create valid e p of
              Inl err \<Rightarrow> (Inl err, s)
            | Inr user_data \<Rightarrow> register_user E now jti salt user_data s) s"

subsection \<open>Login\<close>

record login_request =
  login_email :: string
  login_password :: string

definition invalid_credentials :: failure where
  "invalid_credentials = HTTPException 401 ''Invalid email or password'' bearer_challenge"

definition bearer_tokens ::
  "'r env \<Rightarrow> time \<Rightarrow> string \<Rightarrow> string \<Rightarrow> string \<Rightarrow> token_response" where
  "bearer_tokens E now jti1 jti2 sub =
     \<lparr>tr_access_token = create_access_token (e_jwt E) (e_settings E) now jti1 sub,
      tr_refresh_token = create_refresh_token (e_jwt E) (e_settings E) now jti2 sub,
      tr_token_type = ''bearer''\<rparr>"

definition login_user ::
  "'r env \<Rightarrow> time \<Rightarrow> string \<Rightarrow> string \<Rightarrow> login_request \<Rightarrow> 'r app_state \<Rightarrow>
     (token_response, 'r app_state) handled" where
  "login_user E now jti1 jti2 login_data s =
     (let e = lower (login_email login_data) in
      case select_user_by_email (st_db s) e of
        None \<Rightarrow> (Inl invalid_credentials, s)
      | Some u \<Rightarrow>
          (case user_hashed_password u of
             None \<Rightarrow> (Inl invalid_credentials, s)
           | Some hashed \<Rightarrow>
               if \<not> verify_password (e_hash E) (login_password login_data) hashed
               then (Inl invalid_credentials, s)
               else if \<not> user_is_verified u
               then (Inl (HTTPException 403 ''Email address is not verified'' []), s)
               else if \<not> user_is_active u
               then (Inl (HTTPException 403 ''User account is inactive'' []), s)
               else (Inr (bearer_tokens E now jti1 jti2 (user_email u)), s)))"

definition login_limiter :: rate_limiter where
  "login_limiter = \<lparr>rl_times = 5, rl_seconds = 60, rl_scope = ''login''\<rparr>"

definition login_route ::
  "'r env \<Rightarrow> email_validator \<Rightarrow> time \<Rightarrow> string option \<Rightarrow> string \<Rightarrow> string \<Rightarrow> string \<Rightarrow> string \<Rightarrow>
     'r app_state \<Rightarrow> (token_response, 'r app_state) handled" where
  "login_route E valid now client jti1 jti2 e p s =
     limited E login_limiter now client
       (\<lambda>s. case valid e of
              None \<Rightarrow> (Inl (RequestValidationError ''email''), s)
            | Some e' \<Rightarrow>
                login_user E now jti1 jti2 \<lparr>login_email = e', login_password = p\<rparr> s) s"

subsection \<open>Refresh and logout\<close>

definition refresh_access_token ::
  "'r env \<Rightarrow> time \<Rightarrow> string \<Rightarrow> string \<Rightarrow> 'r app_state \<Rightarrow>
     (access_token_response, 'r app_state) handled" where
  "refresh_access_token E now jti refresh_token s =
     (let invalid = (Inl (HTTPException 401 ''Invalid or expired refresh token'' []), s);
          unavailable = (Inl (HTTPException 401 ''User is unavailable'' []), s) in
      case decode_refresh_token (e_jwt E) (e_settings E) now refresh_token of
        None \<Rightarrow> invalid
      | Some claims \<Rightarrow>
          if is_token_blacklisted (e_redis E) (st_redis s) now (claims_jti claims) then invalid
          else (case select_user_by_email (st_db s) (claims_subject claims) of
                  None \<Rightarrow> unavailable
                | Some u \<Rightarrow>
                    if \<not> user_is_active u then unavailable
                    else (Inr \<lparr>atr_access_token = create_access_token (e_jwt E) (e_settings E) now
                                 jti (user_email u),
                               atr_token_type = ''bearer''\<rparr>, s)))"

definition logout ::
  "'r env \<Rightarrow> time \<Rightarrow> string \<Rightarrow> string option \<Rightarrow> 'r app_state \<Rightarrow> (unit, 'r app_state) handled" where
  "logout E now credentials refresh_token s =
     (case decode_access_token (e_jwt E) (e_settings E) now credentials of
        None \<Rightarrow>
          (Inl (HTTPException 401 ''Invalid or expired access token'' bearer_challenge), s)
      | Some access_claims \<Rightarrow>
          (let r1 = blacklist_token (e_redis E) (st_redis s) now (claims_jti access_claims)
                      (remaining_ttl_seconds (claims_expires_at access_claims) now);
               r2 = (case refresh_token of
                       None \<Rightarrow> r1
                     | Some tok \<Rightarrow>
                         (case decode_refresh_token (e_jwt E) (e_settings E) now tok of
                            None \<Rightarrow> r1
                          | Some refresh_claims \<Rightarrow>
                              blacklist_token (e_redis E) r1 now (claims_jti refresh_claims)
                                (remaining_ttl_seconds (claims_expires_at refresh_claims) now)))
           in (Inr (), s\<lparr>st_redis := r2\<rparr>)))"

subsection \<open>Email verification\<close>

definition verify_email ::
  "'r env \<Rightarrow> time \<Rightarrow> string \<Rightarrow> 'r app_state \<Rightarrow> (string, 'r app_state) handled" where
  "verify_email E now token s =
     (let invalid = Inl (HTTPException 401 ''Invalid or expired verification token'' []) in
      case decode_email_verification_token (e_jwt E) (e_settings E) now token of
        None \<Rightarrow> (invalid, s)
      | Some claims \<Rightarrow>
          (case py_int (claims_subject claims) of
             None \<Rightarrow> (Inl (HTTPException 401 ''Invalid verification token subject'' []), s)
           | Some uid \<Rightarrow>
               (case get_user (st_db s) uid of
                  None \<Rightarrow> (Inl (HTTPException 404 ''User not found'' []), s)
                | Some u \<Rightarrow>
                    if user_is_verified u then (Inr ''Email is already verified'', s)
                    else if is_token_used (e_redis E) (st_redis s) now (claims_jti claims)
                    then (invalid, s)
                    else (case update_user (st_db s) (u\<lparr>user_is_verified := True\<rparr>) of
                            Inl err \<Rightarrow> (Inl err, s)
                          | Inr d \<Rightarrow>
                              (Inr ''Email verified successfully'',
                               s\<lparr>st_db := d,
                                 st_redis := mark_token_used (e_redis E) (st_redis s) now
                                   (claims_jti claims)
                                   (remaining_ttl_seconds (claims_expires_at claims) now)\<rparr>)))))"

subsection \<open>Password reset\<close>

definition generic_reset_message :: string where
  "generic_reset_message =
     ''If an account exists for this email, password reset instructions have been sent''"

definition forgot_password ::
  "'r env \<Rightarrow> time \<Rightarrow> string \<Rightarrow> string \<Rightarrow> 'r app_state \<Rightarrow> (string, 'r app_state) handled" where
  "forgot_password E now jti address s =
     (let e = lower address;
          s' = (case select_user_by_email (st_db s) e of
                  None \<Rightarrow> s
                | Some u \<Rightarrow>
                    if user_is_active u
                    then s\<lparr>st_queue := st_queue s @
                           [SendPasswordResetEmail (user_email u)
                              (create_password_reset_token (e_jwt E) (e_settings E) now jti
                                 (py_str (user_id u)))]\<rparr>
                    else s)
      in (Inr generic_reset_message, s'))"

definition forgot_password_limiter :: rate_limiter where
  "forgot_password_limiter =
     \<lparr>rl_times = 5, rl_seconds = 60, rl_scope = ''forgot-password''\<rparr>"

definition forgot_password_route ::
  "'r env \<Rightarrow> email_validator \<Rightarrow> time \<Rightarrow> string option \<Rightarrow> string \<Rightarrow> string \<Rightarrow> 'r app_state \<Rightarrow>
     (string, 'r app_state) handled" where
  "forgot_password_route E valid now client jti e s =
     limited E forgot_password_limiter now client
       (\<lambda>s. case valid e of
              None \<Rightarrow> (Inl (RequestValidationError ''email''), s)
            | Some e' \<Rightarrow> forgot_password E now jti e' s) s"

definition reset_password ::
  "'r env \<Rightarrow> time \<Rightarrow> string \<Rightarrow> string \<Rightarrow> string \<Rightarrow> 'r app_state \<Rightarrow>
     (string, 'r app_state) handled" where
  "reset_password E now salt token new_password s =
     (let invalid = (Inl (HTTPException 401 ''Invalid or expired password reset token'' []), s) in
      case decode_password_reset_token (e_jwt E) (e_settings E) now token of
        None \<Rightarrow> invalid
      | Some claims \<Rightarrow>
          if is_token_used (e_redis E) (st_redis s) now (claims_jti claims) then invalid
          else (case py_int (claims_subject claims) of
             None \<Rightarrow> (Inl (HTTPException 401 ''Invalid password reset token subject'' []), s)
           | Some uid \<Rightarrow>
               (case get_user (st_db s) uid of
                  None \<Rightarrow> (Inl (HTTPException 404 ''User not found'' []), s)
                | Some u \<Rightarrow>
                    if \<not> user_is_active u
                    then (Inl (HTTPException 403 ''User account is inactive'' []), s)
                    else if (case user_hashed_password u of None \<Rightarrow> False
                             | Some hashed \<Rightarrow> verify_password (e_hash E) new_password hashed)
                    then (Inl (HTTPException 400 ''New password must be different'' []), s)
                    else (case update_user (st_db s)
                             (u\<lparr>user_hashed_password :=
                                  Some (hash_password (e_hash E) salt new_password)\<rparr>) of
                            Inl err \<Rightarrow> (Inl err, s)
                          | Inr d \<Rightarrow>
                              (Inr ''Password reset successfully'',
                               s\<lparr>st_db := d,
                                 st_redis := mark_token_used (e_redis E) (st_redis s) now
                                   (claims_jti claims)
                                   (remaining_ttl_seconds (claims_expires_at claims) now)\<rparr>)))))"

definition reset_password_route ::
  "'r env \<Rightarrow> time \<Rightarrow> string \<Rightarrow> string \<Rightarrow> string \<Rightarrow> 'r app_state \<Rightarrow>
     (string, 'r app_state) handled" where
  "reset_password_route E now salt token p s =
     (case validate_new_password p of
        Inl m \<Rightarrow> (Inl (RequestValidationError m), s)
      | Inr p' \<Rightarrow> reset_password E now salt token p' s)"

subsection \<open>The routes keep the database invariant\<close>

lemma register_user_safe [safety]:
  assumes inv: "db_inv (st_db s)"
  shows "safe_result (register_user E now jti salt user_data s)"
proof (cases "select_user_by_email (st_db s) (lower (uc_email user_data))")
  case (Some u)
  then show ?thesis using inv by (simp add: register_user_def email_taken_def)
next
  case None
  define h where "h = hash_password (e_hash E) salt (uc_password user_data)"
  obtain u d1 where ins: "insert_user (st_db s) (lower (uc_email user_data)) (Some h)
      True False now = Inr (u, d1)"
    using None by (simp add: insert_user_def Let_def)
  have inv1: "db_inv d1" using insert_user_inv [OF ins inv] .
  have d1: "roles d1 = roles (st_db s)" "user_roles d1 = user_roles (st_db s)"
    "user_id u \<in> user_id ` set (users d1)"
    using ins by (auto simp: insert_user_Inr)
  have new: "user_id u \<notin> user_id ` set (users (st_db s))"
    using ins inv by (auto simp: insert_user_Inr db_inv_def db_wf_def users_wf_def)
  show ?thesis
  proof (cases "select_role_by_name (st_db s) DEFAULT_USER_ROLE_NAME")
    case None
    with \<open>select_user_by_email _ _ = None\<close> ins inv1 show ?thesis
      by (simp add: register_user_def h_def)
  next
    case (Some r)
    have "(user_id u, role_id r) \<notin> set (user_roles (st_db s))"
      using inv new by (intro append_role_new_user) (simp_all add: db_inv_def db_wf_def)
    then obtain d2 where app: "append_role d1 (user_id u) (role_id r) = Inr d2"
      by (simp add: append_role_def d1)
    have "db_inv d2"
      using append_role_inv [OF app inv1] d1 select_role_SomeD [OF Some] by auto
    with None Some ins app show ?thesis by (simp add: register_user_def h_def)
  qed
qed

lemma login_user_safe [safety]:
  "db_inv (st_db s) \<Longrightarrow> safe_result (login_user E now jti1 jti2 login_data s)"
  by (auto simp: login_user_def invalid_credentials_def Let_def split: option.splits)

lemma refresh_safe [safety]:
  "db_inv (st_db s) \<Longrightarrow> safe_result (refresh_access_token E now jti tok s)"
  by (auto simp: refresh_access_token_def Let_def split: option.splits)

lemma logout_safe [safety]: "db_inv (st_db s) \<Longrightarrow> safe_result (logout E now cred tok s)"
  by (auto simp: logout_def Let_def split: option.splits)

lemma forgot_password_safe [safety]:
  "db_inv (st_db s) \<Longrightarrow> safe_result (forgot_password E now jti e s)"
  by (auto simp: forgot_password_def Let_def split: option.splits)

lemma verify_email_safe [safety]:
  assumes "db_inv (st_db s)"
  shows "safe_result (verify_email E now tok s)"
proof -
  have step: "safe_result (case update_user (st_db s) (u\<lparr>user_is_verified := True\<rparr>) of
      Inl err \<Rightarrow> (Inl err, s) | Inr d \<Rightarrow> (Inr m, s\<lparr>st_db := d, st_redis := r\<rparr>))"
    if "get_user (st_db s) i = Some u" for u i r and m :: string
    using update_existing [OF assms that, of "u\<lparr>user_is_verified := True\<rparr>"] by simp
  show ?thesis
    unfolding verify_email_def Let_def
    by (auto split: option.split simp: assms intro: step simp del: fun_upd_apply)
qed

lemma reset_password_safe [safety]:
  assumes "db_inv (st_db s)"
  shows "safe_result (reset_password E now salt tok p s)"
proof -
  have step: "safe_result (case update_user (st_db s) (u\<lparr>user_hashed_password := Some h\<rparr>) of
      Inl err \<Rightarrow> (Inl err, s) | Inr d \<Rightarrow> (Inr m, s\<lparr>st_db := d, st_redis := r\<rparr>))"
    if "get_user (st_db s) i = Some u" for u i h r and m :: string
    using update_existing [OF assms that, of "u\<lparr>user_hashed_password := Some h\<rparr>"] by simp
  show ?thesis
    unfolding reset_password_def Let_def
    by (auto split: option.split simp: assms intro: step simp del: fun_upd_apply)
qed

lemma register_route_safe [safety]:
  "db_inv (st_db s) \<Longrightarrow> safe_result (register_route E valid now client jti salt e p s)"
  by (auto simp: register_route_def validate_user_create_def register_user_safe
      intro!: limited_safe split: option.splits sum.splits)

lemma login_route_safe [safety]:
  "db_inv (st_db s) \<Longrightarrow> safe_result (login_route E valid now client jti1 jti2 e p s)"
  by (auto simp: login_route_def login_user_safe intro!: limited_safe split: option.splits)

lemma forgot_password_route_safe [safety]:
  "db_inv (st_db s) \<Longrightarrow> safe_result (forgot_password_route E valid now client jti e s)"
  by (auto simp: forgot_password_route_def forgot_password_safe intro!: limited_safe
      split: option.splits)

lemma reset_password_route_safe [safety]:
  "db_inv (st_db s) \<Longrightarrow> safe_result (reset_password_route E now salt tok p s)"
  by (auto simp: reset_password_route_def reset_password_safe split: sum.splits)

subsection \<open>Tokens that the service issued\<close>

definition access_expiry :: "'r env \<Rightarrow> time \<Rightarrow> time" where
  "access_expiry E t = t + minutes (access_token_expire_minutes (e_settings E))"

definition refresh_expiry :: "'r env \<Rightarrow> time \<Rightarrow> time" where
  "refresh_expiry E t = t + days (refresh_token_expire_days (e_settings E))"

context auth_services begin

abbreviation "access_token t jti sub \<equiv> create_access_token (e_jwt E) (e_settings E) t jti sub"
abbreviation "refresh_token t jti sub \<equiv> create_refresh_token (e_jwt E) (e_settings E) t jti sub"

lemma decode_access_issued:
  "t' < expiry_second (access_expiry E t) \<Longrightarrow>
     decode_access_token (e_jwt E) (e_settings E) t' (access_token t jti sub) =
       Some (issued_claims sub jti (access_expiry E t))"
  by (simp add: decode_access_token_def create_access_token_def access_expiry_def decode_created)

lemma decode_access_cases:
  "decode_access_token (e_jwt E) (e_settings E) t' (access_token t jti sub) \<in>
     {None, Some (issued_claims sub jti (access_expiry E t))}"
  using decode_created_cases [of "e_settings E" t' t jti sub "''access''" _ "''access''"]
  by (simp add: decode_access_token_def create_access_token_def access_expiry_def)

lemma decode_refresh_issued:
  "t' < expiry_second (refresh_expiry E t) \<Longrightarrow>
     decode_refresh_token (e_jwt E) (e_settings E) t' (refresh_token t jti sub) =
       Some (issued_claims sub jti (refresh_expiry E t))"
  by (simp add: decode_refresh_token_def create_refresh_token_def refresh_expiry_def decode_created)

lemma decode_refresh_cases:
  "decode_refresh_token (e_jwt E) (e_settings E) t' (refresh_token t jti sub) \<in>
     {None, Some (issued_claims sub jti (refresh_expiry E t))}"
  using decode_created_cases [of "e_settings E" t' t jti sub "''refresh''" _ "''refresh''"]
  by (simp add: decode_refresh_token_def create_refresh_token_def refresh_expiry_def)

lemma decode_verification_issued:
  "t' < expiry_second (t + minutes 30) \<Longrightarrow>
     decode_email_verification_token (e_jwt E) (e_settings E) t'
       (create_email_verification_token (e_jwt E) (e_settings E) t jti sub) =
       Some (issued_claims sub jti (t + minutes 30))"
  by (simp add: decode_email_verification_token_def create_email_verification_token_def
      decode_created)

lemma decode_reset_issued:
  "t' < expiry_second (t + minutes 15) \<Longrightarrow>
     decode_password_reset_token (e_jwt E) (e_settings E) t'
       (create_password_reset_token (e_jwt E) (e_settings E) t jti sub) =
       Some (issued_claims sub jti (t + minutes 15))"
  by (simp add: decode_password_reset_token_def create_password_reset_token_def decode_created)

lemma decode_reset_cases:
  "decode_password_reset_token (e_jwt E) (e_settings E) t'
     (create_password_reset_token (e_jwt E) (e_settings E) t jti sub) \<in>
     {None, Some (issued_claims sub jti (t + minutes 15))}"
  using decode_created_cases
    [of "e_settings E" t' t jti sub "''password_reset''" _ "''password_reset''"]
  by (simp add: decode_password_reset_token_def create_password_reset_token_def)

lemma wrong_kind:
  "decode_refresh_token (e_jwt E) (e_settings E) t' (access_token t jti sub) = None"
  "decode_access_token (e_jwt E) (e_settings E) t' (refresh_token t jti sub) = None"
  by (simp_all add: decode_refresh_token_def decode_access_token_def create_access_token_def
      create_refresh_token_def decode_other_type)

text \<open>The current user of a token the service issued, before its last second.\<close>

lemma current_user_issued:
  "t' < expiry_second (access_expiry E t) \<Longrightarrow>
     \<not> is_token_blacklisted (e_redis E) (st_redis s) t' jti \<Longrightarrow>
     select_user_by_email (st_db s) sub = Some u \<Longrightarrow> user_is_active u \<Longrightarrow>
     get_current_user E t' (access_token t jti sub) s = Inr u"
  by (simp add: get_current_user_def decode_access_issued issued_claims_def)

lemma current_user_blacklisted:
  assumes "is_token_blacklisted (e_redis E) (st_redis s) t' jti"
  shows "\<exists>m. get_current_user E t' (access_token t jti sub) s =
    Inl (HTTPException 401 m bearer_challenge)"
  using assms decode_access_cases [of t' t jti sub]
  by (auto simp: get_current_user_def issued_claims_def)

lemma refresh_blacklisted:
  assumes "is_token_blacklisted (e_redis E) (st_redis s) t' jti"
  shows "refresh_access_token E t' j (refresh_token t jti sub) s =
    (Inl (HTTPException 401 ''Invalid or expired refresh token'' []), s)"
  using assms decode_refresh_cases [of t' t jti sub]
  by (auto simp: refresh_access_token_def issued_claims_def)

text \<open>What a successful logout leaves behind.\<close>

lemma logout_marks:
  assumes "logout E t (access_token ta ja sa) (Some (refresh_token tr jr sr)) s = (Inr (), s1)"
    and "ja \<noteq> jr" and "t \<le> t'"
  shows "t' < t + remaining_ttl_seconds (expiry_second (access_expiry E ta)) t * second \<Longrightarrow>
      is_token_blacklisted (e_redis E) (st_redis s1) t' ja"
    and "decode_refresh_token (e_jwt E) (e_settings E) t (refresh_token tr jr sr) \<noteq> None \<Longrightarrow>
      t' < t + remaining_ttl_seconds (expiry_second (refresh_expiry E tr)) t * second \<Longrightarrow>
      is_token_blacklisted (e_redis E) (st_redis s1) t' jr"
proof -
  let ?R = "e_redis E"
  let ?ra = "blacklist_token ?R (st_redis s) t ja
    (remaining_ttl_seconds (expiry_second (access_expiry E ta)) t)"
  let ?rr = "blacklist_token ?R ?ra t jr
    (remaining_ttl_seconds (expiry_second (refresh_expiry E tr)) t)"
  have a: "decode_access_token (e_jwt E) (e_settings E) t (access_token ta ja sa) =
      Some (issued_claims sa ja (access_expiry E ta))"
    using assms(1) decode_access_cases [of t ta ja sa] by (auto simp: logout_def split: option.splits)
  consider (none) "decode_refresh_token (e_jwt E) (e_settings E) t (refresh_token tr jr sr) = None"
      "st_redis s1 = ?ra"
    | (both) "st_redis s1 = ?rr"
    using assms(1) a decode_refresh_cases [of t tr jr sr]
    by (auto simp: logout_def issued_claims_def Let_def)
  note cases = this
  show "is_token_blacklisted ?R (st_redis s1) t' ja"
    if "t' < t + remaining_ttl_seconds (expiry_second (access_expiry E ta)) t * second"
    using cases assms(2,3) that
    by cases (simp_all add: blacklist.marked_until blacklist.marked_other)
  show "is_token_blacklisted ?R (st_redis s1) t' jr"
    if "decode_refresh_token (e_jwt E) (e_settings E) t (refresh_token tr jr sr) \<noteq> None"
      "t' < t + remaining_ttl_seconds (expiry_second (refresh_expiry E tr)) t * second"
    using cases assms(3) that by cases (simp_all add: blacklist.marked_until)
qed

end
subsection \<open>What the handlers answer and leave behind\<close>

lemma register_user_Inr:
  assumes "register_user E now jti salt user_data s = (Inr resp, t)"
  shows "select_user_by_email (st_db s) (lower (uc_email user_data)) = None"
    and "resp = \<lparr>reg_id = seq_users (st_db s), reg_email = lower (uc_email user_data),
        reg_is_active = True, reg_is_verified = False,
        reg_message = ''Registration successful. Check your email to verify your account.''\<rparr>"
    and "users (st_db t) = row_add (users (st_db s))
        \<lparr>user_id = seq_users (st_db s), user_email = lower (uc_email user_data),
         user_hashed_password = Some (hash_password (e_hash E) salt (uc_password user_data)),
         user_is_active = True, user_is_verified = False, user_created_at = now\<rparr>"
    and "st_queue t = st_queue s @ [SendVerificationEmail (lower (uc_email user_data))
        (create_email_verification_token (e_jwt E) (e_settings E) now jti
           (py_str (seq_users (st_db s))))]"
    and "st_redis t = st_redis s"
    and "oauth_accounts (st_db t) = oauth_accounts (st_db s)"
    and "user_roles (st_db t) = user_roles (st_db s) @
        (case select_role_by_name (st_db s) DEFAULT_USER_ROLE_NAME of
           None \<Rightarrow> [] | Some r \<Rightarrow> [(seq_users (st_db s), role_id r)])"
    and "roles (st_db t) = roles (st_db s)"
    and "seq_users (st_db t) = seq_users (st_db s) + 1"
    and "file_uploads (st_db t) = file_uploads (st_db s)"
  using assms by (auto simp: register_user_def Let_def insert_user_Inr append_role_def
      split: option.splits sum.splits prod.splits if_splits)

lemma login_user_Inr:
  "fst (login_user E now jti1 jti2 login_data s) = Inr resp \<longleftrightarrow>
     (\<exists>u h. select_user_by_email (st_db s) (lower (login_email login_data)) = Some u \<and>
        user_hashed_password u = Some h \<and>
        verify_password (e_hash E) (login_password login_data) h \<and>
        user_is_verified u \<and> user_is_active u \<and>
        resp = bearer_tokens E now jti1 jti2 (user_email u))"
  by (auto simp: login_user_def invalid_credentials_def Let_def split: option.splits if_splits)

lemma login_user_state [simp]: "snd (login_user E now jti1 jti2 login_data s) = s"
  by (auto simp: login_user_def Let_def split: option.splits if_splits)

subsection \<open>Single-use links that the service issued\<close>

lemma py_int_id: "\<bar>i\<bar> < 10 ^ 20 \<Longrightarrow> py_int (py_str i) = Some i"
  by (rule py_int_py_str, rule below_digit_limit)

lemma select_updated_user:
  assumes "db_inv (d\<lparr>users := row_put user_id (users d) u\<rparr>)" and "user_id u \<in> user_id ` set (users d)"
  shows "select_user_by_email (d\<lparr>users := row_put user_id (users d) u\<rparr>) (user_email u) = Some u"
    and "get_user (d\<lparr>users := row_put user_id (users d) u\<rparr>) (user_id u) = Some u"
proof -
  let ?d = "d\<lparr>users := row_put user_id (users d) u\<rparr>"
  have wf: "users_wf ?d" and u: "u \<in> set (users ?d)"
    using assms by (simp_all add: set_row_put)
  show "select_user_by_email ?d (user_email u) = Some u" by (rule select_user_in [OF wf u])
  show "get_user ?d (user_id u) = Some u" by (rule get_user_in [OF wf u])
qed

definition verified_by ::
  "'r env \<Rightarrow> time \<Rightarrow> time \<Rightarrow> string \<Rightarrow> user \<Rightarrow> 'r app_state \<Rightarrow> 'r app_state" where
  "verified_by E t' t jti u s =
     s\<lparr>st_db := (st_db s)\<lparr>users := row_put user_id (users (st_db s)) (u\<lparr>user_is_verified := True\<rparr>)\<rparr>,
       st_redis := mark_token_used (e_redis E) (st_redis s) t' jti
         (remaining_ttl_seconds (expiry_second (t + minutes 30)) t')\<rparr>"

definition reset_by ::
  "'r env \<Rightarrow> time \<Rightarrow> time \<Rightarrow> string \<Rightarrow> string \<Rightarrow> string \<Rightarrow> user \<Rightarrow> 'r app_state \<Rightarrow> 'r app_state" where
  "reset_by E t' t jti salt p u s =
     s\<lparr>st_db := (st_db s)\<lparr>users := row_put user_id (users (st_db s))
         (u\<lparr>user_hashed_password := Some (hash_password (e_hash E) salt p)\<rparr>)\<rparr>,
       st_redis := mark_token_used (e_redis E) (st_redis s) t' jti
         (remaining_ttl_seconds (expiry_second (t + minutes 15)) t')\<rparr>"

context auth_services begin

abbreviation "verification_token t jti i \<equiv>
  create_email_verification_token (e_jwt E) (e_settings E) t jti (py_str i)"
abbreviation "reset_token t jti i \<equiv>
  create_password_reset_token (e_jwt E) (e_settings E) t jti (py_str i)"

lemma verify_email_issued:
  assumes "db_inv (st_db s)" and u: "get_user (st_db s) i = Some u" and "\<not> user_is_verified u"
    and "\<not> is_token_used (e_redis E) (st_redis s) t' jti"
    and "t' < expiry_second (t + minutes 30)" and "\<bar>i\<bar> < 10 ^ 20"
  shows "verify_email E t' (verification_token t jti i) s =
    (Inr ''Email verified successfully'', verified_by E t' t jti u s)"
  using update_existing(1) [OF assms(1,2), of "u\<lparr>user_is_verified := True\<rparr>"] assms(2-)
  by (simp add: verify_email_def Let_def decode_verification_issued py_int_id issued_claims_def
      verified_by_def)

lemma reset_password_issued:
  assumes "db_inv (st_db s)" and u: "get_user (st_db s) i = Some u" and "user_is_active u"
    and "\<not> is_token_used (e_redis E) (st_redis s) t' jti"
    and "\<And>h. user_hashed_password u = Some h \<Longrightarrow> \<not> verify_password (e_hash E) p h"
    and "t' < expiry_second (t + minutes 15)" and "\<bar>i\<bar> < 10 ^ 20"
  shows "reset_password E t' salt (reset_token t jti i) p s =
    (Inr ''Password reset successfully'', reset_by E t' t jti salt p u s)"
  using update_existing(1) [OF assms(1,2),
      of "u\<lparr>user_hashed_password := Some (hash_password (e_hash E) salt p)\<rparr>"] assms(2-)
  by (simp add: reset_password_def Let_def decode_reset_issued py_int_id issued_claims_def
      reset_by_def split: option.split)

lemma reset_password_used:
  assumes "is_token_used (e_redis E) (st_redis s) t' jti"
  shows "reset_password E t' salt (reset_token t jti i) p s =
    (Inl (HTTPException 401 ''Invalid or expired password reset token'' []), s)"
  using assms decode_reset_cases [of t' t jti "py_str i"]
  by (auto simp: reset_password_def Let_def issued_claims_def)

text \<open>A successful reset with an issued link tells which user it changed, and how.\<close>

lemma reset_password_issued_Inr:
  assumes "reset_password E t' salt (reset_token t jti i) p s = (Inr m, s')"
    and "db_inv (st_db s)" and "\<bar>i\<bar> < 10 ^ 20"
  obtains u where "get_user (st_db s) i = Some u" and "user_is_active u"
    and "s' = reset_by E t' t jti salt p u s"
    and "\<not> is_token_used (e_redis E) (st_redis s) t' jti"
proof -
  have d: "decode_password_reset_token (e_jwt E) (e_settings E) t' (reset_token t jti i) =
      Some (issued_claims (py_str i) jti (t + minutes 15))"
    using assms(1) decode_reset_cases [of t' t jti "py_str i"] by (auto simp: reset_password_def)
  show ?thesis
  proof (cases "get_user (st_db s) i")
    case None
    then show ?thesis using assms(1,3) d
      by (simp add: reset_password_def Let_def issued_claims_def py_int_id split: if_splits)
  next
    case (Some u)
    note upd = update_existing(1) [OF assms(2) Some,
        of "u\<lparr>user_hashed_password := Some (hash_password (e_hash E) salt p)\<rparr>"]
    show ?thesis using that [OF Some] assms(1,3) d Some upd
      by (simp add: reset_password_def Let_def issued_claims_def py_int_id reset_by_def
          split: if_splits option.splits)
  qed
qed

end

lemma reset_by_user:
  assumes "db_inv (st_db s)" and "get_user (st_db s) i = Some u"
  shows "select_user_by_email (st_db (reset_by E t' t jti salt p u s)) (user_email u) =
      Some (u\<lparr>user_hashed_password := Some (hash_password (e_hash E) salt p)\<rparr>)"
    and "db_inv (st_db (reset_by E t' t jti salt p u s))"
proof -
  let ?u = "u\<lparr>user_hashed_password := Some (hash_password (e_hash E) salt p)\<rparr>"
  have inv: "db_inv ((st_db s)\<lparr>users := row_put user_id (users (st_db s)) ?u\<rparr>)"
    using update_existing(2) [OF assms, of ?u] by simp
  then show "db_inv (st_db (reset_by E t' t jti salt p u s))" by (simp add: reset_by_def)
  show "select_user_by_email (st_db (reset_by E t' t jti salt p u s)) (user_email u) = Some ?u"
    using select_updated_user(1) [OF inv] get_user_SomeD [OF assms(2)]
    by (auto simp: reset_by_def)
qed

lemma verified_by_user:
  assumes "db_inv (st_db s)" and "get_user (st_db s) i = Some u"
  shows "select_user_by_email (st_db (verified_by E t' t jti u s)) (user_email u) =
      Some (u\<lparr>user_is_verified := True\<rparr>)"
    and "db_inv (st_db (verified_by E t' t jti u s))"
proof -
  let ?u = "u\<lparr>user_is_verified := True\<rparr>"
  have inv: "db_inv ((st_db s)\<lparr>users := row_put user_id (users (st_db s)) ?u\<rparr>)"
    using update_existing(2) [OF assms, of ?u] by simp
  then show "db_inv (st_db (verified_by E t' t jti u s))" by (simp add: verified_by_def)
  show "select_user_by_email (st_db (verified_by E t' t jti u s)) (user_email u) = Some ?u"
    using select_updated_user(1) [OF inv] get_user_SomeD [OF assms(2)]
    by (auto simp: verified_by_def)
qed

end
