(* ===== verification/Examples.thy ===== *)
theory Examples
  imports AuthApi
begin

text \<open>
  A small concrete deployment, on the reference servers: the settings of a development
  machine, an empty database, and the states a first user goes through. The properties are
  applied to it to show that their hypotheses can hold.
\<close>

definition ex_settings :: settings where
  "ex_settings = default_settings ''sqlite://'' ''0123456789abcdef'' ''smtp'' ''user'' ''pw''
     ''app@c.de'' ''App'' ''https://app''"

abbreviation ex_env :: "ref_store env" where "ex_env \<equiv> ref_env ex_settings"

definition ex_state :: "ref_store app_state" where
  "ex_state = \<lparr>st_db = empty_database, st_redis = (\<lambda>_. None), st_queue = [], st_outbox = []\<rparr>"

definition ex_user :: user where
  "ex_user = \<lparr>user_id = 1, user_email = ''ab@c.de'',
     user_hashed_password = Some (hash_password ref_hash ''salt'' ''Secret123''),
     user_is_active = True, user_is_verified = False, user_created_at = 0\<rparr>"

definition ex_link :: string where
  "ex_link = create_email_verification_token ref_jwt ex_settings 0 ''j0'' (py_str 1)"

definition ex_registered :: "ref_store app_state" where
  "ex_registered = ex_state\<lparr>st_db := empty_database\<lparr>users := [ex_user], seq_users := 2\<rparr>,
     st_queue := [SendVerificationEmail ''ab@c.de'' ex_link]\<rparr>"

definition ex_verified :: "ref_store app_state" where
  "ex_verified = verified_by ex_env (5 * second) 0 ''j0'' ex_user ex_registered"

lemma ex_services: "auth_services ex_env" "exact_auth_services ex_env"
  by (rule ref_env.auth_services_axioms ref_env.exact_auth_services_axioms)+

lemma ex_settings_simps [simp]:
  "access_token_expire_minutes ex_settings = 30" "refresh_token_expire_days ex_settings = 7"
  by (simp_all add: ex_settings_def default_settings_def)

lemma ex_email_lower [simp]: "lower ''ab@c.de'' = ''ab@c.de''"
  by (simp add: lower_def lower_char_def is_upper_char_def code_def)

lemma ex_inv: "db_inv (st_db ex_state)" "db_inv (st_db ex_registered)"
proof -
  show "db_inv (st_db ex_state)" by (simp add: ex_state_def db_inv_empty)
  show "db_inv (st_db ex_registered)"
    by (simp add: ex_registered_def empty_database_def ex_user_def db_inv_def db_wf_def wf_defs
        sign_in_ok_iff can_sign_in_iff)
qed

lemma ex_register:
  "register_user ex_env 0 ''j0'' ''salt'' \<lparr>uc_email = ''ab@c.de'', uc_password = ''Secret123''\<rparr> ex_state =
     (Inr \<lparr>reg_id = 1, reg_email = ''ab@c.de'', reg_is_active = True, reg_is_verified = False,
           reg_message = ''Registration successful. Check your email to verify your account.''\<rparr>,
      ex_registered)"
  by (simp add: register_user_def Let_def ex_state_def ex_registered_def ex_user_def ex_link_def
      empty_database_def select_user_by_email_def select_role_by_name_def insert_user_def row_add_def)

lemma ex_user_stored:
  "get_user (st_db ex_registered) 1 = Some ex_user"
  "select_user_by_email (st_db ex_registered) ''ab@c.de'' = Some ex_user"
  by (simp_all add: ex_registered_def ex_user_def get_user_def row_get_def select_user_by_email_def)

lemma ex_redis [simp]: "st_redis ex_registered = (\<lambda>_. None)" "st_redis ex_state = (\<lambda>_. None)"
  by (simp_all add: ex_registered_def ex_state_def)

lemma ex_no_marks [simp]:
  "\<not> is_token_used ref_redis (\<lambda>_. None) t j" "\<not> is_token_blacklisted ref_redis (\<lambda>_. None) t j"
  by (simp_all add: is_token_used_def is_token_blacklisted_def ref_redis_def ref_get_def)

lemma ex_verify: "verify_email ex_env (5 * second) ex_link ex_registered =
    (Inr ''Email verified successfully'', ex_verified)"
  using ref_env.verify_email_issued [where cfg = ex_settings and s = ex_registered
      and i = 1 and u = ex_user and t' = "5 * second" and jti = "''j0''" and t = 0]
    ex_inv(2) ex_user_stored(1)
  by (simp add: ex_link_def ex_verified_def ex_user_def expiry_second_def)

lemma ex_verified_user:
  "select_user_by_email (st_db ex_verified) ''ab@c.de'' = Some (ex_user\<lparr>user_is_verified := True\<rparr>)"
  "db_inv (st_db ex_verified)"
  using verified_by_user [OF ex_inv(2) ex_user_stored(1)]
  by (simp_all add: ex_verified_def ex_user_def)

lemma ex_verified_not_blacklisted [simp]:
  "\<not> is_token_blacklisted ref_redis (st_redis ex_verified) t j"
  by (simp add: ex_verified_def verified_by_def is_token_blacklisted_def ref_redis_def ref_get_def
      mark_token_used_def ref_set_def USED_KEY_PREFIX_def BLACKLIST_KEY_PREFIX_def)

definition ex_access :: string where
  "ex_access = create_access_token (e_jwt ex_env) (e_settings ex_env) (10 * second) ''j1'' ''ab@c.de''"

lemma ex_current: "get_current_user ex_env (20 * second) ex_access ex_verified =
    Inr (ex_user\<lparr>user_is_verified := True\<rparr>)"
  using auth_services.current_user_issued [OF ex_services(1) _ _ ex_verified_user(1), of
      "20 * second" "10 * second" "''j1''"]
  by (simp add: ex_access_def expiry_second_def access_expiry_def) (simp add: ex_user_def)

lemma ex_verified_users: "users (st_db ex_verified) = [ex_user\<lparr>user_is_verified := True\<rparr>]"
  by (simp add: ex_verified_def verified_by_def ex_registered_def row_put_def)

lemma ex_verified_get: "get_user (st_db ex_verified) 1 = Some (ex_user\<lparr>user_is_verified := True\<rparr>)"
  by (simp add: get_user_def row_get_def ex_verified_users) (simp add: ex_user_def)

end
