(* ===== verification/AuthFlows.thy ===== *)
theory AuthFlows
  imports Examples
begin

text \<open>
  The properties of the authentication routes: what a sequence of requests does together.
  Each is stated for every environment that meets the contract \<open>auth_services\<close> and rests on
  the lemmas of \<open>AuthApi\<close>; the witnesses run on the deployment of \<open>Examples\<close>.
\<close>

subsection \<open>From registration to the first authenticated request\<close>

text \<open>C1. A registered account signs in only after its mailed link was followed. Login before
  that is a 403; the link verifies the account as long as it is unspent and before the second
  it expires in; after it, the password that was registered gives tokens, and the access token
  authenticates the account that was registered until its own expiry second.\<close>

theorem register_verify_login:
  assumes "auth_services E" and "db_inv (st_db s)"
    and "register_user E t0 jti salt \<lparr>uc_email = e, uc_password = p\<rparr> s = (Inr resp, s1)"
    and "reg_id resp < 10 ^ 20"
    and "st_queue s1 = st_queue s @ [SendVerificationEmail addr link]"
    and "\<not> is_token_used (e_redis E) (st_redis s1) t1 jti"
    and "t1 < expiry_second (t0 + minutes 30)"
    and "verify_email E t1 link s1 = (answer, s2)"
    and "t3 < expiry_second (access_expiry E t2)"
    and "\<not> is_token_blacklisted (e_redis E) (st_redis s2) t3 j1"
  shows "login_user E t2 j1 j2 \<lparr>login_email = e, login_password = p\<rparr> s1 =
      (Inl (HTTPException 403 ''Email address is not verified'' []), s1) \<and>
    answer = Inr ''Email verified successfully'' \<and>
    login_user E t2 j1 j2 \<lparr>login_email = e, login_password = p\<rparr> s2 =
      (Inr (bearer_tokens E t2 j1 j2 (lower e)), s2) \<and>
    (\<exists>u. get_current_user E t3 (tr_access_token (bearer_tokens E t2 j1 j2 (lower e))) s2 = Inr u \<and>
       user_id u = reg_id resp \<and> user_email u = lower e)"
proof -
  note reg = register_user_Inr [OF assms(3), simplified]
  let ?u = "\<lparr>user_id = reg_id resp, user_email = lower e,
    user_hashed_password = Some (hash_password (e_hash E) salt p),
    user_is_active = True, user_is_verified = False, user_created_at = t0\<rparr>"
  have inv1: "db_inv (st_db s1)"
    using register_user_safe [OF assms(2), of E t0 jti salt "\<lparr>uc_email = e, uc_password = p\<rparr>"]
      assms(3) by (simp add: safe_result_def)
  have u: "?u \<in> set (users (st_db s1))" using reg(2,3) by simp
  have sel: "select_user_by_email (st_db s1) (lower e) = Some ?u"
    using select_user_in [OF _ u] inv1 by simp
  have get: "get_user (st_db s1) (reg_id resp) = Some ?u"
    using get_user_in [OF _ u] inv1 by simp
  have id: "\<bar>reg_id resp\<bar> < 10 ^ 20"
    using assms(2,4) reg(2) by (simp add: db_inv_def db_wf_def users_wf_def)
  have verify: "verify_password (e_hash E) p (hash_password (e_hash E) salt p)"
    using password_hasher.verify_hash_password assms(1) by (auto simp: auth_services_def)
  have "link = create_email_verification_token (e_jwt E) (e_settings E) t0 jti (py_str (reg_id resp))"
    using assms(5) reg(2,4) by simp
  then have v: "answer = Inr ''Email verified successfully''" "s2 = verified_by E t1 t0 jti ?u s1"
    using auth_services.verify_email_issued [OF assms(1) inv1 get _ assms(6,7) id] assms(8) by simp_all
  have sel2: "select_user_by_email (st_db s2) (lower e) = Some (?u\<lparr>user_is_verified := True\<rparr>)"
    using verified_by_user(1) [OF inv1 get] v(2) by simp
  have "get_current_user E t3 (tr_access_token (bearer_tokens E t2 j1 j2 (lower e))) s2 =
      Inr (?u\<lparr>user_is_verified := True\<rparr>)"
    using auth_services.current_user_issued [OF assms(1) assms(9,10) sel2]
    by (simp add: bearer_tokens_def)
  with v sel sel2 verify show ?thesis by (simp add: login_user_def Let_def)
qed

theorem register_verify_login_witness:
  "fst (login_user ex_env (10 * second) ''j1'' ''j2''
      \<lparr>login_email = ''ab@c.de'', login_password = ''Secret123''\<rparr> ex_verified) =
    Inr (bearer_tokens ex_env (10 * second) ''j1'' ''j2'' ''ab@c.de'')"
  using register_verify_login [OF ex_services(1) ex_inv(1) ex_register _ _ _ _
      _ _ _, of "''ab@c.de''" ex_link "5 * second" "Inr ''Email verified successfully''"
      ex_verified "20 * second" "10 * second" "''j1''" "''j2''"] ex_verify
  by (simp add: ex_registered_def ex_state_def expiry_second_def access_expiry_def)

text \<open>Registration is refused with a 409 exactly when the lower-cased address is taken. It
  then changes nothing. Otherwise it adds one active, unverified user under a fresh id whose
  stored hash verifies the password, gives it the role \<open>user\<close> where that role exists, mails a
  link for that very id, and leaves every other row and Redis alone.\<close>

theorem register_user_effect:
  assumes "auth_services E" and "db_inv (st_db s)"
    and "register_user E now jti salt \<lparr>uc_email = e, uc_password = p\<rparr> s = (res, t)"
  shows "if lower e \<in> user_email ` set (users (st_db s))
    then res = Inl email_taken \<and> t = s
    else \<exists>u h. users (st_db t) = users (st_db s) @ [u] \<and>
      user_id u \<notin> user_id ` set (users (st_db s)) \<and> user_email u = lower e \<and>
      user_hashed_password u = Some h \<and> verify_password (e_hash E) p h \<and>
      user_is_active u \<and> \<not> user_is_verified u \<and>
      map role_name (roles_of (st_db t) (user_id u)) =
        filter (\<lambda>n. n = DEFAULT_USER_ROLE_NAME) (map role_name (roles (st_db s))) \<and>
      st_queue t = st_queue s @ [SendVerificationEmail (lower e)
        (create_email_verification_token (e_jwt E) (e_settings E) now jti (py_str (user_id u)))] \<and>
      st_redis t = st_redis s \<and> oauth_accounts (st_db t) = oauth_accounts (st_db s) \<and>
      file_uploads (st_db t) = file_uploads (st_db s) \<and> roles (st_db t) = roles (st_db s) \<and>
      res = Inr \<lparr>reg_id = user_id u, reg_email = lower e, reg_is_active = True,
        reg_is_verified = False,
        reg_message = ''Registration successful. Check your email to verify your account.''\<rparr>"
proof (cases "lower e \<in> user_email ` set (users (st_db s))")
  case True
  then have "select_user_by_email (st_db s) (lower e) \<noteq> None" by (simp add: select_user_None)
  with True assms(3) show ?thesis by (auto simp: register_user_def)
next
  case False
  then have sel: "select_user_by_email (st_db s) (lower e) = None" by (simp add: select_user_None)
  obtain resp where res: "res = Inr resp"
  proof (cases res)
    case (Inl err)
    have "(seq_users (st_db s), r) \<notin> set (user_roles (st_db s))" for r
      using assms(2)
      by (intro append_role_new_user) (auto simp: db_inv_def db_wf_def users_wf_def)
    with Inl assms(3) sel show ?thesis
      by (auto simp: register_user_def Let_def insert_user_def append_role_def split: option.splits)
  qed simp
  note reg = register_user_Inr [OF assms(3) [unfolded res], simplified]
  have new: "seq_users (st_db s) \<notin> user_id ` set (users (st_db s))"
    using assms(2) by (auto simp: db_inv_def db_wf_def users_wf_def)
  have "verify_password (e_hash E) p (hash_password (e_hash E) salt p)"
    using password_hasher.verify_hash_password assms(1) by (auto simp: auth_services_def)
  moreover have "map role_name (roles_of (st_db t) (seq_users (st_db s))) =
      filter (\<lambda>n. n = DEFAULT_USER_ROLE_NAME) (map role_name (roles (st_db s)))"
  proof -
    have wf: "rbac_wf (st_db s)" using assms(2) by (simp add: db_inv_def db_wf_def)
    have "(seq_users (st_db s), role_id r) \<in> set (user_roles (st_db t)) \<longleftrightarrow>
        role_name r = DEFAULT_USER_ROLE_NAME" if r: "r \<in> set (roles (st_db s))" for r
      using reg(7) append_role_new_user [OF wf new] select_role_in [OF wf r]
        role_same_id [OF wf r] select_role_SomeD [of "st_db s" DEFAULT_USER_ROLE_NAME] r
      by (cases "select_role_by_name (st_db s) DEFAULT_USER_ROLE_NAME")
         (auto simp: select_role_None image_iff)
    then have "roles_of (st_db t) (seq_users (st_db s)) =
        filter (\<lambda>r. role_name r = DEFAULT_USER_ROLE_NAME) (roles (st_db s))"
      using reg(8) by (simp add: roles_of_def cong: filter_cong)
    then show ?thesis by (simp add: filter_map comp_def)
  qed
  ultimately show ?thesis using False reg res new by (auto simp: row_add_def)
qed

theorem register_user_effect_witness:
  "\<exists>u. users (st_db ex_registered) = users (st_db ex_state) @ [u]"
  using register_user_effect [OF ex_services(1) ex_inv(1) ex_register]
  by (auto simp: ex_state_def empty_database_def)

subsection \<open>Revocation\<close>

text \<open>C6. A logout that succeeds revokes both tokens it was given. From then on, until the
  deadline of its mark, the access token authenticates nobody (a 401 challenge) and the refresh
  token buys no access token, in any state that keeps what Redis holds.\<close>

theorem logout_revokes:
  assumes "auth_services E"
    and "logout E t (create_access_token (e_jwt E) (e_settings E) ta ja sa)
           (Some (create_refresh_token (e_jwt E) (e_settings E) tr jr sr)) s = (Inr (), s1)"
    and "ja \<noteq> jr" and "t \<le> t'" and "st_redis s' = st_redis s1"
  shows "(t' < t + remaining_ttl_seconds (expiry_second (access_expiry E ta)) t * second \<longrightarrow>
      (\<exists>m. get_current_user E t' (create_access_token (e_jwt E) (e_settings E) ta ja sa) s' =
         Inl (HTTPException 401 m bearer_challenge))) \<and>
    (t < expiry_second (refresh_expiry E tr) \<longrightarrow>
     t' < t + remaining_ttl_seconds (expiry_second (refresh_expiry E tr)) t * second \<longrightarrow>
      refresh_access_token E t' j (create_refresh_token (e_jwt E) (e_settings E) tr jr sr) s' =
        (Inl (HTTPException 401 ''Invalid or expired refresh token'' []), s'))"
proof (intro conjI impI)
  note marks = auth_services.logout_marks [OF assms(1-4)]
  show "\<exists>m. get_current_user E t' (create_access_token (e_jwt E) (e_settings E) ta ja sa) s' =
      Inl (HTTPException 401 m bearer_challenge)"
    if "t' < t + remaining_ttl_seconds (expiry_second (access_expiry E ta)) t * second"
    using marks(1) [OF that] assms(5)
    by (intro auth_services.current_user_blacklisted [OF assms(1)]) simp
  show "refresh_access_token E t' j (create_refresh_token (e_jwt E) (e_settings E) tr jr sr) s' =
      (Inl (HTTPException 401 ''Invalid or expired refresh token'' []), s')"
    if "t < expiry_second (refresh_expiry E tr)"
      "t' < t + remaining_ttl_seconds (expiry_second (refresh_expiry E tr)) t * second"
    using marks(2) [OF _ that(2)] assms(5)
      auth_services.decode_refresh_issued [OF assms(1) that(1)]
    by (intro auth_services.refresh_blacklisted [OF assms(1)]) simp
qed

definition ex_logged_out :: "ref_store app_state" where
  "ex_logged_out = snd (logout ex_env (20 * second)
     (create_access_token ref_jwt ex_settings (10 * second) ''j1'' ''ab@c.de'')
     (Some (create_refresh_token ref_jwt ex_settings (10 * second) ''j2'' ''ab@c.de'')) ex_verified)"

lemma ex_logout:
  "logout ex_env (20 * second)
     (create_access_token ref_jwt ex_settings (10 * second) ''j1'' ''ab@c.de'')
     (Some (create_refresh_token ref_jwt ex_settings (10 * second) ''j2'' ''ab@c.de'')) ex_verified =
   (Inr (), ex_logged_out)"
  using ref_env.decode_access_issued [where cfg = ex_settings and t' = "20 * second" and
      t = "10 * second" and jti = "''j1''" and sub = "''ab@c.de''"]
  by (simp add: ex_logged_out_def logout_def Let_def access_expiry_def expiry_second_def)

theorem logout_revokes_witness:
  "fst (refresh_access_token ex_env (3600 * second) ''j3''
     (create_refresh_token ref_jwt ex_settings (10 * second) ''j2'' ''ab@c.de'') ex_logged_out) =
   Inl (HTTPException 401 ''Invalid or expired refresh token'' [])"
  using logout_revokes [OF ex_services(1), of "20 * second" "10 * second" "''j1''" "''ab@c.de''"
      "10 * second" "''j2''" "''ab@c.de''" ex_verified ex_logged_out "3600 * second" ex_logged_out
      "''j3''"] ex_logout
  by (simp add: expiry_second_def refresh_expiry_def remaining_ttl_eq)

text \<open>What a logout does not cover. The mark lasts the remaining lifetime rounded down to
  whole seconds, so a token that was revoked is accepted again in the part of a second
  between the end of the mark and the token's own expiry second.\<close>

theorem revoked_token_returns:
  assumes "auth_services E"
    and "logout E t (create_access_token (e_jwt E) (e_settings E) ta ja sa) None s = (Inr (), s1)"
    and "\<not> is_token_blacklisted (e_redis E) (st_redis s) t' ja"
    and "t + remaining_ttl_seconds (expiry_second (access_expiry E ta)) t * second \<le> t'" and "t \<le> t'"
    and "t' < expiry_second (access_expiry E ta)" and "st_redis s' = st_redis s1"
    and "select_user_by_email (st_db s') sa = Some u" and "user_is_active u"
  shows "get_current_user E t' (create_access_token (e_jwt E) (e_settings E) ta ja sa) s' = Inr u"
proof -
  have "t < expiry_second (access_expiry E ta)" using assms(5,6) by simp
  then have "st_redis s1 = blacklist_token (e_redis E) (st_redis s) t ja
      (remaining_ttl_seconds (expiry_second (access_expiry E ta)) t)"
    using assms(2) auth_services.decode_access_issued [OF assms(1)]
    by (auto simp: logout_def issued_claims_def)
  then have "\<not> is_token_blacklisted (e_redis E) (st_redis s1) t' ja"
    using assms(1,3-5) token_marks.marked_mark [OF redis_server.blacklist_marks, of "e_redis E"]
    by (simp add: auth_services_def)
  then show ?thesis
    using assms(6-9) by (intro auth_services.current_user_issued [OF assms(1)]) simp_all
qed

definition ex_logged_out_late :: "ref_store app_state" where
  "ex_logged_out_late = snd (logout ex_env (20 * second + 500000)
     (create_access_token ref_jwt ex_settings 0 ''j1'' ''ab@c.de'') None ex_verified)"

lemma ex_logout_late:
  "logout ex_env (20 * second + 500000)
     (create_access_token ref_jwt ex_settings 0 ''j1'' ''ab@c.de'') None ex_verified =
   (Inr (), ex_logged_out_late)"
  "st_db ex_logged_out_late = st_db ex_verified"
  using ref_env.decode_access_issued [where cfg = ex_settings and t' = "20 * second + 500000" and
      t = 0 and jti = "''j1''" and sub = "''ab@c.de''"]
  by (simp_all add: ex_logged_out_late_def logout_def Let_def access_expiry_def expiry_second_def)

theorem revoked_token_returns_witness:
  "get_current_user ex_env (1799 * second + 700000)
     (create_access_token ref_jwt ex_settings 0 ''j1'' ''ab@c.de'') ex_logged_out_late =
   Inr (ex_user\<lparr>user_is_verified := True\<rparr>)"
  using revoked_token_returns [OF ex_services(1), of "20 * second + 500000" 0 "''j1''" "''ab@c.de''"
      ex_verified ex_logged_out_late "1799 * second + 700000" ex_logged_out_late
      "ex_user\<lparr>user_is_verified := True\<rparr>"] ex_verified_user(1) ex_logout_late
  by (simp add: expiry_second_def access_expiry_def remaining_ttl_eq ex_user_def)

text \<open>A WebSocket is authenticated exactly like a request: the same token in the same
  state gives the same user, and every refusal is the policy-violation close code.\<close>

theorem websocket_authenticates_alike:
  "(get_current_user_ws E now tok s = Inr u) = (get_current_user E now tok s = Inr u) \<and>
   (get_current_user_ws E now tok s \<in>
      insert (Inl (WebSocketException WS_1008_POLICY_VIOLATION)) (range Inr))"
  by (auto simp: get_current_user_ws_def get_current_user_def Let_def split: option.splits)

subsection \<open>Mailed links\<close>

text \<open>Following a verification link. It succeeds for exactly one user, the one the link
  names; a first success sets that user's flag, spends the link and changes nothing else, a
  later one changes nothing at all; and every refusal leaves the whole state as it was.\<close>

theorem verify_email_effect:
  assumes "db_inv (st_db s)" and "verify_email E now token s = (res, s')"
  shows "(\<exists>err. res = Inl err \<and> \<not> unforeseen err \<and> s' = s) \<or>
    (\<exists>claims i u. decode_email_verification_token (e_jwt E) (e_settings E) now token = Some claims \<and>
       py_int (claims_subject claims) = Some i \<and> get_user (st_db s) i = Some u \<and>
       (user_is_verified u \<and> res = Inr ''Email is already verified'' \<and> s' = s \<or>
        \<not> user_is_verified u \<and> \<not> is_token_used (e_redis E) (st_redis s) now (claims_jti claims) \<and>
        res = Inr ''Email verified successfully'' \<and>
        s' = s\<lparr>st_db := (st_db s)\<lparr>users := row_put user_id (users (st_db s))
                                      (u\<lparr>user_is_verified := True\<rparr>)\<rparr>,
               st_redis := mark_token_used (e_redis E) (st_redis s) now (claims_jti claims)
                 (remaining_ttl_seconds (claims_expires_at claims) now)\<rparr>))"
proof (cases "decode_email_verification_token (e_jwt E) (e_settings E) now token")
  case None
  then show ?thesis using assms(2) by (auto simp: verify_email_def)
next
  case claims: (Some claims)
  show ?thesis
  proof (cases "py_int (claims_subject claims)")
    case None
    then show ?thesis using assms(2) claims by (auto simp: verify_email_def)
  next
    case i: (Some i)
    show ?thesis
    proof (cases "get_user (st_db s) i")
      case None
      then show ?thesis using assms(2) claims i by (auto simp: verify_email_def)
    next
      case (Some u)
      then show ?thesis
        using assms(2) claims i update_existing(1) [OF assms(1) Some, of "u\<lparr>user_is_verified := True\<rparr>"]
        by (auto simp: verify_email_def Let_def split: if_splits)
    qed
  qed
qed

theorem verify_email_effect_witness:
  "\<exists>i u. get_user (st_db ex_registered) i = Some u \<and> \<not> user_is_verified u"
  using verify_email_effect [OF ex_inv(2) ex_verify] by auto

text \<open>A successful reset. Sign-in to that account then takes the new password and no other one, and the
  same link is refused as long as Redis is as the reset left it, until its mark ends, and again when
  the link itself is over.\<close>

lemma reset_password_spends:
  assumes "exact_auth_services E" and "db_inv (st_db s)" and "\<bar>i\<bar> < 10 ^ 20"
    and "reset_password E now salt
           (create_password_reset_token (e_jwt E) (e_settings E) t jti (py_str i)) p s = (Inr m, s1)"
  shows "(\<exists>u. get_user (st_db s) i = Some u \<and>
      (\<forall>e q j1 j2 now'. lower e = user_email u \<longrightarrow>
        (fst (login_user E now' j1 j2 \<lparr>login_email = e, login_password = q\<rparr> s1) \<in> range Inr) =
          (q = p \<and> user_is_verified u))) \<and>
    (\<forall>now' salt' q s'. now \<le> now' \<longrightarrow> st_redis s' = st_redis s1 \<longrightarrow>
       now' < now + remaining_ttl_seconds (expiry_second (t + minutes 15)) now * second \<or>
       expiry_second (t + minutes 15) + second \<le> now' \<longrightarrow>
       reset_password E now' salt'
         (create_password_reset_token (e_jwt E) (e_settings E) t jti (py_str i)) q s' =
         (Inl (HTTPException 401 ''Invalid or expired password reset token'' []), s'))"
proof -
  have E: "auth_services E" and H: "exact_hasher (e_hash E)"
    using assms(1) by (simp_all add: exact_auth_services_def)
  obtain u where u: "get_user (st_db s) i = Some u" "user_is_active u"
    and s1: "s1 = reset_by E now t jti salt p u s"
    using auth_services.reset_password_issued_Inr [OF E assms(4,2,3)] by blast
  let ?u = "u\<lparr>user_hashed_password := Some (hash_password (e_hash E) salt p)\<rparr>"
  have new: "(fst (login_user E now' j1 j2 \<lparr>login_email = e, login_password = q\<rparr> s1) \<in> range Inr) =
      (q = p \<and> user_is_verified u)" if "lower e = user_email u" for e q j1 j2 now'
    using reset_by_user(1) [OF assms(2) u(1), of E now t jti salt p] u(2) that
      exact_hasher.verify_hash_iff [OF H, of q salt p]
    by (auto simp: s1 login_user_def Let_def invalid_credentials_def)
  have spent: "reset_password E now' salt'
      (create_password_reset_token (e_jwt E) (e_settings E) t jti (py_str i)) q s' =
      (Inl (HTTPException 401 ''Invalid or expired password reset token'' []), s')"
    if "now \<le> now'" "st_redis s' = st_redis s1" and late:
      "now' < now + remaining_ttl_seconds (expiry_second (t + minutes 15)) now * second \<or>
       expiry_second (t + minutes 15) + second \<le> now'" for now' salt' q s'
    using late
  proof
    assume "now' < now + remaining_ttl_seconds (expiry_second (t + minutes 15)) now * second"
    then have "is_token_used (e_redis E) (st_redis s') now' jti"
      using that(1,2) E token_marks.marked_until [OF redis_server.used_marks, of "e_redis E" now now']
      by (simp add: s1 reset_by_def auth_services_def)
    then show ?thesis by (rule auth_services.reset_password_used [OF E])
  next
    assume "expiry_second (t + minutes 15) + second \<le> now'"
    then have "decode_password_reset_token (e_jwt E) (e_settings E) now'
        (create_password_reset_token (e_jwt E) (e_settings E) t jti (py_str i)) = None"
      using E jwt_codec.decode_created_over [of "e_jwt E"]
      by (simp add: decode_password_reset_token_def create_password_reset_token_def
          auth_services_def)
    then show ?thesis by (simp add: reset_password_def)
  qed
  show ?thesis by (intro conjI exI [of _ u] allI impI u(1) new spent)
qed

definition ex_reset_state :: "ref_store app_state" where
  "ex_reset_state =
     reset_by ex_env (30 * second) 0 ''j9'' ''salt2'' ''NewPass456'' ex_user ex_registered"

lemma ex_reset:
  "reset_password ex_env (30 * second) ''salt2''
     (create_password_reset_token (e_jwt ex_env) (e_settings ex_env) 0 ''j9'' (py_str 1))
     ''NewPass456'' ex_registered = (Inr ''Password reset successfully'', ex_reset_state)"
  using ref_env.reset_password_issued [where cfg = ex_settings and s = ex_registered and i = 1 and
      u = ex_user and t' = "30 * second" and t = 0 and p = "''NewPass456''" and salt = "''salt2''"
      and jti = "''j9''"]
    ex_inv(2) ex_user_stored(1) ref_hash.verify_hash_iff
  by (simp add: ex_user_def expiry_second_def ex_reset_state_def)

text \<open>C17. A forgotten-password request tells the caller nothing: its answer is the same for
  every address and every state. It changes neither database nor Redis; and it queues one
  mail, to the stored address of an active account with a link naming that account's id, or
  none.\<close>

theorem forgot_password_reveals_nothing:
  "fst (forgot_password E now jti a s) = fst (forgot_password E' now' jti' a' s') \<and>
   st_db (snd (forgot_password E now jti a s)) = st_db s \<and>
   st_redis (snd (forgot_password E now jti a s)) = st_redis s \<and>
   st_queue (snd (forgot_password E now jti a s)) = st_queue s @
     (case select_user_by_email (st_db s) (lower a) of
        None \<Rightarrow> []
      | Some u \<Rightarrow> if user_is_active u
          then [SendPasswordResetEmail (lower a)
                  (create_password_reset_token (e_jwt E) (e_settings E) now jti (py_str (user_id u)))]
          else [])"
proof (cases "select_user_by_email (st_db s) (lower a)")
  case (Some u)
  then have "user_email u = lower a" using select_user_SomeD by blast
  with Some show ?thesis by (simp add: forgot_password_def Let_def)
qed (simp add: forgot_password_def)

subsection \<open>Signing in\<close>

text \<open>Login never changes the state. It answers with tokens exactly when the address
  belongs to a verified, active account whose password was given, and both tokens are then
  issued to that account's address. Without the right password the answer is the same 401
  for every reason, so the account's status shows only to someone who knows the password.\<close>

theorem login_outcomes:
  "snd (login_user E now j1 j2 d s) = s \<and>
   (let right = (case select_user_by_email (st_db s) (lower (login_email d)) of
        None \<Rightarrow> None
      | Some u \<Rightarrow>
          (case user_hashed_password u of
             None \<Rightarrow> None
           | Some h \<Rightarrow> if verify_password (e_hash E) (login_password d) h then Some u else None))
    in (right = None \<longleftrightarrow> fst (login_user E now j1 j2 d s) = Inl invalid_credentials) \<and>
       (\<forall>u. right = Some u \<longrightarrow>
          fst (login_user E now j1 j2 d s) =
            (if \<not> user_is_verified u then Inl (HTTPException 403 ''Email address is not verified'' [])
             else if \<not> user_is_active u then Inl (HTTPException 403 ''User account is inactive'' [])
             else Inr \<lparr>tr_access_token = create_access_token (e_jwt E) (e_settings E) now j1
                         (lower (login_email d)),
                       tr_refresh_token = create_refresh_token (e_jwt E) (e_settings E) now j2
                         (lower (login_email d)),
                       tr_token_type = ''bearer''\<rparr>)))"
proof (cases "select_user_by_email (st_db s) (lower (login_email d))")
  case (Some u)
  then have "user_email u = lower (login_email d)" using select_user_SomeD by blast
  with Some show ?thesis
    by (cases "user_hashed_password u")
       (simp_all add: login_user_def Let_def invalid_credentials_def bearer_tokens_def)
qed (simp add: login_user_def)

theorem login_outcomes_witness:
  "fst (login_user ex_env 7 ''j1'' ''j2'' \<lparr>login_email = ''ab@c.de'', login_password = ''Secret123''\<rparr>
     ex_registered) = Inl (HTTPException 403 ''Email address is not verified'' [])"
  using login_outcomes [of ex_env 7 "''j1''" "''j2''"
      "\<lparr>login_email = ''ab@c.de'', login_password = ''Secret123''\<rparr>" ex_registered]
  by (simp add: ex_user_stored(2)) (simp add: ex_user_def)

end
