(* ===== verification/UserProfile.thy ===== *)
theory UserProfile
  imports AuthApi
begin

text \<open>
  The profile of the current user: \<open>app/services/user_profile.py\<close>, which both versions of the
  API call, with the routers \<open>app/api/users.py\<close> (v1) and \<open>app/api/v2/users.py\<close> (v2) and their
  response schemas.
\<close>

text \<open>The outcome of a service function that commits, put back into the state of the handler.\<close>

definition committed ::
  "'r app_state \<Rightarrow> failure + ('a \<times> database) \<Rightarrow> ('a, 'r app_state) handled" where
  "committed s res = (case res of Inl e \<Rightarrow> (Inl e, s) | Inr (x, d) \<Rightarrow> (Inr x, s\<lparr>st_db := d\<rparr>))"

lemma committed_simps [simp]:
  "committed s (Inl e) = (Inl e, s)" "committed s (Inr (x, d)) = (Inr x, s\<lparr>st_db := d\<rparr>)"
  by (simp_all add: committed_def)

lemma committed_safe [safety]:
  assumes "db_inv (st_db s)" and "\<not> is_unhandled res" and "\<And>x d. res = Inr (x, d) \<Longrightarrow> db_inv d"
  shows "safe_result (committed s res)"
  using assms by (cases res) (auto simp: safe_result_def)

subsection \<open>The service\<close>

definition update_user_email :: "database \<Rightarrow> user \<Rightarrow> string \<Rightarrow> failure + (user \<times> database)" where
  "update_user_email d u new_email =
     (let normalized_email = lower new_email in
      case List.find (\<lambda>x. user_email x = normalized_email \<and> user_id x \<noteq> user_id u) (users d) of
        Some _ \<Rightarrow> Inl email_taken
      | None \<Rightarrow>
          (let u' = u\<lparr>user_email := normalized_email\<rparr> in
           case update_user d u' of Inl e \<Rightarrow> Inl e | Inr d' \<Rightarrow> Inr (u', d')))"

definition change_user_password ::
  "hash_ops \<Rightarrow> string \<Rightarrow> database \<Rightarrow> user \<Rightarrow> string \<Rightarrow> string \<Rightarrow> failure + (unit \<times> database)" where
  "change_user_password H salt d u current_password new_password =
     (case user_hashed_password u of
        None \<Rightarrow> Inl (HTTPException 400
          ''This account has no password set. Use the password reset flow to set one.'' [])
      | Some hashed \<Rightarrow>
          if \<not> verify_password H current_password hashed
          then Inl (HTTPException 400 ''Current password is incorrect'' [])
          else if verify_password H new_password hashed
          then Inl (HTTPException 400 ''New password must be different'' [])
          else (case update_user d
                  (u\<lparr>user_hashed_password := Some (hash_password H salt new_password)\<rparr>) of
                  Inl e \<Rightarrow> Inl e | Inr d' \<Rightarrow> Inr ((), d')))"

definition deactivate_user :: "database \<Rightarrow> user \<Rightarrow> failure + (unit \<times> database)" where
  "deactivate_user d u =
     (case update_user d (u\<lparr>user_is_active := False\<rparr>) of Inl e \<Rightarrow> Inl e | Inr d' \<Rightarrow> Inr ((), d'))"

subsection \<open>The routes of version 1\<close>

record user_response =
  ur_id :: int
  ur_email :: string
  ur_is_active :: bool
  ur_is_verified :: bool
  ur_roles :: "string list"

definition to_user_response :: "database \<Rightarrow> user \<Rightarrow> user_response" where
  "to_user_response d u =
     \<lparr>ur_id = user_id u, ur_email = user_email u, ur_is_active = user_is_active u,
      ur_is_verified = user_is_verified u, ur_roles = map role_name (roles_of d (user_id u))\<rparr>"

definition read_current_user ::
  "'r env \<Rightarrow> time \<Rightarrow> string \<Rightarrow> 'r app_state \<Rightarrow> (user_response, 'r app_state) handled" where
  "read_current_user E now credentials s =
     authenticated E now credentials (\<lambda>u s. (Inr (to_user_response (st_db s) u), s)) s"

text \<open>\<open>UserUpdate\<close>: an address that is absent, or one the validator accepts.\<close>

definition validate_user_update ::
  "email_validator \<Rightarrow> string option \<Rightarrow> failure + string option" where
  "validate_user_update valid e =
     (case e of
        None \<Rightarrow> Inr None
      | Some a \<Rightarrow> (case valid a of None \<Rightarrow> Inl (RequestValidationError ''email'')
                   | Some a' \<Rightarrow> Inr (Some a')))"

definition updated_user ::
  "email_validator \<Rightarrow> string option \<Rightarrow> user \<Rightarrow> 'r app_state \<Rightarrow> (user, 'r app_state) handled" where
  "updated_user valid e u s =
     (case validate_user_update valid e of
        Inl err \<Rightarrow> (Inl err, s)
      | Inr None \<Rightarrow> (Inr u, s)
      | Inr (Some a) \<Rightarrow> committed s (update_user_email (st_db s) u a))"

definition update_current_user ::
  "'r env \<Rightarrow> email_validator \<Rightarrow> time \<Rightarrow> string \<Rightarrow> string option \<Rightarrow> 'r app_state \<Rightarrow>
     (user_response, 'r app_state) handled" where
  "update_current_user E valid now credentials e s =
     authenticated E now credentials
       (\<lambda>u s. case updated_user valid e u s of
                (Inl err, s1) \<Rightarrow> (Inl err, s1)
              | (Inr u1, s1) \<Rightarrow> (Inr (to_user_response (st_db s1) u1), s1)) s"

definition change_current_user_password ::
  "'r env \<Rightarrow> time \<Rightarrow> string \<Rightarrow> string \<Rightarrow> string \<Rightarrow> string \<Rightarrow> 'r app_state \<Rightarrow>
     (unit, 'r app_state) handled" where
  "change_current_user_password E now credentials salt current_password new_password s =
     authenticated E now credentials
       (\<lambda>u s. case validate_new_password new_password of
                Inl m \<Rightarrow> (Inl (RequestValidationError m), s)
              | Inr p \<Rightarrow>
                  committed s
                    (change_user_password (e_hash E) salt (st_db s) u current_password p)) s"

definition deactivate_current_user ::
  "'r env \<Rightarrow> time \<Rightarrow> string \<Rightarrow> 'r app_state \<Rightarrow> (unit, 'r app_state) handled" where
  "deactivate_current_user E now credentials s =
     authenticated E now credentials (\<lambda>u s. committed s (deactivate_user (st_db s) u)) s"

subsection \<open>The routes of version 2\<close>

text \<open>The responses with a user add the linked providers.\<close>

record user_response_v2 = user_response +
  ur2_oauth_providers :: "string list"

definition to_user_response_v2 :: "database \<Rightarrow> user \<Rightarrow> user_response_v2" where
  "to_user_response_v2 d u =
     \<lparr>ur_id = user_id u, ur_email = user_email u, ur_is_active = user_is_active u,
      ur_is_verified = user_is_verified u, ur_roles = map role_name (roles_of d (user_id u)),
      ur2_oauth_providers = map oauth_provider (oauth_accounts_of d (user_id u))\<rparr>"

definition read_current_user_v2 ::
  "'r env \<Rightarrow> time \<Rightarrow> string \<Rightarrow> 'r app_state \<Rightarrow> (user_response_v2, 'r app_state) handled" where
  "read_current_user_v2 E now credentials s =
     authenticated E now credentials (\<lambda>u s. (Inr (to_user_response_v2 (st_db s) u), s)) s"

definition update_current_user_v2 ::
  "'r env \<Rightarrow> email_validator \<Rightarrow> time \<Rightarrow> string \<Rightarrow> string option \<Rightarrow> 'r app_state \<Rightarrow>
     (user_response_v2, 'r app_state) handled" where
  "update_current_user_v2 E valid now credentials e s =
     authenticated E now credentials
       (\<lambda>u s. case updated_user valid e u s of
                (Inl err, s1) \<Rightarrow> (Inl err, s1)
              | (Inr u1, s1) \<Rightarrow> (Inr (to_user_response_v2 (st_db s1) u1), s1)) s"

definition change_current_user_password_v2 ::
  "'r env \<Rightarrow> time \<Rightarrow> string \<Rightarrow> string \<Rightarrow> string \<Rightarrow> string \<Rightarrow> 'r app_state \<Rightarrow>
     (unit, 'r app_state) handled" where
  "change_current_user_password_v2 E now credentials salt current_password new_password s =
     authenticated E now credentials
       (\<lambda>u s. case validate_new_password new_password of
                Inl m \<Rightarrow> (Inl (RequestValidationError m), s)
              | Inr p \<Rightarrow>
                  committed s
                    (change_user_password (e_hash E) salt (st_db s) u current_password p)) s"

definition deactivate_current_user_v2 ::
  "'r env \<Rightarrow> time \<Rightarrow> string \<Rightarrow> 'r app_state \<Rightarrow> (unit, 'r app_state) handled" where
  "deactivate_current_user_v2 E now credentials s =
     authenticated E now credentials (\<lambda>u s. committed s (deactivate_user (st_db s) u)) s"

lemma same_in_both_versions:
  "change_current_user_password_v2 = change_current_user_password"
  "deactivate_current_user_v2 = deactivate_current_user"
  by (intro ext, simp add: change_current_user_password_v2_def change_current_user_password_def
      deactivate_current_user_v2_def deactivate_current_user_def)+

subsection \<open>What the service does\<close>

lemma find_other_email:
  "List.find (\<lambda>x. user_email x = e \<and> user_id x \<noteq> i) us = None \<longleftrightarrow>
     (\<forall>x \<in> set us. user_email x = e \<longrightarrow> user_id x = i)"
  by (auto simp: find_None_iff)

text \<open>The lookup that precedes the commit is exactly the unique constraint of the column.\<close>

lemma update_user_email_eq:
  "update_user_email d u e =
     (if \<exists>x \<in> set (users d). user_email x = lower e \<and> user_id x \<noteq> user_id u
      then Inl email_taken
      else Inr (u\<lparr>user_email := lower e\<rparr>,
                d\<lparr>users := row_put user_id (users d) (u\<lparr>user_email := lower e\<rparr>)\<rparr>))"
proof (cases "\<exists>x \<in> set (users d). user_email x = lower e \<and> user_id x \<noteq> user_id u")
  case True
  then have "List.find (\<lambda>x. user_email x = lower e \<and> user_id x \<noteq> user_id u) (users d) \<noteq> None"
    using find_other_email by blast
  with True show ?thesis by (auto simp: update_user_email_def Let_def)
next
  case False
  then have "List.find (\<lambda>x. user_email x = lower e \<and> user_id x \<noteq> user_id u) (users d) = None"
    using find_other_email by blast
  moreover have "\<not> list_ex (\<lambda>x. user_email x = lower e \<and> user_id x \<noteq> user_id u) (users d)"
    using False by (auto simp: list_ex_iff)
  ultimately show ?thesis using False
    by (simp add: update_user_email_def update_user_def Let_def)
qed

lemma update_user_email_inv:
  assumes "update_user_email d u e = Inr (u', d')" and "db_inv d" and "u \<in> set (users d)"
  shows "db_inv d'"
proof -
  have "update_user d (u\<lparr>user_email := lower e\<rparr>) = Inr d'"
    using assms(1) by (auto simp: update_user_email_eq update_user_Inr split: if_splits)
  from update_user_inv [OF this assms(2,3)] show ?thesis by simp
qed

lemma update_same_row:
  assumes "db_inv d" and "u \<in> set (users d)" and "user_id u' = user_id u"
    and "user_email u' = user_email u" and "user_hashed_password u' = None \<Longrightarrow> user_hashed_password u = None"
  shows "update_user d u' = Inr (d\<lparr>users := row_put user_id (users d) u'\<rparr>)"
    and "db_inv (d\<lparr>users := row_put user_id (users d) u'\<rparr>)"
  using update_existing [OF assms(1) get_user_in [OF _ assms(2)] assms(3-5)] assms(1) by simp_all

lemma change_user_password_eq:
  assumes "db_inv d" and "u \<in> set (users d)"
  shows "change_user_password H salt d u old new =
    (case user_hashed_password u of
       None \<Rightarrow> Inl (HTTPException 400
         ''This account has no password set. Use the password reset flow to set one.'' [])
     | Some h \<Rightarrow>
         if \<not> verify_password H old h
         then Inl (HTTPException 400 ''Current password is incorrect'' [])
         else if verify_password H new h
         then Inl (HTTPException 400 ''New password must be different'' [])
         else Inr ((), d\<lparr>users := row_put user_id (users d)
                (u\<lparr>user_hashed_password := Some (hash_password H salt new)\<rparr>)\<rparr>))"
  using update_same_row(1) [OF assms, of "u\<lparr>user_hashed_password := Some (hash_password H salt new)\<rparr>"]
  by (simp add: change_user_password_def split: option.split)

lemma deactivate_user_eq:
  assumes "db_inv d" and "u \<in> set (users d)"
  shows "deactivate_user d u =
    Inr ((), d\<lparr>users := row_put user_id (users d) (u\<lparr>user_is_active := False\<rparr>)\<rparr>)"
  using update_same_row(1) [OF assms, of "u\<lparr>user_is_active := False\<rparr>"]
  by (simp add: deactivate_user_def)

lemma change_user_password_inv:
  assumes "change_user_password H salt d u old new = Inr (x, d')"
    and "db_inv d" and "u \<in> set (users d)"
  shows "db_inv d'"
  using assms(1) update_same_row(2) [OF assms(2,3),
      of "u\<lparr>user_hashed_password := Some (hash_password H salt new)\<rparr>"]
  by (auto simp: change_user_password_eq [OF assms(2,3)] split: option.splits if_splits)

subsection \<open>The routes keep the database invariant\<close>

lemma updated_user_safe:
  assumes "db_inv (st_db s)" and "u \<in> set (users (st_db s))"
  shows "safe_result (updated_user valid e u s)"
proof -
  have "safe_result (committed s (update_user_email (st_db s) u a))" for a
  proof (rule committed_safe [OF assms(1)])
    show "\<not> is_unhandled (update_user_email (st_db s) u a)"
      by (simp add: update_user_email_eq email_taken_def)
    show "db_inv d" if "update_user_email (st_db s) u a = Inr (x, d)" for x d
      using update_user_email_inv [OF that assms] .
  qed
  with assms(1) show ?thesis
    by (auto simp: updated_user_def validate_user_update_def split: option.splits)
qed

text \<open>A response that is computed from the outcome does not matter to safety.\<close>

lemma safe_result_map:
  "safe_result res \<Longrightarrow>
     safe_result (case res of (Inl e, t) \<Rightarrow> (Inl e, t) | (Inr x, t) \<Rightarrow> (Inr (f x t), t))"
  by (auto simp: safe_result_def split: prod.split sum.split)

lemma read_current_user_safe [safety]:
  "db_inv (st_db s) \<Longrightarrow> safe_result (read_current_user E now tok s)"
  by (auto simp: read_current_user_def intro: authenticated_safe)

lemma update_current_user_safe [safety]:
  "db_inv (st_db s) \<Longrightarrow> safe_result (update_current_user E valid now tok e s)"
  unfolding update_current_user_def
  by (intro authenticated_safe safe_result_map updated_user_safe current_user_in)

lemma change_current_user_password_safe [safety]:
  assumes "db_inv (st_db s)"
  shows "safe_result (change_current_user_password E now tok salt old new s)"
  unfolding change_current_user_password_def
proof (rule authenticated_safe [OF assms])
  fix u assume "get_current_user E now tok s = Inr u"
  note u = current_user_in [OF this]
  have "safe_result (committed s (change_user_password (e_hash E) salt (st_db s) u old p))" for p
  proof (rule committed_safe [OF assms])
    show "\<not> is_unhandled (change_user_password (e_hash E) salt (st_db s) u old p)"
      by (simp add: change_user_password_eq [OF assms u] split: option.split)
    show "db_inv d" if "change_user_password (e_hash E) salt (st_db s) u old p = Inr (x, d)" for x d
      using change_user_password_inv [OF that assms u] .
  qed
  with assms show "safe_result (case validate_new_password new of
      Inl m \<Rightarrow> (Inl (RequestValidationError m), s)
    | Inr p \<Rightarrow> committed s (change_user_password (e_hash E) salt (st_db s) u old p))"
    by (simp split: sum.split)
qed

lemma deactivate_current_user_safe [safety]:
  assumes "db_inv (st_db s)"
  shows "safe_result (deactivate_current_user E now tok s)"
  unfolding deactivate_current_user_def
proof (rule authenticated_safe [OF assms])
  fix u assume "get_current_user E now tok s = Inr u"
  note u = current_user_in [OF this]
  show "safe_result (committed s (deactivate_user (st_db s) u))"
    using update_same_row(2) [OF assms u, of "u\<lparr>user_is_active := False\<rparr>"]
    by (simp add: deactivate_user_eq [OF assms u])
qed

lemma read_current_user_v2_safe [safety]:
  "db_inv (st_db s) \<Longrightarrow> safe_result (read_current_user_v2 E now tok s)"
  by (auto simp: read_current_user_v2_def intro: authenticated_safe)

lemma update_current_user_v2_safe [safety]:
  "db_inv (st_db s) \<Longrightarrow> safe_result (update_current_user_v2 E valid now tok e s)"
  unfolding update_current_user_v2_def
  by (intro authenticated_safe safe_result_map updated_user_safe current_user_in)

end
