(* ===== verification/OAuth.thy ===== *)
theory OAuth
  imports UserProfile
begin

text \<open>
  Sign-in through an external provider: \<open>app/core/oauth.py\<close> and \<open>app/api/oauth.py\<close>.

  The Authlib application registered for a provider is a parameter, the record \<open>oauth_app\<close> of
  the four calls made on it; a raised exception is a value of type \<open>failure\<close>. The class
  \<open>AuthlibOAuthClient\<close> that wraps it is modelled, and the router works on its interface
  \<open>oauth_client\<close> (the protocol \<open>OAuthProviderClient\<close> of the source).
\<close>

subsection \<open>The provider client\<close>

definition SUPPORTED_PROVIDERS :: "string list" where
  "SUPPORTED_PROVIDERS = [''google'', ''github'', ''microsoft'']"

record oauth_client =
  c_create_authorization_url :: "string \<Rightarrow> string \<Rightarrow> failure + string"
  c_fetch_access_token :: "string \<Rightarrow> string \<Rightarrow> failure + pydict"
  c_fetch_identity :: "pydict \<Rightarrow> failure + (string \<times> string option)"

record http_reply =
  reply_ok :: bool
  reply_json :: pyval

record oauth_app =
  a_create_authorization_url :: "string \<Rightarrow> string \<Rightarrow> failure + pydict"
  a_fetch_access_token :: "string \<Rightarrow> string \<Rightarrow> failure + pydict"
  a_userinfo :: "pydict \<Rightarrow> failure + pydict"
  a_request :: "string \<Rightarrow> string \<Rightarrow> pydict \<Rightarrow> failure + http_reply"

fun truthy :: "pyval \<Rightarrow> bool" where
  "truthy PNone = False"
| "truthy (PBool b) = b"
| "truthy (PInt n) = (n \<noteq> 0)"
| "truthy (PFloat q) = (q \<noteq> 0)"
| "truthy (PStr s) = (s \<noteq> [])"
| "truthy (PTime t) = True"
| "truthy (PList xs) = (xs \<noteq> [])"
| "truthy (PDict d) = (d \<noteq> [])"

text \<open>
  \<open>str(x)\<close> for the values an identifier can be; anything else a provider might send there,
  and an address that is not a string, end in a failure of their own.
\<close>

definition unexpected_json :: failure where
  "unexpected_json = Unhandled ''unexpected JSON value''"

fun str_value :: "pyval \<Rightarrow> failure + string" where
  "str_value (PStr s) = Inr s"
| "str_value (PInt n) = Inr (py_str n)"
| "str_value _ = Inl unexpected_json"

fun address_value :: "pyval \<Rightarrow> failure + string option" where
  "address_value PNone = Inr None"
| "address_value (PStr s) = Inr (Some s)"
| "address_value _ = Inl unexpected_json"

text \<open>\<open>str(d[k])\<close>\<close>

definition str_item :: "pydict \<Rightarrow> string \<Rightarrow> failure + string" where
  "str_item d k = (case map_of d k of None \<Rightarrow> Inl (Unhandled ''KeyError'') | Some v \<Rightarrow> str_value v)"

fun primary_email :: "pyval list \<Rightarrow> failure + string option" where
  "primary_email [] = Inr None"
| "primary_email (PDict item # rest) =
     (if truthy (dict_get item ''primary'') \<and> truthy (dict_get item ''verified'')
      then (case map_of item ''email'' of
              None \<Rightarrow> Inl (Unhandled ''KeyError'') | Some v \<Rightarrow> address_value v)
      else primary_email rest)"
| "primary_email (_ # rest) = Inl (Unhandled ''AttributeError'')"

definition get_json :: "oauth_app \<Rightarrow> string \<Rightarrow> pydict \<Rightarrow> failure + pyval" where
  "get_json app path token =
     (case a_request app ''GET'' path token of
        Inl e \<Rightarrow> Inl e
      | Inr reply \<Rightarrow> if reply_ok reply then Inr (reply_json reply)
                   else Inl (Unhandled ''HTTPStatusError''))"

definition fetch_github_identity ::
  "oauth_app \<Rightarrow> pydict \<Rightarrow> failure + (string \<times> string option)" where
  "fetch_github_identity app token =
     (case get_json app ''user'' token of
        Inl e \<Rightarrow> Inl e
      | Inr (PDict profile) \<Rightarrow>
          (case str_item profile ''id'' of
             Inl e \<Rightarrow> Inl e
           | Inr puid \<Rightarrow>
               (case address_value (dict_get profile ''email'') of
                  Inl e \<Rightarrow> Inl e
                | Inr (Some e) \<Rightarrow> Inr (puid, Some e)
                | Inr None \<Rightarrow>
                    (case get_json app ''user/emails'' token of
                       Inl e \<Rightarrow> Inl e
                     | Inr (PList items) \<Rightarrow>
                         (case primary_email items of
                            Inl e \<Rightarrow> Inl e | Inr e \<Rightarrow> Inr (puid, e))
                     | Inr _ \<Rightarrow> Inl (Unhandled ''TypeError''))))
      | Inr _ \<Rightarrow> Inl (Unhandled ''TypeError''))"

definition fetch_identity ::
  "string \<Rightarrow> oauth_app \<Rightarrow> pydict \<Rightarrow> failure + (string \<times> string option)" where
  "fetch_identity provider app token =
     (if provider = ''github'' then fetch_github_identity app token
      else (case a_userinfo app token of
              Inl e \<Rightarrow> Inl e
            | Inr userinfo \<Rightarrow>
                (case str_item userinfo ''sub'' of
                   Inl e \<Rightarrow> Inl e
                 | Inr puid \<Rightarrow>
                     (case address_value (dict_get userinfo ''email'') of
                        Inl e \<Rightarrow> Inl e | Inr e \<Rightarrow> Inr (puid, e)))))"

definition authlib_client :: "string \<Rightarrow> oauth_app \<Rightarrow> oauth_client" where
  "authlib_client provider app =
     \<lparr>c_create_authorization_url = (\<lambda>redirect_uri state.
        case a_create_authorization_url app redirect_uri state of
          Inl e \<Rightarrow> Inl e
        | Inr result \<Rightarrow> str_item result ''url''),
      c_fetch_access_token = a_fetch_access_token app,
      c_fetch_identity = fetch_identity provider app\<rparr>"

text \<open>The registry holds a provider when both of its credentials are set and not empty.\<close>

definition registered :: "settings \<Rightarrow> string \<Rightarrow> bool" where
  "registered cfg provider =
     (provider = ''google'' \<and> configured (google_client_id cfg) (google_client_secret cfg) \<or>
      provider = ''microsoft'' \<and> configured (microsoft_client_id cfg) (microsoft_client_secret cfg) \<or>
      provider = ''github'' \<and> configured (github_client_id cfg) (github_client_secret cfg))"

definition get_oauth_client ::
  "settings \<Rightarrow> (string \<Rightarrow> oauth_app) \<Rightarrow> string \<Rightarrow> oauth_client option" where
  "get_oauth_client cfg apps provider =
     (if provider \<notin> set SUPPORTED_PROVIDERS then None
      else if \<not> registered cfg provider then None
      else Some (authlib_client provider (apps provider)))"

subsection \<open>The routes\<close>

definition STATE_TTL_SECONDS :: int where "STATE_TTL_SECONDS = 600"

definition STATE_KEY_PREFIX :: string where "STATE_KEY_PREFIX = ''oauth:state:''"

type_synonym oauth_clients = "string \<Rightarrow> oauth_client option"

definition require_client :: "oauth_clients \<Rightarrow> string \<Rightarrow> failure + oauth_client" where
  "require_client clients provider =
     (if provider \<notin> set SUPPORTED_PROVIDERS
      then Inl (HTTPException 404 ''Unknown OAuth provider'' [])
      else (case clients provider of
              None \<Rightarrow> Inl (HTTPException 503
                (''OAuth provider '' @ [CHR 39] @ provider @ [CHR 39] @ '' is not configured'') [])
            | Some c \<Rightarrow> Inr c))"

text \<open>
  Both entry points store a state value under a fresh random key (the argument \<open>state\<close>) and
  redirect to the provider; \<open>url_for\<close> is the callback address of a provider.
\<close>

definition start_flow ::
  "'r env \<Rightarrow> oauth_clients \<Rightarrow> (string \<Rightarrow> string) \<Rightarrow> time \<Rightarrow> string \<Rightarrow> string \<Rightarrow> string \<Rightarrow>
     'r app_state \<Rightarrow> (string, 'r app_state) handled" where
  "start_flow E clients url_for now state provider v s =
     (case require_client clients provider of
        Inl e \<Rightarrow> (Inl e, s)
      | Inr c \<Rightarrow>
          (c_create_authorization_url c (url_for provider) state,
           s\<lparr>st_redis := r_set (e_redis E) (st_redis s) now (STATE_KEY_PREFIX @ state) v
                          STATE_TTL_SECONDS\<rparr>))"

definition oauth_login ::
  "'r env \<Rightarrow> oauth_clients \<Rightarrow> (string \<Rightarrow> string) \<Rightarrow> time \<Rightarrow> string \<Rightarrow> string \<Rightarrow> 'r app_state \<Rightarrow>
     (string, 'r app_state) handled" where
  "oauth_login E clients url_for now state provider s =
     start_flow E clients url_for now state provider ''login'' s"

definition oauth_link ::
  "'r env \<Rightarrow> oauth_clients \<Rightarrow> (string \<Rightarrow> string) \<Rightarrow> time \<Rightarrow> string \<Rightarrow> string \<Rightarrow> string \<Rightarrow>
     'r app_state \<Rightarrow> (string, 'r app_state) handled" where
  "oauth_link E clients url_for now credentials state provider s =
     authenticated E now credentials
       (\<lambda>u s. start_flow E clients url_for now state provider (''link:'' @ py_str (user_id u)) s) s"

text \<open>The part of the callback that works on the database, for each kind of flow.\<close>

definition link_identity ::
  "database \<Rightarrow> time \<Rightarrow> string \<Rightarrow> string \<Rightarrow> string option \<Rightarrow> int \<Rightarrow> (user, database) handled" where
  "link_identity d now provider puid address linking_user_id =
     (let existing_link = select_oauth_account d provider puid in
      if (case existing_link of None \<Rightarrow> False | Some a \<Rightarrow> oauth_user_id a \<noteq> linking_user_id)
      then (Inl (HTTPException 409
              ''This provider account is already linked to another user'' []), d)
      else (case get_user d linking_user_id of
              None \<Rightarrow> (Inl (HTTPException 404 ''User not found'' []), d)
            | Some u \<Rightarrow>
                if existing_link \<noteq> None then (Inr u, d)
                else (case insert_oauth_account d (user_id u) provider puid address now of
                        Inl e \<Rightarrow> (Inl e, d)
                      | Inr d' \<Rightarrow> (Inr u, d'))))"

definition find_or_create_user ::
  "database \<Rightarrow> time \<Rightarrow> string \<Rightarrow> failure + (user \<times> database)" where
  "find_or_create_user d now address =
     (case select_user_by_email d address of
        Some u \<Rightarrow> Inr (u, d)
      | None \<Rightarrow> insert_user d address None True True now)"

definition reject_inactive :: "user option \<Rightarrow> database \<Rightarrow> (user, database) handled" where
  "reject_inactive u d =
     (case u of
        None \<Rightarrow> (Inl (HTTPException 403 ''User account is inactive'' []), d)
      | Some u \<Rightarrow> if user_is_active u then (Inr u, d)
                  else (Inl (HTTPException 403 ''User account is inactive'' []), d))"

definition sign_in_identity ::
  "database \<Rightarrow> time \<Rightarrow> string \<Rightarrow> string \<Rightarrow> string option \<Rightarrow> (user, database) handled" where
  "sign_in_identity d now provider puid address =
     (case select_oauth_account d provider puid of
        Some a \<Rightarrow> reject_inactive (get_user d (oauth_user_id a)) d
      | None \<Rightarrow>
          (case address of
             None \<Rightarrow>
               (Inl (HTTPException 400 (provider @ '' did not provide an email address'') []), d)
           | Some e \<Rightarrow>
               (case find_or_create_user d now e of
                  Inl err \<Rightarrow> (Inl err, d)
                | Inr (u, d1) \<Rightarrow>
                    (case insert_oauth_account d1 (user_id u) provider puid (Some e) now of
                       Inl err \<Rightarrow> (Inl err, d1)
                     | Inr d2 \<Rightarrow> reject_inactive (Some u) d2))))"

text \<open>The user a state value links to: \<open>int(state_value.split(":", 1)[1])\<close>.\<close>

definition linking_user :: "string \<Rightarrow> failure + int option" where
  "linking_user v =
     (if startswith v ''link:''
      then (case py_int (tl (dropWhile (\<lambda>c. c \<noteq> CHR '':'') v)) of
              None \<Rightarrow> Inl (Unhandled ''ValueError'') | Some i \<Rightarrow> Inr (Some i))
      else Inr None)"

definition oauth_callback ::
  "'r env \<Rightarrow> oauth_clients \<Rightarrow> (string \<Rightarrow> string) \<Rightarrow> time \<Rightarrow> string \<Rightarrow> string \<Rightarrow> string \<Rightarrow> string \<Rightarrow>
     string \<Rightarrow> 'r app_state \<Rightarrow> (token_response, 'r app_state) handled" where
  "oauth_callback E clients url_for now jti1 jti2 provider auth_code state s =
     (case require_client clients provider of
        Inl e \<Rightarrow> (Inl e, s)
      | Inr c \<Rightarrow>
          (let state_key = STATE_KEY_PREFIX @ state in
           case r_get (e_redis E) (st_redis s) now state_key of
             None \<Rightarrow> (Inl (HTTPException 400 ''Invalid or expired OAuth state'' []), s)
           | Some state_value \<Rightarrow>
               (let s1 = s\<lparr>st_redis := r_delete (e_redis E) (st_redis s) now state_key\<rparr> in
                case c_fetch_access_token c (url_for provider) auth_code of
                  Inl e \<Rightarrow> (Inl e, s1)
                | Inr token \<Rightarrow>
                    (case c_fetch_identity c token of
                       Inl e \<Rightarrow> (Inl e, s1)
                     | Inr (puid, address) \<Rightarrow>
                         (case linking_user state_value of
                            Inl e \<Rightarrow> (Inl e, s1)
                          | Inr linking \<Rightarrow>
                              (case (case linking of
                                       Some uid \<Rightarrow>
                                         link_identity (st_db s) now provider puid address uid
                                     | None \<Rightarrow> sign_in_identity (st_db s) now provider puid address) of
                                 (Inl e, d) \<Rightarrow> (Inl e, s1\<lparr>st_db := d\<rparr>)
                               | (Inr u, d) \<Rightarrow>
                                   (Inr (bearer_tokens E now jti1 jti2 (user_email u)),
                                    s1\<lparr>st_db := d\<rparr>)))))))"

record linked_provider =
  lp_provider :: string
  lp_email :: "string option"
  lp_created_at :: time

definition list_linked_accounts ::
  "'r env \<Rightarrow> time \<Rightarrow> string \<Rightarrow> 'r app_state \<Rightarrow> (linked_provider list, 'r app_state) handled" where
  "list_linked_accounts E now credentials s =
     authenticated E now credentials
       (\<lambda>u s. (Inr (map (\<lambda>a. \<lparr>lp_provider = oauth_provider a, lp_email = oauth_email a,
                              lp_created_at = oauth_created_at a\<rparr>)
                     (oauth_accounts_of (st_db s) (user_id u))), s)) s"

definition unlink_from :: "database \<Rightarrow> user \<Rightarrow> string \<Rightarrow> failure + (unit \<times> database)" where
  "unlink_from d u provider =
     (case List.find (\<lambda>a. oauth_user_id a = user_id u \<and> oauth_provider a = provider)
             (oauth_accounts d) of
        None \<Rightarrow> Inl (HTTPException 404 ''Provider is not linked'' [])
      | Some link \<Rightarrow>
          (let remaining_links = length (oauth_accounts_of d (user_id u)) in
           if user_hashed_password u = None \<and> remaining_links \<le> 1
           then Inl (HTTPException 400
             ''Cannot unlink the only sign-in method. Set a password first via the password reset flow.'' [])
           else Inr ((), delete_oauth_account d (oauth_id link))))"

definition unlink_provider ::
  "'r env \<Rightarrow> time \<Rightarrow> string \<Rightarrow> string \<Rightarrow> 'r app_state \<Rightarrow> (unit, 'r app_state) handled" where
  "unlink_provider E now credentials provider s =
     authenticated E now credentials (\<lambda>u s. committed s (unlink_from (st_db s) u provider)) s"

subsection \<open>The database through the flows\<close>

lemma link_identity_eq:
  "link_identity d now provider puid address uid =
     (case select_oauth_account d provider puid of
        Some a \<Rightarrow>
          if oauth_user_id a \<noteq> uid
          then (Inl (HTTPException 409
            ''This provider account is already linked to another user'' []), d)
          else (case get_user d uid of
                  None \<Rightarrow> (Inl (HTTPException 404 ''User not found'' []), d)
                | Some u \<Rightarrow> (Inr u, d))
      | None \<Rightarrow>
          (case get_user d uid of
             None \<Rightarrow> (Inl (HTTPException 404 ''User not found'' []), d)
           | Some u \<Rightarrow>
               (Inr u, d\<lparr>oauth_accounts := row_add (oauth_accounts d)
                   \<lparr>oauth_id = seq_oauth_accounts d, oauth_user_id = uid,
                    oauth_provider = provider, oauth_provider_user_id = puid,
                    oauth_email = address, oauth_created_at = now\<rparr>,
                  seq_oauth_accounts := seq_oauth_accounts d + 1\<rparr>)))"
proof (cases "get_user d uid")
  case (Some u)
  then have "user_id u = uid" using get_user_SomeD by blast
  with Some show ?thesis
    by (simp add: link_identity_def insert_oauth_account_def Let_def split: option.split)
qed (simp add: link_identity_def split: option.split)

lemma insert_oauth_account_new:
  "select_oauth_account d provider puid = None \<Longrightarrow> get_user d uid \<noteq> None \<Longrightarrow>
     \<exists>d'. insert_oauth_account d uid provider puid e now = Inr d'"
  by (auto simp: insert_oauth_account_def Let_def)

lemma link_identity_inv:
  assumes "db_inv d"
  shows "db_inv (snd (link_identity d now provider puid address uid))"
    and "\<not> is_unhandled (fst (link_identity d now provider puid address uid))"
proof -
  have new: "\<exists>d'. insert_oauth_account d (user_id u) provider puid address now = Inr d' \<and> db_inv d'"
    if "select_oauth_account d provider puid = None" "get_user d uid = Some u" for u
    using insert_oauth_account_new [OF that(1)] that(2) insert_oauth_inv [OF _ assms]
    by (metis get_user_SomeD option.distinct(1))
  show "db_inv (snd (link_identity d now provider puid address uid))"
    using new assms by (auto simp: link_identity_def Let_def split: option.split)
  show "\<not> is_unhandled (fst (link_identity d now provider puid address uid))"
    using new by (auto simp: link_identity_def Let_def split: option.split)
qed

lemma reject_inactive_simps [simp]:
  "snd (reject_inactive u d) = d" "\<not> is_unhandled (fst (reject_inactive u d))"
  by (auto simp: reject_inactive_def split: option.split)

lemma reject_inactive_Inr:
  "fst (reject_inactive u d) = Inr v \<longleftrightarrow> u = Some v \<and> user_is_active v"
  by (auto simp: reject_inactive_def split: option.splits)

text \<open>The user an identity seen for the first time is attached to, and the row that is added.\<close>

lemma find_or_create_user_cases:
  assumes "find_or_create_user d now e = Inr (u, d1)"
  obtains (existing) "select_user_by_email d e = Some u" "d1 = d"
    | (created) "insert_user d e None True True now = Inr (u, d1)"
  using assms by (auto simp: find_or_create_user_def split: option.splits)

lemma find_or_create_user_ok: "\<exists>u d1. find_or_create_user d now e = Inr (u, d1)"
  by (auto simp: find_or_create_user_def insert_user_def Let_def split: option.split)

lemma get_user_inserted:
  assumes "insert_user d e h active verified now = Inr (u, d1)" and "db_inv d"
  shows "get_user d1 (user_id u) = Some u"
proof -
  have "db_wf d1" using insert_user_wf [OF assms(1)] assms(2) by simp
  then have "users_wf d1" by (simp add: db_wf_def)
  moreover have "u \<in> set (users d1)" using assms(1) by (auto simp: insert_user_Inr)
  ultimately show ?thesis by (rule get_user_in)
qed

lemma first_sign_in:
  assumes "db_inv d" and "select_oauth_account d provider puid = None"
    and "find_or_create_user d now e = Inr (u, d1)"
  shows "\<exists>d2. insert_oauth_account d1 (user_id u) provider puid (Some e) now = Inr d2 \<and>
    db_inv d2 \<and> get_user d2 (user_id u) = Some u \<and> user_email u = e"
  using assms(3)
proof (cases rule: find_or_create_user_cases)
  case existing
  then have u: "get_user d (user_id u) = Some u"
    using assms(1) select_user_SomeD by (intro get_user_in) auto
  obtain d2 where d2: "insert_oauth_account d (user_id u) provider puid (Some e) now = Inr d2"
    using insert_oauth_account_new [OF assms(2)] u by blast
  moreover have "users d2 = users d" using d2 by (auto simp: insert_oauth_Inr)
  ultimately show ?thesis
    using existing u insert_oauth_inv [OF d2 assms(1)] select_user_SomeD [of d e u]
    by (auto simp: get_user_def)
next
  case created
  then have d1: "oauth_accounts d1 = oauth_accounts d" "user_email u = e"
    by (auto simp: insert_user_Inr)
  have u: "get_user d1 (user_id u) = Some u" using get_user_inserted [OF created assms(1)] .
  have "select_oauth_account d1 provider puid = None"
    using assms(2) by (simp add: select_oauth_account_def d1)
  then obtain d2 where d2: "insert_oauth_account d1 (user_id u) provider puid (Some e) now = Inr d2"
    using insert_oauth_account_new u by blast
  moreover have "users d2 = users d1" using d2 by (auto simp: insert_oauth_Inr)
  ultimately show ?thesis
    using u d1 insert_user_with_oauth_inv [OF created d2 assms(1)] by (auto simp: get_user_def)
qed

lemma sign_in_identity_inv:
  assumes "db_inv d"
  shows "db_inv (snd (sign_in_identity d now provider puid address))"
    and "\<not> is_unhandled (fst (sign_in_identity d now provider puid address))"
proof -
  have new: "db_inv (snd (sign_in_identity d now provider puid (Some e))) \<and>
      \<not> is_unhandled (fst (sign_in_identity d now provider puid (Some e)))"
    if "select_oauth_account d provider puid = None" for e
  proof -
    obtain u d1 where f: "find_or_create_user d now e = Inr (u, d1)"
      using find_or_create_user_ok by blast
    from first_sign_in [OF assms that f] f that show ?thesis
      by (auto simp: sign_in_identity_def)
  qed
  show "db_inv (snd (sign_in_identity d now provider puid address))"
    using new assms
    by (cases "select_oauth_account d provider puid"; cases address)
       (simp_all add: sign_in_identity_def)
  show "\<not> is_unhandled (fst (sign_in_identity d now provider puid address))"
    using new
    by (cases "select_oauth_account d provider puid"; cases address)
       (simp_all add: sign_in_identity_def)
qed

lemma distinct_other: "distinct xs \<Longrightarrow> 1 < length xs \<Longrightarrow> \<exists>a \<in> set xs. a \<noteq> x"
  by (cases xs; cases "tl xs") auto

text \<open>Unlinking takes one row away, and never the last way to sign in.\<close>

lemma unlink_inv:
  assumes "unlink_from d u provider = Inr (x, d')" and inv: "db_inv d" and u: "u \<in> set (users d)"
  shows "db_inv d'"
proof -
  obtain link where link: "link \<in> set (oauth_accounts d)" "oauth_user_id link = user_id u"
    and d': "d' = delete_oauth_account d (oauth_id link)"
    and rest: "user_hashed_password u = None \<Longrightarrow> 1 < length (oauth_accounts_of d (user_id u))"
    using assms(1) by (auto simp: unlink_from_def Let_def dest!: find_Some_set
        split: option.splits if_splits)
  have ids: "a = link" if "a \<in> set (oauth_accounts d)" "oauth_id a = oauth_id link" for a
    using inv that link(1) distinct_map_eq [of oauth_id "oauth_accounts d" a link]
    by (simp add: db_inv_def db_wf_def oauth_wf_def)
  have "can_sign_in d' y" if y: "y \<in> set (users d)" for y
  proof -
    have old: "can_sign_in d y" using inv y by (simp add: db_inv_def sign_in_ok_iff)
    have "\<exists>a \<in> set (oauth_accounts d). oauth_user_id a = user_id y \<and> a \<noteq> link"
      if none: "user_hashed_password y = None"
    proof (cases "user_id y = user_id u")
      case True
      then have "y = u" using inv y u by (metis db_inv_wf(2) users_wf_same_id)
      have "distinct (oauth_accounts_of d (user_id u))"
        using inv by (auto simp: oauth_accounts_of_def db_inv_def db_wf_def oauth_wf_def
            distinct_map)
      moreover have "1 < length (oauth_accounts_of d (user_id u))"
        using rest none \<open>y = u\<close> by simp
      ultimately have "\<exists>a \<in> set (oauth_accounts_of d (user_id u)). a \<noteq> link"
        by (rule distinct_other)
      then show ?thesis using True by (auto simp: oauth_accounts_of_def)
    next
      case False
      with old none link(2) show ?thesis by (auto simp: can_sign_in_iff)
    qed
    then show ?thesis
      using ids by (fastforce simp: can_sign_in_iff d' delete_oauth_account_def)
  qed
  then have "sign_in_ok d'"
    by (simp add: sign_in_ok_iff d' delete_oauth_account_def)
  then show ?thesis using inv by (simp add: db_inv_def d' delete_oauth_wf)
qed

text \<open>
  What the router relies on at a provider: its client answers or refuses, but raises nothing
  the application does not handle. (A network failure does raise; the state is then as the
  code has left it so far, which \<open>oauth_callback_inv\<close> covers.)
\<close>

locale quiet_client =
  fixes C :: oauth_client
  assumes quiet_url: "\<not> is_unhandled (c_create_authorization_url C r st)"
    and quiet_token: "\<not> is_unhandled (c_fetch_access_token C r ac)"
    and quiet_identity: "\<not> is_unhandled (c_fetch_identity C tok)"

text \<open>A client that always identifies the same account, as a test double does.\<close>

definition fixed_client :: "string \<Rightarrow> string option \<Rightarrow> oauth_client" where
  "fixed_client puid address =
     \<lparr>c_create_authorization_url = (\<lambda>redirect_uri state. Inr (redirect_uri @ ''?state='' @ state)),
      c_fetch_access_token = (\<lambda>redirect_uri ac. Inr [(''access_token'', PStr ac)]),
      c_fetch_identity = (\<lambda>token. Inr (puid, address))\<rparr>"

interpretation fixed_client: quiet_client "fixed_client puid address" for puid address
  by unfold_locales (simp_all add: fixed_client_def)

definition quiet_clients :: "oauth_clients \<Rightarrow> bool" where
  "quiet_clients clients \<longleftrightarrow> (\<forall>p c. clients p = Some c \<longrightarrow> quiet_client c)"

lemma require_client_Inr:
  "require_client clients provider = Inr c \<longleftrightarrow>
     provider \<in> set SUPPORTED_PROVIDERS \<and> clients provider = Some c"
  by (auto simp: require_client_def split: option.splits)

lemma require_client_not_unhandled [simp]: "\<not> is_unhandled (require_client clients provider)"
  by (auto simp: require_client_def split: option.splits)

lemma start_flow_db [simp]:
  "st_db (snd (start_flow E clients url_for now st provider v s)) = st_db s"
  by (simp add: start_flow_def split: sum.split)

lemma start_flow_not_unhandled:
  assumes "quiet_clients clients"
  shows "\<not> is_unhandled (fst (start_flow E clients url_for now st provider v s))"
proof (cases "require_client clients provider")
  case (Inl e)
  then show ?thesis
    using require_client_not_unhandled [of clients provider] by (simp add: start_flow_def)
next
  case (Inr c)
  then have "quiet_client c"
    using assms by (auto simp: require_client_Inr quiet_clients_def)
  with Inr show ?thesis by (simp add: start_flow_def quiet_client.quiet_url)
qed

lemma oauth_login_safe [safety]:
  "db_inv (st_db s) \<Longrightarrow> quiet_clients clients \<Longrightarrow>
     safe_result (oauth_login E clients url_for now st provider s)"
  by (simp add: safe_result_def oauth_login_def start_flow_not_unhandled)

lemma oauth_link_safe [safety]:
  "db_inv (st_db s) \<Longrightarrow> quiet_clients clients \<Longrightarrow>
     safe_result (oauth_link E clients url_for now tok st provider s)"
  unfolding oauth_link_def
  by (rule authenticated_safe) (simp_all add: safe_result_def start_flow_not_unhandled)

text \<open>The callback as its successive stages.\<close>

definition identify ::
  "oauth_client \<Rightarrow> string \<Rightarrow> string \<Rightarrow> failure + (string \<times> string option)" where
  "identify c redirect_uri auth_code =
     (case c_fetch_access_token c redirect_uri auth_code of
        Inl e \<Rightarrow> Inl e | Inr token \<Rightarrow> c_fetch_identity c token)"

definition resolve_user ::
  "database \<Rightarrow> time \<Rightarrow> string \<Rightarrow> string \<Rightarrow> string option \<Rightarrow> string \<Rightarrow> (user, database) handled" where
  "resolve_user d now provider puid address v =
     (case linking_user v of
        Inl e \<Rightarrow> (Inl e, d)
      | Inr (Some uid) \<Rightarrow> link_identity d now provider puid address uid
      | Inr None \<Rightarrow> sign_in_identity d now provider puid address)"

lemma oauth_callback_eq:
  "oauth_callback E clients url_for now jti1 jti2 provider auth_code state s =
     (case require_client clients provider of
        Inl e \<Rightarrow> (Inl e, s)
      | Inr c \<Rightarrow>
          (case r_get (e_redis E) (st_redis s) now (STATE_KEY_PREFIX @ state) of
             None \<Rightarrow> (Inl (HTTPException 400 ''Invalid or expired OAuth state'' []), s)
           | Some v \<Rightarrow>
               (let s1 = s\<lparr>st_redis := r_delete (e_redis E) (st_redis s) now
                              (STATE_KEY_PREFIX @ state)\<rparr> in
                case identify c (url_for provider) auth_code of
                  Inl e \<Rightarrow> (Inl e, s1)
                | Inr (puid, address) \<Rightarrow>
                    (let (res, d) = resolve_user (st_db s) now provider puid address v
                     in (case res of
                           Inl e \<Rightarrow> Inl e
                         | Inr u \<Rightarrow> Inr (bearer_tokens E now jti1 jti2 (user_email u)),
                         s1\<lparr>st_db := d\<rparr>)))))"
  by (simp add: oauth_callback_def identify_def resolve_user_def Let_def
      split: sum.split option.split prod.split)

lemma resolve_user_inv: "db_inv d \<Longrightarrow> db_inv (snd (resolve_user d now provider puid address v))"
  by (simp add: resolve_user_def link_identity_inv sign_in_identity_inv
      split: sum.split option.split)

text \<open>Whatever the provider does, the database stays in its invariant.\<close>

lemma oauth_callback_inv:
  assumes "db_inv (st_db s)"
  shows "db_inv (st_db (snd (oauth_callback E clients url_for now jti1 jti2 provider ac st s)))"
proof -
  have "db_inv d" if "resolve_user (st_db s) now provider puid address v = (res, d)"
    for puid address v res d
    using resolve_user_inv [OF assms, of now provider puid address v] that by simp
  with assms show ?thesis
    by (simp add: oauth_callback_eq Let_def split: sum.split option.split prod.split)
qed

text \<open>The state values that the two entry points write are read back as they were meant.\<close>

lemma linking_user_login [simp]: "linking_user ''login'' = Inr None"
  by (simp add: linking_user_def)

lemma linking_user_link: "\<bar>i\<bar> < 10 ^ 20 \<Longrightarrow> linking_user (''link:'' @ py_str i) = Inr (Some i)"
  by (simp add: linking_user_def py_int_py_str below_digit_limit)

lemma list_linked_accounts_safe [safety]:
  "db_inv (st_db s) \<Longrightarrow> safe_result (list_linked_accounts E now tok s)"
  by (auto simp: list_linked_accounts_def intro: authenticated_safe)

lemma unlink_provider_safe [safety]:
  assumes "db_inv (st_db s)"
  shows "safe_result (unlink_provider E now tok provider s)"
  unfolding unlink_provider_def
proof (rule authenticated_safe [OF assms])
  fix u assume "get_current_user E now tok s = Inr u"
  note u = current_user_in [OF this]
  show "safe_result (committed s (unlink_from (st_db s) u provider))"
  proof (rule committed_safe [OF assms])
    show "\<not> is_unhandled (unlink_from (st_db s) u provider)"
      by (simp add: unlink_from_def Let_def split: option.split)
    show "db_inv d" if "unlink_from (st_db s) u provider = Inr (x, d)" for x d
      using unlink_inv [OF that assms u] .
  qed
qed
definition state_value_ok :: "string \<Rightarrow> bool" where
  "state_value_ok v \<longleftrightarrow> \<not> is_unhandled (linking_user v)"

lemma state_value_ok_written:
  "state_value_ok ''login''" "\<bar>i\<bar> < 10 ^ 20 \<Longrightarrow> state_value_ok (''link:'' @ py_str i)"
  using linking_user_login linking_user_link [of i] by (simp_all add: state_value_ok_def)

lemma resolve_user_not_unhandled:
  assumes "db_inv d" and "state_value_ok v"
  shows "\<not> is_unhandled (fst (resolve_user d now provider puid address v))"
proof (cases "linking_user v")
  case (Inl e)
  then show ?thesis using assms(2) by (simp add: resolve_user_def state_value_ok_def)
next
  case (Inr x)
  then show ?thesis
    using link_identity_inv(2) [OF assms(1)] sign_in_identity_inv(2) [OF assms(1)]
    by (simp add: resolve_user_def split: option.split)
qed

lemma identify_not_unhandled: "quiet_client c \<Longrightarrow> \<not> is_unhandled (identify c r ac)"
  using quiet_client.quiet_token [of c r ac] quiet_client.quiet_identity [of c]
  by (cases "c_fetch_access_token c r ac") (simp_all add: identify_def)

lemma oauth_callback_safe [safety]:
  assumes inv: "db_inv (st_db s)" and q: "quiet_clients clients"
    and v: "\<And>v. r_get (e_redis E) (st_redis s) now (STATE_KEY_PREFIX @ st) = Some v \<Longrightarrow>
      state_value_ok v"
  shows "safe_result (oauth_callback E clients url_for now jti1 jti2 provider ac st s)"
proof -
  have id: "\<not> unforeseen e"
    if "require_client clients provider = Inr c" "identify c r ac = Inl e" for c r e
    using that q identify_not_unhandled [of c r ac]
    by (auto simp: require_client_Inr quiet_clients_def)
  have cl: "\<not> unforeseen e" if "require_client clients provider = Inl e" for e
    using require_client_not_unhandled [of clients provider] that by simp
  have res: "\<not> is_unhandled (fst (resolve_user (st_db s) now provider puid address v))"
    if "r_get (e_redis E) (st_redis s) now (STATE_KEY_PREFIX @ st) = Some v" for puid address v
    using resolve_user_not_unhandled [OF inv v [OF that]] .
  have "\<not> is_unhandled (fst (oauth_callback E clients url_for now jti1 jti2 provider ac st s))"
  proof (cases "require_client clients provider")
    case (Inl e)
    then show ?thesis using cl by (simp add: oauth_callback_eq)
  next
    case c: (Inr c)
    show ?thesis
    proof (cases "r_get (e_redis E) (st_redis s) now (STATE_KEY_PREFIX @ st)")
      case None
      then show ?thesis using c by (simp add: oauth_callback_eq)
    next
      case (Some v)
      show ?thesis
      proof (cases "identify c (url_for provider) ac")
        case (Inl e)
        then show ?thesis using c Some id [OF c] by (simp add: oauth_callback_eq)
      next
        case (Inr p)
        obtain puid address where p: "p = (puid, address)" by fastforce
        obtain r d where r: "resolve_user (st_db s) now provider puid address v = (r, d)"
          by fastforce
        with res [OF Some, of puid address] have "\<not> is_unhandled r" by simp
        with c Some Inr p r show ?thesis
          by (cases r) (simp_all add: oauth_callback_eq Let_def)
      qed
    qed
  qed
  with oauth_callback_inv [OF inv] show ?thesis by (simp add: safe_result_def)
qed

end
