(* ===== verification/AccountFlows.thy ===== *)
theory AccountFlows
  imports AuthFlows OAuth
begin

text \<open>
  The properties of the profile routes of both API versions and of sign-in through external
  providers.
\<close>

subsection \<open>The profile\<close>

text \<open>Version 2 of the API evolves version 1: on every state and request its profile
  routes accept, refuse and change exactly what those of version 1 do, and their response is
  version 1's with the linked providers added.\<close>

theorem profile_versions_agree:
  "read_current_user E now tok s =
     (case read_current_user_v2 E now tok s of
        (Inl e, t) \<Rightarrow> (Inl e, t) | (Inr r, t) \<Rightarrow> (Inr (user_response.truncate r), t)) \<and>
   update_current_user E valid now tok a s =
     (case update_current_user_v2 E valid now tok a s of
        (Inl e, t) \<Rightarrow> (Inl e, t) | (Inr r, t) \<Rightarrow> (Inr (user_response.truncate r), t))"
proof -
  have r: "user_response.truncate (to_user_response_v2 d u) = to_user_response d u" for d u
    by (simp add: to_user_response_v2_def to_user_response_def user_response.truncate_def)
  show ?thesis
    by (cases "get_current_user E now tok s")
       (simp_all add: read_current_user_def read_current_user_v2_def authenticated_def
         update_current_user_def update_current_user_v2_def r split: prod.split sum.split)
qed

text \<open>Changing the address of the profile. An address that another account holds, in any
  case, is refused with a 409 and nothing changes; any other replaces the address of the
  caller's row by its lower-cased form and changes no other column and no other row. In
  particular the new address counts as verified when the old one was.\<close>

theorem update_email_effect:
  assumes "db_inv (st_db s)" and "get_current_user E now tok s = Inr u" and "valid a = Some b"
  shows "update_current_user E valid now tok (Some a) s =
    (if \<exists>x \<in> set (users (st_db s)). user_email x = lower b \<and> user_id x \<noteq> user_id u
     then (Inl email_taken, s)
     else (Inr \<lparr>ur_id = user_id u, ur_email = lower b, ur_is_active = True,
                ur_is_verified = user_is_verified u,
                ur_roles = map role_name (roles_of (st_db s) (user_id u))\<rparr>,
           s\<lparr>st_db := (st_db s)\<lparr>users := map (\<lambda>x. if x = u then u\<lparr>user_email := lower b\<rparr> else x)
                                           (users (st_db s))\<rparr>\<rparr>))"
proof -
  have u: "u \<in> set (users (st_db s))" "user_is_active u"
    using current_user_in [OF assms(2)] assms(2) by (auto simp: get_current_user_Inr)
  have "row_put user_id (users (st_db s)) (u\<lparr>user_email := lower b\<rparr>) =
      map (\<lambda>x. if x = u then u\<lparr>user_email := lower b\<rparr> else x) (users (st_db s))"
    using users_wf_same_id [OF db_inv_wf(2) [OF assms(1)] _ u(1)] by (auto simp: row_put_def)
  with assms(2,3) u(2) show ?thesis
    by (simp add: update_current_user_def authenticated_def updated_user_def validate_user_update_def
        update_user_email_eq to_user_response_def roles_of_def)
qed

lemma ex_new_email_lower [simp]: "lower ''xy@c.de'' = ''xy@c.de''"
  by (simp add: lower_def lower_char_def is_upper_char_def code_def)

definition ex_moved :: "ref_store app_state" where
  "ex_moved = snd (update_current_user ex_env Some (20 * second) ex_access (Some ''xy@c.de'') ex_verified)"

theorem update_email_effect_witness:
  "map user_email (users (st_db ex_moved)) = [''xy@c.de'']"
  using update_email_effect [OF ex_verified_user(2) ex_current, of Some "''xy@c.de''" "''xy@c.de''"]
  by (simp add: ex_verified_users ex_moved_def)

text \<open>C18. Access tokens name an address, not an account. After a user has changed address, a
  token issued for the old one authenticates whoever registers that address next: the old
  holder's unexpired token then acts as the new, different account.\<close>

theorem stale_token_changes_hands:
  assumes "auth_services E" and "db_inv (st_db s)" and "t \<le> t1"
    and "get_current_user E t1 (create_access_token (e_jwt E) (e_settings E) t j a) s = Inr u"
    and "update_current_user E valid t1 tok1 b s = (Inr r, s1)"
    and "register_user E t2 j2 salt \<lparr>uc_email = a, uc_password = p\<rparr> s1 = (Inr resp, s2)" and "lower a = a"
    and "t3 < expiry_second (access_expiry E t)"
    and "\<not> is_token_blacklisted (e_redis E) (st_redis s2) t3 j"
  shows "\<exists>v. get_current_user E t3 (create_access_token (e_jwt E) (e_settings E) t j a) s2 = Inr v \<and>
    user_id v = reg_id resp \<and> user_id v \<noteq> user_id u"
proof -
  have inv1: "db_inv (st_db s1)"
    using update_current_user_safe [OF assms(2), of E valid t1 tok1 b] assms(5)
    by (simp add: safe_result_def)
  have inv2: "db_inv (st_db s2)"
    using register_user_safe [OF inv1, of E t2 j2 salt "\<lparr>uc_email = a, uc_password = p\<rparr>"] assms(6)
    by (simp add: safe_result_def)
  note reg = register_user_Inr [OF assms(6), simplified]
  define v where "v = \<lparr>user_id = reg_id resp, user_email = a,
    user_hashed_password = Some (hash_password (e_hash E) salt p),
    user_is_active = True, user_is_verified = False, user_created_at = t2\<rparr>"
  have v: "v \<in> set (users (st_db s2))" using reg(2,3) assms(7) by (simp add: v_def)
  have sel: "select_user_by_email (st_db s2) a = Some v"
    using select_user_in [OF _ v] inv2 by (simp add: v_def)
  have cur: "get_current_user E t3 (create_access_token (e_jwt E) (e_settings E) t j a) s2 = Inr v"
    using assms(8,9) sel by (intro auth_services.current_user_issued [OF assms(1)]) (simp_all add: v_def)
  have seq: "seq_users (st_db s) \<le> seq_users (st_db s1)"
    using assms(5) by (auto simp: update_current_user_def authenticated_def after_dependency_def
        updated_user_def validate_user_update_def committed_def update_user_email_eq
        split: sum.splits option.splits prod.splits if_splits)
  have "user_id u < seq_users (st_db s)"
    using current_user_in [OF assms(4)] assms(2) by (simp add: db_inv_def db_wf_def users_wf_def)
  with seq reg(2) have "reg_id resp \<noteq> user_id u" by simp
  with cur show ?thesis by (auto simp: v_def)
qed

theorem stale_token_changes_hands_witness:
  "\<exists>v. get_current_user ex_env (60 * second) ex_access
     (snd (register_user ex_env (50 * second) ''j2'' ''salt''
        \<lparr>uc_email = ''ab@c.de'', uc_password = ''Secret123''\<rparr> ex_moved)) = Inr v \<and> user_id v = 2"
proof -
  note eff = update_email_effect [OF ex_verified_user(2) ex_current, of Some "''xy@c.de''" "''xy@c.de''"]
  have upd: "update_current_user ex_env Some (20 * second) ex_access (Some ''xy@c.de'') ex_verified =
      (Inr \<lparr>ur_id = 1, ur_email = ''xy@c.de'', ur_is_active = True, ur_is_verified = True,
            ur_roles = []\<rparr>, ex_moved)"
    and db: "st_db ex_moved = (st_db ex_verified)\<lparr>users :=
      [ex_user\<lparr>user_is_verified := True, user_email := ''xy@c.de''\<rparr>]\<rparr>"
      "st_redis ex_moved = st_redis ex_verified"
    using eff by (simp_all add: ex_verified_users ex_moved_def roles_of_def ex_user_def)
      (simp_all add: ex_verified_def verified_by_def ex_registered_def empty_database_def)
  obtain resp s2 where reg: "register_user ex_env (50 * second) ''j2'' ''salt''
        \<lparr>uc_email = ''ab@c.de'', uc_password = ''Secret123''\<rparr> ex_moved = (Inr resp, s2)"
      "reg_id resp = 2" "st_redis s2 = st_redis ex_verified"
    using db
    by (simp add: register_user_def Let_def ex_verified_def verified_by_def ex_registered_def
        empty_database_def select_user_by_email_def select_role_by_name_def insert_user_def ex_user_def)
  note stale_token_changes_hands [OF ex_services(1) ex_verified_user(2) _ ex_current [unfolded
      ex_access_def] upd reg(1), of "60 * second"]
  then show ?thesis
    unfolding reg(1) snd_conv ex_access_def using reg(2,3)
    by (auto simp: expiry_second_def access_expiry_def)
qed

text \<open>After a successful change of password the account's new password signs in and no
  other one does, whatever the time and whatever the spelling of the address.\<close>

theorem change_password_replaces:
  assumes "exact_auth_services E" and "db_inv (st_db s)"
    and "change_current_user_password E now tok salt old new s = (Inr (), s1)"
  shows "\<exists>u. get_current_user E now tok s = Inr u \<and> new \<noteq> old \<and>
    (\<forall>e q now' j1 j2. lower e = user_email u \<longrightarrow>
      (fst (login_user E now' j1 j2 \<lparr>login_email = e, login_password = q\<rparr> s1) \<in> range Inr) =
        (q = new \<and> user_is_verified u))"
proof -
  have H: "exact_hasher (e_hash E)" using assms(1) by (simp add: exact_auth_services_def)
  obtain u where cur: "get_current_user E now tok s = Inr u"
    using assms(3) by (cases "get_current_user E now tok s")
      (simp_all add: change_current_user_password_def authenticated_def)
  let ?u = "u\<lparr>user_hashed_password := Some (hash_password (e_hash E) salt new)\<rparr>"
  note u = current_user_in [OF cur]
  obtain h where h: "user_hashed_password u = Some h" "verify_password (e_hash E) old h"
      "\<not> verify_password (e_hash E) new h"
    and s1: "st_db s1 = (st_db s)\<lparr>users := row_put user_id (users (st_db s)) ?u\<rparr>"
    using assms(3) cur
    by (auto simp: change_current_user_password_def authenticated_def validate_new_password_Inr
        change_user_password_eq [OF assms(2) u] split: sum.splits option.splits if_splits)
  have inv: "db_inv ((st_db s)\<lparr>users := row_put user_id (users (st_db s)) ?u\<rparr>)"
    using update_same_row(2) [OF assms(2) u, of ?u] by simp
  have sel: "select_user_by_email (st_db s1) (user_email u) = Some ?u"
    using select_updated_user(1) [OF inv] u s1 by simp
  have act: "user_is_active u" using cur by (auto simp: get_current_user_Inr)
  have signs: "(fst (login_user E now' j1 j2 \<lparr>login_email = e, login_password = q\<rparr> s1) \<in> range Inr) =
      (q = new \<and> user_is_verified u)" if "lower e = user_email u" for e q now' j1 j2
    using sel that act exact_hasher.verify_hash_iff [OF H, of q salt new]
    by (auto simp: login_user_def Let_def invalid_credentials_def)
  show ?thesis
    by (intro exI [of _ u] conjI allI impI cur signs) (use h in blast)
qed

lemma ex_change_password:
  "\<exists>s1. change_current_user_password ex_env (20 * second) ex_access ''salt2'' ''Secret123''
     ''NewPass456'' ex_verified = (Inr (), s1)"
proof -
  have "validate_new_password ''NewPass456'' = Inr ''NewPass456''"
    by (simp add: validate_new_password_Inr is_lower_char_def is_upper_char_def is_digit_char_def
        is_decimal_char_def code_def)
  then show ?thesis
    using ex_current change_user_password_eq [OF ex_verified_user(2) current_user_in [OF ex_current],
      of ref_hash "''salt2''" "''Secret123''" "''NewPass456''"]
    by (simp add: change_current_user_password_def authenticated_def ref_hash.verify_hash_iff)
       (simp add: ex_user_def ref_hash.verify_hash_iff)
qed

theorem change_password_replaces_witness:
  "\<exists>s1. change_current_user_password ex_env (20 * second) ex_access ''salt2'' ''Secret123''
       ''NewPass456'' ex_verified = (Inr (), s1) \<and>
     fst (login_user ex_env (40 * second) ''j3'' ''j4''
       \<lparr>login_email = ''ab@c.de'', login_password = ''Secret123''\<rparr> s1) \<notin> range Inr"
proof -
  obtain s1 where s1: "change_current_user_password ex_env (20 * second) ex_access ''salt2''
      ''Secret123'' ''NewPass456'' ex_verified = (Inr (), s1)"
    using ex_change_password by blast
  obtain u where u: "get_current_user ex_env (20 * second) ex_access ex_verified = Inr u"
    and only: "\<And>e q now' j1 j2. lower e = user_email u \<Longrightarrow>
      (fst (login_user ex_env now' j1 j2 \<lparr>login_email = e, login_password = q\<rparr> s1) \<in> range Inr) =
        (q = ''NewPass456'' \<and> user_is_verified u)"
    using change_password_replaces [OF ex_services(2) ex_verified_user(2) s1] by blast
  have "lower ''ab@c.de'' = user_email u" using u ex_current by (simp add: ex_user_def)
  from only [OF this, of "40 * second" "''j3''" "''j4''" "''Secret123''"] show ?thesis
    using s1 by (intro exI [of _ s1] conjI) simp_all
qed

text \<open>C16. Deactivating an account shuts it out at once and completely: in every later state with
  the same users no token, however new, authenticates it, no refresh token is exchanged for
  it, and no password signs it in.\<close>

theorem deactivated_is_shut_out:
  assumes "db_inv (st_db s)" and "deactivate_current_user E now tok s = (Inr (), s1)"
    and "users (st_db s') = users (st_db s1)"
  shows "\<exists>u. get_current_user E now tok s = Inr u \<and>
    (\<forall>now' tok' v. get_current_user E now' tok' s' = Inr v \<longrightarrow> user_id v \<noteq> user_id u) \<and>
    (\<forall>now' j tok' c. decode_refresh_token (e_jwt E) (e_settings E) now' tok' = Some c \<longrightarrow>
       claims_subject c = user_email u \<longrightarrow>
       fst (refresh_access_token E now' j tok' s') \<notin> range Inr) \<and>
    (\<forall>now' j1 j2 d. lower (login_email d) = user_email u \<longrightarrow>
       fst (login_user E now' j1 j2 d s') \<notin> range Inr)"
proof -
  obtain u where cur: "get_current_user E now tok s = Inr u"
    using assms(2) by (cases "get_current_user E now tok s")
      (simp_all add: deactivate_current_user_def authenticated_def)
  note u = current_user_in [OF cur]
  let ?u = "u\<lparr>user_is_active := False\<rparr>"
  let ?d = "(st_db s)\<lparr>users := row_put user_id (users (st_db s)) ?u\<rparr>"
  have us: "users (st_db s') = users ?d"
    using assms(2,3) cur
    by (auto simp: deactivate_current_user_def authenticated_def deactivate_user_eq [OF assms(1) u])
  have inv: "db_inv ?d" using update_same_row(2) [OF assms(1) u, of ?u] by simp
  have sel: "select_user_by_email (st_db s') e = select_user_by_email ?d e" for e
    by (simp add: select_user_by_email_def us)
  have off: "\<not> user_is_active v" if "v \<in> set (users ?d)" "user_id v = user_id u" for v
    using that by (auto simp: row_put_def split: if_splits)
  have off_email: "select_user_by_email (st_db s') (user_email u) = Some ?u"
    using select_updated_user(1) [OF inv] u sel by simp
  have "user_id v \<noteq> user_id u" if "get_current_user E now' tok' s' = Inr v" for now' tok' v
    using that off [of v] select_user_SomeD [of ?d _ v] sel by (auto simp: get_current_user_Inr)
  moreover have "fst (refresh_access_token E now' j tok' s') \<notin> range Inr"
    if "decode_refresh_token (e_jwt E) (e_settings E) now' tok' = Some c"
      "claims_subject c = user_email u" for now' j tok' c
    using that off_email by (auto simp: refresh_access_token_def Let_def)
  moreover have "fst (login_user E now' j1 j2 d s') \<notin> range Inr"
    if "lower (login_email d) = user_email u" for now' j1 j2 d
    using that off_email
    by (auto simp: login_user_def Let_def invalid_credentials_def split: option.splits)
  ultimately show ?thesis using cur by blast
qed

theorem deactivated_is_shut_out_witness:
  "\<exists>s1. deactivate_current_user ex_env (20 * second) ex_access ex_verified = (Inr (), s1) \<and>
     fst (login_user ex_env (40 * second) ''j3'' ''j4''
       \<lparr>login_email = ''ab@c.de'', login_password = ''Secret123''\<rparr> s1) \<notin> range Inr"
proof -
  obtain s1 where s1: "deactivate_current_user ex_env (20 * second) ex_access ex_verified = (Inr (), s1)"
    using ex_current deactivate_user_eq [OF ex_verified_user(2) current_user_in [OF ex_current]]
    by (simp add: deactivate_current_user_def authenticated_def)
  obtain u where u: "get_current_user ex_env (20 * second) ex_access ex_verified = Inr u"
    and out: "\<And>now' j1 j2 d. lower (login_email d) = user_email u \<Longrightarrow>
       fst (login_user ex_env now' j1 j2 d s1) \<notin> range Inr"
    using deactivated_is_shut_out [OF ex_verified_user(2) s1 refl] by blast
  have "lower (login_email \<lparr>login_email = ''ab@c.de'', login_password = ''Secret123''\<rparr>) = user_email u"
    using u ex_current by (simp add: ex_user_def)
  then have "fst (login_user ex_env (40 * second) ''j3'' ''j4''
      \<lparr>login_email = ''ab@c.de'', login_password = ''Secret123''\<rparr> s1) \<notin> range Inr"
    by (rule out)
  with s1 show ?thesis by blast
qed

subsection \<open>External providers\<close>

definition ex_clients :: oauth_clients where
  "ex_clients = (\<lambda>p. Some (fixed_client ''42'' (Some ''ab@c.de'')))"

lemma ex_require: "require_client ex_clients ''google'' = Inr (fixed_client ''42'' (Some ''ab@c.de''))"
  by (simp add: require_client_def SUPPORTED_PROVIDERS_def ex_clients_def)

lemma ex_identify: "identify (fixed_client ''42'' (Some ''ab@c.de'')) r ac = Inr (''42'', Some ''ab@c.de'')"
  by (simp add: identify_def fixed_client_def)

definition ex_flow :: "ref_store app_state" where
  "ex_flow = snd (oauth_login ex_env ex_clients (\<lambda>p. ''cb'') 0 ''st'' ''google'' ex_state)"

lemma ex_flow_value:
  "r_get ref_redis (st_redis ex_flow) (5 * second) (STATE_KEY_PREFIX @ ''st'') = Some ''login''"
  "st_db ex_flow = empty_database"
  by (simp_all add: ex_flow_def oauth_login_def start_flow_def ex_require ref_redis_def ref_get_def
      ref_set_def STATE_TTL_SECONDS_def) (simp add: ex_state_def)

lemma ex_callback:
  "fst (oauth_callback ex_env ex_clients (\<lambda>p. ''cb'') (5 * second) ''j1'' ''j2'' ''google'' ''x'' ''st'' ex_flow) =
     Inr (bearer_tokens ex_env (5 * second) ''j1'' ''j2'' ''ab@c.de'')"
  using ex_flow_value
  by (simp add: oauth_callback_eq ex_require ex_identify resolve_user_def Let_def)
     (simp add: sign_in_identity_def select_oauth_account_def find_or_create_user_def
       select_user_by_email_def insert_user_def insert_oauth_account_def get_user_def row_get_def
       row_add_def reject_inactive_def empty_database_def Let_def)

text \<open>A callback that got past its state has deleted it.\<close>

lemma oauth_callback_spends:
  assumes "auth_services E" and "t \<le> t'"
    and "oauth_callback E clients url_for t j1 j2 p ac st s = (res, s1)"
    and "require_client clients p = Inr c"
    and "res \<noteq> Inl (HTTPException 400 ''Invalid or expired OAuth state'' [])"
  shows "r_get (e_redis E) (st_redis s1) t' (STATE_KEY_PREFIX @ st) = None"
proof -
  have "r_get (e_redis E) (st_redis s) t (STATE_KEY_PREFIX @ st) \<noteq> None"
    using assms(3-5) by (auto simp: oauth_callback_eq split: option.splits)
  then have "st_redis s1 = r_delete (e_redis E) (st_redis s) t (STATE_KEY_PREFIX @ st)"
    using assms(3,4) by (auto simp: oauth_callback_eq Let_def split: sum.splits prod.splits)
  then show ?thesis using assms(1,2) redis_server.get_delete by (fastforce simp: auth_services_def)
qed

text \<open>C11. A link flow ends at the account that began it. A user who starts it and comes back
  within the ten minutes of the state with an identity nobody has linked gets that identity
  attached to the very account, which is then the one the tokens are for; an identity that
  another account holds is refused with a 409 and no row changes.\<close>

theorem oauth_link_binds:
  assumes "auth_services E" and "get_current_user E t tok s = Inr u" and "\<bar>user_id u\<bar> < 10 ^ 20"
    and "require_client clients p = Inr c"
    and "oauth_link E clients url_for t tok st p s = (r, s1)"
    and "t \<le> t'" and "t' < t + STATE_TTL_SECONDS * second" and "st_redis s' = st_redis s1"
    and "get_user (st_db s') (user_id u) = Some u'"
    and "identify c (url_for p) ac = Inr (puid, addr)"
    and "oauth_callback E clients url_for t' j1 j2 p ac st s' = (res, s2)"
  shows "case select_oauth_account (st_db s') p puid of
      None \<Rightarrow> res = Inr (bearer_tokens E t' j1 j2 (user_email u')) \<and>
        users (st_db s2) = users (st_db s') \<and>
        (\<exists>a. oauth_accounts (st_db s2) = oauth_accounts (st_db s') @ [a] \<and> oauth_user_id a = user_id u \<and>
           oauth_provider a = p \<and> oauth_provider_user_id a = puid)
    | Some a \<Rightarrow> st_db s2 = st_db s' \<and>
        res = (if oauth_user_id a = user_id u then Inr (bearer_tokens E t' j1 j2 (user_email u'))
               else Inl (HTTPException 409 ''This provider account is already linked to another user'' []))"
proof -
  have "st_redis s1 = r_set (e_redis E) (st_redis s) t (STATE_KEY_PREFIX @ st)
      (''link:'' @ py_str (user_id u)) STATE_TTL_SECONDS"
    using assms(2,4,5) by (auto simp: oauth_link_def authenticated_def start_flow_def)
  then have "r_get (e_redis E) (st_redis s') t' (STATE_KEY_PREFIX @ st) =
      Some (''link:'' @ py_str (user_id u))"
    using assms(1,6-8) redis_server.get_set
    by (fastforce simp: auth_services_def STATE_TTL_SECONDS_def)
  moreover note linking_user_link [OF assms(3)]
  moreover have "user_id u' = user_id u" using get_user_SomeD [OF assms(9)] by blast
  ultimately show ?thesis
    using assms(4,9-11)
    by (auto simp: oauth_callback_eq resolve_user_def link_identity_eq Let_def row_add_def
        simp del: append_Cons split: option.split)
qed

definition ex_linking :: "ref_store app_state" where
  "ex_linking = snd (oauth_link ex_env ex_clients (\<lambda>p. ''cb'') (20 * second) ex_access ''st'' ''google''
     ex_verified)"

lemma ex_linking_db: "st_db ex_linking = st_db ex_verified"
  using ex_current by (simp add: ex_linking_def oauth_link_def authenticated_def)

theorem oauth_link_binds_witness:
  "\<exists>a. oauth_accounts (st_db (snd (oauth_callback ex_env ex_clients (\<lambda>p. ''cb'') (30 * second) ''j3''
      ''j4'' ''google'' ''x'' ''st'' ex_linking))) = [a] \<and> oauth_user_id a = 1"
proof -
  have id: "\<bar>user_id (ex_user\<lparr>user_is_verified := True\<rparr>)\<bar> < 10 ^ 20" by (simp add: ex_user_def)
  have get: "get_user (st_db ex_linking) (user_id (ex_user\<lparr>user_is_verified := True\<rparr>)) =
      Some (ex_user\<lparr>user_is_verified := True\<rparr>)"
    using ex_verified_get by (simp add: ex_linking_db) (simp add: ex_user_def)
  have none: "oauth_accounts (st_db ex_linking) = []"
    unfolding ex_linking_db
    by (simp add: ex_verified_def verified_by_def ex_registered_def empty_database_def)
  note binds = oauth_link_binds [OF ex_services(1) ex_current id ex_require surjective_pairing _ _ _ get
      ex_identify surjective_pairing, of "30 * second" "\<lambda>p. ''cb''" "''st''" "''j3''" "''j4''" "''x''"]
  have "st_redis ex_linking = st_redis (snd (oauth_link ex_env ex_clients (\<lambda>p. ''cb'') (20 * second)
      ex_access ''st'' ''google'' ex_verified))" by (simp add: ex_linking_def)
  with binds show ?thesis
    using none by (simp add: STATE_TTL_SECONDS_def select_oauth_account_def)
      (auto simp: ex_user_def)
qed

text \<open>Signing in through a provider is signing in to one account. The first time an identity
  is seen it is attached to an account (an existing one with the address the provider gave, or
  a new verified one without a password); from then on it always leads to that account and
  changes nothing, whatever address the provider reports later.\<close>

theorem oauth_sign_in_stable:
  assumes "db_inv d" and "sign_in_identity d now p puid addr = (Inr u, d1)"
  shows "sign_in_identity d1 now' p puid addr' = (Inr u, d1) \<and> db_inv d1 \<and>
    (case select_oauth_account d p puid of
       Some a \<Rightarrow> d1 = d \<and> get_user d (oauth_user_id a) = Some u
     | None \<Rightarrow> addr = Some (user_email u) \<and>
         (if user_email u \<in> user_email ` set (users d) then users d1 = users d \<and> u \<in> set (users d)
          else users d1 = users d @ [u] \<and> user_hashed_password u = None \<and> user_is_verified u))"
proof -
  have inv: "db_inv d1" using sign_in_identity_inv(1) [OF assms(1), of now p puid addr] assms(2) by simp
  show ?thesis
  proof (cases "select_oauth_account d p puid")
    case (Some a)
    then have "get_user d (oauth_user_id a) = Some u \<and> user_is_active u \<and> d1 = d"
      using assms(2)
      by (auto simp: sign_in_identity_def reject_inactive_def split: option.splits if_splits)
    with Some inv show ?thesis by (simp add: sign_in_identity_def reject_inactive_def)
  next
    case None
    obtain e d0 where e: "addr = Some e" and f: "find_or_create_user d now e = Inr (u, d0)"
      and ins: "insert_oauth_account d0 (user_id u) p puid (Some e) now = Inr d1"
      and act: "user_is_active u"
      using assms None
      by (auto simp: sign_in_identity_def reject_inactive_def split: option.splits sum.splits if_splits)
    have u: "get_user d1 (user_id u) = Some u" "user_email u = e"
      using first_sign_in [OF assms(1) None f] ins by auto
    have sel: "select_oauth_account d1 p puid = Some \<lparr>oauth_id = seq_oauth_accounts d0,
        oauth_user_id = user_id u, oauth_provider = p, oauth_provider_user_id = puid,
        oauth_email = Some e, oauth_created_at = now\<rparr>"
      using ins by (auto simp: insert_oauth_Inr select_oauth_account_def row_add_def find_append)
    have same: "users d1 = users d0" using ins by (auto simp: insert_oauth_Inr)
    have "if e \<in> user_email ` set (users d) then users d0 = users d \<and> u \<in> set (users d)
        else users d0 = users d @ [u] \<and> user_hashed_password u = None \<and> user_is_verified u"
      using f
    proof (cases rule: find_or_create_user_cases)
      case existing
      then show ?thesis using select_user_SomeD [of d e u] by auto
    next
      case created
      then show ?thesis by (auto simp: insert_user_Inr select_user_None row_add_def)
    qed
    with None e u sel act inv same show ?thesis
      by (simp add: sign_in_identity_def reject_inactive_def)
  qed
qed

theorem oauth_sign_in_stable_witness:
  "\<exists>u d1. sign_in_identity empty_database 0 ''google'' ''42'' (Some ''ab@c.de'') = (Inr u, d1) \<and>
     sign_in_identity d1 9 ''google'' ''42'' (Some ''other@c.de'') = (Inr u, d1)"
proof -
  obtain u d1 where first:
      "sign_in_identity empty_database 0 ''google'' ''42'' (Some ''ab@c.de'') = (Inr u, d1)"
    by (simp add: sign_in_identity_def select_oauth_account_def find_or_create_user_def
       select_user_by_email_def insert_user_def insert_oauth_account_def get_user_def row_get_def
       row_add_def reject_inactive_def empty_database_def Let_def)
  from oauth_sign_in_stable [OF db_inv_empty first, of 9 "Some ''other@c.de''"] first
  show ?thesis by blast
qed

text \<open>C13. Nobody unlinks the last way in. Unlinking succeeds exactly when the caller has linked
  that provider and keeps a password or a second linked account; it removes one of the
  caller's rows and nothing else, and the account can still be signed in to.\<close>

theorem unlink_keeps_sign_in:
  assumes "db_inv (st_db s)" and "get_current_user E now tok s = Inr u"
    and "unlink_provider E now tok p s = (res, s1)"
  shows "(res = Inr () \<longleftrightarrow> p \<in> oauth_provider ` set (oauth_accounts_of (st_db s) (user_id u)) \<and>
      (user_hashed_password u \<noteq> None \<or> 1 < length (oauth_accounts_of (st_db s) (user_id u)))) \<and>
    (res \<noteq> Inr () \<longrightarrow> s1 = s) \<and>
    (res = Inr () \<longrightarrow> (\<exists>a \<in> set (oauth_accounts_of (st_db s) (user_id u)). oauth_provider a = p \<and>
       s1 = s\<lparr>st_db := (st_db s)\<lparr>oauth_accounts := remove1 a (oauth_accounts (st_db s))\<rparr>\<rparr>)) \<and>
    can_sign_in (st_db s1) u"
proof -
  let ?d = "st_db s"
  note u = current_user_in [OF assms(2)]
  have r: "(res, s1) = committed s (unlink_from ?d u p)"
    using assms(2,3) by (simp add: unlink_provider_def authenticated_def)
  have ok: "can_sign_in d' u" if "db_inv d'" "users d' = users ?d" for d'
    using that u by (simp add: db_inv_def sign_in_ok_iff)
  show ?thesis
  proof (cases "unlink_from ?d u p")
    case (Inl e)
    then have "\<not> (p \<in> oauth_provider ` set (oauth_accounts_of ?d (user_id u)) \<and>
      (user_hashed_password u \<noteq> None \<or> 1 < length (oauth_accounts_of ?d (user_id u))))"
      by (auto simp: unlink_from_def oauth_accounts_of_def Let_def find_None_iff
          split: option.splits if_splits)
    with Inl r ok [OF assms(1) refl] show ?thesis by simp
  next
    case (Inr x)
    then obtain a where a: "a \<in> set (oauth_accounts_of ?d (user_id u))" "oauth_provider a = p"
        "user_hashed_password u \<noteq> None \<or> 1 < length (oauth_accounts_of ?d (user_id u))"
      and x: "x = ((), delete_oauth_account ?d (oauth_id a))"
      by (auto simp: unlink_from_def oauth_accounts_of_def Let_def dest!: find_Some_set
          split: option.splits if_splits)
    have "distinct (map oauth_id (oauth_accounts ?d))" and "a \<in> set (oauth_accounts ?d)"
      using assms(1) a(1) by (simp_all add: db_inv_def db_wf_def oauth_wf_def oauth_accounts_of_def)
    then have "delete_oauth_account ?d (oauth_id a) =
        ?d\<lparr>oauth_accounts := remove1 a (oauth_accounts ?d)\<rparr>"
      by (simp add: delete_oauth_account_def row_delete_remove1)
    moreover have "can_sign_in (delete_oauth_account ?d (oauth_id a)) u"
      using unlink_inv [OF Inr [unfolded x] assms(1) u] by (intro ok) (simp_all add: delete_oauth_account_def)
    ultimately show ?thesis using Inr r x a by auto
  qed
qed

theorem unlink_keeps_sign_in_witness:
  "fst (unlink_provider ex_env (20 * second) ex_access ''google'' ex_verified) \<noteq> Inr ()"
proof -
  have "oauth_accounts_of (st_db ex_verified) i = []" for i
    by (simp add: ex_verified_def verified_by_def ex_registered_def empty_database_def oauth_accounts_of_def)
  then show ?thesis
    using unlink_keeps_sign_in [OF ex_verified_user(2) ex_current surjective_pairing, of "''google''"]
    by simp
qed

end
