(* ===== verification/Races.thy ===== *)
theory Races
  imports AccountFlows
begin

text \<open>
  Two requests at the same time. A handler that looks first and writes afterwards is two steps:
  the check, which reads, and the commit, which writes what the check allowed. Between them
  other requests may run. \<open>alone\<close> puts the steps of one request together again and is the
  handler itself; \<open>run_schedule\<close> interleaves several, in the order of a list of their numbers.
  The handlers are synchronous functions that run in a thread pool and in several worker
  processes, and the database commits each transaction without locking what it read, so every
  such order occurs; the unique indexes hold at every commit.
\<close>

record ('s, 'c, 'a) two_step =
  ts_check :: "'s \<Rightarrow> failure + 'c"
  ts_commit :: "'c \<Rightarrow> 's \<Rightarrow> ('a, 's) handled"

datatype ('c, 'a) phase = Pending | Checked 'c | Answered "failure + 'a"

definition alone :: "('s, 'c, 'a) two_step \<Rightarrow> 's \<Rightarrow> ('a, 's) handled" where
  "alone op s = (case ts_check op s of Inl e \<Rightarrow> (Inl e, s) | Inr c \<Rightarrow> ts_commit op c s)"

fun phase_step :: "('s, 'c, 'a) two_step \<Rightarrow> ('c, 'a) phase \<Rightarrow> 's \<Rightarrow> ('c, 'a) phase \<times> 's" where
  "phase_step op Pending s = (case ts_check op s of Inl e \<Rightarrow> (Answered (Inl e), s) | Inr c \<Rightarrow> (Checked c, s))"
| "phase_step op (Checked c) s = (let (res, s') = ts_commit op c s in (Answered res, s'))"
| "phase_step op (Answered res) s = (Answered res, s)"

fun run_schedule ::
  "('s, 'c, 'a) two_step list \<Rightarrow> nat list \<Rightarrow> ('c, 'a) phase list \<times> 's \<Rightarrow> ('c, 'a) phase list \<times> 's" where
  "run_schedule ops [] ps = ps"
| "run_schedule ops (i # is) (phases, s) =
     (if i < length ops \<and> i < length phases
      then (let (p, s') = phase_step (ops ! i) (phases ! i) s in run_schedule ops is (phases[i := p], s'))
      else run_schedule ops is (phases, s))"

definition all_pending :: "('s, 'c, 'a) two_step list \<Rightarrow> ('c, 'a) phase list" where
  "all_pending ops = replicate (length ops) Pending"

text \<open>What every step keeps holds after every schedule; two turns bring a request to its answer.\<close>

lemma run_schedule_length [simp]:
  "length (fst (run_schedule ops sched (phases, s))) = length phases"
  by (induction ops sched "(phases, s)" arbitrary: phases s rule: run_schedule.induct)
     (simp_all split: prod.split)

lemma run_schedule_invariant:
  assumes step: "\<And>i phases s p s'. I phases s \<Longrightarrow> i < length ops \<Longrightarrow> i < length phases \<Longrightarrow>
      phase_step (ops ! i) (phases ! i) s = (p, s') \<Longrightarrow> I (phases[i := p]) s'"
    and "I phases s" and "run_schedule ops sched (phases, s) = (phases', t)"
  shows "I phases' t"
  using assms(2,3)
proof (induction sched arbitrary: phases s)
  case Nil
  then show ?case by simp
next
  case (Cons i sched)
  show ?case
  proof (cases "i < length ops \<and> i < length phases")
    case True
    obtain p s' where p: "phase_step (ops ! i) (phases ! i) s = (p, s')" by fastforce
    from step [OF Cons.prems(1) _ _ p] True have "I (phases[i := p]) s'" by simp
    with Cons.IH Cons.prems(2) True p show ?thesis by simp
  next
    case False
    then have "run_schedule ops sched (phases, s) = (phases', t)" using Cons.prems(2) by auto
    with Cons show ?thesis by blast
  qed
qed

fun turns_left :: "('c, 'a) phase \<Rightarrow> nat" where
  "turns_left Pending = 2"
| "turns_left (Checked _) = 1"
| "turns_left (Answered _) = 0"

lemma turns_left_step: "turns_left (fst (phase_step op p s)) \<le> turns_left p - 1"
  by (cases "(op, p, s)" rule: phase_step.cases) (auto split: sum.split prod.split)

lemma run_schedule_turns:
  assumes "i < length ops" and "length phases = length ops"
  shows "turns_left (fst (run_schedule ops sched (phases, s)) ! i) \<le>
    turns_left (phases ! i) - count_list sched i"
  using assms(2)
proof (induction sched arbitrary: phases s)
  case Nil
  then show ?case by simp
next
  case (Cons j sched)
  show ?case
  proof (cases "j < length ops")
    case True
    obtain p s' where p: "phase_step (ops ! j) (phases ! j) s = (p, s')" by fastforce
    have "turns_left p \<le> turns_left (phases ! j) - 1"
      using turns_left_step [of "ops ! j" "phases ! j" s] p by simp
    with Cons.IH [of "phases[j := p]" s'] Cons.prems True assms(1) p show ?thesis
      by (cases "i = j") auto
  next
    case False
    with Cons.IH [of phases s] Cons.prems assms(1) show ?thesis by auto
  qed
qed

lemma turns_left_0: "turns_left p = 0 \<longleftrightarrow> (\<exists>res. p = Answered res)"
  by (cases p) auto

lemma all_pending_simps [simp]:
  "length (all_pending ops) = length ops"
  "i < length ops \<Longrightarrow> all_pending ops ! i = Pending"
  by (simp_all add: all_pending_def)

lemma scheduled_twice:
  assumes "i < length ops" and "2 \<le> count_list sched i"
  shows "\<exists>res. fst (run_schedule ops sched (all_pending ops, s)) ! i = Answered res"
  using run_schedule_turns [OF assms(1), of "all_pending ops" sched s] assms
  by (simp add: turns_left_0 [symmetric])

subsection \<open>The handlers in two steps\<close>

definition registration ::
  "'r env \<Rightarrow> time \<Rightarrow> string \<Rightarrow> string \<Rightarrow> user_create \<Rightarrow> ('r app_state, unit, registration_response) two_step" where
  "registration E now jti salt user_data =
     \<lparr>ts_check = (\<lambda>s. case select_user_by_email (st_db s) (lower (uc_email user_data)) of
        Some _ \<Rightarrow> Inl email_taken | None \<Rightarrow> Inr ()),
      ts_commit = (\<lambda>_ s.
        (let d = st_db s in
         case insert_user d (lower (uc_email user_data))
                (Some (hash_password (e_hash E) salt (uc_password user_data))) True False now of
           Inl err \<Rightarrow> (Inl err, s)
         | Inr (u, d1) \<Rightarrow>
             (case (case select_role_by_name d DEFAULT_USER_ROLE_NAME of
                      None \<Rightarrow> Inr d1
                    | Some r \<Rightarrow> append_role d1 (user_id u) (role_id r)) of
                Inl err \<Rightarrow> (Inl err, s)
              | Inr d2 \<Rightarrow>
                  (let token = create_email_verification_token (e_jwt E) (e_settings E) now jti
                                 (py_str (user_id u))
                   in (Inr \<lparr>reg_id = user_id u, reg_email = user_email u,
                            reg_is_active = user_is_active u, reg_is_verified = user_is_verified u,
                            reg_message = ''Registration successful. Check your email to verify your account.''\<rparr>,
                       s\<lparr>st_db := d2,
                         st_queue := st_queue s @ [SendVerificationEmail (user_email u) token]\<rparr>)))))\<rparr>"

definition unlinking :: "user \<Rightarrow> string \<Rightarrow> ('r app_state, int, unit) two_step" where
  "unlinking u provider =
     \<lparr>ts_check = (\<lambda>s. let d = st_db s in
        case List.find (\<lambda>a. oauth_user_id a = user_id u \<and> oauth_provider a = provider) (oauth_accounts d) of
          None \<Rightarrow> Inl (HTTPException 404 ''Provider is not linked'' [])
        | Some link \<Rightarrow>
            if user_hashed_password u = None \<and> length (oauth_accounts_of d (user_id u)) \<le> 1
            then Inl (HTTPException 400
              ''Cannot unlink the only sign-in method. Set a password first via the password reset flow.'' [])
            else Inr (oauth_id link)),
      ts_commit = (\<lambda>i s. (Inr (), s\<lparr>st_db := delete_oauth_account (st_db s) i\<rparr>))\<rparr>"

text \<open>The UPDATE of a changed password writes that column only, and fails when the row is gone.\<close>

definition write_password :: "database \<Rightarrow> int \<Rightarrow> string \<Rightarrow> failure + database" where
  "write_password d uid hashed =
     (case get_user d uid of
        None \<Rightarrow> Inl (Unhandled ''StaleDataError'')
      | Some u \<Rightarrow> update_user d (u\<lparr>user_hashed_password := Some hashed\<rparr>))"

definition resetting ::
  "'r env \<Rightarrow> time \<Rightarrow> string \<Rightarrow> string \<Rightarrow> string \<Rightarrow> ('r app_state, user \<times> token_claims, string) two_step" where
  "resetting E now salt token new_password =
     \<lparr>ts_check = (\<lambda>s.
        (let invalid = Inl (HTTPException 401 ''Invalid or expired password reset token'' []) in
         case decode_password_reset_token (e_jwt E) (e_settings E) now token of
           None \<Rightarrow> invalid
         | Some claims \<Rightarrow>
             if is_token_used (e_redis E) (st_redis s) now (claims_jti claims) then invalid
             else (case py_int (claims_subject claims) of
                None \<Rightarrow> Inl (HTTPException 401 ''Invalid password reset token subject'' [])
              | Some uid \<Rightarrow>
                  (case get_user (st_db s) uid of
                     None \<Rightarrow> Inl (HTTPException 404 ''User not found'' [])
                   | Some u \<Rightarrow>
                       if \<not> user_is_active u then Inl (HTTPException 403 ''User account is inactive'' [])
                       else if (case user_hashed_password u of None \<Rightarrow> False
                                | Some hashed \<Rightarrow> verify_password (e_hash E) new_password hashed)
                       then Inl (HTTPException 400 ''New password must be different'' [])
                       else Inr (u, claims))))),
      ts_commit = (\<lambda>(u, claims) s.
        case write_password (st_db s) (user_id u) (hash_password (e_hash E) salt new_password) of
          Inl err \<Rightarrow> (Inl err, s)
        | Inr d \<Rightarrow>
            (Inr ''Password reset successfully'',
             s\<lparr>st_db := d,
               st_redis := mark_token_used (e_redis E) (st_redis s) now (claims_jti claims)
                 (remaining_ttl_seconds (claims_expires_at claims) now)\<rparr>))\<rparr>"

text \<open>Nothing was changed by cutting the handlers in two.\<close>

lemma registration_alone: "alone (registration E now jti salt user_data) s = register_user E now jti salt user_data s"
  by (simp add: alone_def registration_def register_user_def Let_def split: option.split sum.split prod.split)

lemma unlinking_alone: "alone (unlinking u provider) s = committed s (unlink_from (st_db s) u provider)"
  by (auto simp: alone_def unlinking_def unlink_from_def committed_def Let_def split: option.split)

lemma write_password_found:
  "get_user d i = Some u \<Longrightarrow> write_password d (user_id u) h = update_user d (u\<lparr>user_hashed_password := Some h\<rparr>)"
  using get_user_SomeD [of d i u] by (simp add: write_password_def)

lemma resetting_alone: "alone (resetting E now salt token p) s = reset_password E now salt token p s"
  by (auto simp: alone_def resetting_def reset_password_def write_password_found Let_def
      split: option.split)

lemma alone_Inr:
  assumes "alone op s = (Inr r, t)"
  obtains c where "ts_check op s = Inr c" and "ts_commit op c s = (Inr r, t)"
  using assms by (auto simp: alone_def split: sum.splits)

subsection \<open>Registrations\<close>

type_synonym registration_request = "time \<times> string \<times> string \<times> user_create"

definition registrations ::
  "'r env \<Rightarrow> registration_request list \<Rightarrow> ('r app_state, unit, registration_response) two_step list" where
  "registrations E rs = map (\<lambda>(now, jti, salt, user_data). registration E now jti salt user_data) rs"

definition address :: "registration_request \<Rightarrow> string" where
  "address r = lower (uc_email (snd (snd (snd r))))"

fun succeeded :: "('c, 'a) phase \<Rightarrow> bool" where
  "succeeded (Answered (Inr _)) = True"
| "succeeded _ = False"

definition winners :: "('c, 'a) phase list \<Rightarrow> nat set" where
  "winners phases = {i. i < length phases \<and> succeeded (phases ! i)}"

lemma winners_pending [simp]: "winners (all_pending ops) = {}"
  by (auto simp: winners_def)

lemma winners_update:
  assumes "i < length phases" and "\<not> succeeded (phases ! i)"
  shows "winners (phases[i := p]) = (if succeeded p then insert i (winners phases) else winners phases)"
  using assms by (auto simp: winners_def nth_list_update split: if_splits)

text \<open>The commit of a registration: the unique index decides.\<close>

definition registration_outcome :: "string \<Rightarrow> database \<Rightarrow> failure + registration_response \<Rightarrow> database \<Rightarrow> bool" where
  "registration_outcome e d res d' \<longleftrightarrow> db_inv d' \<and>
     (case res of
        Inl err \<Rightarrow> err \<in> {email_taken, integrity_error} \<and> d' = d \<and> e \<in> user_email ` set (users d)
      | Inr _ \<Rightarrow> e \<notin> user_email ` set (users d) \<and>
          user_email ` set (users d') = insert e (user_email ` set (users d)))"

lemma select_user_address: "select_user_by_email d e = Some u \<Longrightarrow> e \<in> user_email ` set (users d)"
  by (metis option.distinct(1) select_user_None)

lemma registration_check:
  assumes "db_inv (st_db s)" and "ts_check (registration E now jti salt user_data) s = Inl err"
  shows "registration_outcome (lower (uc_email user_data)) (st_db s) (Inl err) (st_db s)"
  using assms by (auto simp: registration_def registration_outcome_def split: option.splits
      dest: select_user_address)

lemma registration_commit:
  assumes inv: "db_inv (st_db s)"
    and commit: "ts_commit (registration E now jti salt user_data) c s = (res, t)"
  shows "registration_outcome (lower (uc_email user_data)) (st_db s) res (st_db t)"
proof (cases "select_user_by_email (st_db s) (lower (uc_email user_data))")
  case (Some u)
  then have "res = Inl integrity_error \<and> t = s"
    using commit by (auto simp: registration_def Let_def insert_user_def)
  with select_user_address [OF Some] inv show ?thesis by (simp add: registration_outcome_def)
next
  case None
  then have reg: "register_user E now jti salt user_data s = (res, t)"
    using commit registration_alone [of E now jti salt user_data s]
    by (simp add: alone_def registration_def)
  have safe: "db_inv (st_db t)" "\<not> is_unhandled res"
    using register_user_safe [OF inv, of E now jti salt user_data] by (simp_all add: reg safe_result_def)
  obtain resp where res: "res = Inr resp"
    using safe(2) reg None
    by (auto simp: register_user_def Let_def insert_user_def append_role_def integrity_error_def
        split: option.splits if_splits)
  with register_user_Inr(3) [OF reg [unfolded res]] None safe(1) show ?thesis
    by (auto simp: registration_outcome_def select_user_None)
qed

text \<open>What holds between the steps of concurrent registrations.\<close>

definition registering :: "registration_request list \<Rightarrow> database \<Rightarrow> (unit, registration_response) phase list \<Rightarrow> database \<Rightarrow> bool" where
  "registering rs d0 phases d \<longleftrightarrow> db_inv d \<and>
     inj_on (\<lambda>i. address (rs ! i)) (winners phases) \<and>
     (\<lambda>i. address (rs ! i)) ` winners phases \<inter> user_email ` set (users d0) = {} \<and>
     user_email ` set (users d) = user_email ` set (users d0) \<union> (\<lambda>i. address (rs ! i)) ` winners phases \<and>
     (\<forall>i e. i < length phases \<longrightarrow> phases ! i = Answered (Inl e) \<longrightarrow>
        e \<in> {email_taken, integrity_error} \<and> address (rs ! i) \<in> user_email ` set (users d))"

lemma registering_answer:
  assumes "registering rs d0 phases d" and "i < length phases" and "\<not> succeeded (phases ! i)"
    and "registration_outcome (address (rs ! i)) d res d'"
  shows "registering rs d0 (phases[i := Answered res]) d'"
proof (cases res)
  case (Inl err)
  with assms show ?thesis
    by (auto simp: registering_def registration_outcome_def winners_update nth_list_update)
next
  case (Inr resp)
  have "i \<notin> winners phases" using assms(3) by (simp add: winners_def)
  with assms Inr show ?thesis
    by (auto simp: registering_def registration_outcome_def winners_update nth_list_update)
qed

lemma registering_checked:
  "registering rs d0 phases d \<Longrightarrow> i < length phases \<Longrightarrow> \<not> succeeded (phases ! i) \<Longrightarrow>
     registering rs d0 (phases[i := Checked c]) d"
  by (auto simp: registering_def winners_update nth_list_update)

lemma registering_step:
  assumes inv: "registering rs d0 phases (st_db s)" and i: "i < length (registrations E rs)" "i < length phases"
    and step: "phase_step (registrations E rs ! i) (phases ! i) s = (p, s')"
  shows "registering rs d0 (phases[i := p]) (st_db s')"
proof -
  obtain now jti salt user_data where r: "rs ! i = (now, jti, salt, user_data)" by (metis prod_cases4)
  then have op: "registrations E rs ! i = registration E now jti salt user_data"
    and a: "address (rs ! i) = lower (uc_email user_data)"
    using i(1) by (simp_all add: registrations_def address_def)
  have db: "db_inv (st_db s)" using inv by (simp add: registering_def)
  show ?thesis
  proof (cases "phases ! i")
    case Pending
    show ?thesis
    proof (cases "ts_check (registration E now jti salt user_data) s")
      case (Inl err)
      with registering_answer [OF inv i(2), of "Inl err" "st_db s"] registration_check [OF db Inl]
        step Pending op a show ?thesis by simp
    next
      case (Inr c)
      with registering_checked [OF inv i(2), of c] step Pending op show ?thesis by simp
    qed
  next
    case (Checked c)
    then obtain res where "ts_commit (registration E now jti salt user_data) c s = (res, s')"
      and "p = Answered res" using step op by (auto split: prod.splits)
    with registering_answer [OF inv i(2), of res "st_db s'"] registration_commit [OF db] Checked a
    show ?thesis by simp
  next
    case (Answered res)
    then have "phases[i := p] = phases \<and> s' = s" using step by (auto simp: list_update_same_conv i(2))
    with inv show ?thesis by simp
  qed
qed

text \<open>C14. Registrations that run at the same time, however their checks and commits are
  interleaved: the database keeps its invariant, no two of them obtain one address and none
  takes an address that was held before, exactly the winners' addresses are added, a request
  scheduled for both of its steps gets its answer, and a loser is refused, while the address
  he asked for is held, with the 409 or with the integrity error of the unique index.\<close>

theorem concurrent_registrations:
  assumes "db_inv (st_db s)"
    and "run_schedule (registrations E rs) sched (all_pending (registrations E rs), s) = (phases, t)"
  shows "db_inv (st_db t) \<and>
    inj_on (\<lambda>i. address (rs ! i)) (winners phases) \<and>
    (\<lambda>i. address (rs ! i)) ` winners phases \<inter> user_email ` set (users (st_db s)) = {} \<and>
    user_email ` set (users (st_db t)) =
      user_email ` set (users (st_db s)) \<union> (\<lambda>i. address (rs ! i)) ` winners phases \<and>
    (\<forall>i < length rs. 2 \<le> count_list sched i \<longrightarrow> i \<in> winners phases \<or>
       (\<exists>e \<in> {email_taken, integrity_error}. phases ! i = Answered (Inl e) \<and>
          address (rs ! i) \<in> user_email ` set (users (st_db t))))"
proof -
  let ?ops = "registrations E rs"
  have ops: "length ?ops = length rs" by (simp add: registrations_def)
  have len: "length phases = length rs"
    using run_schedule_length [of ?ops sched "all_pending ?ops" s] assms(2) ops by simp
  let ?I = "\<lambda>phases s'. registering rs (st_db s) phases (st_db s')"
  have start: "?I (all_pending ?ops) s" using assms(1) by (simp add: registering_def)
  have step: "?I (ps[i := p]) s2"
    if "?I ps s1" "i < length ?ops" "i < length ps" "phase_step (?ops ! i) (ps ! i) s1 = (p, s2)"
    for i ps s1 p s2
    using registering_step [OF that] .
  have reg: "?I phases t" by (rule run_schedule_invariant [where I = ?I, OF step start assms(2)])
  have "i \<in> winners phases \<or> (\<exists>e \<in> {email_taken, integrity_error}. phases ! i = Answered (Inl e) \<and>
      address (rs ! i) \<in> user_email ` set (users (st_db t)))"
    if i: "i < length rs" "2 \<le> count_list sched i" for i
  proof -
    obtain res where res: "phases ! i = Answered res"
      using scheduled_twice [of i ?ops sched s] i ops assms(2) by auto
    with reg i(1) len show ?thesis
      by (cases res) (auto simp: registering_def winners_def)
  qed
  with reg show ?thesis by (simp add: registering_def)
qed

text \<open>Two people register one free address: both pass the check, the second commit fails.\<close>

definition ex_registrations :: "registration_request list" where
  "ex_registrations =
     [(0, ''j0'', ''salt'', \<lparr>uc_email = ''ab@c.de'', uc_password = ''Secret123''\<rparr>),
      (0, ''j5'', ''salt5'', \<lparr>uc_email = ''ab@c.de'', uc_password = ''Other456''\<rparr>)]"

lemma ex_registrations_run:
  "\<exists>r t. run_schedule (registrations ex_env ex_registrations) [0, 1, 0, 1]
     (all_pending (registrations ex_env ex_registrations), ex_state) =
     ([Answered (Inr r), Answered (Inl integrity_error)], t)"
  by (simp add: registrations_def ex_registrations_def all_pending_def registration_def Let_def
      ex_state_def empty_database_def select_user_by_email_def select_role_by_name_def
      insert_user_def row_add_def)

theorem concurrent_registrations_witness:
  "\<exists>r t. run_schedule (registrations ex_env ex_registrations) [0, 1, 0, 1]
     (all_pending (registrations ex_env ex_registrations), ex_state) =
     ([Answered (Inr r), Answered (Inl integrity_error)], t) \<and> db_inv (st_db t)"
  using ex_registrations_run concurrent_registrations [OF ex_inv(1)] by blast

subsection \<open>Unlinking\<close>

lemma find_filter: "List.find (\<lambda>x. P x \<and> Q x) xs = List.find Q (filter P xs)"
  by (induction xs) auto

lemma unlinking_check:
  "ts_check (unlinking u provider) s =
     (case List.find (\<lambda>a. oauth_provider a = provider) (oauth_accounts_of (st_db s) (user_id u)) of
        None \<Rightarrow> Inl (HTTPException 404 ''Provider is not linked'' [])
      | Some link \<Rightarrow>
          if user_hashed_password u = None \<and> length (oauth_accounts_of (st_db s) (user_id u)) \<le> 1
          then Inl (HTTPException 400
            ''Cannot unlink the only sign-in method. Set a password first via the password reset flow.'' [])
          else Inr (oauth_id link))"
  by (simp add: unlinking_def find_filter oauth_accounts_of_def Let_def)

lemma unlinking_commit:
  "ts_commit (unlinking u provider) i s = (Inr (), s\<lparr>st_db := delete_oauth_account (st_db s) i\<rparr>)"
  by (simp add: unlinking_def)

lemma oauth_accounts_of_delete:
  "oauth_accounts_of (delete_oauth_account d i) uid =
     filter (\<lambda>a. oauth_id a \<noteq> i) (oauth_accounts_of d uid)"
  by (simp add: oauth_accounts_of_def delete_oauth_account_def row_delete_def conj_commute)

text \<open>The guard on the last sign-in method reads before it writes. A user without a
  password and with two linked providers who unlinks both at the same time gets both requests
  granted and no way to sign in is left, against the invariant that the requests keep when they
  run one after the other: then the second is refused.\<close>

theorem concurrent_unlinks:
  assumes "db_inv (st_db s)" and "u \<in> set (users (st_db s))" and "user_hashed_password u = None"
    and "oauth_accounts_of (st_db s) (user_id u) = [a, b]" and "oauth_provider a \<noteq> oauth_provider b"
    and "ops = [unlinking u (oauth_provider a), unlinking u (oauth_provider b)]"
  shows "(\<exists>t. run_schedule ops [0, 1, 0, 1] (all_pending ops, s) =
      ([Answered (Inr ()), Answered (Inr ())], t) \<and>
      oauth_accounts_of (st_db t) (user_id u) = [] \<and> \<not> db_inv (st_db t)) \<and>
    (\<exists>t m. run_schedule ops [0, 0, 1, 1] (all_pending ops, s) =
      ([Answered (Inr ()), Answered (Inl (HTTPException 400 m []))], t) \<and>
      oauth_accounts_of (st_db t) (user_id u) = [b] \<and> db_inv (st_db t))"
proof -
  have "distinct (map oauth_id (oauth_accounts_of (st_db s) (user_id u)))"
    using assms(1)
    by (simp add: oauth_accounts_of_def distinct_map_filterI db_inv_def db_wf_def oauth_wf_def)
  then have ids: "oauth_id a \<noteq> oauth_id b" by (simp add: assms(4))
  let ?first = "s\<lparr>st_db := delete_oauth_account (st_db s) (oauth_id a)\<rparr>"
  let ?both = "?first\<lparr>st_db := delete_oauth_account (st_db ?first) (oauth_id b)\<rparr>"
  have none: "oauth_accounts_of (st_db ?both) (user_id u) = []"
    by (simp add: oauth_accounts_of_delete assms(4))
  have one: "oauth_accounts_of (st_db ?first) (user_id u) = [b]"
    using ids by (simp add: oauth_accounts_of_delete assms(4))
  have "\<not> can_sign_in (st_db ?both) u" using none assms(3) by (simp add: can_sign_in_def)
  moreover have "u \<in> set (users (st_db ?both))" using assms(2) by (simp add: delete_oauth_account_def)
  ultimately have broken: "\<not> db_inv (st_db ?both)" by (auto simp: db_inv_def sign_in_ok_iff)
  have "unlink_from (st_db s) u (oauth_provider a) = Inr ((), delete_oauth_account (st_db s) (oauth_id a))"
    by (simp add: unlink_from_def find_filter Let_def assms(4) flip: oauth_accounts_of_def)
  then have kept: "db_inv (st_db ?first)" using unlink_inv assms(1,2) by fastforce
  show ?thesis
    using none one broken kept assms(3-6) ids
    by (simp add: all_pending_def unlinking_check unlinking_commit)
qed

definition ex_linked_user :: user where
  "ex_linked_user = \<lparr>user_id = 1, user_email = ''ab@c.de'', user_hashed_password = None,
     user_is_active = True, user_is_verified = True, user_created_at = 0\<rparr>"

definition ex_google :: oauth_account where
  "ex_google = \<lparr>oauth_id = 1, oauth_user_id = 1, oauth_provider = ''google'',
     oauth_provider_user_id = ''42'', oauth_email = None, oauth_created_at = 0\<rparr>"

definition ex_github :: oauth_account where
  "ex_github = \<lparr>oauth_id = 2, oauth_user_id = 1, oauth_provider = ''github'',
     oauth_provider_user_id = ''77'', oauth_email = None, oauth_created_at = 0\<rparr>"

definition ex_linked :: "ref_store app_state" where
  "ex_linked = ex_state\<lparr>st_db := empty_database\<lparr>users := [ex_linked_user], seq_users := 2,
     oauth_accounts := [ex_google, ex_github], seq_oauth_accounts := 3\<rparr>\<rparr>"

theorem concurrent_unlinks_witness:
  "\<exists>t. run_schedule [unlinking ex_linked_user ''google'', unlinking ex_linked_user ''github''] [0, 1, 0, 1]
      ([Pending, Pending], ex_linked) = ([Answered (Inr ()), Answered (Inr ())], t) \<and>
     \<not> db_inv (st_db t)"
proof -
  note ex = ex_linked_def ex_linked_user_def ex_google_def ex_github_def empty_database_def
  have "db_inv (st_db ex_linked)"
    by (simp add: ex db_inv_def db_wf_def wf_defs sign_in_ok_iff can_sign_in_iff)
  moreover have "ex_linked_user \<in> set (users (st_db ex_linked))"
    and "user_hashed_password ex_linked_user = None"
    and "oauth_accounts_of (st_db ex_linked) (user_id ex_linked_user) = [ex_google, ex_github]"
    and "oauth_provider ex_google \<noteq> oauth_provider ex_github"
    by (simp_all add: ex oauth_accounts_of_def)
  ultimately show ?thesis
    using concurrent_unlinks [OF _ _ _ _ _ refl, of ex_linked ex_linked_user ex_google ex_github]
    by (auto simp: all_pending_def ex_google_def ex_github_def)
qed

subsection \<open>Resets\<close>

lemma resetting_checked:
  assumes "ts_check (resetting E now salt token p) s = Inr (u, claims)"
  shows "get_user (st_db s) (user_id u) = Some u"
    and "decode_password_reset_token (e_jwt E) (e_settings E) now token = Some claims"
  using assms get_user_SomeD by (auto simp: resetting_def Let_def split: option.splits if_splits)

lemma resetting_commit:
  assumes "db_inv (st_db s)" and "get_user (st_db s) i = Some u" and "i = user_id v"
  shows "ts_commit (resetting E now salt token p) (v, claims) s =
    (Inr ''Password reset successfully'',
     s\<lparr>st_db := (st_db s)\<lparr>users := row_put user_id (users (st_db s))
         (u\<lparr>user_hashed_password := Some (hash_password (e_hash E) salt p)\<rparr>)\<rparr>,
       st_redis := mark_token_used (e_redis E) (st_redis s) now (claims_jti claims)
         (remaining_ttl_seconds (claims_expires_at claims) now)\<rparr>)"
  using update_existing(1) [OF assms(1,2),
      of "u\<lparr>user_hashed_password := Some (hash_password (e_hash E) salt p)\<rparr>"] assms(2,3)
    get_user_SomeD [OF assms(2)]
  by (simp add: resetting_def write_password_def)

lemma resetting_used:
  assumes "decode_password_reset_token (e_jwt E) (e_settings E) now token = Some claims"
    and "is_token_used (e_redis E) (st_redis s) now (claims_jti claims)"
  shows "ts_check (resetting E now salt token p) s =
    Inl (HTTPException 401 ''Invalid or expired password reset token'' [])"
  using assms by (simp add: resetting_def)

lemma row_put_twice: "pk r = pk r' \<Longrightarrow> row_put pk (row_put pk t r) r' = row_put pk t r'"
  by (induction t) (simp_all add: row_put_def)

text \<open>A reset link is marked as used after the password was written. Two requests with one
  link at the same time both succeed, and the later one decides the password; one after the
  other the second is refused.\<close>

theorem concurrent_resets:
  assumes "auth_services E" and inv: "db_inv (st_db s)"
    and "reset_password E now salt1 token p1 s = (Inr m1, s1)"
    and "reset_password E now salt2 token p2 s = (Inr m2, s2)"
    and life: "\<And>claims. decode_password_reset_token (e_jwt E) (e_settings E) now token = Some claims \<Longrightarrow>
      now + second \<le> claims_expires_at claims"
    and ops: "ops = [resetting E now salt1 token p1, resetting E now salt2 token p2]"
  shows "(\<exists>t. run_schedule ops [0, 1, 0, 1] (all_pending ops, s) =
      ([Answered (Inr m1), Answered (Inr m2)], t) \<and> st_db t = st_db s2) \<and>
    fst (run_schedule ops [0, 0, 1, 1] (all_pending ops, s)) =
      [Answered (Inr m1),
       Answered (Inl (HTTPException 401 ''Invalid or expired password reset token'' []))]"
proof -
  let ?op1 = "resetting E now salt1 token p1" and ?op2 = "resetting E now salt2 token p2"
  obtain u1 c1 where first: "ts_check ?op1 s = Inr (u1, c1)" "ts_commit ?op1 (u1, c1) s = (Inr m1, s1)"
    using alone_Inr [of ?op1 s m1 s1] assms(3) by (metis resetting_alone surj_pair)
  obtain u2 c2 where second: "ts_check ?op2 s = Inr (u2, c2)" "ts_commit ?op2 (u2, c2) s = (Inr m2, s2)"
    using alone_Inr [of ?op2 s m2 s2] assms(4) by (metis resetting_alone surj_pair)
  have c: "c2 = c1" using resetting_checked(2) [OF first(1)] resetting_checked(2) [OF second(1)] by simp
  have u: "u2 = u1" using first(1) second(1)
    by (auto simp: resetting_def Let_def split: option.splits if_splits)
  note stored = resetting_checked(1) [OF first(1)]
  let ?h = "hash_password (e_hash E)"
  let ?u1 = "u1\<lparr>user_hashed_password := Some (?h salt1 p1)\<rparr>"
  note s1 = resetting_commit [OF inv stored refl, of E now salt1 token p1 c1]
  note s2 = resetting_commit [OF inv stored refl, of E now salt2 token p2 c1]
  have m: "m1 = ''Password reset successfully''" "m2 = ''Password reset successfully''"
    and db1: "st_db s1 = (st_db s)\<lparr>users := row_put user_id (users (st_db s)) ?u1\<rparr>"
    using first(2) second(2) s1 s2 by (auto simp: u c)
  have inv1: "db_inv (st_db s1)" and stored1: "get_user (st_db s1) (user_id u1) = Some ?u1"
    using update_existing [OF inv stored, of ?u1] select_updated_user(2) [of "st_db s" ?u1]
      get_user_SomeD [OF stored] by (auto simp: db1)
  obtain t where again: "ts_commit ?op2 (u1, c1) s1 = (Inr m2, t)" "st_db t = st_db s2"
    using resetting_commit [OF inv1 stored1 refl, of E now salt2 token p2 c1] second(2) s2
    by (auto simp: u c m db1 row_put_twice)
  have "redis_server (e_redis E)" using assms(1) by (simp add: auth_services_def)
  moreover have "1 \<le> remaining_ttl_seconds (claims_expires_at c1) now"
    using life [OF resetting_checked(2) [OF first(1)]] by (simp add: remaining_ttl_eq)
  moreover have "st_redis s1 = mark_token_used (e_redis E) (st_redis s) now (claims_jti c1)
      (remaining_ttl_seconds (claims_expires_at c1) now)"
    using first(2) s1 by auto
  ultimately have "is_token_used (e_redis E) (st_redis s1) now (claims_jti c1)"
    using token_marks.marked_until [OF redis_server.used_marks, of "e_redis E" now now] by simp
  then have late: "ts_check ?op2 s1 = Inl (HTTPException 401 ''Invalid or expired password reset token'' [])"
    using resetting_used resetting_checked(2) [OF first(1)] by blast
  have second': "ts_check ?op2 s = Inr (u1, c1)" using second(1) by (simp add: u c)
  show ?thesis
    using first second' again late
    by (simp add: ops all_pending_def)
qed

theorem concurrent_resets_witness:
  "\<exists>t. run_schedule
      [resetting ex_env (30 * second) ''salt2''
         (create_password_reset_token (e_jwt ex_env) (e_settings ex_env) 0 ''j9'' (py_str 1)) ''NewPass456'',
       resetting ex_env (30 * second) ''salt2''
         (create_password_reset_token (e_jwt ex_env) (e_settings ex_env) 0 ''j9'' (py_str 1)) ''NewPass456'']
      [0, 1, 0, 1] ([Pending, Pending], ex_registered) =
    ([Answered (Inr ''Password reset successfully''), Answered (Inr ''Password reset successfully'')], t) \<and>
    st_db t = st_db ex_reset_state"
proof -
  have "30 * second + second \<le> claims_expires_at claims"
    if "decode_password_reset_token (e_jwt ex_env) (e_settings ex_env) (30 * second)
      (create_password_reset_token (e_jwt ex_env) (e_settings ex_env) 0 ''j9'' (py_str 1)) = Some claims" for claims
    using that ref_env.decode_reset_issued [of "30 * second" 0 ex_settings "''j9''" "py_str 1"]
    by (simp add: issued_claims_def expiry_second_def)
  from concurrent_resets [OF ex_services(1) ex_inv(2) ex_reset ex_reset this refl]
  show ?thesis by (simp add: all_pending_def)
qed

end
