(* ===== verification/Callbacks.thy ===== *)
theory Callbacks
  imports Races
begin

text \<open>
  OAuth callbacks at the same time. The callback of \<open>api/oauth.py\<close> looks up the identity, loads or
  creates the account, commits it, attaches the identity and commits again; between any two of its
  statements other callbacks and other requests may run. Here it is cut at each statement, the stages
  being the points the handler can stand at. Run without others it is the handler of \<open>OAuth\<close>.
\<close>

subsection \<open>The callback in single statements\<close>

text \<open>What the provider told of the identity, and the user the state value links to, if it does.\<close>

record callback =
  cb_provider :: string
  cb_user_id :: string
  cb_address :: "string option"
  cb_linking :: "int option"
  cb_now :: time

datatype callback_stage =
    Look_up
  | Load_user int bool
  | Find_user string
  | Create_user string
  | Refresh_user int
  | Attach int
  | Reload_user int
  | Finished (answer_of: "failure + user")

definition linked_elsewhere :: failure where
  "linked_elsewhere = HTTPException 409 ''This provider account is already linked to another user'' []"

definition no_such_user :: failure where
  "no_such_user = HTTPException 404 ''User not found'' []"

definition inactive_account :: failure where
  "inactive_account = HTTPException 403 ''User account is inactive'' []"

definition no_address :: "string \<Rightarrow> failure" where
  "no_address provider = HTTPException 400 (provider @ '' did not provide an email address'') []"

lemmas callback_errors = linked_elsewhere_def no_such_user_def inactive_account_def no_address_def

text \<open>Only signing in asks whether the account is active.\<close>

definition callback_answer :: "callback \<Rightarrow> user \<Rightarrow> failure + user" where
  "callback_answer r u = (if cb_linking r = None \<and> \<not> user_is_active u then Inl inactive_account else Inr u)"

text \<open>A commit expires the objects of the session. The next access to one reads its row again and
  raises \<open>ObjectDeletedError\<close> when it is gone; \<open>refresh\<close> raises \<open>InvalidRequestError\<close> then.\<close>

fun callback_turn :: "callback \<Rightarrow> callback_stage \<Rightarrow> database \<Rightarrow> callback_stage \<times> database" where
  "callback_turn r Look_up d =
     ((let existing_link = select_oauth_account d (cb_provider r) (cb_user_id r) in
       case cb_linking r of
         Some uid \<Rightarrow>
           if (case existing_link of None \<Rightarrow> False | Some a \<Rightarrow> oauth_user_id a \<noteq> uid)
           then Finished (Inl linked_elsewhere)
           else Load_user uid (existing_link \<noteq> None)
       | None \<Rightarrow>
           (case existing_link of
              Some a \<Rightarrow> Load_user (oauth_user_id a) True
            | None \<Rightarrow> (case cb_address r of
                         None \<Rightarrow> Finished (Inl (no_address (cb_provider r)))
                       | Some e \<Rightarrow> Find_user e))), d)"
| "callback_turn r (Load_user uid linked) d =
     ((case get_user d uid of
         None \<Rightarrow> Finished (Inl (if cb_linking r = None then inactive_account else no_such_user))
       | Some u \<Rightarrow> if linked then Finished (callback_answer r u) else Attach uid), d)"
| "callback_turn r (Find_user e) d =
     ((case select_user_by_email d e of None \<Rightarrow> Create_user e | Some u \<Rightarrow> Attach (user_id u)), d)"
| "callback_turn r (Create_user e) d =
     (case insert_user d e None True True (cb_now r) of
        Inl err \<Rightarrow> (Finished (Inl err), d)
      | Inr (u, d') \<Rightarrow> (Refresh_user (user_id u), d'))"
| "callback_turn r (Refresh_user uid) d =
     ((case get_user d uid of
         None \<Rightarrow> Finished (Inl (Unhandled ''InvalidRequestError''))
       | Some u \<Rightarrow> Attach uid), d)"
| "callback_turn r (Attach uid) d =
     (case insert_oauth_account d uid (cb_provider r) (cb_user_id r) (cb_address r) (cb_now r) of
        Inl err \<Rightarrow> (Finished (Inl err), d)
      | Inr d' \<Rightarrow> (Reload_user uid, d'))"
| "callback_turn r (Reload_user uid) d =
     ((case get_user d uid of
         None \<Rightarrow> Finished (Inl (Unhandled ''ObjectDeletedError''))
       | Some u \<Rightarrow> Finished (callback_answer r u)), d)"
| "callback_turn r (Finished res) d = (Finished res, d)"

text \<open>A callback that runs on its own, turn by turn.\<close>

fun callback_turns :: "nat \<Rightarrow> callback \<Rightarrow> callback_stage \<Rightarrow> database \<Rightarrow> callback_stage \<times> database" where
  "callback_turns 0 r x d = (x, d)"
| "callback_turns (Suc n) r x d = (let (x', d') = callback_turn r x d in callback_turns n r x' d')"

lemma callback_turns_6: "callback_turns 6 r x d =
   (let (x1, d1) = callback_turn r x d; (x2, d2) = callback_turn r x1 d1; (x3, d3) = callback_turn r x2 d2;
        (x4, d4) = callback_turn r x3 d3; (x5, d5) = callback_turn r x4 d4
    in callback_turn r x5 d5)"
  by (simp add: numeral_eq_Suc Let_def case_prod_unfold)

lemma get_user_attached:
  "insert_oauth_account d uid p puid e now = Inr d' \<Longrightarrow> get_user d' i = get_user d i"
  by (auto simp: insert_oauth_Inr get_user_def)

text \<open>Nothing was changed by cutting it up.\<close>

lemma callback_alone:
  assumes "db_inv d"
  shows "callback_turns 6 r Look_up d =
    (case (case cb_linking r of
             Some uid \<Rightarrow> link_identity d (cb_now r) (cb_provider r) (cb_user_id r) (cb_address r) uid
           | None \<Rightarrow> sign_in_identity d (cb_now r) (cb_provider r) (cb_user_id r) (cb_address r)) of
       (res, d') \<Rightarrow> (Finished res, d'))"
proof (cases "cb_linking r")
  case None
  have first: ?thesis
    if none: "select_oauth_account d (cb_provider r) (cb_user_id r) = None" and e: "cb_address r = Some e" for e
  proof -
    obtain u d1 where f: "find_or_create_user d (cb_now r) e = Inr (u, d1)" using find_or_create_user_ok by blast
    from first_sign_in [OF assms none f] obtain d2
      where d2: "insert_oauth_account d1 (user_id u) (cb_provider r) (cb_user_id r) (Some e) (cb_now r) = Inr d2"
        "get_user d2 (user_id u) = Some u" by blast
    from f show ?thesis
    proof (cases rule: find_or_create_user_cases)
      case existing
      with d2 None none e show ?thesis
        by (simp add: callback_turns_6 sign_in_identity_def find_or_create_user_def callback_answer_def
            callback_errors reject_inactive_def)
    next
      case created
      have "select_user_by_email d e = None" using created by (simp add: insert_user_Inr)
      with created d2 None none e get_user_inserted [OF created assms] show ?thesis
        by (simp add: callback_turns_6 sign_in_identity_def find_or_create_user_def callback_answer_def
            callback_errors reject_inactive_def)
    qed
  qed
  show ?thesis
  proof (cases "select_oauth_account d (cb_provider r) (cb_user_id r)")
    case None
    show ?thesis
    proof (cases "cb_address r")
      case (Some e)
      with first [OF None] show ?thesis .
    qed (use None \<open>cb_linking r = None\<close> in
        \<open>simp add: callback_turns_6 sign_in_identity_def callback_errors\<close>)
  next
    case (Some a)
    with None show ?thesis
      by (cases "get_user d (oauth_user_id a)")
         (simp_all add: callback_turns_6 sign_in_identity_def callback_answer_def callback_errors
           reject_inactive_def)
  qed
next
  case (Some uid)
  show ?thesis
  proof (cases "select_oauth_account d (cb_provider r) (cb_user_id r)")
    case None
    show ?thesis
    proof (cases "get_user d uid")
      case (Some u)
      with insert_oauth_account_new [OF None] obtain d'
        where d': "insert_oauth_account d uid (cb_provider r) (cb_user_id r) (cb_address r) (cb_now r) = Inr d'"
        by blast
      with Some None \<open>cb_linking r = Some uid\<close> get_user_SomeD [OF Some] get_user_attached [OF d'] show ?thesis
        by (simp add: callback_turns_6 link_identity_def callback_answer_def)
    qed (use Some None in \<open>simp add: callback_turns_6 link_identity_eq callback_errors\<close>)
  next
    case (Some a)
    with \<open>cb_linking r = Some uid\<close> show ?thesis
      by (cases "get_user d uid")
         (simp_all add: callback_turns_6 link_identity_eq callback_answer_def callback_errors)
  qed
qed

text \<open>However the others move, a callback has its answer after six turns of its own.\<close>

fun turns_to_go :: "callback_stage \<Rightarrow> nat" where
  "turns_to_go Look_up = 6"
| "turns_to_go (Find_user _) = 5"
| "turns_to_go (Create_user _) = 4"
| "turns_to_go (Refresh_user _) = 3"
| "turns_to_go (Load_user _ _) = 3"
| "turns_to_go (Attach _) = 2"
| "turns_to_go (Reload_user _) = 1"
| "turns_to_go (Finished _) = 0"

lemma callback_turn_goes_on: "turns_to_go (fst (callback_turn r x d)) \<le> turns_to_go x - 1"
  by (cases "(r, x, d)" rule: callback_turn.cases) (auto simp: Let_def split: option.split sum.split prod.split)

subsection \<open>Several callbacks\<close>

text \<open>
  Callbacks in any order of their turns, and between the turns any other request: a change of the
  database that keeps its constraints, which the server checks at every commit, and takes no link away.
\<close>

inductive callbacks_run :: "callback list \<Rightarrow> database \<Rightarrow> callback_stage list \<Rightarrow> database \<Rightarrow> bool"
  for rs d0 where
  started: "callbacks_run rs d0 (replicate (length rs) Look_up) d0"
| turn: "callbacks_run rs d0 xs d \<Longrightarrow> i < length rs \<Longrightarrow> callback_turn (rs ! i) (xs ! i) d = (x, d') \<Longrightarrow>
    callbacks_run rs d0 (xs[i := x]) d'"
| other: "callbacks_run rs d0 xs d \<Longrightarrow> db_wf d' \<Longrightarrow> set (oauth_accounts d) \<subseteq> set (oauth_accounts d') \<Longrightarrow>
    callbacks_run rs d0 xs d'"

text \<open>The identity of a callback is linked to an account.\<close>

definition identity_of :: "callback \<Rightarrow> string \<times> string" where
  "identity_of r = (cb_provider r, cb_user_id r)"

definition linked_to :: "database \<Rightarrow> callback \<Rightarrow> int \<Rightarrow> bool" where
  "linked_to d r uid \<longleftrightarrow> list_ex (\<lambda>a. (oauth_provider a, oauth_provider_user_id a) = identity_of r \<and>
     oauth_user_id a = uid) (oauth_accounts d)"

lemma linked_to_unique:
  assumes "db_wf d" and "linked_to d r i" and "linked_to d r' j" and "identity_of r = identity_of r'"
  shows "i = j"
proof -
  let ?key = "\<lambda>a. (oauth_provider a, oauth_provider_user_id a)"
  obtain a b where "a \<in> set (oauth_accounts d)" "?key a = identity_of r" "oauth_user_id a = i"
    "b \<in> set (oauth_accounts d)" "?key b = identity_of r'" "oauth_user_id b = j"
    using assms(2,3) by (auto simp: linked_to_def list_ex_iff)
  moreover have "distinct (map ?key (oauth_accounts d))" using assms(1) by (simp add: db_wf_def oauth_wf_def)
  ultimately show ?thesis using distinct_map_eq [of ?key "oauth_accounts d" a b] assms(4) by metis
qed

lemma linked_to_mono: "linked_to d r i \<Longrightarrow> set (oauth_accounts d) \<subseteq> set (oauth_accounts d') \<Longrightarrow> linked_to d' r i"
  by (auto simp: linked_to_def list_ex_iff)

text \<open>The account a callback may work on, and what each stage knows.\<close>

definition meant :: "callback \<Rightarrow> int \<Rightarrow> bool" where
  "meant r uid \<longleftrightarrow> (case cb_linking r of None \<Rightarrow> True | Some i \<Rightarrow> uid = i)"

definition refused :: "database \<Rightarrow> callback \<Rightarrow> failure \<Rightarrow> bool" where
  "refused d r e \<longleftrightarrow>
     (case cb_linking r of
        None \<Rightarrow> e = no_address (cb_provider r) \<or> e = inactive_account
      | Some i \<Rightarrow> e = no_such_user \<or>
          e = linked_elsewhere \<and>
            list_ex (\<lambda>a. (oauth_provider a, oauth_provider_user_id a) = identity_of r \<and> oauth_user_id a \<noteq> i)
              (oauth_accounts d)) \<or>
     e = integrity_error \<or> e = Unhandled ''InvalidRequestError'' \<or> e = Unhandled ''ObjectDeletedError''"

fun stage_ok :: "database \<Rightarrow> callback \<Rightarrow> callback_stage \<Rightarrow> bool" where
  "stage_ok d r Look_up \<longleftrightarrow> True"
| "stage_ok d r (Load_user uid linked) \<longleftrightarrow> meant r uid \<and> (if linked then linked_to d r uid else cb_linking r \<noteq> None)"
| "stage_ok d r (Find_user e) \<longleftrightarrow> cb_linking r = None"
| "stage_ok d r (Create_user e) \<longleftrightarrow> cb_linking r = None"
| "stage_ok d r (Refresh_user uid) \<longleftrightarrow> cb_linking r = None"
| "stage_ok d r (Attach uid) \<longleftrightarrow> meant r uid"
| "stage_ok d r (Reload_user uid) \<longleftrightarrow> meant r uid \<and> linked_to d r uid"
| "stage_ok d r (Finished (Inl e)) \<longleftrightarrow> refused d r e"
| "stage_ok d r (Finished (Inr u)) \<longleftrightarrow> meant r (user_id u) \<and> linked_to d r (user_id u) \<and>
     (cb_linking r = None \<longrightarrow> user_is_active u)"

lemma stage_ok_mono:
  assumes "stage_ok d r x" and sub: "set (oauth_accounts d) \<subseteq> set (oauth_accounts d')"
  shows "stage_ok d' r x"
  using assms(1) linked_to_mono [OF _ sub] sub
  by (cases "(d, r, x)" rule: stage_ok.cases)
     (auto simp: refused_def list_ex_iff subset_iff split: option.splits if_splits)

lemma stage_ok_answer:
  "linked_to d r (user_id u) \<Longrightarrow> meant r (user_id u) \<Longrightarrow> stage_ok d r (Finished (callback_answer r u))"
  by (auto simp: callback_answer_def refused_def)

lemma callback_turn_keeps:
  assumes "callback_turn r x d = (x', d')" and "db_wf d"
  shows "db_wf d'" and "set (oauth_accounts d) \<subseteq> set (oauth_accounts d')" and "set (users d) \<subseteq> set (users d')"
proof -
  have "db_wf d' \<and> set (oauth_accounts d) \<subseteq> set (oauth_accounts d') \<and> set (users d) \<subseteq> set (users d')"
  proof (cases x)
    case (Create_user e)
    with assms(1) insert_user_wf [OF _ assms(2)] assms(2) show ?thesis
      by (cases "insert_user d e None True True (cb_now r)") (auto simp: insert_user_Inr)
  next
    case (Attach uid)
    with assms(1) insert_oauth_wf [OF _ assms(2)] assms(2) show ?thesis
      by (cases "insert_oauth_account d uid (cb_provider r) (cb_user_id r) (cb_address r) (cb_now r)")
         (auto simp: insert_oauth_Inr)
  qed (use assms in auto)
  then show "db_wf d'" "set (oauth_accounts d) \<subseteq> set (oauth_accounts d')" "set (users d) \<subseteq> set (users d')" by simp_all
qed

lemma attached_linked:
  "insert_oauth_account d uid (cb_provider r) (cb_user_id r) e now = Inr d' \<Longrightarrow> linked_to d' r uid"
  by (auto simp: insert_oauth_Inr linked_to_def identity_of_def row_add_def)

lemma callback_turn_ok:
  assumes "callback_turn r x d = (x', d')" and "stage_ok d r x"
  shows "stage_ok d' r x'"
proof (cases x)
  case Look_up
  show ?thesis
  proof (cases "select_oauth_account d (cb_provider r) (cb_user_id r)")
    case None
    with Look_up assms(1) show ?thesis by (auto simp: meant_def refused_def split: option.splits)
  next
    case (Some a)
    with select_oauth_SomeD [OF Some] have "linked_to d r (oauth_user_id a)"
      by (auto simp: linked_to_def list_ex_iff identity_of_def)
    with Some select_oauth_SomeD [OF Some] Look_up assms(1) show ?thesis
      by (auto simp: Let_def meant_def refused_def list_ex_iff identity_of_def split: option.splits if_splits)
  qed
next
  case (Load_user uid linked)
  with assms get_user_SomeD show ?thesis
    by (auto simp: stage_ok_answer refused_def split: option.splits if_splits)
next
  case (Reload_user uid)
  with assms get_user_SomeD show ?thesis
    by (auto simp: stage_ok_answer refused_def split: option.splits if_splits)
next
  case (Create_user e)
  with assms show ?thesis
    by (cases "select_user_by_email d e") (auto simp: insert_user_def refused_def Let_def)
next
  case (Attach uid)
  show ?thesis
  proof (cases "insert_oauth_account d uid (cb_provider r) (cb_user_id r) (cb_address r) (cb_now r)")
    case (Inl err)
    then have "err = integrity_error" by (auto simp: insert_oauth_account_def Let_def split: if_splits)
    with Inl Attach assms(1) have "x' = Finished (Inl integrity_error)" by simp
    then show ?thesis by (simp add: refused_def)
  next
    case (Inr d1)
    with Attach assms(1) have "x' = Reload_user uid" "d' = d1" by simp_all
    with attached_linked [OF Inr] Attach assms(2) show ?thesis by simp
  qed
next
  case (Find_user e)
  with assms(1) have "x' = Create_user e \<or> (\<exists>u. x' = Attach u)" by (auto split: option.splits)
  with Find_user assms(2) show ?thesis by (auto simp: meant_def)
next
  case (Refresh_user uid)
  with assms(1) have "x' = Finished (Inl (Unhandled ''InvalidRequestError'')) \<or> x' = Attach uid"
    by (auto split: option.splits)
  with Refresh_user assms(2) show ?thesis by (auto simp: meant_def refused_def)
next
  case (Finished res)
  then have "x' = x \<and> d' = d" using assms(1) by simp
  with assms(2) show ?thesis by simp
qed

lemma callbacks_run_ok:
  assumes "callbacks_run rs d0 xs d" and "db_wf d0"
  shows "length xs = length rs \<and> db_wf d \<and> set (oauth_accounts d0) \<subseteq> set (oauth_accounts d) \<and>
    (\<forall>i < length rs. stage_ok d (rs ! i) (xs ! i))"
  using assms(1)
proof induction
  case started
  then show ?case using assms(2) by simp
next
  case (turn xs d i x d')
  note kept = callback_turn_keeps [OF turn.hyps(3)]
  have "stage_ok d' (rs ! j) (xs[i := x] ! j)" if "j < length rs" for j
    using that turn callback_turn_ok [OF turn.hyps(3)] stage_ok_mono [OF _ kept(2)]
    by (cases "i = j") auto
  with turn kept show ?case by auto
next
  case (other xs d d')
  then show ?case using stage_ok_mono by blast
qed

text \<open>C15. Provider identities stay with one account whatever runs at the same time. However the
  statements of any number of callbacks, signing in or linking, are interleaved with each other and
  with any other requests that take no link away: the constraints hold, every link there was is still
  there, a callback that succeeds answers for the account its identity is linked to, an active one when
  it signs in and the one that began the flow when it links, and two that succeed for one identity
  answer for one account. The others get the refusals of the handler, a 409 only while another
  account holds the identity, or the integrity error of a unique index or a foreign key or an error
  of a row that is gone.\<close>

theorem concurrent_callbacks:
  assumes "callbacks_run rs d0 xs d" and "db_wf d0"
  shows "db_wf d \<and> set (oauth_accounts d0) \<subseteq> set (oauth_accounts d) \<and>
    (\<forall>i < length rs. \<forall>res. xs ! i = Finished res \<longrightarrow>
       (case res of
          Inl e \<Rightarrow> refused d (rs ! i) e
        | Inr u \<Rightarrow> linked_to d (rs ! i) (user_id u) \<and>
            (case cb_linking (rs ! i) of None \<Rightarrow> user_is_active u | Some uid \<Rightarrow> user_id u = uid) \<and>
            (\<forall>j < length rs. \<forall>v. identity_of (rs ! j) = identity_of (rs ! i) \<longrightarrow>
               xs ! j = Finished (Inr v) \<longrightarrow> user_id v = user_id u)))"
proof -
  note ok = callbacks_run_ok [OF assms]
  have answer: "linked_to d (rs ! i) (user_id u) \<and> meant (rs ! i) (user_id u) \<and>
      (cb_linking (rs ! i) = None \<longrightarrow> user_is_active u)" if "i < length rs" "xs ! i = Finished (Inr u)" for i u
    using ok that by fastforce
  have refusal: "refused d (rs ! i) e" if "i < length rs" "xs ! i = Finished (Inl e)" for i e
    using ok that by fastforce
  have same: "user_id v = user_id u"
    if "i < length rs" "xs ! i = Finished (Inr u)" "j < length rs" "xs ! j = Finished (Inr v)"
      "identity_of (rs ! j) = identity_of (rs ! i)" for i j u v
    using linked_to_unique [of d "rs ! j" "user_id v" "rs ! i" "user_id u"] answer that ok by blast
  show ?thesis
  proof (intro conjI allI impI)
    fix i res assume i: "i < length rs" and res: "xs ! i = Finished res"
    show "case res of Inl e \<Rightarrow> refused d (rs ! i) e
      | Inr u \<Rightarrow> linked_to d (rs ! i) (user_id u) \<and>
          (case cb_linking (rs ! i) of None \<Rightarrow> user_is_active u | Some uid \<Rightarrow> user_id u = uid) \<and>
          (\<forall>j < length rs. \<forall>v. identity_of (rs ! j) = identity_of (rs ! i) \<longrightarrow>
             xs ! j = Finished (Inr v) \<longrightarrow> user_id v = user_id u)"
    proof (cases res)
      case (Inl e)
      with refusal i res show ?thesis by simp
    next
      case (Inr u)
      with res have x: "xs ! i = Finished (Inr u)" by simp
      have "case cb_linking (rs ! i) of None \<Rightarrow> user_is_active u | Some uid \<Rightarrow> user_id u = uid"
        using answer [OF i x] by (simp add: meant_def split: option.splits)
      with answer [OF i x] same [OF i x] show ?thesis unfolding Inr sum.case by blast
    qed
  qed (use ok in blast)+
qed

lemma two_callbacks:
  "callbacks_run [r, r'] d0 [Look_up, Look_up] d0"
  "callbacks_run [r, r'] d0 [x, y] d \<Longrightarrow> callback_turn r x d = (x', d') \<Longrightarrow> callbacks_run [r, r'] d0 [x', y] d'"
  "callbacks_run [r, r'] d0 [x, y] d \<Longrightarrow> callback_turn r' y d = (y', d') \<Longrightarrow> callbacks_run [r, r'] d0 [x, y'] d'"
  using callbacks_run.started [of "[r, r']" d0] callbacks_run.turn [of "[r, r']" d0 "[x, y]" d 0]
    callbacks_run.turn [of "[r, r']" d0 "[x, y]" d 1] by (simp_all add: numeral_eq_Suc)

text \<open>Two first sign-ins with one identity: the second finds the account of the first and attaches the
  identity before the first does.\<close>

definition ex_callback :: callback where
  "ex_callback = \<lparr>cb_provider = ''google'', cb_user_id = ''42'', cb_address = Some ''ab@c.de'',
     cb_linking = None, cb_now = 0\<rparr>"

lemma ex_callbacks_run:
  "\<exists>u d. callbacks_run [ex_callback, ex_callback] empty_database
     [Finished (Inl integrity_error), Finished (Inr u)] d"
proof -
  note first = two_callbacks(2) [where r = ex_callback and r' = ex_callback and ?d0.0 = empty_database]
    and second = two_callbacks(3) [where r = ex_callback and r' = ex_callback and ?d0.0 = empty_database]
  let ?u = "\<lparr>user_id = 1, user_email = ''ab@c.de'', user_hashed_password = None, user_is_active = True,
     user_is_verified = True, user_created_at = 0\<rparr>"
  let ?d1 = "empty_database\<lparr>users := [?u], seq_users := 2\<rparr>"
  let ?d2 = "?d1\<lparr>oauth_accounts := [\<lparr>oauth_id = 1, oauth_user_id = 1, oauth_provider = ''google'',
     oauth_provider_user_id = ''42'', oauth_email = Some ''ab@c.de'', oauth_created_at = 0\<rparr>],
     seq_oauth_accounts := 2\<rparr>"
  note ex = ex_callback_def empty_database_def get_user_def row_get_def row_add_def insert_user_def
    insert_oauth_account_def select_oauth_account_def select_user_by_email_def callback_answer_def Let_def
  have "callbacks_run [ex_callback, ex_callback] empty_database [Find_user ''ab@c.de'', Look_up] empty_database"
    by (rule first [OF two_callbacks(1)]) (simp add: ex)
  then have "callbacks_run [ex_callback, ex_callback] empty_database
      [Find_user ''ab@c.de'', Find_user ''ab@c.de''] empty_database"
    by (rule second) (simp add: ex)
  then have "callbacks_run [ex_callback, ex_callback] empty_database
      [Create_user ''ab@c.de'', Find_user ''ab@c.de''] empty_database"
    by (rule first) (simp add: ex)
  then have "callbacks_run [ex_callback, ex_callback] empty_database [Refresh_user 1, Find_user ''ab@c.de''] ?d1"
    by (rule first) (simp add: ex)
  then have "callbacks_run [ex_callback, ex_callback] empty_database [Refresh_user 1, Attach 1] ?d1"
    by (rule second) (simp add: ex)
  then have "callbacks_run [ex_callback, ex_callback] empty_database [Refresh_user 1, Reload_user 1] ?d2"
    by (rule second) (simp add: ex)
  then have "callbacks_run [ex_callback, ex_callback] empty_database [Refresh_user 1, Finished (Inr ?u)] ?d2"
    by (rule second) (simp add: ex)
  then have "callbacks_run [ex_callback, ex_callback] empty_database [Attach 1, Finished (Inr ?u)] ?d2"
    by (rule first) (simp add: ex)
  then have "callbacks_run [ex_callback, ex_callback] empty_database
      [Finished (Inl integrity_error), Finished (Inr ?u)] ?d2"
    by (rule first) (simp add: ex)
  then show ?thesis by blast
qed

theorem concurrent_callbacks_witness:
  "\<exists>u d. callbacks_run [ex_callback, ex_callback] empty_database
     [Finished (Inl integrity_error), Finished (Inr u)] d \<and>
     db_wf d \<and> linked_to d ex_callback (user_id u) \<and> user_is_active u"
proof -
  obtain u d where run: "callbacks_run [ex_callback, ex_callback] empty_database
      [Finished (Inl integrity_error), Finished (Inr u)] d" using ex_callbacks_run by blast
  note kept = concurrent_callbacks [OF run db_wf_empty]
  then have "linked_to d ex_callback (user_id u) \<and> user_is_active u"
    by (auto simp: ex_callback_def dest: spec [of _ 1])
  with run kept show ?thesis by blast
qed

subsection \<open>What goes wrong\<close>

text \<open>The account of a first sign-in is committed before its link. If another callback links the identity
  in between, the sign-in fails and leaves an account without password or provider behind, which the
  invariant of sequential requests excludes.\<close>

theorem sign_in_races_linking:
  assumes "db_inv d" and "v \<in> set (users d)" and "e \<notin> user_email ` set (users d)"
    and "select_oauth_account d provider puid = None"
    and "rs = [\<lparr>cb_provider = provider, cb_user_id = puid, cb_address = Some e, cb_linking = None, cb_now = t\<rparr>,
      \<lparr>cb_provider = provider, cb_user_id = puid, cb_address = a, cb_linking = Some (user_id v), cb_now = t\<rparr>]"
  shows "\<exists>d'. callbacks_run rs d [Finished (Inl integrity_error), Finished (Inr v)] d' \<and>
    (\<exists>u \<in> set (users d'). user_email u = e \<and> \<not> can_sign_in d' u) \<and> \<not> db_inv d'"
proof -
  let ?u = "\<lparr>user_id = seq_users d, user_email = e, user_hashed_password = None, user_is_active = True,
    user_is_verified = True, user_created_at = t\<rparr>"
  let ?d1 = "d\<lparr>users := row_add (users d) ?u, seq_users := seq_users d + 1\<rparr>"
  have free: "select_user_by_email d e = None" using assms(3) by (simp add: select_user_None)
  then have created: "insert_user d e None True True t = Inr (?u, ?d1)" by (simp add: insert_user_Inr)
  have wf: "db_wf ?d1" using insert_user_wf [OF created] assms(1) by simp
  then have users_wf: "users_wf ?d1" by (simp add: db_wf_def)
  have found: "get_user ?d1 (user_id v) = Some v" using get_user_in [OF users_wf] assms(2) by simp
  have own: "get_user ?d1 (seq_users d) = Some ?u" using get_user_in [OF users_wf, of ?u] by simp
  have none: "select_oauth_account ?d1 provider puid = None" using assms(4) by (simp add: select_oauth_account_def)
  then obtain d2 where d2: "insert_oauth_account ?d1 (user_id v) provider puid a t = Inr d2"
    using insert_oauth_account_new found by blast
  have taken: "select_oauth_account d2 provider puid \<noteq> None"
    using d2 by (auto simp: insert_oauth_Inr select_oauth_None)
  have run: "callbacks_run rs d [Finished (Inl integrity_error), Finished (Inr v)] d2"
  proof -
    let ?r0 = "\<lparr>cb_provider = provider, cb_user_id = puid, cb_address = Some e, cb_linking = None, cb_now = t\<rparr>"
    let ?r1 = "\<lparr>cb_provider = provider, cb_user_id = puid, cb_address = a, cb_linking = Some (user_id v), cb_now = t\<rparr>"
    note first = two_callbacks(2) [where r = ?r0 and r' = ?r1] and second = two_callbacks(3) [where r = ?r0 and r' = ?r1]
    have "callbacks_run [?r0, ?r1] d [Find_user e, Look_up] d"
      by (rule first [OF two_callbacks(1)]) (simp add: assms(4))
    then have "callbacks_run [?r0, ?r1] d [Create_user e, Look_up] d" by (rule first) (simp add: free)
    then have "callbacks_run [?r0, ?r1] d [Refresh_user (seq_users d), Look_up] ?d1"
      by (rule first) (simp add: created)
    then have "callbacks_run [?r0, ?r1] d [Refresh_user (seq_users d), Load_user (user_id v) False] ?d1"
      by (rule second) (simp add: none)
    then have "callbacks_run [?r0, ?r1] d [Refresh_user (seq_users d), Attach (user_id v)] ?d1"
      by (rule second) (simp add: found)
    then have "callbacks_run [?r0, ?r1] d [Refresh_user (seq_users d), Reload_user (user_id v)] d2"
      by (rule second) (simp add: d2)
    then have "callbacks_run [?r0, ?r1] d [Refresh_user (seq_users d), Finished (Inr v)] d2"
      by (rule second) (simp add: get_user_attached [OF d2] found callback_answer_def)
    then have "callbacks_run [?r0, ?r1] d [Attach (seq_users d), Finished (Inr v)] d2"
      by (rule first) (simp add: get_user_attached [OF d2] own)
    then show ?thesis unfolding assms(5) by (rule first) (use taken in \<open>simp add: insert_oauth_account_def\<close>)
  qed
  have "user_id v < seq_users d" using assms(1,2) by (auto simp: db_inv_def db_wf_def users_wf_def)
  moreover have "oauth_user_id x < seq_users d" if "x \<in> set (oauth_accounts d)" for x
    using assms(1) that by (fastforce simp: db_inv_def db_wf_def users_wf_def oauth_wf_def)
  ultimately have "\<not> can_sign_in d2 ?u"
    using d2 by (fastforce simp: can_sign_in_iff insert_oauth_Inr)
  moreover have "?u \<in> set (users d2)" using d2 by (auto simp: insert_oauth_Inr)
  ultimately have lost: "\<exists>u \<in> set (users d2). user_email u = e \<and> \<not> can_sign_in d2 u" by force
  then have "\<not> db_inv d2" by (auto simp: db_inv_def sign_in_ok_iff)
  with run lost show ?thesis by blast
qed

text \<open>The state value is read and deleted by two commands, the check and the commit of a request in two
  steps. Two callbacks with one state value in two workers can both pass.\<close>

definition taking :: "'r env \<Rightarrow> time \<Rightarrow> string \<Rightarrow> ('r app_state, string, string) two_step" where
  "taking E now state =
     \<lparr>ts_check = (\<lambda>s. case r_get (e_redis E) (st_redis s) now (STATE_KEY_PREFIX @ state) of
        None \<Rightarrow> Inl (HTTPException 400 ''Invalid or expired OAuth state'' []) | Some v \<Rightarrow> Inr v),
      ts_commit = (\<lambda>v s. (Inr v,
        s\<lparr>st_redis := r_delete (e_redis E) (st_redis s) now (STATE_KEY_PREFIX @ state)\<rparr>))\<rparr>"

lemma oauth_callback_parts:
  assumes "db_inv (st_db s)"
  shows "oauth_callback E clients url_for now jti1 jti2 provider auth_code state s =
     (case require_client clients provider of
        Inl e \<Rightarrow> (Inl e, s)
      | Inr c \<Rightarrow>
          after_dependency (alone (taking E now state) s) (\<lambda>state_value s.
            case c_fetch_access_token c (url_for provider) auth_code of
              Inl e \<Rightarrow> (Inl e, s)
            | Inr token \<Rightarrow>
                (case c_fetch_identity c token of
                   Inl e \<Rightarrow> (Inl e, s)
                 | Inr (puid, mail) \<Rightarrow>
                     (case linking_user state_value of
                        Inl e \<Rightarrow> (Inl e, s)
                      | Inr linking \<Rightarrow>
                          (let (x, d) = callback_turns 6 \<lparr>cb_provider = provider, cb_user_id = puid,
                                 cb_address = mail, cb_linking = linking, cb_now = now\<rparr> Look_up (st_db s)
                           in (map_sum id (\<lambda>u. bearer_tokens E now jti1 jti2 (user_email u)) (answer_of x),
                               s\<lparr>st_db := d\<rparr>))))))"
  using assms
  by (auto simp: oauth_callback_def alone_def taking_def callback_alone Let_def after_dependency_def
      split: sum.split option.split prod.split)

theorem concurrent_state_values:
  assumes "redis_server (e_redis E)" and "r_get (e_redis E) (st_redis s) now (STATE_KEY_PREFIX @ state) = Some v"
    and "ops = [taking E now state, taking E now state]"
  shows "fst (run_schedule ops [0, 1, 0, 1] (all_pending ops, s)) = [Answered (Inr v), Answered (Inr v)] \<and>
    fst (run_schedule ops [0, 0, 1, 1] (all_pending ops, s)) =
      [Answered (Inr v), Answered (Inl (HTTPException 400 ''Invalid or expired OAuth state'' []))]"
  using assms redis_server.get_delete [OF assms(1), of now now] by (simp add: all_pending_def taking_def)

end
