(* ===== verification/FileValidation.thy ===== *)
theory FileValidation
  imports PyText "HOL-Library.Sublist"
begin

text \<open>
  Validation of uploads: \<open>app/services/file_validation.py\<close> and \<open>app/services/virus_scan.py\<close>.
  A file is the list of its bytes, each an 8-bit character. The CSV sample is decoded and its
  first row parsed by the state machine of Python's \<open>csv\<close> module (default dialect); that
  machine treats only ASCII characters specially, so it is run on the UTF-8 bytes.
\<close>

definition bytes :: "nat list \<Rightarrow> string" where
  "bytes ns = map char_of ns"

subsection \<open>The placeholder virus scan\<close>

definition EICAR_SIGNATURE :: string where
  "EICAR_SIGNATURE = ''X5O!P%@AP[4'' @ [CHR 92] @
     ''PZX54(P^)7CC)7}$EICAR-STANDARD-ANTIVIRUS-TEST-FILE!$H+H*''"

text \<open>\<open>p in s\<close> for byte strings.\<close>

fun occurs_in :: "string \<Rightarrow> string \<Rightarrow> bool" where
  "occurs_in p [] = (p = [])"
| "occurs_in p (c # cs) = (startswith (c # cs) p \<or> occurs_in p cs)"

definition scan_chunk_for_viruses :: "string \<Rightarrow> bool" where
  "scan_chunk_for_viruses chunk = (\<not> occurs_in EICAR_SIGNATURE chunk)"

subsection \<open>Signatures\<close>

definition looks_like_jpeg :: "string \<Rightarrow> bool" where
  "looks_like_jpeg head = startswith head (bytes [255, 216, 255])"

definition looks_like_png :: "string \<Rightarrow> bool" where
  "looks_like_png head = startswith head (bytes [137, 80, 78, 71, 13, 10, 26, 10])"

definition looks_like_gif :: "string \<Rightarrow> bool" where
  "looks_like_gif head = (startswith head ''GIF87a'' \<or> startswith head ''GIF89a'')"

definition looks_like_webp :: "string \<Rightarrow> bool" where
  "looks_like_webp head = (startswith head ''RIFF'' \<and> take 4 (drop 8 head) = ''WEBP'')"

definition looks_like_image :: "string \<Rightarrow> bool" where
  "looks_like_image head =
     list_ex (\<lambda>check. check head) [looks_like_jpeg, looks_like_png, looks_like_gif, looks_like_webp]"

definition looks_like_pdf :: "string \<Rightarrow> bool" where
  "looks_like_pdf head = startswith head ''%PDF-''"

definition looks_like_mp4_or_mov :: "string \<Rightarrow> bool" where
  "looks_like_mp4_or_mov head =
     (8 \<le> length head \<and> take 4 (drop 4 head) \<in> {''ftyp'', ''free'', ''wide'', ''moov''})"

definition looks_like_webm :: "string \<Rightarrow> bool" where
  "looks_like_webm head = startswith head (bytes [26, 69, 223, 163])"

definition looks_like_video :: "string \<Rightarrow> bool" where
  "looks_like_video head = (looks_like_mp4_or_mov head \<or> looks_like_webm head)"

subsection \<open>Categories\<close>

record upload_category =
  cat_name :: string
  cat_allowed_content_types :: "string list"
  cat_max_size_bytes :: nat
  cat_signature_check :: "(string \<Rightarrow> bool) option"

definition IMAGE :: upload_category where
  "IMAGE = \<lparr>cat_name = ''image'',
     cat_allowed_content_types = [''image/jpeg'', ''image/png'', ''image/webp'', ''image/gif''],
     cat_max_size_bytes = 10 * 1024 * 1024, cat_signature_check = Some looks_like_image\<rparr>"

definition PDF :: upload_category where
  "PDF = \<lparr>cat_name = ''pdf'', cat_allowed_content_types = [''application/pdf''],
     cat_max_size_bytes = 20 * 1024 * 1024, cat_signature_check = Some looks_like_pdf\<rparr>"

definition CSV :: upload_category where
  "CSV = \<lparr>cat_name = ''csv'', cat_allowed_content_types = [''text/csv'', ''application/vnd.ms-excel''],
     cat_max_size_bytes = 20 * 1024 * 1024, cat_signature_check = None\<rparr>"

definition VIDEO :: upload_category where
  "VIDEO = \<lparr>cat_name = ''video'',
     cat_allowed_content_types = [''video/mp4'', ''video/webm'', ''video/quicktime''],
     cat_max_size_bytes = 200 * 1024 * 1024, cat_signature_check = Some looks_like_video\<rparr>"

definition CATEGORIES :: "(string \<times> upload_category) list" where
  "CATEGORIES = map (\<lambda>c. (cat_name c, c)) [IMAGE, PDF, CSV, VIDEO]"

subsection \<open>Reading the stream\<close>

definition CHUNK_SIZE :: nat where "CHUNK_SIZE = 1024 * 1024"

definition SIGNATURE_HEAD_SIZE :: nat where "SIGNATURE_HEAD_SIZE = 32"

lemma CHUNK_SIZE_bounds: "0 < CHUNK_SIZE" "SIGNATURE_HEAD_SIZE \<le> CHUNK_SIZE"
  by (simp_all add: CHUNK_SIZE_def SIGNATURE_HEAD_SIZE_def)

definition too_large :: "upload_category \<Rightarrow> failure" where
  "too_large category = HTTPException 413
     (''File exceeds the '' @ py_str (int (cat_max_size_bytes category)) @ '' byte limit for '' @
      cat_name category @ '' uploads'') []"

definition virus_found :: failure where
  "virus_found = HTTPException 422 ''File failed virus scan'' []"

text \<open>The loop: what is left to read, the total so far, the head so far.\<close>

function read_chunks ::
  "upload_category \<Rightarrow> string \<Rightarrow> nat \<Rightarrow> string \<Rightarrow> failure + (nat \<times> string)" where
  "read_chunks category rest sofar head =
     (let chunk = take CHUNK_SIZE rest in
      if chunk = [] then Inr (sofar, head)
      else
        (let total' = sofar + length chunk;
             head' = (if length head < SIGNATURE_HEAD_SIZE
                      then head @ take (SIGNATURE_HEAD_SIZE - length head) chunk else head)
         in if cat_max_size_bytes category < total' then Inl (too_large category)
            else if \<not> scan_chunk_for_viruses chunk then Inl virus_found
            else read_chunks category (drop CHUNK_SIZE rest) total' head'))"
  by auto

termination
  by (relation "measure (\<lambda>(_, rest, _, _). length rest)") (use CHUNK_SIZE_bounds in auto)

declare read_chunks.simps [simp del]

definition read_and_validate_stream :: "string \<Rightarrow> upload_category \<Rightarrow> failure + nat" where
  "read_and_validate_stream upload category =
     (case read_chunks category upload 0 [] of
        Inl e \<Rightarrow> Inl e
      | Inr (n, head) \<Rightarrow>
          if n = 0 then Inl (HTTPException 400 ''Uploaded file is empty'' [])
          else if (case cat_signature_check category of None \<Rightarrow> False | Some check \<Rightarrow> \<not> check head)
          then Inl (HTTPException 400
                 (''File content does not match a valid '' @ cat_name category @ '' file'') [])
          else Inr n)"

subsection \<open>CSV\<close>

text \<open>Well-formed UTF-8 (the byte sequences CPython's strict decoder accepts).\<close>

definition is_tail :: "nat \<Rightarrow> bool" where "is_tail b \<longleftrightarrow> 128 \<le> b \<and> b \<le> 191"

fun utf8_valid :: "nat list \<Rightarrow> bool" where
  "utf8_valid [] = True"
| "utf8_valid (a # r) =
     (if a \<le> 127 then utf8_valid r
      else if 194 \<le> a \<and> a \<le> 223 then
        (case r of b # r' \<Rightarrow> is_tail b \<and> utf8_valid r' | _ \<Rightarrow> False)
      else if 224 \<le> a \<and> a \<le> 239 then
        (case r of
           b # c # r' \<Rightarrow>
             is_tail b \<and> (a = 224 \<longrightarrow> 160 \<le> b) \<and> (a = 237 \<longrightarrow> b \<le> 159) \<and> is_tail c \<and> utf8_valid r'
         | _ \<Rightarrow> False)
      else if 240 \<le> a \<and> a \<le> 244 then
        (case r of
           b # c # e # r' \<Rightarrow>
             is_tail b \<and> (a = 240 \<longrightarrow> 144 \<le> b) \<and> (a = 244 \<longrightarrow> b \<le> 143) \<and>
             is_tail c \<and> is_tail e \<and> utf8_valid r'
         | _ \<Rightarrow> False)
      else False)"

text \<open>The lines of \<open>io.StringIO(text)\<close>: only a line feed ends a line, and is kept.\<close>

fun text_lines :: "string \<Rightarrow> string list" where
  "text_lines [] = []"
| "text_lines (c # cs) =
     (if c = CHR 10 then [c] # text_lines cs
      else (case text_lines cs of [] \<Rightarrow> [[c]] | l # ls \<Rightarrow> (c # l) # ls))"

datatype csv_state =
  START_RECORD | START_FIELD | IN_FIELD | IN_QUOTED_FIELD | QUOTE_IN_QUOTED_FIELD | EAT_CRNL

text \<open>The parser: its state, the field being read and the fields of the record so far.\<close>

record csv_reader =
  cs_state :: csv_state
  cs_field :: string
  cs_fields :: "string list"

definition csv_start :: csv_reader where
  "csv_start = \<lparr>cs_state = START_RECORD, cs_field = [], cs_fields = []\<rparr>"

definition save_field :: "csv_state \<Rightarrow> csv_reader \<Rightarrow> csv_reader" where
  "save_field st p = \<lparr>cs_state = st, cs_field = [], cs_fields = cs_fields p @ [cs_field p]\<rparr>"

definition add_char :: "csv_state \<Rightarrow> char \<Rightarrow> csv_reader \<Rightarrow> csv_reader" where
  "add_char st c p = p\<lparr>cs_state := st, cs_field := cs_field p @ [c]\<rparr>"

definition is_newline :: "char \<Rightarrow> bool" where
  "is_newline c \<longleftrightarrow> c = CHR 10 \<or> c = CHR 13"

text \<open>\<open>parse_process_char\<close>; \<open>None\<close> of the argument is the end of a line, \<open>None\<close> of the result
  a \<open>csv.Error\<close>.\<close>

definition start_field_char :: "csv_reader \<Rightarrow> char \<Rightarrow> csv_reader" where
  "start_field_char p c =
     (if is_newline c then save_field EAT_CRNL p
      else if c = CHR 34 then p\<lparr>cs_state := IN_QUOTED_FIELD\<rparr>
      else if c = CHR '','' then save_field START_FIELD p
      else add_char IN_FIELD c p)"

fun csv_char :: "csv_reader \<Rightarrow> char option \<Rightarrow> csv_reader option" where
  "csv_char p (Some c) =
     (case cs_state p of
        START_RECORD \<Rightarrow> Some (if is_newline c then p\<lparr>cs_state := EAT_CRNL\<rparr> else start_field_char p c)
      | START_FIELD \<Rightarrow> Some (start_field_char p c)
      | IN_FIELD \<Rightarrow>
          Some (if is_newline c then save_field EAT_CRNL p
                else if c = CHR '','' then save_field START_FIELD p else add_char IN_FIELD c p)
      | IN_QUOTED_FIELD \<Rightarrow>
          Some (if c = CHR 34 then p\<lparr>cs_state := QUOTE_IN_QUOTED_FIELD\<rparr>
                else add_char IN_QUOTED_FIELD c p)
      | QUOTE_IN_QUOTED_FIELD \<Rightarrow>
          Some (if c = CHR 34 then add_char IN_QUOTED_FIELD c p
                else if c = CHR '','' then save_field START_FIELD p
                else if is_newline c then save_field EAT_CRNL p
                else add_char IN_FIELD c p)
      | EAT_CRNL \<Rightarrow> if is_newline c then Some p else None)"
| "csv_char p None =
     (case cs_state p of
        START_RECORD \<Rightarrow> Some p
      | EAT_CRNL \<Rightarrow> Some (p\<lparr>cs_state := START_RECORD\<rparr>)
      | IN_QUOTED_FIELD \<Rightarrow> Some p
      | _ \<Rightarrow> Some (save_field START_RECORD p))"

fun csv_line :: "csv_reader \<Rightarrow> string \<Rightarrow> csv_reader option" where
  "csv_line p [] = csv_char p None"
| "csv_line p (c # cs) = (case csv_char p (Some c) of None \<Rightarrow> None | Some p' \<Rightarrow> csv_line p' cs)"

text \<open>\<open>next(reader)\<close>: lines are read until a record is complete.\<close>

datatype csv_next = Row "string list" | StopIteration | CsvError

fun csv_first_row :: "csv_reader \<Rightarrow> string list \<Rightarrow> csv_next" where
  "csv_first_row p [] =
     (if cs_field p \<noteq> [] \<or> cs_state p = IN_QUOTED_FIELD
      then Row (cs_fields (save_field START_RECORD p)) else StopIteration)"
| "csv_first_row p (l # ls) =
     (case csv_line p l of
        None \<Rightarrow> CsvError
      | Some p' \<Rightarrow> if cs_state p' = START_RECORD then Row (cs_fields p') else csv_first_row p' ls)"

definition CSV_SAMPLE_SIZE :: nat where "CSV_SAMPLE_SIZE = 8192"

definition validate_csv_content :: "string \<Rightarrow> failure + unit" where
  "validate_csv_content upload =
     (let sample = take CSV_SAMPLE_SIZE upload in
      if \<not> utf8_valid (map code sample)
      then Inl (HTTPException 400 ''CSV file is not valid UTF-8 text'' [])
      else (case csv_first_row csv_start (text_lines sample) of
              CsvError \<Rightarrow> Inl (Unhandled ''csv.Error'')
            | StopIteration \<Rightarrow> Inl (HTTPException 400 ''CSV file has no rows'' [])
            | Row first_row \<Rightarrow>
                if first_row = [] then Inl (HTTPException 400 ''CSV file has no columns'' [])
                else Inr ()))"

subsection \<open>Lemmas\<close>

lemma startswith_prefix: "startswith s p = prefix p s"
  by (auto simp: startswith_iff prefix_def)

lemma occurs_in_sublist: "occurs_in p s = sublist p s"
  by (induction s) (simp_all add: startswith_prefix sublist_Cons_right del: startswith.simps)

lemma clean_empty [simp]: "scan_chunk_for_viruses []"
  by (simp add: scan_chunk_for_viruses_def EICAR_SIGNATURE_def)

lemma read_chunks_Inr:
  assumes "sofar \<le> cat_max_size_bytes category" and "length head \<le> SIGNATURE_HEAD_SIZE"
  shows "read_chunks category rest sofar head = Inr (n, head') \<longleftrightarrow>
    n = sofar + length rest \<and> n \<le> cat_max_size_bytes category \<and>
    head' = take SIGNATURE_HEAD_SIZE (head @ rest) \<and>
    (\<forall>k. scan_chunk_for_viruses (take CHUNK_SIZE (drop (k * CHUNK_SIZE) rest)))"
  using assms
proof (induction category rest sofar head rule: read_chunks.induct)
  case (1 category rest sofar head)
  let ?chunk = "take CHUNK_SIZE rest"
  let ?sofar = "sofar + length ?chunk"
  let ?head = "if length head < SIGNATURE_HEAD_SIZE
    then head @ take (SIGNATURE_HEAD_SIZE - length head) ?chunk else head"
  have all_chunks: "(\<forall>k. P (k :: nat)) \<longleftrightarrow> P 0 \<and> (\<forall>k. P (Suc k))" for P
    by (metis not0_implies_Suc)
  show ?case
  proof (cases "rest = []")
    case True
    then show ?thesis using "1.prems" by (subst read_chunks.simps) auto
  next
    case False
    then have chunk: "?chunk \<noteq> []" using CHUNK_SIZE_bounds(1) by simp
    show ?thesis
    proof (cases "cat_max_size_bytes category < ?sofar \<or> \<not> scan_chunk_for_viruses ?chunk")
      case True
      then have "\<nexists>x. read_chunks category rest sofar head = Inr x"
        using chunk by (subst read_chunks.simps) (auto simp: Let_def)
      moreover have "\<not> (sofar + length rest \<le> cat_max_size_bytes category \<and>
          (\<forall>k. scan_chunk_for_viruses (take CHUNK_SIZE (drop (k * CHUNK_SIZE) rest))))"
        using True by (subst all_chunks) auto
      ultimately show ?thesis by blast
    next
      case False
      have step: "read_chunks category rest sofar head =
          read_chunks category (drop CHUNK_SIZE rest) ?sofar ?head"
        using chunk False by (subst read_chunks.simps) (simp add: Let_def)
      have head: "take SIGNATURE_HEAD_SIZE (?head @ drop CHUNK_SIZE rest) =
          take SIGNATURE_HEAD_SIZE (head @ rest)"
      proof (cases "length rest \<le> CHUNK_SIZE")
        case True
        then show ?thesis using "1.prems"(2) by simp
      next
        case False
        then show ?thesis using "1.prems"(2) CHUNK_SIZE_bounds(2)
          by (simp add: take_take min_def)
      qed
      have "length ?head \<le> SIGNATURE_HEAD_SIZE" using "1.prems"(2) by (auto simp: min_def)
      moreover have "?sofar \<le> cat_max_size_bytes category" using False by simp
      ultimately have "read_chunks category rest sofar head = Inr (n, head') \<longleftrightarrow>
          n = ?sofar + length (drop CHUNK_SIZE rest) \<and> n \<le> cat_max_size_bytes category \<and>
          head' = take SIGNATURE_HEAD_SIZE (head @ rest) \<and>
          (\<forall>k. scan_chunk_for_viruses (take CHUNK_SIZE (drop (k * CHUNK_SIZE) (drop CHUNK_SIZE rest))))"
        unfolding step using 1(1) [OF refl chunk refl refl] False by (simp only: head) simp
      moreover have "?sofar + length (drop CHUNK_SIZE rest) = sofar + length rest" by simp
      moreover have "(\<forall>k. scan_chunk_for_viruses (take CHUNK_SIZE (drop (k * CHUNK_SIZE) rest))) \<longleftrightarrow>
          (\<forall>k. scan_chunk_for_viruses (take CHUNK_SIZE (drop (k * CHUNK_SIZE) (drop CHUNK_SIZE rest))))"
        using False by (subst all_chunks) (simp add: add.commute)
      ultimately show ?thesis by presburger
    qed
  qed
qed

subsection \<open>Properties\<close>

lemma not_sublist_prefixed:
  "x \<notin> set as \<Longrightarrow> sublist (x # p) (as @ b) \<Longrightarrow> sublist (x # p) b"
  by (induction as) (auto simp: sublist_Cons_right)

definition split_eicar :: "nat \<Rightarrow> string" where
  "split_eicar k = replicate (CHUNK_SIZE - k) CHR ''a'' @ EICAR_SIGNATURE"

lemma eicar_hd: "EICAR_SIGNATURE = CHR ''X'' # tl EICAR_SIGNATURE" "length EICAR_SIGNATURE = 68"
  by (simp_all add: EICAR_SIGNATURE_def)

lemma split_eicar_clean:
  assumes "0 < k" and "k < 68"
  shows "scan_chunk_for_viruses (take CHUNK_SIZE (drop (j * CHUNK_SIZE) (split_eicar k)))"
proof -
  have C: "68 \<le> CHUNK_SIZE" by (simp add: CHUNK_SIZE_def)
  have short: "\<not> sublist EICAR_SIGNATURE xs" if "length xs < 68" for xs
    using that sublist_length_le [of EICAR_SIGNATURE xs] eicar_hd(2) by auto
  have first: "take CHUNK_SIZE (split_eicar k) = replicate (CHUNK_SIZE - k) CHR ''a'' @ take k EICAR_SIGNATURE"
    using C assms by (simp add: split_eicar_def)
  have "\<not> sublist EICAR_SIGNATURE (replicate (CHUNK_SIZE - k) CHR ''a'' @ take k EICAR_SIGNATURE)"
  proof
    assume "sublist EICAR_SIGNATURE (replicate (CHUNK_SIZE - k) CHR ''a'' @ take k EICAR_SIGNATURE)"
    then have "sublist (CHR ''X'' # tl EICAR_SIGNATURE)
        (replicate (CHUNK_SIZE - k) CHR ''a'' @ take k EICAR_SIGNATURE)" using eicar_hd(1) by simp
    then have "sublist (CHR ''X'' # tl EICAR_SIGNATURE) (take k EICAR_SIGNATURE)"
      by (rule not_sublist_prefixed [rotated]) simp
    then show False using short [of "take k EICAR_SIGNATURE"] eicar_hd assms by simp
  qed
  moreover have "length (drop m (split_eicar k)) < 68" if "CHUNK_SIZE \<le> m" for m
    using that C assms eicar_hd(2) by (simp add: split_eicar_def)
  then have "length (drop (j * CHUNK_SIZE) (split_eicar k)) < 68" if "j \<noteq> 0"
    using that by simp
  ultimately show ?thesis
    using first short by (cases "j = 0") (simp_all add: scan_chunk_for_viruses_def occurs_in_sublist)
qed

lemma read_and_validate_bounds:
  assumes "read_and_validate_stream content category = Inr n"
  shows "n = length content \<and> 1 \<le> n \<and> n \<le> cat_max_size_bytes category"
proof -
  obtain h where "read_chunks category content 0 [] = Inr (n, h)" "n \<noteq> 0"
    using assms by (auto simp: read_and_validate_stream_def split: sum.splits option.splits if_splits)
  then show ?thesis by (simp add: read_chunks_Inr Suc_le_eq)
qed

text \<open>C24. What an accepted upload is. The reading loop accepts a file exactly when it is not
  empty, not larger than its category allows, begins with bytes the category's signature check
  accepts, and each of its successive megabytes is clean; the number it returns is the exact
  size. The scan sees each chunk alone: a file with the test virus across a chunk boundary
  contains it and is found clean.\<close>

theorem upload_accepted_iff:
  "(read_and_validate_stream content category = Inr n \<longleftrightarrow>
      n = length content \<and> content \<noteq> [] \<and> n \<le> cat_max_size_bytes category \<and>
      (case cat_signature_check category of None \<Rightarrow> True
       | Some check \<Rightarrow> check (take SIGNATURE_HEAD_SIZE content)) \<and>
      (\<forall>k. \<not> sublist EICAR_SIGNATURE (take CHUNK_SIZE (drop (k * CHUNK_SIZE) content)))) \<and>
   sublist EICAR_SIGNATURE (split_eicar 10) \<and>
   read_and_validate_stream (split_eicar 10) CSV = Inr (length (split_eicar 10))"
proof -
  have iff: "read_and_validate_stream xs cat = Inr m \<longleftrightarrow>
      m = length xs \<and> xs \<noteq> [] \<and> m \<le> cat_max_size_bytes cat \<and>
      (case cat_signature_check cat of None \<Rightarrow> True
       | Some check \<Rightarrow> check (take SIGNATURE_HEAD_SIZE xs)) \<and>
      (\<forall>k. scan_chunk_for_viruses (take CHUNK_SIZE (drop (k * CHUNK_SIZE) xs)))" for xs cat m
  proof -
    have "read_and_validate_stream xs cat = Inr m \<longleftrightarrow>
        (\<exists>h. read_chunks cat xs 0 [] = Inr (m, h) \<and> m \<noteq> 0 \<and>
           (case cat_signature_check cat of None \<Rightarrow> True | Some check \<Rightarrow> check h))"
      by (auto simp: read_and_validate_stream_def split: sum.split option.splits if_splits)
    also have "\<dots> \<longleftrightarrow> (\<exists>h. (m = length xs \<and> m \<le> cat_max_size_bytes cat \<and>
        h = take SIGNATURE_HEAD_SIZE xs \<and>
        (\<forall>k. scan_chunk_for_viruses (take CHUNK_SIZE (drop (k * CHUNK_SIZE) xs)))) \<and> m \<noteq> 0 \<and>
           (case cat_signature_check cat of None \<Rightarrow> True | Some check \<Rightarrow> check h))"
      using read_chunks_Inr [of 0 cat "[]" xs m] by simp
    finally show ?thesis by auto
  qed
  have "length (split_eicar 10) = CHUNK_SIZE - 10 + 68" by (simp add: split_eicar_def eicar_hd(2))
  then have "length (split_eicar 10) \<le> cat_max_size_bytes CSV" by (simp add: CSV_def CHUNK_SIZE_def)
  moreover have "split_eicar 10 \<noteq> []" by (simp add: split_eicar_def EICAR_SIGNATURE_def)
  ultimately have "read_and_validate_stream (split_eicar 10) CSV = Inr (length (split_eicar 10))"
    using split_eicar_clean [of 10] by (simp add: iff CSV_def)
  moreover have "sublist EICAR_SIGNATURE (split_eicar 10)"
    by (simp add: split_eicar_def sublist_appendI [of _ _ "[]", simplified])
  ultimately show ?thesis
    using iff [of content category n] by (simp add: scan_chunk_for_viruses_def occurs_in_sublist)
qed

text \<open>The row of a line without quotes and line breaks is the list of its comma-separated pieces.\<close>

definition plain_char :: "char \<Rightarrow> bool" where
  "plain_char c \<longleftrightarrow> \<not> is_newline c \<and> c \<noteq> CHR 34"

lemma csv_plain_from:
  assumes "list_all plain_char l" and "cs_state p = IN_FIELD \<or> cs_state p = START_FIELD \<and> cs_field p = []"
  shows "csv_line p l = Some \<lparr>cs_state = START_RECORD, cs_field = [],
    cs_fields = cs_fields p @ (cs_field p @ hd (split_on CHR '','' l)) # tl (split_on CHR '','' l)\<rparr>"
  using assms
proof (induction l arbitrary: p)
  case Nil
  then show ?case by (auto simp: save_field_def)
next
  case (Cons c cs)
  have ne: "split_on CHR '','' cs \<noteq> []" by (cases cs) (auto split: list.split)
  have c: "plain_char c" "list_all plain_char cs" using Cons.prems(1) by simp_all
  show ?case
  proof (cases "c = CHR '',''")
    case True
    then have "csv_char p (Some c) = Some (save_field START_FIELD p)"
      using Cons.prems(2) by (auto simp: start_field_char_def is_newline_def)
    with Cons.IH [OF c(2), of "save_field START_FIELD p"] True ne show ?thesis
      by (simp add: save_field_def del: csv_char.simps)
  next
    case False
    then have "csv_char p (Some c) = Some (add_char IN_FIELD c p)"
      using Cons.prems(2) c(1) by (auto simp: start_field_char_def plain_char_def)
    with Cons.IH [OF c(2), of "add_char IN_FIELD c p"] False ne show ?thesis
      by (simp add: add_char_def del: csv_char.simps split: list.split)
  qed
qed

lemma csv_plain_line:
  assumes "list_all plain_char l" and "l \<noteq> []"
  shows "csv_line csv_start l = Some \<lparr>cs_state = START_RECORD, cs_field = [],
    cs_fields = split_on CHR '','' l\<rparr>"
proof -
  let ?p = "csv_start\<lparr>cs_state := START_FIELD\<rparr>"
  obtain c cs where l: "l = c # cs" using assms(2) by (cases l) auto
  have "\<not> is_newline c" using assms(1) l by (simp add: plain_char_def)
  then have "csv_char csv_start (Some c) = csv_char ?p (Some c)"
    by (simp add: csv_start_def start_field_char_def save_field_def add_char_def)
  then have "csv_line csv_start l = csv_line ?p l" by (simp add: l del: csv_char.simps)
  moreover have "split_on CHR '','' l \<noteq> []" by (cases l) (auto split: list.split)
  ultimately show ?thesis
    using csv_plain_from [OF assms(1), of ?p] by (simp add: csv_start_def)
qed

lemma text_lines_single: "CHR 10 \<notin> set l \<Longrightarrow> l \<noteq> [] \<Longrightarrow> text_lines l = [l]"
proof (induction l)
  case (Cons c cs)
  then show ?case by (cases cs) auto
qed simp

text \<open>A small file that is one plain line of ASCII text is accepted.\<close>

lemma plain_csv_accepted:
  assumes "list_all plain_char l" and "l \<noteq> []" and "length l \<le> CSV_SAMPLE_SIZE"
    and "list_all (\<lambda>c. code c \<le> 127) l"
  shows "validate_csv_content l = Inr ()"
proof -
  have "utf8_valid (map code cs)" if "list_all (\<lambda>c. code c \<le> 127) cs" for cs
    using that by (induction cs) simp_all
  moreover have "CHR 10 \<notin> set l" using assms(1) by (auto simp: list_all_iff plain_char_def is_newline_def)
  moreover have "split_on CHR '','' l \<noteq> []" by (cases l) (auto split: list.split)
  ultimately show ?thesis
    using assms by (simp add: validate_csv_content_def text_lines_single csv_plain_line)
qed

end
