(* ===== verification/Middleware.thy ===== *)
theory Middleware
  imports FileValidation Config
begin

text \<open>
  What surrounds every request: the three ASGI middlewares of \<open>app/middleware\<close>, the request id of
  \<open>app/core/request_context.py\<close>, the exception handlers of \<open>app/core/exceptions.py\<close>, the order
  \<open>app/main.py\<close> stacks them in and its health route. An ASGI application is a function from the
  scope and the current request id to a run: the messages it sent in order, the exception that
  left it if one did, the log records it wrote. Header names and values are byte strings. The
  application inside the stack (routing, CORS, compression, host checks) is an argument.
\<close>

record scope =
  sc_type :: string
  sc_method :: string
  sc_path :: string
  sc_headers :: "(string \<times> string) list"

datatype message =
    ResponseStart int "(string \<times> string) list"
  | ResponseBody string
  | OtherMessage string

record log_record =
  log_message :: string
  log_method :: string
  log_path :: string
  log_status :: "int option"
  log_request_id :: "string option"

record asgi_run =
  run_sent :: "message list"
  run_raised :: "failure option"
  run_log :: "log_record list"

type_synonym asgi_app = "scope \<Rightarrow> string option \<Rightarrow> asgi_run"

text \<open>Appending headers to the start of a response, as the send wrappers do.\<close>

fun extend_start :: "(string \<times> string) list \<Rightarrow> message \<Rightarrow> message" where
  "extend_start hs (ResponseStart status headers) = ResponseStart status (headers @ hs)"
| "extend_start hs m = m"

subsection \<open>Security headers\<close>

definition security_headers :: "bool \<Rightarrow> (string \<times> string) list" where
  "security_headers hsts =
     [(''x-content-type-options'', ''nosniff''), (''x-frame-options'', ''DENY''),
      (''referrer-policy'', ''strict-origin-when-cross-origin''),
      (''permissions-policy'', ''geolocation=(), microphone=(), camera=()'')] @
     (if hsts then [(''strict-transport-security'', ''max-age=63072000; includeSubDomains; preload'')]
      else [])"

definition security_headers_middleware :: "bool \<Rightarrow> asgi_app \<Rightarrow> asgi_app" where
  "security_headers_middleware hsts app scope ctx =
     (if sc_type scope \<noteq> ''http'' then app scope ctx
      else (let r = app scope ctx
            in r\<lparr>run_sent := map (extend_start (security_headers hsts)) (run_sent r)\<rparr>))"

subsection \<open>Deprecation of the unversioned paths\<close>

definition LEGACY_PREFIXES :: "string list" where
  "LEGACY_PREFIXES = [''/auth'', ''/users'', ''/admin'', ''/files'', ''/ws'']"

definition SUCCESSOR_PREFIX :: string where "SUCCESSOR_PREFIX = ''/api/v1''"

definition SUNSET_DATE :: string where "SUNSET_DATE = ''Wed, 31 Dec 2026 23:59:59 GMT''"

definition is_legacy_path :: "string \<Rightarrow> bool" where
  "is_legacy_path path =
     list_ex (\<lambda>prefix. path = prefix \<or> startswith path (prefix @ ''/'')) LEGACY_PREFIXES"

definition deprecation_headers :: "string \<Rightarrow> (string \<times> string) list" where
  "deprecation_headers path =
     [(''deprecation'', ''true''), (''sunset'', SUNSET_DATE),
      (''link'', ''<'' @ SUCCESSOR_PREFIX @ path @ ''>; rel='' @ [CHR 34] @ ''successor-version'' @ [CHR 34])]"

definition deprecation_headers_middleware :: "asgi_app \<Rightarrow> asgi_app" where
  "deprecation_headers_middleware app scope ctx =
     (if sc_type scope \<noteq> ''http'' \<or> \<not> is_legacy_path (sc_path scope) then app scope ctx
      else (let r = app scope ctx
            in r\<lparr>run_sent := map (extend_start (deprecation_headers (sc_path scope))) (run_sent r)\<rparr>))"

subsection \<open>The request id\<close>

text \<open>The context variable is an argument: setting it gives the token with the old value and the new
  value, which holds until the middleware resets it on its way out.\<close>

definition set_request_id :: "string \<Rightarrow> string option \<Rightarrow> string option \<times> string option" where
  "set_request_id request_id ctx = (ctx, Some request_id)"

definition REQUEST_ID_HEADER :: string where "REQUEST_ID_HEADER = ''x-request-id''"

text \<open>\<open>dict(scope["headers"])\<close>: of a repeated header the last counts.\<close>

definition header_value :: "(string \<times> string) list \<Rightarrow> string \<Rightarrow> string option" where
  "header_value headers name = map_of (rev headers) name"

definition incoming_id :: "scope \<Rightarrow> string option" where
  "incoming_id scope =
     (case header_value (sc_headers scope) REQUEST_ID_HEADER of
        None \<Rightarrow> None | Some v \<Rightarrow> if v = [] then None else Some v)"

text \<open>The status in the log: of the last start that was sent, 500 before any.\<close>

fun status_code :: "int \<Rightarrow> message list \<Rightarrow> int" where
  "status_code st [] = st"
| "status_code st (ResponseStart status _ # ms) = status_code status ms"
| "status_code st (_ # ms) = status_code st ms"

definition with_request_id :: "string \<Rightarrow> asgi_app \<Rightarrow> asgi_app" where
  "with_request_id request_id app scope ctx =
     (let (token, ctx') = set_request_id request_id ctx;
          r = app scope ctx';
          completed = \<lparr>log_message = ''request completed'', log_method = sc_method scope,
                       log_path = sc_path scope, log_status = Some (status_code 500 (run_sent r)),
                       log_request_id = ctx'\<rparr>
      in r\<lparr>run_sent := map (extend_start [(REQUEST_ID_HEADER, request_id)]) (run_sent r),
           run_log := run_log r @ [completed]\<rparr>)"

text \<open>\<open>new_id\<close> is the fresh \<open>uuid4\<close> of the request. Decoding the incoming bytes comes before the
  \<open>try\<close>; encoding the decoded text again gives the same bytes.\<close>

definition request_context_middleware :: "string \<Rightarrow> asgi_app \<Rightarrow> asgi_app" where
  "request_context_middleware new_id app scope ctx =
     (if sc_type scope \<noteq> ''http'' then app scope ctx
      else (case incoming_id scope of
              Some v \<Rightarrow>
                if \<not> utf8_valid (map code v)
                then \<lparr>run_sent = [], run_raised = Some (Unhandled ''UnicodeDecodeError''), run_log = []\<rparr>
                else with_request_id v app scope ctx
            | None \<Rightarrow> with_request_id new_id app scope ctx))"

subsection \<open>Exceptions\<close>

record http_response =
  resp_status :: int
  resp_headers :: "(string \<times> string) list"
  resp_content :: pyval

text \<open>FastAPI's own handlers of the two common exceptions, which the program's handlers end with;
  \<open>errors\<close> of a validation error is represented by its description.\<close>

record default_handlers =
  default_http_exception_handler :: "int \<Rightarrow> string \<Rightarrow> (string \<times> string) list \<Rightarrow> http_response"
  default_validation_exception_handler :: "string \<Rightarrow> http_response"

definition exception_log :: "string \<Rightarrow> scope \<Rightarrow> int option \<Rightarrow> string option \<Rightarrow> log_record" where
  "exception_log msg scope status ctx =
     \<lparr>log_message = msg, log_method = sc_method scope, log_path = sc_path scope,
      log_status = status, log_request_id = ctx\<rparr>"

definition handle_http_exception ::
  "default_handlers \<Rightarrow> scope \<Rightarrow> string option \<Rightarrow> int \<Rightarrow> string \<Rightarrow> (string \<times> string) list \<Rightarrow> http_response \<times> log_record" where
  "handle_http_exception D scope ctx status detail headers =
     (default_http_exception_handler D status detail headers,
      exception_log ''http exception'' scope (Some status) ctx)"

definition handle_validation_error ::
  "default_handlers \<Rightarrow> scope \<Rightarrow> string option \<Rightarrow> string \<Rightarrow> http_response \<times> log_record" where
  "handle_validation_error D scope ctx errors =
     (default_validation_exception_handler D errors,
      exception_log ''request validation failed'' scope None ctx)"

definition handle_unhandled_exception ::
  "scope \<Rightarrow> string option \<Rightarrow> failure \<Rightarrow> http_response \<times> log_record" where
  "handle_unhandled_exception scope ctx exc =
     (\<lparr>resp_status = 500, resp_headers = [], resp_content = PDict [(''detail'', PStr ''Internal Server Error'')]\<rparr>,
      exception_log ''unhandled exception'' scope None ctx)"

text \<open>Which handler an exception gets (\<open>register_exception_handlers\<close>). A \<open>WebSocketException\<close> has
  none: it closes a socket that was not accepted and makes no response.\<close>

definition handle_exception ::
  "default_handlers \<Rightarrow> scope \<Rightarrow> string option \<Rightarrow> failure \<Rightarrow> (http_response \<times> log_record) option" where
  "handle_exception D scope ctx e =
     (case e of
        HTTPException status detail headers \<Rightarrow> Some (handle_http_exception D scope ctx status detail headers)
      | RequestValidationError errors \<Rightarrow> Some (handle_validation_error D scope ctx errors)
      | Unhandled _ \<Rightarrow> Some (handle_unhandled_exception scope ctx e)
      | WebSocketException _ \<Rightarrow> None)"

definition starts_response :: "message list \<Rightarrow> bool" where
  "starts_response ms = list_ex (\<lambda>m. case m of ResponseStart _ _ \<Rightarrow> True | _ \<Rightarrow> False) ms"

text \<open>
  Starlette calls the handler of \<open>Exception\<close> outside all middleware, sends its response when none
  was started, and raises the exception again. That is what is asked of the parameter \<open>outer\<close>;
  \<open>render\<close> gives the messages of a response.
\<close>

type_synonym error_layer =
  "(scope \<Rightarrow> string option \<Rightarrow> failure \<Rightarrow> http_response \<times> log_record) \<Rightarrow> asgi_app \<Rightarrow> asgi_app"

locale error_middleware =
  fixes render :: "http_response \<Rightarrow> message list" and outer :: error_layer
  assumes not_raised: "run_raised (app scope ctx) = None \<Longrightarrow> outer handler app scope ctx = app scope ctx"
    and raised: "sc_type scope = ''http'' \<Longrightarrow> run_raised (app scope ctx) = Some e \<Longrightarrow>
      handler scope ctx e = (resp, entry) \<Longrightarrow>
      outer handler app scope ctx = (app scope ctx)\<lparr>
        run_sent := run_sent (app scope ctx) @
          (if starts_response (run_sent (app scope ctx)) then [] else render resp),
        run_log := run_log (app scope ctx) @ [entry]\<rparr>"

definition ref_error_middleware :: "(http_response \<Rightarrow> message list) \<Rightarrow> error_layer" where
  "ref_error_middleware render handler app scope ctx =
     (let r = app scope ctx in
      case run_raised r of
        None \<Rightarrow> r
      | Some e \<Rightarrow>
          if sc_type scope \<noteq> ''http'' then r
          else (let (resp, entry) = handler scope ctx e
                in r\<lparr>run_sent := run_sent r @ (if starts_response (run_sent r) then [] else render resp),
                     run_log := run_log r @ [entry]\<rparr>))"

interpretation ref_errors: error_middleware render "ref_error_middleware render"
  by unfold_locales (simp_all add: ref_error_middleware_def Let_def)

text \<open>The instrumentation of Prometheus, which \<open>setup_metrics\<close> puts around the program's own stack, counts
  and times: what is asked of the parameter \<open>instrument\<close> is that it hands on every message of an
  HTTP response and raises again what it caught.\<close>

locale instrumented = error_middleware render outer
  for render :: "http_response \<Rightarrow> message list" and outer :: error_layer +
  fixes instrument :: "asgi_app \<Rightarrow> asgi_app"
  assumes transparent: "sc_type scope = ''http'' \<Longrightarrow> instrument app scope ctx = app scope ctx"

definition ref_instrument :: "asgi_app \<Rightarrow> asgi_app" where
  "ref_instrument app scope ctx = app scope ctx"

interpretation ref_instrumented: instrumented render "ref_error_middleware render" ref_instrument
  by unfold_locales (simp_all add: ref_instrument_def)

text \<open>The stack of \<open>app/main.py\<close>: what is added last is outermost.\<close>

definition middleware_stack :: "settings \<Rightarrow> string \<Rightarrow> asgi_app \<Rightarrow> asgi_app" where
  "middleware_stack cfg new_id inner =
     request_context_middleware new_id
       (deprecation_headers_middleware
          (security_headers_middleware (is_production cfg) inner))"

definition application ::
  "error_layer \<Rightarrow> (asgi_app \<Rightarrow> asgi_app) \<Rightarrow> settings \<Rightarrow> string \<Rightarrow> asgi_app \<Rightarrow> asgi_app" where
  "application outer instrument cfg new_id inner =
     outer handle_unhandled_exception (instrument (middleware_stack cfg new_id inner))"

subsection \<open>Health\<close>

text \<open>\<open>db_error\<close> is the message of the \<open>SQLAlchemyError\<close> the probe query raised, if it did; the
  second component is the gauge \<open>health_check_status\<close>.\<close>

definition health_check :: "settings \<Rightarrow> string option \<Rightarrow> http_response \<times> int" where
  "health_check cfg db_error =
     (let checks = [(''database'', case db_error of
                       None \<Rightarrow> (''ok'', None) | Some e \<Rightarrow> (''error'', Some e))];
          overall_status = (if list_all (\<lambda>(_, status, _). status = ''ok'') checks then ''ok'' else ''degraded'')
      in (\<lparr>resp_status = (if overall_status = ''ok'' then 200 else 503), resp_headers = [],
           resp_content = PDict
             [(''status'', PStr overall_status), (''version'', PStr (app_version cfg)),
              (''environment'', PStr (environment_value (environment cfg))),
              (''checks'', PDict (map (\<lambda>(name, status, error).
                 (name, PDict [(''status'', PStr status),
                               (''error'', case error of None \<Rightarrow> PNone | Some e \<Rightarrow> PStr e)])) checks))]\<rparr>,
          if overall_status = ''ok'' then 1 else 0))"

subsection \<open>Properties\<close>

lemma extend_start_append [simp]:
  "extend_start hs (extend_start gs m) = extend_start (gs @ hs) m"
  by (cases m) simp_all

lemma starts_response_extend [simp]: "starts_response (map (extend_start hs) ms) = starts_response ms"
  unfolding starts_response_def by (induction ms) (auto split: message.splits elim: extend_start.elims)

lemma status_code_extend [simp]: "status_code st (map (extend_start hs) ms) = status_code st ms"
  by (induction st ms rule: status_code.induct) simp_all

text \<open>The headers the stack adds, and the id a request gets.\<close>

definition added_headers :: "settings \<Rightarrow> scope \<Rightarrow> string \<Rightarrow> (string \<times> string) list" where
  "added_headers cfg scope rid =
     security_headers (is_production cfg) @
     (if is_legacy_path (sc_path scope) then deprecation_headers (sc_path scope) else []) @
     [(REQUEST_ID_HEADER, rid)]"

definition given_id :: "scope \<Rightarrow> string \<Rightarrow> string" where
  "given_id scope new_id = (case incoming_id scope of None \<Rightarrow> new_id | Some v \<Rightarrow> v)"

definition completed :: "scope \<Rightarrow> string \<Rightarrow> message list \<Rightarrow> log_record" where
  "completed scope rid sent =
     \<lparr>log_message = ''request completed'', log_method = sc_method scope, log_path = sc_path scope,
      log_status = Some (status_code 500 sent), log_request_id = Some rid\<rparr>"

lemma middleware_stack_run:
  assumes "sc_type scope = ''http''" and "\<forall>v. incoming_id scope = Some v \<longrightarrow> utf8_valid (map code v)"
  shows "middleware_stack cfg new_id inner scope ctx =
    (let rid = given_id scope new_id; r = inner scope (Some rid)
     in r\<lparr>run_sent := map (extend_start (added_headers cfg scope rid)) (run_sent r),
          run_log := run_log r @ [completed scope rid (run_sent r)]\<rparr>)"
  using assms
  by (simp add: middleware_stack_def request_context_middleware_def with_request_id_def
      set_request_id_def deprecation_headers_middleware_def security_headers_middleware_def Let_def
      added_headers_def given_id_def completed_def o_def split: option.split)

definition internal_error :: http_response where
  "internal_error = \<lparr>resp_status = 500, resp_headers = [],
     resp_content = PDict [(''detail'', PStr ''Internal Server Error'')]\<rparr>"

lemma application_quiet:
  assumes "instrumented render outer instrument" and "sc_type scope = ''http''"
    and "run_raised (middleware_stack cfg new_id inner scope ctx) = None"
  shows "application outer instrument cfg new_id inner scope ctx = middleware_stack cfg new_id inner scope ctx"
  using error_middleware.not_raised [OF instrumented.axioms(1) [OF assms(1)],
      of "instrument (middleware_stack cfg new_id inner)" scope ctx handle_unhandled_exception]
    instrumented.transparent [OF assms(1,2)] assms(3)
  by (simp add: application_def)

lemma application_raised:
  assumes "instrumented render outer instrument" and "sc_type scope = ''http''"
    and "run_raised (middleware_stack cfg new_id inner scope ctx) = Some e"
  shows "application outer instrument cfg new_id inner scope ctx =
    (let m = middleware_stack cfg new_id inner scope ctx
     in m\<lparr>run_sent := run_sent m @ (if starts_response (run_sent m) then [] else render internal_error),
          run_log := run_log m @ [exception_log ''unhandled exception'' scope None ctx]\<rparr>)"
  using error_middleware.raised [where app = "instrument (middleware_stack cfg new_id inner)",
      OF instrumented.axioms(1) [OF assms(1)] assms(2)]
    instrumented.transparent [OF assms(1,2)] assms(3)
  by (simp add: application_def handle_unhandled_exception_def internal_error_def Let_def)

text \<open>What leaves the stack. For an HTTP request whose id is absent or proper UTF-8 every
  response the application sends goes out with its status, headers and body unchanged and the
  same headers appended: the security headers, on the unversioned paths the deprecation headers
  with the path under \<open>/api/v1\<close>, and the id of the request, which is the one the client sent if it
  sent one; one record of the request with that id and the final status is logged. An exception
  nothing handled passes through; the 500 response for it is sent outside the stack, gets none of
  these headers and discloses nothing, and its log record has no request id. A request id that is
  not UTF-8 ends the same way before the application runs.\<close>

theorem response_headers_complete:
  fixes scope cfg new_id inner render outer instrument
  assumes "sc_type scope = ''http''" and "instrumented render outer instrument"
  defines "rid \<equiv> given_id scope new_id"
  defines "r0 \<equiv> inner scope (Some rid)" and "r \<equiv> application outer instrument cfg new_id inner scope None"
  shows "if \<exists>v. incoming_id scope = Some v \<and> \<not> utf8_valid (map code v)
    then run_sent r = render internal_error \<and> run_raised r = Some (Unhandled ''UnicodeDecodeError'') \<and>
      map log_message (run_log r) = [''unhandled exception'']
    else run_raised r = run_raised r0 \<and>
      run_sent r = map (extend_start (added_headers cfg scope rid)) (run_sent r0) @
        (if run_raised r0 \<noteq> None \<and> \<not> starts_response (run_sent r0) then render internal_error else []) \<and>
      run_log r = run_log r0 @ [completed scope rid (run_sent r0)] @
        (if run_raised r0 \<noteq> None then [exception_log ''unhandled exception'' scope None None] else [])"
proof (cases "\<exists>v. incoming_id scope = Some v \<and> \<not> utf8_valid (map code v)")
  case True
  then obtain v where v: "incoming_id scope = Some v" "\<not> utf8_valid (map code v)" by blast
  then have "middleware_stack cfg new_id inner scope None =
      \<lparr>run_sent = [], run_raised = Some (Unhandled ''UnicodeDecodeError''), run_log = []\<rparr>"
    using assms(1) by (simp add: middleware_stack_def request_context_middleware_def)
  then show ?thesis
    using True application_raised [OF assms(2,1), of cfg new_id inner None]
    by (simp add: r_def Let_def exception_log_def starts_response_def)
next
  case False
  then have "\<forall>v. incoming_id scope = Some v \<longrightarrow> utf8_valid (map code v)" by blast
  from middleware_stack_run [OF assms(1) this, of cfg new_id inner None]
  have run: "middleware_stack cfg new_id inner scope None =
      r0\<lparr>run_sent := map (extend_start (added_headers cfg scope rid)) (run_sent r0),
         run_log := run_log r0 @ [completed scope rid (run_sent r0)]\<rparr>"
    by (simp add: Let_def rid_def r0_def)
  show ?thesis
  proof (cases "run_raised r0")
    case None
    then have "r = middleware_stack cfg new_id inner scope None"
      unfolding r_def by (intro application_quiet [OF assms(2,1)]) (simp add: run)
    then show ?thesis using False None by (simp add: run)
  next
    case (Some e)
    then show ?thesis
      using False application_raised [OF assms(2,1), of cfg new_id inner None e]
      by (simp add: r_def run Let_def)
  qed
qed

definition dev_settings :: settings where
  "dev_settings = default_settings ''sqlite://'' ''0123456789abcdef'' ''h'' ''u'' ''p'' ''f'' ''n'' ''https://app''"

text \<open>A client that sends its own id asks for its profile under the old path.\<close>

theorem response_headers_complete_witness:
  "run_sent (application (ref_error_middleware (\<lambda>_. [])) ref_instrument dev_settings ''u''
     (\<lambda>_ _. \<lparr>run_sent = [ResponseStart 200 [], ResponseBody ''{}''], run_raised = None, run_log = []\<rparr>)
     \<lparr>sc_type = ''http'', sc_method = ''GET'', sc_path = ''/users/me'',
      sc_headers = [(''x-request-id'', ''abc'')]\<rparr> None) =
   [ResponseStart 200 (security_headers False @ deprecation_headers ''/users/me'' @
      [(''x-request-id'', ''abc'')]), ResponseBody ''{}'']"
proof -
  let ?scope = "\<lparr>sc_type = ''http'', sc_method = ''GET'', sc_path = ''/users/me'',
      sc_headers = [(''x-request-id'', ''abc'')]\<rparr>"
  have id: "incoming_id ?scope = Some ''abc''"
    by (simp add: incoming_id_def header_value_def REQUEST_ID_HEADER_def)
  moreover have "utf8_valid (map code ''abc'')" by code_simp
  moreover have "is_legacy_path ''/users/me''" by code_simp
  moreover have "\<not> is_production dev_settings"
    by (simp add: is_production_def dev_settings_def default_settings_def)
  ultimately show ?thesis
    using response_headers_complete [where scope = ?scope and cfg = dev_settings and new_id = "''u''"
        and inner = "\<lambda>_ _. \<lparr>run_sent = [ResponseStart 200 [], ResponseBody ''{}''], run_raised = None, run_log = []\<rparr>",
        OF _ ref_instrumented.instrumented_axioms [of "\<lambda>_. []"]]
    by (simp add: given_id_def added_headers_def REQUEST_ID_HEADER_def)
qed

end
