(* ===== verification/Router.thy ===== *)
theory Router
  imports Middleware
begin

text \<open>
  Which function answers which path: the routers of \<open>app/api\<close>, the two versions of the API
  (\<open>app/api/v1\<close>, \<open>app/api/v2\<close>) and where \<open>app/main.py\<close> mounts them. A path template is matched
  segment by segment, a parameter by any segment that is not empty; the first route that
  matches is taken. The method of the socket endpoint is \<open>''WEBSOCKET''\<close>. The routes that
  libraries add (\<open>/metrics\<close>, \<open>/docs\<close>, \<open>/redoc\<close>, \<open>/openapi.json\<close>) are not in the table.
\<close>

record route =
  ro_method :: string
  ro_path :: string
  ro_endpoint :: string

definition route :: "string \<Rightarrow> string \<Rightarrow> string \<Rightarrow> route" where
  "route m p e = \<lparr>ro_method = m, ro_path = p, ro_endpoint = e\<rparr>"

definition segments :: "string \<Rightarrow> string list" where
  "segments path = split_on CHR ''/'' path"

definition is_parameter :: "string \<Rightarrow> bool" where
  "is_parameter t = startswith t ''{''"

definition segment_matches :: "string \<Rightarrow> string \<Rightarrow> bool" where
  "segment_matches t s = (if is_parameter t then s \<noteq> [] else s = t)"

definition path_matches :: "string \<Rightarrow> string \<Rightarrow> bool" where
  "path_matches template path = list_all2 segment_matches (segments template) (segments path)"

definition endpoint_at :: "route list \<Rightarrow> string \<Rightarrow> string \<Rightarrow> string option" where
  "endpoint_at rs method path =
     map_option ro_endpoint (List.find (\<lambda>r. ro_method r = method \<and> path_matches (ro_path r) path) rs)"

text \<open>A router with a prefix of its own, or included under one.\<close>

definition under :: "string \<Rightarrow> route list \<Rightarrow> route list" where
  "under base rs = map (\<lambda>r. r\<lparr>ro_path := base @ ro_path r\<rparr>) rs"

subsection \<open>The routers\<close>

definition auth_router :: "route list" where
  "auth_router = under ''/auth''
     [route ''POST'' ''/register'' ''auth.register_user'',
      route ''POST'' ''/login'' ''auth.login_user'',
      route ''POST'' ''/refresh'' ''auth.refresh_access_token'',
      route ''POST'' ''/logout'' ''auth.logout'',
      route ''GET'' ''/verify-email'' ''auth.verify_email'',
      route ''POST'' ''/forgot-password'' ''auth.forgot_password'',
      route ''POST'' ''/reset-password'' ''auth.reset_password'']"

definition oauth_router :: "route list" where
  "oauth_router = under ''/auth/oauth''
     [route ''GET'' ''/{provider}/login'' ''oauth.oauth_login'',
      route ''GET'' ''/{provider}/link'' ''oauth.oauth_link'',
      route ''GET'' ''/{provider}/callback'' ''oauth.oauth_callback'',
      route ''GET'' ''/accounts'' ''oauth.list_linked_accounts'',
      route ''DELETE'' ''/{provider}'' ''oauth.unlink_provider'']"

definition users_router :: "route list" where
  "users_router = under ''/users''
     [route ''GET'' ''/me'' ''users.read_current_user'',
      route ''PATCH'' ''/me'' ''users.update_current_user'',
      route ''POST'' ''/me/change-password'' ''users.change_current_user_password'',
      route ''DELETE'' ''/me'' ''users.deactivate_current_user'']"

definition users_v2_router :: "route list" where
  "users_v2_router = under ''/users''
     [route ''GET'' ''/me'' ''v2.users.read_current_user'',
      route ''PATCH'' ''/me'' ''v2.users.update_current_user'',
      route ''POST'' ''/me/change-password'' ''v2.users.change_current_user_password'',
      route ''DELETE'' ''/me'' ''v2.users.deactivate_current_user'']"

definition admin_router :: "route list" where
  "admin_router = under ''/admin''
     [route ''GET'' ''/users'' ''admin.list_users'',
      route ''GET'' ''/users/feed'' ''admin.list_users_feed'',
      route ''PATCH'' ''/users/{user_id}'' ''admin.update_user_status'',
      route ''DELETE'' ''/users/{user_id}'' ''admin.deactivate_user'',
      route ''GET'' ''/roles'' ''admin.list_roles'',
      route ''POST'' ''/users/{user_id}/roles'' ''admin.assign_role'',
      route ''DELETE'' ''/users/{user_id}/roles/{role_name}'' ''admin.revoke_role'',
      route ''POST'' ''/reports/user-summary'' ''admin.trigger_user_summary_report'',
      route ''GET'' ''/reports/{task_id}'' ''admin.get_report_status'']"

definition files_router :: "route list" where
  "files_router = under ''/files''
     [route ''POST'' ''/upload'' ''files.upload_file'',
      route ''GET'' ''/'' ''files.list_my_files'',
      route ''GET'' ''/{file_id}'' ''files.get_file'',
      route ''DELETE'' ''/{file_id}'' ''files.delete_file'']"

definition websocket_router :: "route list" where
  "websocket_router = [route ''WEBSOCKET'' ''/ws'' ''websocket.websocket_endpoint'']"

definition v1_router :: "route list" where
  "v1_router = auth_router @ oauth_router @ users_router @ admin_router @ files_router @ websocket_router"

definition v2_router :: "route list" where
  "v2_router = auth_router @ oauth_router @ users_v2_router @ admin_router @ files_router @ websocket_router"

definition application_routes :: "route list" where
  "application_routes = under ''/api/v1'' v1_router @ under ''/api/v2'' v2_router @ v1_router @
     [route ''GET'' ''/'' ''main.root'', route ''GET'' ''/health'' ''main.health_check'']"

subsection \<open>No two routes overlap\<close>

text \<open>Templates that some path could match both.\<close>

definition overlap :: "string list \<Rightarrow> string list \<Rightarrow> bool" where
  "overlap ts us = list_all2 (\<lambda>t u. is_parameter t \<and> (is_parameter u \<or> u \<noteq> []) \<or> is_parameter u \<and> t \<noteq> [] \<or> t = u) ts us"

lemma path_matches_overlap:
  assumes "path_matches a p" and "path_matches b p"
  shows "overlap (segments a) (segments b)"
  using assms unfolding path_matches_def overlap_def list_all2_conv_all_nth segment_matches_def
  by (auto split: if_splits) metis+

fun apart :: "(string \<times> string list) list \<Rightarrow> bool" where
  "apart [] = True"
| "apart ((m, t) # rest) = (list_all (\<lambda>(m', u). m' = m \<longrightarrow> \<not> overlap t u) rest \<and> apart rest)"

definition shapes :: "route list \<Rightarrow> (string \<times> string list) list" where
  "shapes rs = map (\<lambda>r. (ro_method r, segments (ro_path r))) rs"

lemma v1_apart: "apart (shapes v1_router)"
  by code_simp

lemma v2_apart: "apart (shapes v2_router)"
  by code_simp

lemma apart_unique:
  assumes "apart (shapes rs)" and "r \<in> set rs" and "r' \<in> set rs" and "ro_method r = ro_method r'"
    and "path_matches (ro_path r) p" and "path_matches (ro_path r') p"
  shows "r = r'"
  using assms(1,2,3)
proof (induction rs)
  case (Cons x rs)
  have no: "x \<noteq> y \<Longrightarrow> y \<in> set rs \<Longrightarrow> ro_method x = ro_method y \<Longrightarrow> path_matches (ro_path x) p \<Longrightarrow>
      \<not> path_matches (ro_path y) p" for y
    using Cons.prems(1) path_matches_overlap [of "ro_path x" p "ro_path y"]
    by (auto simp: shapes_def list_all_iff)
  show ?case using Cons no [of r] no [of r'] assms(4-6) by (auto simp: shapes_def)
qed simp

lemma endpoint_at_apart:
  assumes "apart (shapes rs)" and "r \<in> set rs" and "path_matches (ro_path r) p"
  shows "endpoint_at rs (ro_method r) p = Some (ro_endpoint r)"
proof -
  obtain r' where r': "List.find (\<lambda>x. ro_method x = ro_method r \<and> path_matches (ro_path x) p) rs = Some r'"
    using assms(2,3) by (cases "List.find (\<lambda>x. ro_method x = ro_method r \<and> path_matches (ro_path x) p) rs")
      (auto simp: find_None_iff)
  then have "r' \<in> set rs" "ro_method r' = ro_method r" "path_matches (ro_path r') p"
    using find_Some_set [OF r'] by simp_all
  then have "r' = r" using apart_unique [OF assms(1,2) \<open>r' \<in> set rs\<close> _ assms(3)] by simp
  with r' show ?thesis by (simp add: endpoint_at_def)
qed

subsection \<open>Prefixes\<close>

lemma split_on_append: "split_on c (a @ c # b) = split_on c a @ split_on c b"
  by (induction a) (auto split: list.split)

lemma segments_slash: "segments (CHR ''/'' # t) = [] # segments t"
  by (simp add: segments_def)

lemma segments_start:
  assumes "segments p = [] # s # rest"
  obtains p' where "p = CHR ''/'' # p'" "segments p' = s # rest"
  using assms by (cases p) (auto simp: segments_def split: if_splits list.splits)

lemma segments_join: "p = join ''/'' (segments p)"
  by (simp add: segments_def join_split_on)

text \<open>All templates start with a slash.\<close>

definition rooted :: "route list \<Rightarrow> bool" where
  "rooted rs = list_all (\<lambda>r. startswith (ro_path r) ''/'') rs"

lemma rooted_routers: "rooted v1_router" "rooted v2_router"
  by code_simp+

lemma rooted_matches:
  assumes "path_matches (CHR ''/'' # t) q"
  obtains q' where "q = CHR ''/'' # q'"
proof -
  obtain s rest where s: "segments t = s # rest" by (metis list.exhaust segments_def split_on_not_Nil)
  obtain x y ys where "segments q = x # y # ys" "segment_matches [] x"
    using assms unfolding path_matches_def segments_slash s by (auto simp: list_all2_Cons1)
  then have "segments q = [] # y # ys" by (simp add: segment_matches_def is_parameter_def)
  then show ?thesis using that by (rule segments_start)
qed

lemma split_on_join: "ys \<noteq> [] \<Longrightarrow> \<forall>y \<in> set ys. c \<notin> set y \<Longrightarrow> split_on c (join [c] ys) = ys"
proof (induction "[c]" ys rule: join.induct)
  case (3 p q ps)
  then show ?case by (simp add: split_on_first)
qed (simp_all add: split_on_no_sep)

lemma segments_eq: "segments p = segments q \<Longrightarrow> p = q"
  by (metis segments_join)

definition plain_base :: "string \<Rightarrow> bool" where
  "plain_base base = list_all (\<lambda>s. \<not> is_parameter s) (segments base)"

lemma plain_segments:
  "list_all (\<lambda>s. \<not> is_parameter s) ss \<Longrightarrow> list_all2 segment_matches ss xs \<longleftrightarrow> xs = ss"
  by (induction ss arbitrary: xs) (auto simp: segment_matches_def list_all2_Cons1)

lemma segments_base: "segments (base @ CHR ''/'' # w) = segments base @ segments w"
  by (simp add: segments_def split_on_append)

lemma path_matches_under:
  assumes "plain_base base" and "startswith t ''/''"
  shows "path_matches (base @ t) p \<longleftrightarrow> (\<exists>q. p = base @ q \<and> path_matches t q)"
proof -
  obtain t' where t: "t = CHR ''/'' # t'" using assms(2) by (auto simp: startswith_iff)
  note same = plain_segments [OF assms(1) [unfolded plain_base_def]]
  show ?thesis
  proof
    assume "path_matches (base @ t) p"
    then obtain ys where ys: "segments p = segments base @ ys" "list_all2 segment_matches (segments t') ys"
      by (auto simp: path_matches_def t segments_base list_all2_append1 same)
    then have "ys \<noteq> []" by (metis list_all2_Nil2 segments_def split_on_not_Nil)
    moreover have "\<forall>y \<in> set ys. CHR ''/'' \<notin> set y"
      using ys(1) split_on_piece unfolding segments_def by (metis Un_iff set_append)
    ultimately have w: "segments (join ''/'' ys) = ys" by (simp add: segments_def split_on_join)
    then have "p = base @ CHR ''/'' # join ''/'' ys"
      using ys(1) by (intro segments_eq) (simp add: segments_base)
    moreover have "path_matches t (CHR ''/'' # join ''/'' ys)"
      using ys(2) by (simp add: path_matches_def t segments_slash w segment_matches_def is_parameter_def)
    ultimately show "\<exists>q. p = base @ q \<and> path_matches t q" by blast
  next
    assume "\<exists>q. p = base @ q \<and> path_matches t q"
    then obtain q where q: "p = base @ q" "path_matches t q" by blast
    then obtain q' where q': "q = CHR ''/'' # q'" using rooted_matches t by blast
    have "list_all2 segment_matches (segments t') (segments q')"
      using q(2) by (simp add: path_matches_def t q' segments_slash)
    then show "path_matches (base @ t) p"
      by (simp add: path_matches_def q(1) q' t segments_base list_all2_appendI same)
  qed
qed

lemma endpoint_at_append:
  "endpoint_at (xs @ ys) m p = (case endpoint_at xs m p of Some e \<Rightarrow> Some e | None \<Rightarrow> endpoint_at ys m p)"
  by (simp add: endpoint_at_def find_append split: option.split)

lemma endpoint_at_None:
  "endpoint_at rs m p = None \<longleftrightarrow> (\<forall>r \<in> set rs. ro_method r = m \<longrightarrow> \<not> path_matches (ro_path r) p)"
  by (auto simp: endpoint_at_def find_None_iff)

lemma endpoint_at_Some:
  "endpoint_at rs m p = Some e \<Longrightarrow> \<exists>r \<in> set rs. ro_method r = m \<and> path_matches (ro_path r) p \<and> ro_endpoint r = e"
  by (auto simp: endpoint_at_def dest: find_Some_set)

lemma endpoint_at_under:
  assumes "plain_base base" and "rooted rs"
  shows "endpoint_at (under base rs) m p =
    (if \<exists>q. p = base @ q then endpoint_at rs m (drop (length base) p) else None)"
proof -
  have "path_matches (base @ ro_path r) p \<longleftrightarrow> (\<exists>q. p = base @ q \<and> path_matches (ro_path r) q)" if "r \<in> set rs" for r
    using assms that by (intro path_matches_under) (auto simp: rooted_def list_all_iff)
  then have "endpoint_at (under base rs) m p =
      map_option ro_endpoint (List.find (\<lambda>r. ro_method r = m \<and> (\<exists>q. p = base @ q \<and> path_matches (ro_path r) q)) rs)"
    unfolding endpoint_at_def under_def
    by (induction rs) auto
  then show ?thesis by (auto simp: endpoint_at_def find_None_iff)
qed

subsection \<open>Legacy paths\<close>

definition LEGACY_NAMES :: "string list" where
  "LEGACY_NAMES = [''auth'', ''users'', ''admin'', ''files'', ''ws'']"

lemma legacy_iff:
  assumes "segments p = [] # y # rest"
  shows "is_legacy_path p \<longleftrightarrow> y \<in> set LEGACY_NAMES"
proof -
  obtain p' where p: "p = CHR ''/'' # p'" "segments p' = y # rest"
    using assms by (rule segments_start)
  have name: "p' = n \<or> (\<exists>w. p' = n @ CHR ''/'' # w) \<longleftrightarrow> y = n" if "CHR ''/'' \<notin> set n" for n
  proof
    assume "p' = n \<or> (\<exists>w. p' = n @ CHR ''/'' # w)"
    then show "y = n"
      using p(2) that by (auto simp: segments_def split_on_no_sep split_on_first)
  next
    assume "y = n"
    then have "p' = join ''/'' (n # rest)" using segments_join [of p'] p(2) by simp
    then show "p' = n \<or> (\<exists>w. p' = n @ CHR ''/'' # w)" by (cases rest) auto
  qed
  have "is_legacy_path p \<longleftrightarrow> (\<exists>n \<in> set LEGACY_NAMES. p' = n \<or> (\<exists>w. p' = n @ CHR ''/'' # w))"
    by (simp add: is_legacy_path_def LEGACY_PREFIXES_def LEGACY_NAMES_def p(1) startswith_iff)
  also have "\<dots> \<longleftrightarrow> y \<in> set LEGACY_NAMES"
  proof -
    have "list_all (\<lambda>n. CHR ''/'' \<notin> set n) LEGACY_NAMES" by code_simp
    then show ?thesis using name unfolding list_all_iff by blast
  qed
  finally show ?thesis .
qed

lemma router_names:
  "list_all (\<lambda>r. case segments (ro_path r) of x # y # _ \<Rightarrow> x = [] \<and> y \<in> set LEGACY_NAMES | _ \<Rightarrow> False) v1_router"
  "list_all (\<lambda>r. case segments (ro_path r) of x # y # _ \<Rightarrow> x = [] \<and> y \<in> set LEGACY_NAMES | _ \<Rightarrow> False) v2_router"
  by code_simp+

lemma legacy_not_parameter: "y \<in> set LEGACY_NAMES \<Longrightarrow> \<not> is_parameter y"
  by (auto simp: LEGACY_NAMES_def is_parameter_def)

lemma router_paths:
  assumes "r \<in> set v1_router \<or> r \<in> set v2_router" and "path_matches (ro_path r) p"
  obtains y rest where "segments p = [] # y # rest" "y \<in> set LEGACY_NAMES"
proof -
  obtain y ts where y: "segments (ro_path r) = [] # y # ts" "y \<in> set LEGACY_NAMES"
  proof -
    have "case segments (ro_path r) of x # y # _ \<Rightarrow> x = [] \<and> y \<in> set LEGACY_NAMES | _ \<Rightarrow> False"
      using assms(1) router_names unfolding list_all_iff by blast
    then show ?thesis using that by (simp split: list.splits)
  qed
  then obtain rest where "segments p = [] # y # rest"
    using assms(2) legacy_not_parameter [OF y(2)]
    by (auto simp: path_matches_def list_all2_Cons1 segment_matches_def is_parameter_def)
  with y(2) show ?thesis using that by blast
qed

lemma plain_bases: "plain_base ''/api/v1''" "plain_base ''/api/v2''"
  by code_simp+

lemma base_segments:
  "segments (''/api/v1'' @ CHR ''/'' # w) = [''''  , ''api'', ''v1''] @ segments w"
  "segments (''/api/v2'' @ CHR ''/'' # w) = [''''  , ''api'', ''v2''] @ segments w"
  unfolding segments_base by (simp_all add: segments_def)

text \<open>Where a path that a route of the application matches lies.\<close>

lemma application_route_cases:
  assumes "r \<in> set application_routes" and "path_matches (ro_path r) p"
  obtains
    (v1) r0 q rest where "r0 \<in> set v1_router" "r = r0\<lparr>ro_path := ''/api/v1'' @ ro_path r0\<rparr>" "p = ''/api/v1'' @ q"
      "path_matches (ro_path r0) q" "segments p = [''''  , ''api'', ''v1''] @ rest"
  | (v2) r0 q rest where "r0 \<in> set v2_router" "r = r0\<lparr>ro_path := ''/api/v2'' @ ro_path r0\<rparr>" "p = ''/api/v2'' @ q"
      "path_matches (ro_path r0) q" "segments p = [''''  , ''api'', ''v2''] @ rest"
  | (legacy) y rest where "r \<in> set v1_router" "segments p = [] # y # rest" "y \<in> set LEGACY_NAMES"
  | (root) "r = route ''GET'' ''/'' ''main.root''" "p = ''/''" "segments p = [[], []]"
  | (health) "r = route ''GET'' ''/health'' ''main.health_check''" "p = ''/health''" "segments p = [[], ''health'']"
proof -
  have single: "p = t" if "path_matches t p" "list_all (\<lambda>s. \<not> is_parameter s) (segments t)" for t
    using that plain_segments by (auto simp: path_matches_def intro: segments_eq)
  consider "r \<in> set (under ''/api/v1'' v1_router)" | "r \<in> set (under ''/api/v2'' v2_router)" | "r \<in> set v1_router"
    | "r = route ''GET'' ''/'' ''main.root''" | "r = route ''GET'' ''/health'' ''main.health_check''"
    using assms(1) unfolding application_routes_def by auto
  then show ?thesis
  proof cases
    case 1
    then obtain r0 where r0: "r0 \<in> set v1_router" "r = r0\<lparr>ro_path := ''/api/v1'' @ ro_path r0\<rparr>"
      by (auto simp: under_def)
    moreover have "startswith (ro_path r0) ''/''" using rooted_routers r0(1) by (simp add: rooted_def list_all_iff)
    ultimately obtain q where q: "p = ''/api/v1'' @ q" "path_matches (ro_path r0) q"
      using path_matches_under [OF plain_bases(1)] assms(2) by auto
    then obtain q' where "q = CHR ''/'' # q'"
      using rooted_matches \<open>startswith (ro_path r0) ''/''\<close> by (metis startswith_iff append_Cons append_Nil)
    then show ?thesis using r0 q v1 base_segments(1) [of q'] by blast
  next
    case 2
    then obtain r0 where r0: "r0 \<in> set v2_router" "r = r0\<lparr>ro_path := ''/api/v2'' @ ro_path r0\<rparr>"
      by (auto simp: under_def)
    moreover have "startswith (ro_path r0) ''/''" using rooted_routers r0(1) by (simp add: rooted_def list_all_iff)
    ultimately obtain q where q: "p = ''/api/v2'' @ q" "path_matches (ro_path r0) q"
      using path_matches_under [OF plain_bases(2)] assms(2) by auto
    then obtain q' where "q = CHR ''/'' # q'"
      using rooted_matches \<open>startswith (ro_path r0) ''/''\<close> by (metis startswith_iff append_Cons append_Nil)
    then show ?thesis using r0 q v2 base_segments(2) [of q'] by blast
  next
    case 3
    then show ?thesis using router_paths [OF disjI1 assms(2)] legacy by metis
  next
    case 4
    moreover have "list_all (\<lambda>s. \<not> is_parameter s) (segments ''/'')" by code_simp
    ultimately have "p = ''/''" using assms(2) single [of "''/''"] by (simp add: route_def)
    with 4 show ?thesis using root by (simp add: segments_def)
  next
    case 5
    moreover have "list_all (\<lambda>s. \<not> is_parameter s) (segments ''/health'')" by code_simp
    ultimately have "p = ''/health''" using assms(2) single [of "''/health''"] by (simp add: route_def)
    with 5 show ?thesis using health by (simp add: segments_def)
  qed
qed

lemma application_unique:
  assumes "r \<in> set application_routes" and "r' \<in> set application_routes" and "ro_method r = ro_method r'"
    and "path_matches (ro_path r) p" and "path_matches (ro_path r') p"
  shows "r = r'"
proof -
  have no: "''api'' \<notin> set LEGACY_NAMES" "''health'' \<notin> set LEGACY_NAMES" "[] \<notin> set LEGACY_NAMES"
    by (simp_all add: LEGACY_NAMES_def)
  from assms(1,4) show ?thesis
  proof (cases rule: application_route_cases)
    case (v1 r0 q rest)
    note one = this
    from assms(2,5) show ?thesis
    proof (cases rule: application_route_cases)
      case (v1 s0 q' rest')
      then show ?thesis
        using one apart_unique [OF v1_apart one(1) v1(1) _ one(4)] assms(3) by auto
    qed (use one no in auto)
  next
    case (v2 r0 q rest)
    note one = this
    from assms(2,5) show ?thesis
    proof (cases rule: application_route_cases)
      case (v2 s0 q' rest')
      then show ?thesis
        using one apart_unique [OF v2_apart one(1) v2(1) _ one(4)] assms(3) by auto
    qed (use one no in auto)
  next
    case (legacy y rest)
    note one = this
    from assms(2,5) show ?thesis
    proof (cases rule: application_route_cases)
      case (legacy y' rest')
      show ?thesis by (rule apart_unique [OF v1_apart one(1) legacy(1) assms(3,4,5)])
    qed (use one no in auto)
  next
    case root
    note one = this
    from assms(2,5) show ?thesis by (cases rule: application_route_cases) (use one no in auto)
  next
    case health
    note one = this
    from assms(2,5) show ?thesis by (cases rule: application_route_cases) (use one no in auto)
  qed
qed

text \<open>Every path leads to one function, and the deprecated ones have a successor. At most one route
  of the application matches a path and method, so their order does not matter. The paths that
  get the deprecation headers are exactly those of the unversioned mount; the successor their
  link names is no deprecated path and leads to the same function. Every other path is one of
  version 1 or 2 under its prefix, or the root or the health route.\<close>

theorem legacy_paths_have_successors:
  assumes "endpoint_at application_routes m p = Some e"
  shows "(\<exists>!r. r \<in> set application_routes \<and> ro_method r = m \<and> path_matches (ro_path r) p) \<and>
    (if is_legacy_path p
     then endpoint_at v1_router m p = Some e \<and> endpoint_at application_routes m (SUCCESSOR_PREFIX @ p) = Some e \<and>
       \<not> is_legacy_path (SUCCESSOR_PREFIX @ p)
     else (\<exists>q. p = ''/api/v1'' @ q \<and> endpoint_at v1_router m q = Some e) \<or>
       (\<exists>q. p = ''/api/v2'' @ q \<and> endpoint_at v2_router m q = Some e) \<or> p \<in> {''/'', ''/health''})"
proof -
  obtain r where r: "r \<in> set application_routes" "ro_method r = m" "path_matches (ro_path r) p" "ro_endpoint r = e"
    using endpoint_at_Some [OF assms] by blast
  have one: "\<exists>!r. r \<in> set application_routes \<and> ro_method r = m \<and> path_matches (ro_path r) p"
    using r application_unique by blast
  have no: "''api'' \<notin> set LEGACY_NAMES" "''health'' \<notin> set LEGACY_NAMES" "[] \<notin> set LEGACY_NAMES"
    by (simp_all add: LEGACY_NAMES_def)
  from r(1,3) show ?thesis
  proof (cases rule: application_route_cases)
    case (v1 r0 q rest)
    then have "endpoint_at v1_router m q = Some e"
      using endpoint_at_apart [OF v1_apart v1(1,4)] r(2,4) by simp
    moreover have "\<not> is_legacy_path p" using legacy_iff [of p "''api''"] v1(5) no(1) by simp
    ultimately show ?thesis using one v1(3) by auto
  next
    case (v2 r0 q rest)
    then have "endpoint_at v2_router m q = Some e"
      using endpoint_at_apart [OF v2_apart v2(1,4)] r(2,4) by simp
    moreover have "\<not> is_legacy_path p" using legacy_iff [of p "''api''"] v2(5) no(1) by simp
    ultimately show ?thesis using one v2(3) by auto
  next
    case (legacy y rest)
    have here: "endpoint_at v1_router m p = Some e"
      using endpoint_at_apart [OF v1_apart legacy(1) r(3)] r(2,4) by simp
    have "is_legacy_path p" using legacy_iff [OF legacy(2)] legacy(3) by simp
    moreover obtain p' where "p = CHR ''/'' # p'" using segments_start [OF legacy(2)] by blast
    then have "segments (SUCCESSOR_PREFIX @ p) = [] # ''api'' # ''v1'' # segments p'"
      using base_segments(1) [of p'] by (simp add: SUCCESSOR_PREFIX_def)
    then have "\<not> is_legacy_path (SUCCESSOR_PREFIX @ p)" using legacy_iff no(1) by blast
    moreover have "endpoint_at application_routes m (SUCCESSOR_PREFIX @ p) = Some e"
      using here by (simp add: application_routes_def endpoint_at_append SUCCESSOR_PREFIX_def
          endpoint_at_under [OF plain_bases(1) rooted_routers(1)])
    ultimately show ?thesis using one here by simp
  next
    case root
    then show ?thesis using one legacy_iff [of p "[]" "[]"] no(3) by simp
  next
    case health
    then show ?thesis using one legacy_iff [of p "''health''" "[]"] no(2) by simp
  qed
qed

theorem legacy_paths_have_successors_witness:
  "endpoint_at application_routes ''GET'' (SUCCESSOR_PREFIX @ ''/users/me'') = Some ''users.read_current_user''"
proof -
  have "endpoint_at application_routes ''GET'' ''/users/me'' = Some ''users.read_current_user''" by code_simp
  moreover have "is_legacy_path ''/users/me''" by code_simp
  ultimately show ?thesis using legacy_paths_have_successors by force
qed

end
