(* ===== verification/Rbac.thy ===== *)
theory Rbac
  imports UserProfile "HOL-Library.Sublist"
begin

text \<open>
  Roles and permissions: \<open>app/core/rbac.py\<close>. The two checkers that guard routes, and the
  seeding of the default roles and permissions on a database that may hold some of them
  already. (The migration that creates the tables has its own copy of the data.)
\<close>

definition DEFAULT_PERMISSIONS :: "(string \<times> string) list" where
  "DEFAULT_PERMISSIONS =
     [(''users:read'', ''View any user's account''), (''users:write'', ''Update any user's account''),
      (''users:delete'', ''Deactivate any user's account''), (''roles:manage'', ''Assign or revoke roles'')]"

definition DEFAULT_ROLES :: "(string \<times> string) list" where
  "DEFAULT_ROLES =
     [(''admin'', ''Full administrative access''),
      (''moderator'', ''Can view and moderate user accounts''),
      (''user'', ''Standard authenticated user'')]"

definition ROLE_PERMISSIONS :: "(string \<times> string list) list" where
  "ROLE_PERMISSIONS =
     [(''admin'', [''users:read'', ''users:write'', ''users:delete'', ''roles:manage'']),
      (''moderator'', [''users:read'', ''users:write'']),
      (''user'', [])]"

subsection \<open>The checkers\<close>

definition role_names :: "database \<Rightarrow> user \<Rightarrow> string set" where
  "role_names d u = set (map role_name (roles_of d (user_id u)))"

definition user_permissions :: "database \<Rightarrow> user \<Rightarrow> string set" where
  "user_permissions d u =
     set (concat (map (\<lambda>r. map permission_name (permissions_of d (role_id r)))
                   (roles_of d (user_id u))))"

definition role_checker :: "string list \<Rightarrow> database \<Rightarrow> user \<Rightarrow> failure + user" where
  "role_checker allowed_roles d u =
     (if list_ex (\<lambda>n. n \<in> role_names d u) allowed_roles then Inr u
      else Inl (HTTPException 403 ''You do not have the required role for this action'' []))"

definition permission_checker :: "string list \<Rightarrow> database \<Rightarrow> user \<Rightarrow> failure + user" where
  "permission_checker required_permissions d u =
     (if list_all (\<lambda>p. p \<in> user_permissions d u) required_permissions then Inr u
      else Inl (HTTPException 403 ''You do not have the required permission for this action'' []))"

text \<open>A route with \<open>Depends(require_permissions(...))\<close>: first the user, then the check.\<close>

definition require_permissions ::
  "'r env \<Rightarrow> time \<Rightarrow> string \<Rightarrow> string list \<Rightarrow>
     ('r app_state \<Rightarrow> ('a, 'r app_state) handled) \<Rightarrow> 'r app_state \<Rightarrow> ('a, 'r app_state) handled" where
  "require_permissions E now credentials required body s =
     authenticated E now credentials
       (\<lambda>u s. after_dependency (permission_checker required (st_db s) u, s) (\<lambda>_. body)) s"

subsection \<open>Seeding\<close>

definition insert_permission :: "database \<Rightarrow> string \<Rightarrow> string option \<Rightarrow> permission \<times> database" where
  "insert_permission d n descr =
     (let p = \<lparr>permission_id = seq_permissions d, permission_name = n, permission_description = descr\<rparr>
      in (p, d\<lparr>permissions := row_add (permissions d) p, seq_permissions := seq_permissions d + 1\<rparr>))"

definition insert_role :: "database \<Rightarrow> string \<Rightarrow> string option \<Rightarrow> role \<times> database" where
  "insert_role d n descr =
     (let r = \<lparr>role_id = seq_roles d, role_name = n, role_description = descr\<rparr>
      in (r, d\<lparr>roles := row_add (roles d) r, seq_roles := seq_roles d + 1\<rparr>))"

text \<open>The first loop, which also fills \<open>permissions_by_name\<close>.\<close>

fun seed_permissions ::
  "(string \<times> string) list \<Rightarrow> (string \<times> permission) list \<Rightarrow> database \<Rightarrow>
     (string \<times> permission) list \<times> database" where
  "seed_permissions [] by_name d = (by_name, d)"
| "seed_permissions ((n, descr) # rest) by_name d =
     (let (p, d1) = (case select_permission_by_name d n of
                       Some p \<Rightarrow> (p, d)
                     | None \<Rightarrow> insert_permission d n (Some descr))
      in seed_permissions rest ((n, p) # by_name) d1)"

text \<open>\<open>role.permissions.append(permissions_by_name[name])\<close>\<close>

fun grant_permissions ::
  "(string \<times> permission) list \<Rightarrow> int \<Rightarrow> string list \<Rightarrow> database \<Rightarrow> failure + database" where
  "grant_permissions by_name rid [] d = Inr d"
| "grant_permissions by_name rid (n # ns) d =
     (case map_of by_name n of
        None \<Rightarrow> Inl (Unhandled ''KeyError'')
      | Some p \<Rightarrow>
          grant_permissions by_name rid ns
            (d\<lparr>role_permissions := role_permissions d @ [(rid, permission_id p)]\<rparr>))"

text \<open>
  One round of the second loop. \<open>wanted - current\<close> is a set in the source; the order in which
  its elements are appended is not fixed, here it is the order of \<open>ROLE_PERMISSIONS\<close>.
\<close>

definition seed_role ::
  "(string \<times> permission) list \<Rightarrow> string \<times> string \<Rightarrow> database \<Rightarrow> failure + database" where
  "seed_role by_name nd d =
     (let (r, d1) = (case select_role_by_name d (fst nd) of
                       Some r \<Rightarrow> (r, d)
                     | None \<Rightarrow> insert_role d (fst nd) (Some (snd nd)));
          wanted = (case map_of ROLE_PERMISSIONS (fst nd) of None \<Rightarrow> [] | Some w \<Rightarrow> w);
          current = map permission_name (permissions_of d1 (role_id r))
      in grant_permissions by_name (role_id r) (filter (\<lambda>n. n \<notin> set current) wanted) d1)"

fun seed_roles ::
  "(string \<times> permission) list \<Rightarrow> (string \<times> string) list \<Rightarrow> database \<Rightarrow> failure + database" where
  "seed_roles by_name [] d = Inr d"
| "seed_roles by_name (nd # rest) d =
     (case seed_role by_name nd d of Inl e \<Rightarrow> Inl e | Inr d1 \<Rightarrow> seed_roles by_name rest d1)"

definition seed_rbac_defaults :: "database \<Rightarrow> failure + database" where
  "seed_rbac_defaults d =
     (let (by_name, d1) = seed_permissions DEFAULT_PERMISSIONS [] d
      in seed_roles by_name DEFAULT_ROLES d1)"

subsection \<open>What seeding does\<close>

definition perm_names :: "database \<Rightarrow> int \<Rightarrow> string set" where
  "perm_names d rid = permission_name ` set (permissions_of d rid)"

definition wanted_permissions :: "string \<Rightarrow> string list" where
  "wanted_permissions n = (case map_of ROLE_PERMISSIONS n of None \<Rightarrow> [] | Some w \<Rightarrow> w)"

lemma perm_names_iff:
  "n \<in> perm_names d rid \<longleftrightarrow>
     (\<exists>p \<in> set (permissions d). (rid, permission_id p) \<in> set (role_permissions d) \<and> permission_name p = n)"
  by (auto simp: perm_names_def permissions_of_def)

text \<open>Seeding only adds permissions, roles and grants; the other tables stay.\<close>

definition rbac_grows :: "database \<Rightarrow> database \<Rightarrow> bool" where
  "rbac_grows d d' \<longleftrightarrow>
     users d' = users d \<and> oauth_accounts d' = oauth_accounts d \<and> user_roles d' = user_roles d \<and>
     file_uploads d' = file_uploads d \<and> seq_users d' = seq_users d \<and>
     seq_oauth_accounts d' = seq_oauth_accounts d \<and> seq_file_uploads d' = seq_file_uploads d \<and>
     prefix (permissions d) (permissions d') \<and> prefix (roles d) (roles d') \<and>
     prefix (role_permissions d) (role_permissions d')"

lemma rbac_grows_refl [simp]: "rbac_grows d d"
  by (simp add: rbac_grows_def)

lemma rbac_grows_trans: "rbac_grows d d1 \<Longrightarrow> rbac_grows d1 d2 \<Longrightarrow> rbac_grows d d2"
  by (auto simp: rbac_grows_def intro: prefix_order.trans)

lemma rbac_grows_find:
  "rbac_grows d d' \<Longrightarrow> select_role_by_name d n = Some r \<Longrightarrow> select_role_by_name d' n = Some r"
  by (auto simp: rbac_grows_def select_role_by_name_def find_append elim!: prefixE)

lemma rbac_grows_perm_names: "rbac_grows d d' \<Longrightarrow> perm_names d rid \<subseteq> perm_names d' rid"
  by (fastforce simp: rbac_grows_def perm_names_iff elim!: prefixE)

lemma rbac_grows_inv: "rbac_grows d d' \<Longrightarrow> db_inv d \<Longrightarrow> rbac_wf d' \<Longrightarrow> db_inv d'"
  using sign_in_ok_mono [of d' d]
  by (simp add: rbac_grows_def db_inv_def db_wf_def users_wf_def oauth_wf_def files_wf_def)

lemma select_permission_SomeD:
  "select_permission_by_name d n = Some p \<Longrightarrow> p \<in> set (permissions d) \<and> permission_name p = n"
  by (auto simp: select_permission_by_name_def dest: find_Some_set)

lemma select_permission_None:
  "select_permission_by_name d n = None \<longleftrightarrow> n \<notin> permission_name ` set (permissions d)"
  by (auto simp: select_permission_by_name_def find_None_iff image_iff)

text \<open>The map from names to permissions that the first loop builds up.\<close>

definition names_known :: "(string \<times> permission) list \<Rightarrow> database \<Rightarrow> bool" where
  "names_known by_name d \<longleftrightarrow>
     (\<forall>n p. map_of by_name n = Some p \<longrightarrow> p \<in> set (permissions d) \<and> permission_name p = n)"

lemma insert_permission_facts:
  assumes "insert_permission d n descr = (p, d1)" and "select_permission_by_name d n = None"
    and "rbac_wf d"
  shows "rbac_grows d d1" "rbac_wf d1" "p \<in> set (permissions d1)" "permission_name p = n"
    "roles d1 = roles d" "role_permissions d1 = role_permissions d"
proof -
  have d1: "d1 = d\<lparr>permissions := permissions d @ [p], seq_permissions := seq_permissions d + 1\<rparr>"
    and p: "p = \<lparr>permission_id = seq_permissions d, permission_name = n, permission_description = descr\<rparr>"
    using assms(1) by (auto simp: insert_permission_def Let_def row_add_def)
  show "rbac_grows d d1" by (simp add: d1 rbac_grows_def)
  show "p \<in> set (permissions d1)" "permission_name p = n" "roles d1 = roles d"
    "role_permissions d1 = role_permissions d" by (simp_all add: d1 p)
  have "permission_id p \<notin> permission_id ` set (permissions d)"
    "\<forall>q \<in> set (permissions d). permission_id q < seq_permissions d + 1"
    using assms(3) by (auto simp: rbac_wf_def p)
  moreover have "permission_name p \<notin> permission_name ` set (permissions d)"
    using assms(2) by (simp add: p select_permission_None)
  ultimately show "rbac_wf d1"
    using assms(3) by (auto simp: rbac_wf_def d1) (simp_all add: p)
qed

lemma insert_role_facts:
  assumes "insert_role d n descr = (r, d1)" and "select_role_by_name d n = None" and "rbac_wf d"
  shows "rbac_grows d d1" "rbac_wf d1" "select_role_by_name d1 n = Some r"
    "permissions d1 = permissions d" "role_permissions d1 = role_permissions d"
proof -
  have d1: "d1 = d\<lparr>roles := roles d @ [r], seq_roles := seq_roles d + 1\<rparr>"
    and r: "r = \<lparr>role_id = seq_roles d, role_name = n, role_description = descr\<rparr>"
    using assms(1) by (auto simp: insert_role_def Let_def row_add_def)
  show "rbac_grows d d1" by (simp add: d1 rbac_grows_def)
  show "select_role_by_name d1 n = Some r"
    using assms(2) by (simp add: d1 r select_role_by_name_def find_append)
  show "permissions d1 = permissions d" "role_permissions d1 = role_permissions d"
    by (simp_all add: d1)
  have "role_id r \<notin> role_id ` set (roles d)" "\<forall>q \<in> set (roles d). role_id q < seq_roles d + 1"
    using assms(3) by (auto simp: rbac_wf_def r)
  moreover have "role_name r \<notin> role_name ` set (roles d)"
    using assms(2) by (simp add: r select_role_None)
  ultimately show "rbac_wf d1"
    using assms(3) by (auto simp: rbac_wf_def d1) (simp_all add: r)
qed

lemma seed_permissions_facts:
  assumes "seed_permissions nds by_name d = (by_name', d')" and "rbac_wf d" and "names_known by_name d"
  shows "rbac_grows d d' \<and> rbac_wf d' \<and> names_known by_name' d' \<and> roles d' = roles d \<and>
    role_permissions d' = role_permissions d \<and>
    fst ` set nds \<union> fst ` set by_name \<subseteq> fst ` set by_name'"
  using assms
proof (induction nds by_name d arbitrary: by_name' d' rule: seed_permissions.induct)
  case (1 by_name d)
  then show ?case by simp
next
  case (2 n descr rest by_name d)
  obtain p d1 where step: "(case select_permission_by_name d n of Some p \<Rightarrow> (p, d)
      | None \<Rightarrow> insert_permission d n (Some descr)) = (p, d1)" by fastforce
  have one: "rbac_grows d d1" "rbac_wf d1" "p \<in> set (permissions d1)" "permission_name p = n"
    "roles d1 = roles d" "role_permissions d1 = role_permissions d"
    using step 2(3) insert_permission_facts [of d n "Some descr" p d1]
    by (auto split: option.splits dest: select_permission_SomeD)
  have "names_known ((n, p) # by_name) d1"
    using 2(4) one(1,3,4) by (fastforce simp: names_known_def rbac_grows_def elim!: prefixE)
  moreover have "seed_permissions rest ((n, p) # by_name) d1 = (by_name', d')"
    using 2(2) step by (simp add: Let_def)
  ultimately show ?case
    using 2(1) [OF step [symmetric] refl _ one(2), of by_name' d'] one rbac_grows_trans [OF one(1), of d']
    by auto
qed

lemma grant_permissions_eq:
  assumes "\<forall>n \<in> set ns. \<exists>p. map_of by_name n = Some p"
  shows "grant_permissions by_name rid ns d = Inr (d\<lparr>role_permissions := role_permissions d @
    map (\<lambda>n. (rid, permission_id (the (map_of by_name n)))) ns\<rparr>)"
  using assms by (induction by_name rid ns d rule: grant_permissions.induct) auto

lemma permission_same_id:
  "rbac_wf d \<Longrightarrow> p \<in> set (permissions d) \<Longrightarrow> q \<in> set (permissions d) \<Longrightarrow>
     permission_id p = permission_id q \<Longrightarrow> p = q"
  by (auto simp: rbac_wf_def dest: distinct_map_eq)

text \<open>Granting, to an existing role, permissions it does not have yet.\<close>

lemma grant_permissions_facts:
  assumes wf: "rbac_wf d" and known: "names_known by_name d" and "set ns \<subseteq> fst ` set by_name"
    and new: "set ns \<inter> perm_names d rid = {}" and dist: "distinct ns" and "rid \<in> role_id ` set (roles d)"
  obtains d' where "grant_permissions by_name rid ns d = Inr d'" "rbac_grows d d'" "rbac_wf d'"
    "permissions d' = permissions d" "roles d' = roles d"
    "\<And>i. perm_names d' i = (if i = rid then perm_names d i \<union> set ns else perm_names d i)"
proof -
  define pid where "pid n = permission_id (the (map_of by_name n))" for n
  let ?d = "d\<lparr>role_permissions := role_permissions d @ map (\<lambda>n. (rid, pid n)) ns\<rparr>"
  have found: "\<exists>p. map_of by_name n = Some p" if "n \<in> set ns" for n
    using that assms(3) by (metis map_of_eq_None_iff not_None_eq subsetD)
  have perm: "\<exists>p \<in> set (permissions d). permission_name p = n \<and> permission_id p = pid n"
    if "n \<in> set ns" for n
    using found [OF that] known by (fastforce simp: names_known_def pid_def)
  have name: "permission_name p = n"
    if "n \<in> set ns" "p \<in> set (permissions d)" "permission_id p = pid n" for n p
    using perm [OF that(1)] permission_same_id [OF wf that(2)] that(3) by metis
  have eq: "grant_permissions by_name rid ns d = Inr ?d"
    using grant_permissions_eq [of ns by_name rid d] found by (simp add: pid_def)
  have names: "perm_names ?d i = (if i = rid then perm_names d i \<union> set ns else perm_names d i)" for i
  proof (rule set_eqI)
    fix m
    have "m \<in> perm_names ?d i \<longleftrightarrow> m \<in> perm_names d i \<or> (i = rid \<and> (\<exists>n \<in> set ns.
        \<exists>p \<in> set (permissions d). permission_id p = pid n \<and> permission_name p = m))"
      by (auto simp: perm_names_iff)
    moreover have "(\<exists>n \<in> set ns. \<exists>p \<in> set (permissions d). permission_id p = pid n \<and>
        permission_name p = m) \<longleftrightarrow> m \<in> set ns"
      using perm name by metis
    ultimately show "m \<in> perm_names ?d i \<longleftrightarrow>
        m \<in> (if i = rid then perm_names d i \<union> set ns else perm_names d i)" by auto
  qed
  have inj: "inj_on pid (set ns)"
    using perm name by (metis inj_onI)
  have fresh: "(rid, pid n) \<notin> set (role_permissions d)" if "n \<in> set ns" for n
  proof
    assume "(rid, pid n) \<in> set (role_permissions d)"
    with perm [OF that] have "n \<in> perm_names d rid" unfolding perm_names_iff by metis
    with new that show False by auto
  qed
  have "distinct (map (\<lambda>n. (rid, pid n)) ns)"
    using dist inj by (simp add: distinct_map inj_on_def)
  moreover have "set (map (\<lambda>n. (rid, pid n)) ns) \<inter> set (role_permissions d) = {}"
    using fresh by auto
  moreover have "\<forall>n \<in> set ns. pid n \<in> permission_id ` set (permissions d)"
    using perm by (metis imageI)
  ultimately have "rbac_wf ?d"
    using wf assms(6) by (auto simp: rbac_wf_def)
  moreover have "rbac_grows d ?d" by (simp add: rbac_grows_def)
  ultimately show ?thesis using that [OF eq] names by simp
qed

lemma seed_role_facts:
  assumes wf: "rbac_wf d" and known: "names_known by_name d"
    and "set (wanted_permissions (fst nd)) \<subseteq> fst ` set by_name"
    and "distinct (wanted_permissions (fst nd))"
  obtains d' r where "seed_role by_name nd d = Inr d'" "rbac_grows d d'" "rbac_wf d'"
    "permissions d' = permissions d" "select_role_by_name d' (fst nd) = Some r"
    "\<And>i. perm_names d' i = (if i = role_id r then perm_names d i \<union> set (wanted_permissions (fst nd))
                             else perm_names d i)"
proof -
  obtain r d1 where step: "(case select_role_by_name d (fst nd) of Some r \<Rightarrow> (r, d)
      | None \<Rightarrow> insert_role d (fst nd) (Some (snd nd))) = (r, d1)" by fastforce
  have one: "rbac_grows d d1" "rbac_wf d1" "select_role_by_name d1 (fst nd) = Some r"
    "permissions d1 = permissions d" "role_permissions d1 = role_permissions d"
    using step wf insert_role_facts [of d "fst nd" "Some (snd nd)" r d1]
    by (auto split: option.splits)
  have same: "perm_names d1 i = perm_names d i" for i
    using one(4,5) by (simp add: perm_names_def permissions_of_def)
  let ?ns = "filter (\<lambda>n. n \<notin> perm_names d1 (role_id r)) (wanted_permissions (fst nd))"
  have facts: "names_known by_name d1" "set ?ns \<subseteq> fst ` set by_name"
    "set ?ns \<inter> perm_names d1 (role_id r) = {}" "distinct ?ns" "role_id r \<in> role_id ` set (roles d1)"
    using known one(4) assms(3,4) select_role_SomeD [OF one(3)] by (auto simp: names_known_def)
  obtain d' where d': "grant_permissions by_name (role_id r) ?ns d1 = Inr d'"
      "rbac_grows d1 d'" "rbac_wf d'" "permissions d' = permissions d1" "roles d' = roles d1"
      "\<And>i. perm_names d' i = (if i = role_id r then perm_names d1 i \<union> set ?ns else perm_names d1 i)"
    by (rule grant_permissions_facts [OF one(2) facts]) (rule that; assumption)
  have eq: "seed_role by_name nd d = Inr d'"
    using step d'(1) by (simp add: seed_role_def wanted_permissions_def perm_names_def Let_def)
  have sel: "select_role_by_name d' (fst nd) = Some r"
    using one(3) d'(5) by (simp add: select_role_by_name_def)
  have "perm_names d' i = (if i = role_id r then perm_names d i \<union> set (wanted_permissions (fst nd))
      else perm_names d i)" for i
    using d'(6) [of i] same by auto
  with that [OF eq rbac_grows_trans [OF one(1) d'(2)] d'(3) _ sel] d'(4) one(4) show ?thesis
    by simp
qed

lemma seed_roles_facts:
  assumes "rbac_wf d" and "names_known by_name d"
    and "\<forall>nd \<in> set nds. set (wanted_permissions (fst nd)) \<subseteq> fst ` set by_name \<and>
      distinct (wanted_permissions (fst nd))"
  shows "\<exists>d'. seed_roles by_name nds d = Inr d' \<and> rbac_grows d d' \<and> rbac_wf d' \<and>
    permissions d' = permissions d \<and>
    (\<forall>nd \<in> set nds. select_role_by_name d' (fst nd) \<noteq> None) \<and>
    (\<forall>r \<in> set (roles d'). perm_names d' (role_id r) = perm_names d (role_id r) \<union>
       (if role_name r \<in> fst ` set nds then set (wanted_permissions (role_name r)) else {}))"
  using assms
proof (induction by_name nds d rule: seed_roles.induct)
  case (1 by_name d)
  then show ?case by simp
next
  case (2 by_name nd rest d)
  obtain d1 r where one: "seed_role by_name nd d = Inr d1" "rbac_grows d d1" "rbac_wf d1"
    "permissions d1 = permissions d" "select_role_by_name d1 (fst nd) = Some r"
    and names1: "\<And>i. perm_names d1 i = (if i = role_id r
      then perm_names d i \<union> set (wanted_permissions (fst nd)) else perm_names d i)"
    using seed_role_facts [OF 2(2,3), of nd] 2(4) by auto
  have "names_known by_name d1" using 2(3) one(4) by (simp add: names_known_def)
  then obtain d' where d': "seed_roles by_name rest d1 = Inr d'" "rbac_grows d1 d'" "rbac_wf d'"
    "permissions d' = permissions d1" "\<forall>nd \<in> set rest. select_role_by_name d' (fst nd) \<noteq> None"
    and names2: "\<And>q. q \<in> set (roles d') \<Longrightarrow> perm_names d' (role_id q) = perm_names d1 (role_id q) \<union>
       (if role_name q \<in> fst ` set rest then set (wanted_permissions (role_name q)) else {})"
    using 2(1) [OF one(1,3)] 2(4) by auto
  have sel: "select_role_by_name d' (fst nd) = Some r" by (rule rbac_grows_find [OF d'(2) one(5)])
  have "perm_names d' (role_id q) = perm_names d (role_id q) \<union>
      (if role_name q \<in> fst ` set (nd # rest) then set (wanted_permissions (role_name q)) else {})"
    if q: "q \<in> set (roles d')" for q
  proof -
    have "role_id q = role_id r \<longleftrightarrow> role_name q = fst nd"
      using role_same_id [OF d'(3) q] select_role_SomeD [OF sel] select_role_in [OF d'(3) q] sel
      by auto
    then show ?thesis using names2 [OF q] names1 [of "role_id q"] by auto
  qed
  then show ?case
    using one(1) d' sel rbac_grows_trans [OF one(2) d'(2)] one(4) by auto
qed

text \<open>On a database that has all of the defaults, seeding does nothing.\<close>

definition seeded :: "database \<Rightarrow> bool" where
  "seeded d \<longleftrightarrow> (\<forall>nd \<in> set DEFAULT_PERMISSIONS. select_permission_by_name d (fst nd) \<noteq> None) \<and>
     (\<forall>nd \<in> set DEFAULT_ROLES. \<exists>r. select_role_by_name d (fst nd) = Some r \<and>
        set (wanted_permissions (fst nd)) \<subseteq> perm_names d (role_id r))"

lemma seed_permissions_nothing:
  "\<forall>nd \<in> set nds. select_permission_by_name d (fst nd) \<noteq> None \<Longrightarrow>
     snd (seed_permissions nds by_name d) = d"
  by (induction nds by_name d rule: seed_permissions.induct) (auto split: option.splits)

lemma seed_roles_nothing:
  "\<forall>nd \<in> set nds. \<exists>r. select_role_by_name d (fst nd) = Some r \<and>
     set (wanted_permissions (fst nd)) \<subseteq> perm_names d (role_id r) \<Longrightarrow>
   seed_roles by_name nds d = Inr d"
proof (induction by_name nds d rule: seed_roles.induct)
  case (1 by_name d)
  then show ?case by simp
next
  case (2 by_name nd rest d)
  then obtain r where r: "select_role_by_name d (fst nd) = Some r"
    "set (wanted_permissions (fst nd)) \<subseteq> perm_names d (role_id r)" by auto
  then have "filter (\<lambda>n. n \<notin> perm_names d (role_id r)) (wanted_permissions (fst nd)) = []"
    by (auto simp: filter_empty_conv)
  then have "seed_role by_name nd d = Inr d"
    using r(1) by (simp add: seed_role_def wanted_permissions_def perm_names_def Let_def)
  with 2 show ?case by simp
qed

lemma seeded_nothing: "seeded d \<Longrightarrow> seed_rbac_defaults d = Inr d"
  using seed_permissions_nothing [of DEFAULT_PERMISSIONS d "[]"]
    seed_roles_nothing [of DEFAULT_ROLES d]
  by (auto simp: seed_rbac_defaults_def seeded_def split: prod.split)

lemma default_names_distinct [simp]: "distinct (wanted_permissions n)"
  by (simp add: wanted_permissions_def ROLE_PERMISSIONS_def)

lemma default_names_known: "set (wanted_permissions n) \<subseteq> fst ` set DEFAULT_PERMISSIONS"
  by (auto simp: wanted_permissions_def ROLE_PERMISSIONS_def DEFAULT_PERMISSIONS_def split: if_splits)

lemma seed_rbac_facts:
  assumes "rbac_wf d"
  obtains d' where "seed_rbac_defaults d = Inr d'" "rbac_grows d d'" "rbac_wf d'" "seeded d'"
    "\<And>r. r \<in> set (roles d') \<Longrightarrow> perm_names d' (role_id r) = perm_names d (role_id r) \<union>
       (if role_name r \<in> fst ` set DEFAULT_ROLES then set (wanted_permissions (role_name r)) else {})"
proof -
  obtain by_name d1 where p: "seed_permissions DEFAULT_PERMISSIONS [] d = (by_name, d1)" by fastforce
  have one: "rbac_grows d d1" "rbac_wf d1" "names_known by_name d1" "roles d1 = roles d"
    "role_permissions d1 = role_permissions d" "fst ` set DEFAULT_PERMISSIONS \<subseteq> fst ` set by_name"
    using seed_permissions_facts [OF p assms] by (simp_all add: names_known_def)
  have "\<forall>nd \<in> set DEFAULT_ROLES. set (wanted_permissions (fst nd)) \<subseteq> fst ` set by_name \<and>
      distinct (wanted_permissions (fst nd))"
    using default_names_known one(6) by fastforce
  from seed_roles_facts [OF one(2,3) this] obtain d' where d': "seed_roles by_name DEFAULT_ROLES d1 = Inr d'"
    "rbac_grows d1 d'" "rbac_wf d'" "permissions d' = permissions d1"
    and sel: "\<And>nd. nd \<in> set DEFAULT_ROLES \<Longrightarrow> select_role_by_name d' (fst nd) \<noteq> None"
    and names: "\<And>r. r \<in> set (roles d') \<Longrightarrow> perm_names d' (role_id r) = perm_names d1 (role_id r) \<union>
       (if role_name r \<in> fst ` set DEFAULT_ROLES then set (wanted_permissions (role_name r)) else {})"
    by blast
  have perms: "prefix (permissions d) (permissions d1)" using one(1) by (simp add: rbac_grows_def)
  have eq: "seed_rbac_defaults d = Inr d'" using p d'(1) by (simp add: seed_rbac_defaults_def)
  have same: "perm_names d1 i = perm_names d i" for i
  proof -
    have "(i, permission_id q) \<notin> set (role_permissions d)"
      if "q \<in> set (permissions d1)" "q \<notin> set (permissions d)" for q
    proof
      assume "(i, permission_id q) \<in> set (role_permissions d)"
      then have "permission_id q \<in> permission_id ` set (permissions d)"
        using assms by (auto simp: rbac_wf_def)
      then obtain q' where "q' \<in> set (permissions d)" "permission_id q' = permission_id q" by auto
      moreover from this have "q' \<in> set (permissions d1)" using perms by (auto elim!: prefixE)
      ultimately show False using permission_same_id [OF one(2) that(1), of q'] that(2) by metis
    qed
    moreover have "set (permissions d) \<subseteq> set (permissions d1)" using perms by (auto elim!: prefixE)
    ultimately show ?thesis
      by (intro set_eqI iffI; unfold perm_names_iff one(5); blast)
  qed
  have "seeded d'"
    unfolding seeded_def
  proof (intro conjI ballI)
    fix nd assume nd: "nd \<in> set DEFAULT_PERMISSIONS"
    then obtain q where "map_of by_name (fst nd) = Some q"
      using one(6) by (metis imageI map_of_eq_None_iff not_None_eq subsetD)
    then have "q \<in> set (permissions d')" "permission_name q = fst nd"
      using one(3) d'(4) by (auto simp: names_known_def)
    then show "select_permission_by_name d' (fst nd) \<noteq> None"
      by (metis imageI select_permission_None)
  next
    fix nd assume nd: "nd \<in> set DEFAULT_ROLES"
    then obtain r where r: "select_role_by_name d' (fst nd) = Some r" using sel by blast
    with names [of r] select_role_SomeD [OF r] nd
    show "\<exists>r. select_role_by_name d' (fst nd) = Some r \<and>
        set (wanted_permissions (fst nd)) \<subseteq> perm_names d' (role_id r)" by auto
  qed
  with that [OF eq rbac_grows_trans [OF one(1) d'(2)] d'(3)] names same show ?thesis by simp
qed

subsection \<open>Properties\<close>

text \<open>Seeding the defaults succeeds on every well-formed database, whatever roles and
  permissions it already holds, and running it again changes nothing. It leaves users, links,
  files and role assignments alone, removes nothing, and afterwards every default role exists
  and holds its default permissions besides those it had, while a role of any other name
  holds exactly what it held.\<close>

theorem seeding_is_idempotent:
  assumes "db_inv d"
  shows "\<exists>d'. seed_rbac_defaults d = Inr d' \<and> seed_rbac_defaults d' = Inr d' \<and> db_inv d' \<and>
    users d' = users d \<and> user_roles d' = user_roles d \<and> oauth_accounts d' = oauth_accounts d \<and>
    set (roles d) \<subseteq> set (roles d') \<and> fst ` set DEFAULT_ROLES \<subseteq> role_name ` set (roles d') \<and>
    (\<forall>r \<in> set (roles d').
       set (map permission_name (permissions_of d' (role_id r))) =
         set (map permission_name (permissions_of d (role_id r))) \<union>
         (case map_of ROLE_PERMISSIONS (role_name r) of None \<Rightarrow> {} | Some w \<Rightarrow> set w))"
proof -
  obtain d' where d': "seed_rbac_defaults d = Inr d'" "rbac_grows d d'" "rbac_wf d'" "seeded d'"
    and names: "\<And>r. r \<in> set (roles d') \<Longrightarrow> perm_names d' (role_id r) = perm_names d (role_id r) \<union>
       (if role_name r \<in> fst ` set DEFAULT_ROLES then set (wanted_permissions (role_name r)) else {})"
    using seed_rbac_facts [of d] assms by (auto simp: db_inv_def db_wf_def)
  have w: "(if n \<in> fst ` set DEFAULT_ROLES then set (wanted_permissions n) else {}) =
      (case map_of ROLE_PERMISSIONS n of None \<Rightarrow> {} | Some w \<Rightarrow> set w)" for n
    by (auto simp: wanted_permissions_def DEFAULT_ROLES_def ROLE_PERMISSIONS_def)
  have "fst ` set DEFAULT_ROLES \<subseteq> role_name ` set (roles d')"
  proof
    fix n assume "n \<in> fst ` set DEFAULT_ROLES"
    then obtain nd where "nd \<in> set DEFAULT_ROLES" "n = fst nd" by blast
    then obtain r where "select_role_by_name d' n = Some r"
      using d'(4) unfolding seeded_def by blast
    then show "n \<in> role_name ` set (roles d')" using select_role_SomeD by (metis imageI)
  qed
  moreover have "users d' = users d" "user_roles d' = user_roles d" "oauth_accounts d' = oauth_accounts d"
    "set (roles d) \<subseteq> set (roles d')"
    using d'(2) by (simp_all add: rbac_grows_def set_mono_prefix)
  moreover have "\<forall>r \<in> set (roles d'). set (map permission_name (permissions_of d' (role_id r))) =
      set (map permission_name (permissions_of d (role_id r))) \<union>
      (case map_of ROLE_PERMISSIONS (role_name r) of None \<Rightarrow> {} | Some w \<Rightarrow> set w)"
    using names by (simp only: w perm_names_def set_map) simp
  ultimately show ?thesis
    using d'(1) seeded_nothing [OF d'(4)] rbac_grows_inv [OF d'(2) assms d'(3)]
    by (intro exI [of _ d'] conjI)
qed

theorem seeding_is_idempotent_witness:
  "\<exists>d'. seed_rbac_defaults empty_database = Inr d' \<and> ''admin'' \<in> role_name ` set (roles d')"
  using seeding_is_idempotent [OF db_inv_empty] by (auto simp: DEFAULT_ROLES_def)

lemma permission_checker_Inr:
  "permission_checker ps d u = Inr v \<longleftrightarrow> v = u \<and> set ps \<subseteq> user_permissions d u"
  by (auto simp: permission_checker_def list_all_iff)

lemma permission_checker_not_unhandled [simp]: "\<not> is_unhandled (permission_checker ps d u)"
  by (simp add: permission_checker_def)

lemma require_permissions_safe [safety]:
  assumes "db_inv (st_db s)" and "safe_result (body s)"
  shows "safe_result (require_permissions E now tok ps body s)"
  unfolding require_permissions_def
proof (rule authenticated_safe [OF assms(1)])
  fix u
  show "safe_result (after_dependency (permission_checker ps (st_db s) u, s) (\<lambda>_. body))"
    using assms permission_checker_not_unhandled [of ps "st_db s" u]
    by (cases "permission_checker ps (st_db s) u") (simp_all add: safe_result_def)
qed

text \<open>A guarded route runs its body for a permitted caller and changes nothing otherwise.\<close>

lemma require_permissions_cases:
  obtains (permitted) u where "get_current_user E now tok s = Inr u" "user_is_active u"
      "set ps \<subseteq> user_permissions (st_db s) u" "require_permissions E now tok ps body s = body s"
  | (refused) err where "require_permissions E now tok ps body s = (Inl err, s)"
      "failure_status err \<in> {401, 403}"
proof (cases "get_current_user E now tok s")
  case (Inl err)
  then have "failure_status err \<in> {401, 403}"
    by (auto simp: get_current_user_def split: option.splits if_splits)
  with Inl show ?thesis by (intro refused) (simp_all add: require_permissions_def authenticated_def)
next
  case (Inr u)
  show ?thesis
  proof (cases "set ps \<subseteq> user_permissions (st_db s) u")
    case True
    then have "permission_checker ps (st_db s) u = Inr u" by (simp add: permission_checker_Inr)
    moreover have "user_is_active u" using Inr by (auto simp: get_current_user_Inr)
    ultimately show ?thesis
      using Inr by (intro permitted [OF Inr _ True])
        (simp_all add: require_permissions_def authenticated_def)
  next
    case False
    then have "permission_checker ps (st_db s) u =
        Inl (HTTPException 403 ''You do not have the required permission for this action'' [])"
      by (auto simp: permission_checker_def list_all_iff)
    with Inr have "require_permissions E now tok ps body s = (Inl (HTTPException 403
        ''You do not have the required permission for this action'' []), s)"
      by (simp add: require_permissions_def authenticated_def)
    from refused [OF this] show ?thesis by simp
  qed
qed

end
