(* ===== verification/Base64.thy ===== *)
theory Base64
  imports PyText
begin

text \<open>
  The part of Python's \<open>base64\<close> that the cursors use: the URL-safe encoder, and the decoder in
  its default, lenient mode, written as CPython's state machine. The decoder skips every
  character outside the alphabet, accepts both alphabets, stops at a complete group of
  padding, and fails (\<open>None\<close>, a \<open>binascii.Error\<close>) when the input ends inside a group.
\<close>

definition b64_char :: "nat \<Rightarrow> char" where
  "b64_char n =
     (if n < 26 then char_of (65 + n) else if n < 52 then char_of (97 + (n - 26))
      else if n < 62 then char_of (48 + (n - 52)) else if n = 62 then CHR ''-'' else CHR ''_'')"

definition b64_value :: "char \<Rightarrow> nat option" where
  "b64_value c =
     (let n = code c in
      if 65 \<le> n \<and> n \<le> 90 then Some (n - 65)
      else if 97 \<le> n \<and> n \<le> 122 then Some (n - 97 + 26)
      else if 48 \<le> n \<and> n \<le> 57 then Some (n - 48 + 52)
      else if c = CHR ''-'' \<or> c = CHR ''+'' then Some 62
      else if c = CHR ''_'' \<or> c = CHR ''/'' then Some 63 else None)"

fun urlsafe_b64encode :: "string \<Rightarrow> string" where
  "urlsafe_b64encode (a # b # c # rest) =
     b64_char (code a div 4) # b64_char (code a mod 4 * 16 + code b div 16) #
     b64_char (code b mod 16 * 4 + code c div 64) # b64_char (code c mod 64) #
     urlsafe_b64encode rest"
| "urlsafe_b64encode [a, b] =
     [b64_char (code a div 4), b64_char (code a mod 4 * 16 + code b div 16),
      b64_char (code b mod 16 * 4), CHR ''='']"
| "urlsafe_b64encode [a] =
     [b64_char (code a div 4), b64_char (code a mod 4 * 16), CHR ''='', CHR ''='']"
| "urlsafe_b64encode [] = []"

text \<open>Position in the group, the bits left over, and the padding characters seen so far.\<close>

fun b64_decode_from :: "string \<Rightarrow> nat \<Rightarrow> nat \<Rightarrow> nat \<Rightarrow> string option" where
  "b64_decode_from [] quad left pads = (if quad = 0 then Some [] else None)"
| "b64_decode_from (c # cs) quad left pads =
     (if c = CHR ''='' then
        (if 2 \<le> quad \<and> 4 \<le> quad + (pads + 1) then Some []
         else b64_decode_from cs quad left (if 2 \<le> quad then pads + 1 else pads))
      else (case b64_value c of
              None \<Rightarrow> b64_decode_from cs quad left pads
            | Some v \<Rightarrow>
                if quad = 0 then b64_decode_from cs 1 v 0
                else if quad = 1
                then map_option ((#) (char_of (left * 4 + v div 16))) (b64_decode_from cs 2 (v mod 16) 0)
                else if quad = 2
                then map_option ((#) (char_of (left * 16 + v div 4))) (b64_decode_from cs 3 (v mod 4) 0)
                else map_option ((#) (char_of (left * 64 + v))) (b64_decode_from cs 0 0 0)))"

definition urlsafe_b64decode :: "string \<Rightarrow> string option" where
  "urlsafe_b64decode s = b64_decode_from s 0 0 0"

subsection \<open>Round trip\<close>

lemma b64_char_range:
  assumes "n < 64"
  shows "b64_value (b64_char n) = Some n" and "b64_char n \<noteq> CHR ''=''"
proof -
  consider "n < 26" | "26 \<le> n" "n < 52" | "52 \<le> n" "n < 62" | "n = 62" | "n = 63"
    using assms by linarith
  then have "b64_value (b64_char n) = Some n \<and> code (b64_char n) \<noteq> 61"
  proof cases
    case 1
    then show ?thesis by (simp add: b64_char_def b64_value_def code_char_of Let_def)
  next
    case 2
    then show ?thesis by (simp add: b64_char_def b64_value_def code_char_of Let_def)
  next
    case 3
    then show ?thesis by (auto simp: b64_char_def b64_value_def code_char_of Let_def)
  next
    case 4
    then show ?thesis by (simp add: b64_char_def b64_value_def code_def)
  next
    case 5
    then show ?thesis by (simp add: b64_char_def b64_value_def code_def)
  qed
  then show "b64_value (b64_char n) = Some n" "b64_char n \<noteq> CHR ''=''"
    by (auto simp: code_def)
qed

lemma b64_step:
  "n < 64 \<Longrightarrow> b64_decode_from (b64_char n # cs) 0 l p = b64_decode_from cs 1 n 0"
  "n < 64 \<Longrightarrow> b64_decode_from (b64_char n # cs) 1 l p =
     map_option ((#) (char_of (l * 4 + n div 16))) (b64_decode_from cs 2 (n mod 16) 0)"
  "n < 64 \<Longrightarrow> b64_decode_from (b64_char n # cs) 2 l p =
     map_option ((#) (char_of (l * 16 + n div 4))) (b64_decode_from cs 3 (n mod 4) 0)"
  "n < 64 \<Longrightarrow> b64_decode_from (b64_char n # cs) 3 l p =
     map_option ((#) (char_of (l * 64 + n))) (b64_decode_from cs 0 0 0)"
  using b64_char_range [of n] by simp_all

text \<open>The bits of a group of bytes, cut into sextets and put together again.\<close>

lemma sextets:
  fixes a b c :: nat
  assumes "a < 256" and "b < 256" and "c < 256"
  shows "a div 4 < 64" "a mod 4 * 16 + b div 16 < 64" "b mod 16 * 4 + c div 64 < 64" "c mod 64 < 64"
    "a mod 4 * 16 < 64" "b mod 16 * 4 < 64"
    "a div 4 * 4 + (a mod 4 * 16 + b div 16) div 16 = a" "a div 4 * 4 + (a mod 4 * 16) div 16 = a"
    "(a mod 4 * 16 + b div 16) mod 16 * 16 + (b mod 16 * 4 + c div 64) div 4 = b"
    "(a mod 4 * 16 + b div 16) mod 16 * 16 + (b mod 16 * 4) div 4 = b"
    "(b mod 16 * 4 + c div 64) mod 4 * 64 + c mod 64 = c"
proof -
  have b: "b div 16 < 16" "b mod 16 < 16" using assms by auto
  have c: "c div 64 < 4" "c mod 64 < 64" using assms by auto
  have a: "a mod 4 < 4" by simp
  show "a div 4 < 64" "c mod 64 < 64" using assms by auto
  show "a mod 4 * 16 + b div 16 < 64" "b mod 16 * 4 + c div 64 < 64" "a mod 4 * 16 < 64"
    "b mod 16 * 4 < 64" using a b c by linarith+
  have "(a mod 4 * 16 + b div 16) div 16 = a mod 4" "(a mod 4 * 16 + b div 16) mod 16 = b div 16"
    using b by simp_all
  moreover have "(b mod 16 * 4 + c div 64) div 4 = b mod 16" "(b mod 16 * 4 + c div 64) mod 4 = c div 64"
    using c by simp_all
  ultimately show "a div 4 * 4 + (a mod 4 * 16 + b div 16) div 16 = a"
    "a div 4 * 4 + (a mod 4 * 16) div 16 = a"
    "(a mod 4 * 16 + b div 16) mod 16 * 16 + (b mod 16 * 4 + c div 64) div 4 = b"
    "(a mod 4 * 16 + b div 16) mod 16 * 16 + (b mod 16 * 4) div 4 = b"
    "(b mod 16 * 4 + c div 64) mod 4 * 64 + c mod 64 = c"
    by simp_all
qed

lemma code_of_char [simp]: "char_of (code c) = c"
  by (simp add: code_def)

lemma b64_round_trip: "urlsafe_b64decode (urlsafe_b64encode s) = Some s"
  unfolding urlsafe_b64decode_def
proof (induction s rule: urlsafe_b64encode.induct)
  case (1 a b c rest)
  note sx = sextets [OF code_less_256 [of a] code_less_256 [of b] code_less_256 [of c]]
  show ?case
    by (simp only: urlsafe_b64encode.simps b64_step sx 1 option.map code_of_char)
next
  case (2 a b)
  note sx = sextets [OF code_less_256 [of a] code_less_256 [of b] code_less_256 [of b]]
  show ?case
    by (simp only: urlsafe_b64encode.simps b64_step sx option.map code_of_char) (simp add: sx)
next
  case (3 a)
  note sx = sextets [OF code_less_256 [of a] code_less_256 [of a] code_less_256 [of a]]
  show ?case
    by (simp only: urlsafe_b64encode.simps b64_step sx option.map code_of_char) (simp add: sx)
next
  case 4
  show ?case by simp
qed

end
