(* ===== verification/Pagination.thy ===== *)
theory Pagination
  imports Base64 "HOL-Library.Multiset"
begin

text \<open>
  Pages of query results: \<open>app/services/pagination.py\<close>. A statement is the list of rows it
  selects. What the SQL engine decides is a parameter, the record \<open>sql_ops\<close>: the \<open>ILIKE\<close>
  comparison and the order of \<open>ORDER BY\<close> on a column (collations and ties differ between
  engines). The locale \<open>sql_engine\<close> states that ordering permutes the rows and that the order
  on the integer primary key is the numeric one. UTF-8 payloads of a cursor are modelled for
  code points below 128; others are refused here.
\<close>

record 'a sql_ops =
  q_ilike :: "string \<Rightarrow> string \<Rightarrow> bool"
  q_order :: "string \<Rightarrow> bool \<Rightarrow> 'a list \<Rightarrow> 'a list"

locale sql_engine =
  fixes Q :: "'a sql_ops" and pk :: "'a \<Rightarrow> int"
  assumes order_mset: "mset (q_order Q field descending rows) = mset rows"
    and order_id: "sorted (map pk (q_order Q ''id'' False rows))"
    and order_id_desc: "sorted (map pk (rev (q_order Q ''id'' True rows)))"
begin

lemma set_order [simp]: "set (q_order Q field descending rows) = set rows"
  using order_mset by (metis set_mset_mset)

lemma length_order [simp]: "length (q_order Q field descending rows) = length rows"
  using order_mset by (metis size_mset)

text \<open>With unique keys the numeric order leaves the engine no choice.\<close>

lemma order_id_unique:
  assumes "distinct (map pk rows)"
  shows "q_order Q ''id'' False rows = sort_key pk rows"
proof (rule map_sorted_distinct_set_unique)
  have "mset (map pk (q_order Q ''id'' False rows)) = mset (map pk rows)" by (simp add: order_mset)
  then show "distinct (map pk (q_order Q ''id'' False rows))"
    using assms mset_eq_imp_distinct_iff by blast
  show "inj_on pk (set (q_order Q ''id'' False rows) \<union> set (sort_key pk rows))"
    using assms by (simp add: distinct_map)
  show "distinct (map pk (sort_key pk rows))"
    using assms by (simp add: distinct_map)
qed (simp_all add: order_id)

end

definition ref_sql :: "('a \<Rightarrow> int) \<Rightarrow> 'a sql_ops" where
  "ref_sql pk =
     \<lparr>q_ilike = (\<lambda>v pattern. lower v = lower pattern),
      q_order = (\<lambda>field descending rows.
        if field \<noteq> ''id'' then rows
        else if descending then rev (sort_key pk rows) else sort_key pk rows)\<rparr>"

interpretation ref_sql: sql_engine "ref_sql pk" pk for pk
  by unfold_locales (simp_all add: ref_sql_def)

subsection \<open>Offset pages\<close>

record offset_params =
  op_limit :: nat
  op_offset :: nat
  op_sort :: "string option"
  op_desc :: bool
  op_q :: "string option"

definition get_offset_pagination ::
  "int \<Rightarrow> int \<Rightarrow> string option \<Rightarrow> string \<Rightarrow> string option \<Rightarrow> failure + offset_params" where
  "get_offset_pagination limit offset sort_field order_dir q =
     (if limit < 1 \<or> 100 < limit then Inl (RequestValidationError ''limit'')
      else if offset < 0 then Inl (RequestValidationError ''offset'')
      else if order_dir \<noteq> ''asc'' \<and> order_dir \<noteq> ''desc'' then Inl (RequestValidationError ''order'')
      else Inr \<lparr>op_limit = nat limit, op_offset = nat offset, op_sort = sort_field,
                op_desc = (order_dir = ''desc''), op_q = q\<rparr>)"

definition apply_sort :: "'a sql_ops \<Rightarrow> string list \<Rightarrow> offset_params \<Rightarrow> 'a list \<Rightarrow> 'a list" where
  "apply_sort Q allowed_fields params rows =
     (let field_name = (case op_sort params of
                          None \<Rightarrow> ''id'' | Some f \<Rightarrow> if f \<in> set allowed_fields then f else ''id'')
      in q_order Q field_name (op_desc params) rows)"

text \<open>A search field is the function that reads its column.\<close>

definition apply_search ::
  "'a sql_ops \<Rightarrow> offset_params \<Rightarrow> ('a \<Rightarrow> string) list \<Rightarrow> 'a list \<Rightarrow> 'a list" where
  "apply_search Q params search_fields rows =
     (case op_q params of
        None \<Rightarrow> rows
      | Some q \<Rightarrow>
          (if q = [] \<or> search_fields = [] then rows
           else filter (\<lambda>r. list_ex (\<lambda>f. q_ilike Q (f r) (''%'' @ q @ ''%'')) search_fields) rows))"

record 'a page =
  pg_items :: "'a list"
  pg_total :: nat
  pg_limit :: nat
  pg_offset :: nat
  pg_has_more :: bool

text \<open>PostgreSQL reads an offset as a 64-bit number and refuses a larger one; the query parameter has no
  upper bound.\<close>

definition OFFSET_END :: int where "OFFSET_END = 2 ^ 63"

definition paginate_offset :: "'a list \<Rightarrow> offset_params \<Rightarrow> failure + 'a page" where
  "paginate_offset statement params =
     (let total = length statement;
          items = take (op_limit params) (drop (op_offset params) statement)
      in if OFFSET_END \<le> int (op_offset params) then Inl (Unhandled ''DataError'')
         else Inr \<lparr>pg_items = items, pg_total = total, pg_limit = op_limit params,
          pg_offset = op_offset params, pg_has_more = op_offset params + length items < total\<rparr>)"

subsection \<open>Cursor pages\<close>

definition encode_cursor :: "int \<Rightarrow> string" where
  "encode_cursor v = urlsafe_b64encode (py_str v)"

definition invalid_cursor :: string where "invalid_cursor = ''Invalid cursor''"

definition decode_cursor :: "string \<Rightarrow> string + int" where
  "decode_cursor cursor =
     (case urlsafe_b64decode cursor of
        None \<Rightarrow> Inl invalid_cursor
      | Some payload \<Rightarrow>
          (if list_ex (\<lambda>c. 128 \<le> code c) payload then Inl invalid_cursor
           else (case py_int payload of None \<Rightarrow> Inl invalid_cursor | Some n \<Rightarrow> Inr n)))"

record cursor_params =
  cp_cursor :: "string option"
  cp_limit :: nat
  cp_q :: "string option"

definition get_cursor_pagination ::
  "string option \<Rightarrow> int \<Rightarrow> string option \<Rightarrow> failure + cursor_params" where
  "get_cursor_pagination cursor limit q =
     (if limit < 1 \<or> 100 < limit then Inl (RequestValidationError ''limit'')
      else Inr \<lparr>cp_cursor = cursor, cp_limit = nat limit, cp_q = q\<rparr>)"

record 'a cursor_page =
  cu_items :: "'a list"
  cu_next_cursor :: "string option"
  cu_has_more :: bool

definition paginate_cursor ::
  "('a \<Rightarrow> int) \<Rightarrow> 'a sql_ops \<Rightarrow> 'a list \<Rightarrow> cursor_params \<Rightarrow> string + 'a cursor_page" where
  "paginate_cursor pk Q statement params =
     (case (case cp_cursor params of
              None \<Rightarrow> Inr statement
            | Some c \<Rightarrow> (case decode_cursor c of
                           Inl e \<Rightarrow> Inl e
                         | Inr last_id \<Rightarrow> Inr (filter (\<lambda>r. last_id < pk r) statement))) of
        Inl e \<Rightarrow> Inl e
      | Inr selected \<Rightarrow>
          (let rows = take (cp_limit params + 1) (q_order Q ''id'' False selected);
               has_more = (cp_limit params < length rows);
               items = take (cp_limit params) rows;
               next_cursor = (if has_more \<and> items \<noteq> [] then Some (encode_cursor (pk (last items)))
                              else None)
           in Inr \<lparr>cu_items = items, cu_next_cursor = next_cursor, cu_has_more = has_more\<rparr>))"

subsection \<open>Cursors\<close>

lemma nat_digits_ascii: "c \<in> set (nat_digits n) \<Longrightarrow> code c < 128"
  using nat_digits_decimal [of c n] by (simp add: is_decimal_char_def Let_def)

lemma py_str_ascii: "c \<in> set (py_str n) \<Longrightarrow> code c < 128"
  by (auto simp: py_str_def dest!: nat_digits_ascii split: if_splits) (simp add: code_def)

lemma decode_encode_cursor:
  assumes "\<bar>n\<bar> < 10 ^ 20"
  shows "decode_cursor (encode_cursor n) = Inr n"
proof -
  have "\<not> list_ex (\<lambda>c. 128 \<le> code c) (py_str n)"
    using py_str_ascii by (fastforce simp: list_ex_iff)
  then show ?thesis
    using assms by (simp add: decode_cursor_def encode_cursor_def b64_round_trip py_int_py_str
        below_digit_limit)
qed

subsection \<open>Properties\<close>

text \<open>A cursor the service hands out is read back as the key it was made from.\<close>

theorem cursor_round_trip:
  assumes "\<bar>n\<bar> < 10 ^ 20"
  shows "decode_cursor (encode_cursor n) = Inr n"
  by (rule decode_encode_cursor [OF assms])

theorem cursor_round_trip_witness: "decode_cursor (encode_cursor 2147483647) = Inr 2147483647"
  using cursor_round_trip [of 2147483647] by simp

text \<open>Following the cursors from page to page; the fuel bounds the number of requests.\<close>

fun cursor_walk ::
  "nat \<Rightarrow> ('a \<Rightarrow> int) \<Rightarrow> 'a sql_ops \<Rightarrow> 'a list \<Rightarrow> nat \<Rightarrow> string option \<Rightarrow> 'a list list option" where
  "cursor_walk 0 pk Q rows limit c = None"
| "cursor_walk (Suc k) pk Q rows limit c =
     (case paginate_cursor pk Q rows \<lparr>cp_cursor = c, cp_limit = limit, cp_q = None\<rparr> of
        Inl e \<Rightarrow> None
      | Inr p \<Rightarrow>
          (case cu_next_cursor p of
             None \<Rightarrow> Some [cu_items p]
           | Some c' \<Rightarrow> map_option ((#) (cu_items p)) (cursor_walk k pk Q rows limit (Some c'))))"

text \<open>The rows a cursor leaves to come, in the order they come in.\<close>

definition rows_after :: "('a \<Rightarrow> int) \<Rightarrow> 'a list \<Rightarrow> int option \<Rightarrow> 'a list" where
  "rows_after pk rows c = sort_key pk (case c of None \<Rightarrow> rows | Some i \<Rightarrow> filter (\<lambda>r. i < pk r) rows)"

lemma filter_beyond_sorted:
  assumes "sorted (map pk xs)" and "distinct (map pk xs)" and "0 < n" and "n \<le> length xs"
  shows "filter (\<lambda>r. pk (last (take n xs)) < pk r) xs = drop n xs"
proof -
  let ?l = "last (take n xs)"
  have l: "?l = xs ! (n - 1)"
    using assms(3,4) by (subst last_conv_nth) (auto simp: min_def)
  have lt: "sorted_wrt (<) (map pk xs)" using assms(1,2) by (simp add: strict_sorted_iff)
  have "\<forall>r \<in> set (take n xs). \<not> pk ?l < pk r"
  proof
    fix r assume "r \<in> set (take n xs)"
    then obtain i where "i < n" "r = xs ! i" using assms(4) by (auto simp: in_set_conv_nth)
    then show "\<not> pk ?l < pk r"
      using l assms(1,3,4) sorted_nth_mono [of "map pk xs" i "n - 1"] by fastforce
  qed
  moreover have "\<forall>r \<in> set (drop n xs). pk ?l < pk r"
  proof
    fix r assume "r \<in> set (drop n xs)"
    then obtain i where "i < length xs - n" "r = xs ! (n + i)"
      using assms(4) by (auto simp: in_set_conv_nth)
    then show "pk ?l < pk r"
      using l assms(3,4) sorted_wrt_nth_less [OF lt, of "n - 1" "n + i"] by simp
  qed
  ultimately have "filter (\<lambda>r. pk ?l < pk r) (take n xs @ drop n xs) = drop n xs"
    by (simp only: filter_append) (simp add: filter_id_conv filter_empty_conv)
  then show ?thesis by simp
qed

lemma rows_after_next:
  assumes "distinct (map pk rows)" and "0 < n" and "n \<le> length (rows_after pk rows c)"
  shows "rows_after pk rows (Some (pk (last (take n (rows_after pk rows c))))) =
    drop n (rows_after pk rows c)"
proof -
  let ?S = "rows_after pk rows c"
  let ?m = "pk (last (take n ?S))"
  have S: "sorted (map pk ?S)" "distinct (map pk ?S)"
    using assms(1)
    by (auto simp: rows_after_def distinct_map distinct_map_filterI split: option.split
        intro: inj_on_subset)
  have "last (take n ?S) \<in> set ?S"
    using assms(2,3) by (metis in_set_takeD last_in_set take_eq_Nil length_greater_0_conv
        less_le_trans neq0_conv)
  then have "filter (\<lambda>r. ?m < pk r) (case c of None \<Rightarrow> rows | Some i \<Rightarrow> filter (\<lambda>r. i < pk r) rows) =
      filter (\<lambda>r. ?m < pk r) rows"
    by (auto simp: rows_after_def split: option.splits intro!: filter_cong)
  then have "rows_after pk rows (Some ?m) = filter (\<lambda>r. ?m < pk r) ?S"
    by (simp add: rows_after_def filter_sort)
  also have "\<dots> = drop n ?S" by (rule filter_beyond_sorted [OF S assms(2,3)])
  finally show ?thesis .
qed

context sql_engine begin

lemma paginate_cursor_rows:
  assumes "distinct (map pk rows)" and "\<And>i. c = Some i \<Longrightarrow> \<bar>i\<bar> < 10 ^ 20"
  shows "paginate_cursor pk Q rows \<lparr>cp_cursor = map_option encode_cursor c, cp_limit = limit, cp_q = q\<rparr> =
    (let S = rows_after pk rows c; more = (limit < length S)
     in Inr \<lparr>cu_items = take limit S,
             cu_next_cursor = (if more \<and> 0 < limit then Some (encode_cursor (pk (last (take limit S))))
                               else None),
             cu_has_more = more\<rparr>)"
proof -
  have "q_order Q ''id'' False (case c of None \<Rightarrow> rows | Some i \<Rightarrow> filter (\<lambda>r. i < pk r) rows) =
      rows_after pk rows c"
    unfolding rows_after_def using assms(1)
    by (intro order_id_unique) (auto simp: distinct_map_filterI split: option.split)
  moreover have "(limit < length (take (limit + 1) xs)) = (limit < length xs)" for xs :: "'a list"
    by auto
  moreover have "take limit (take (limit + 1) xs) = take limit xs" for xs :: "'a list"
    by (simp add: min_def)
  ultimately show ?thesis
    using assms(2) decode_encode_cursor
    by (cases c) (auto simp: paginate_cursor_def Let_def)
qed

lemma cursor_walk_rows:
  assumes "distinct (map pk rows)" and "\<forall>r \<in> set rows. \<bar>pk r\<bar> < 10 ^ 20" and "0 < limit"
    and "\<And>i. c = Some i \<Longrightarrow> \<bar>i\<bar> < 10 ^ 20" and "length (rows_after pk rows c) < k"
  shows "\<exists>pages. cursor_walk k pk Q rows limit (map_option encode_cursor c) = Some pages \<and>
    concat pages = rows_after pk rows c \<and> (\<forall>p \<in> set pages. length p \<le> limit) \<and>
    (\<forall>p \<in> set (butlast pages). length p = limit)"
  using assms(4,5)
proof (induction k arbitrary: c)
  case 0
  then show ?case by simp
next
  case (Suc k)
  let ?S = "rows_after pk rows c"
  note page = paginate_cursor_rows [OF assms(1) Suc.prems(1), of c limit None]
  show ?case
  proof (cases "limit < length ?S")
    case False
    with page show ?thesis by (simp add: Let_def)
  next
    case True
    let ?m = "pk (last (take limit ?S))"
    have later: "rows_after pk rows (Some ?m) = drop limit ?S"
      using rows_after_next [OF assms(1,3), of c] True by simp
    have "last (take limit ?S) \<in> set ?S"
      using True assms(3) by (metis in_set_takeD last_in_set take_eq_Nil list.size(3) not_less_zero neq0_conv)
    then have m: "\<bar>?m\<bar> < 10 ^ 20"
      using assms(2) by (auto simp: rows_after_def split: option.splits)
    have "length (rows_after pk rows (Some ?m)) < k"
      using True Suc.prems(2) assms(3) by (simp add: later)
    with Suc.IH [of "Some ?m"] m obtain pages where pages: "cursor_walk k pk Q rows limit (Some (encode_cursor ?m)) = Some pages"
      "concat pages = drop limit ?S" "\<forall>p \<in> set pages. length p \<le> limit"
      "\<forall>p \<in> set (butlast pages). length p = limit"
      unfolding later by auto
    have "pages \<noteq> []" using pages(2) True by auto
    with page True assms(3) pages show ?thesis
      by (intro exI [of _ "take limit ?S # pages"]) (simp add: Let_def)
  qed
qed

end

text \<open>C21. Walking through a feed page by page, from no cursor to a page without a next one, ends
  after at most one request per row and shows every row exactly once, in the order of the
  keys; every page but the last is full.\<close>

theorem cursor_walk_complete:
  assumes "sql_engine Q pk" and "distinct (map pk rows)" and "\<forall>r \<in> set rows. \<bar>pk r\<bar> < 10 ^ 20"
    and "0 < limit"
  shows "\<exists>pages. cursor_walk (Suc (length rows)) pk Q rows limit None = Some pages \<and>
    concat pages = sort_key pk rows \<and> (\<forall>p \<in> set pages. length p \<le> limit) \<and>
    (\<forall>p \<in> set (butlast pages). length p = limit)"
  using sql_engine.cursor_walk_rows [OF assms, of None "Suc (length rows)"]
  by (simp add: rows_after_def)

theorem cursor_walk_complete_witness:
  "\<exists>pages. cursor_walk (Suc (length [7, 3, 5 :: int])) id (ref_sql id) [7, 3, 5] 2 None = Some pages \<and> concat pages = [3, 5, 7 :: int]"
  using cursor_walk_complete [OF ref_sql.sql_engine_axioms, where rows = "[7, 3, 5 :: int]" and limit = 2 and pk = id]
  by (auto simp del: cursor_walk.simps)

lemma paginate_offset_Inr:
  "paginate_offset rows p = Inr page \<Longrightarrow>
     pg_items page = take (op_limit p) (drop (op_offset p) rows) \<and> pg_total page = length rows \<and>
     int (op_offset p) < OFFSET_END"
  by (auto simp: paginate_offset_def Let_def split: if_splits)

lemma paginate_offset_Inl:
  "paginate_offset rows p = Inl e \<longleftrightarrow> OFFSET_END \<le> int (op_offset p) \<and> e = Unhandled ''DataError''"
  by (auto simp: paginate_offset_def Let_def)

text \<open>Successive offset pages of one result cut it into consecutive pieces, none skipped or
  repeated, each reports the full count, and \<open>has_more\<close> is true exactly while rows remain. An
  offset is refused when the database cannot read it, and then only.\<close>

theorem offset_pages_partition:
  assumes "int (n * op_limit p) \<le> OFFSET_END"
  shows "concat (map (\<lambda>k. case paginate_offset rows (p\<lparr>op_offset := k * op_limit p\<rparr>) of
       Inl _ \<Rightarrow> [] | Inr page \<Rightarrow> pg_items page) [0..<n]) = take (n * op_limit p) rows \<and>
   (case paginate_offset rows p of
      Inl e \<Rightarrow> OFFSET_END \<le> int (op_offset p) \<and> e = Unhandled ''DataError''
    | Inr page \<Rightarrow> int (op_offset p) < OFFSET_END \<and>
        pg_total page = length rows \<and> length (pg_items page) \<le> op_limit p \<and>
        (0 < op_limit p \<longrightarrow> (pg_has_more page \<longleftrightarrow> drop (op_offset p + op_limit p) rows \<noteq> [])))"
proof -
  have pieces: "concat (map (\<lambda>k. take l (drop (k * l) rows)) [0..<n]) = take (n * l) rows" for l
  proof (induction n)
    case (Suc n)
    have "take (Suc n * l) rows = take (n * l) rows @ take l (drop (n * l) rows)"
      by (metis add.commute mult_Suc take_add)
    with Suc show ?case by simp
  qed simp
  have "(case paginate_offset rows (p\<lparr>op_offset := k * op_limit p\<rparr>) of
       Inl _ \<Rightarrow> [] | Inr page \<Rightarrow> pg_items page) = take (op_limit p) (drop (k * op_limit p) rows)" if "k < n" for k
  proof -
    have "k * op_limit p < n * op_limit p \<or> op_limit p = 0" using that by auto
    then have "int (k * op_limit p) < int (n * op_limit p) \<or> op_limit p = 0" by (simp only: of_nat_less_iff)
    moreover have "0 < OFFSET_END" by (simp add: OFFSET_END_def)
    ultimately have "int (k * op_limit p) < OFFSET_END" using assms by (metis mult_0_right of_nat_0 order_less_le_trans)
    then show ?thesis by (simp add: paginate_offset_def Let_def)
  qed
  then have "map (\<lambda>k. case paginate_offset rows (p\<lparr>op_offset := k * op_limit p\<rparr>) of
       Inl _ \<Rightarrow> [] | Inr page \<Rightarrow> pg_items page) [0..<n] = map (\<lambda>k. take (op_limit p) (drop (k * op_limit p) rows)) [0..<n]"
    by (intro map_cong) simp_all
  then have "concat (map (\<lambda>k. case paginate_offset rows (p\<lparr>op_offset := k * op_limit p\<rparr>) of
       Inl _ \<Rightarrow> [] | Inr page \<Rightarrow> pg_items page) [0..<n]) = take (n * op_limit p) rows"
    by (simp only: pieces)
  moreover have "case paginate_offset rows p of
      Inl e \<Rightarrow> OFFSET_END \<le> int (op_offset p) \<and> e = Unhandled ''DataError''
    | Inr page \<Rightarrow> int (op_offset p) < OFFSET_END \<and>
        pg_total page = length rows \<and> length (pg_items page) \<le> op_limit p \<and>
        (0 < op_limit p \<longrightarrow> (pg_has_more page \<longleftrightarrow> drop (op_offset p + op_limit p) rows \<noteq> []))"
    by (auto simp: paginate_offset_def Let_def)
  ultimately show ?thesis by (rule conjI)
qed

theorem offset_pages_partition_witness:
  "\<exists>page. paginate_offset [1, 2, 3 :: int]
     \<lparr>op_limit = 2, op_offset = 0, op_sort = None, op_desc = False, op_q = None\<rparr> = Inr page \<and> pg_has_more page"
  using offset_pages_partition [of 1
      "\<lparr>op_limit = 2, op_offset = 0, op_sort = None, op_desc = False, op_q = None\<rparr>" "[1, 2, 3 :: int]"]
  by (auto simp: OFFSET_END_def split: sum.splits)

end
