(* ===== verification/AdminApi.thy ===== *)
theory AdminApi
  imports Rbac Pagination Examples
begin

text \<open>
  The administration routes: \<open>app/api/admin.py\<close>, \<open>app/schemas/admin.py\<close> and the report task of
  \<open>app/tasks/reports.py\<close>. Every route is guarded by a permission, checked before its arguments.
  The state of a Celery task is kept by Celery's result backend, a parameter.
\<close>

definition to_admin_user_response :: "database \<Rightarrow> user \<Rightarrow> user_response" where
  "to_admin_user_response d u =
     \<lparr>ur_id = user_id u, ur_email = user_email u, ur_is_active = user_is_active u,
      ur_is_verified = user_is_verified u, ur_roles = map role_name (roles_of d (user_id u))\<rparr>"

text \<open>The administrator sees a user as the user does.\<close>

lemma admin_response_eq [simp]: "to_admin_user_response = to_user_response"
  by (intro ext) (simp add: to_admin_user_response_def to_user_response_def)

subsection \<open>Listings\<close>

definition USER_SORT_FIELDS :: "string list" where
  "USER_SORT_FIELDS = [''id'', ''email'', ''created_at'', ''is_active'', ''is_verified'']"

definition user_rows ::
  "user sql_ops \<Rightarrow> database \<Rightarrow> offset_params \<Rightarrow> bool option \<Rightarrow> user list" where
  "user_rows Q d params is_active =
     (let statement = users d;
          statement = (case is_active of None \<Rightarrow> statement
                       | Some b \<Rightarrow> filter (\<lambda>u. user_is_active u = b) statement);
          statement = apply_search Q params [user_email] statement
      in apply_sort Q USER_SORT_FIELDS params statement)"

definition list_users ::
  "'r env \<Rightarrow> user sql_ops \<Rightarrow> time \<Rightarrow> string \<Rightarrow> failure + offset_params \<Rightarrow> bool option \<Rightarrow>
     'r app_state \<Rightarrow> (user_response page, 'r app_state) handled" where
  "list_users E Q now credentials pagination is_active s =
     require_permissions E now credentials [''users:read'']
       (\<lambda>s. case pagination of
              Inl e \<Rightarrow> (Inl e, s)
            | Inr params \<Rightarrow>
                (case paginate_offset (user_rows Q (st_db s) params is_active) params of
                   Inl e \<Rightarrow> (Inl e, s)
                 | Inr p \<Rightarrow>
                     (Inr \<lparr>pg_items = map (to_admin_user_response (st_db s)) (pg_items p),
                           pg_total = pg_total p, pg_limit = pg_limit p, pg_offset = pg_offset p,
                           pg_has_more = pg_has_more p\<rparr>, s))) s"

definition feed_rows :: "user sql_ops \<Rightarrow> database \<Rightarrow> cursor_params \<Rightarrow> user list" where
  "feed_rows Q d params =
     (case cp_q params of
        None \<Rightarrow> users d
      | Some q \<Rightarrow> if q = [] then users d
                  else filter (\<lambda>u. q_ilike Q (user_email u) (''%'' @ q @ ''%'')) (users d))"

definition list_users_feed ::
  "'r env \<Rightarrow> user sql_ops \<Rightarrow> time \<Rightarrow> string \<Rightarrow> failure + cursor_params \<Rightarrow>
     'r app_state \<Rightarrow> (user_response cursor_page, 'r app_state) handled" where
  "list_users_feed E Q now credentials pagination s =
     require_permissions E now credentials [''users:read'']
       (\<lambda>s. case pagination of
              Inl e \<Rightarrow> (Inl e, s)
            | Inr params \<Rightarrow>
                (case paginate_cursor user_id Q (feed_rows Q (st_db s) params) params of
                   Inl m \<Rightarrow> (Inl (HTTPException 400 m []), s)
                 | Inr p \<Rightarrow>
                     (Inr \<lparr>cu_items = map (to_admin_user_response (st_db s)) (cu_items p),
                           cu_next_cursor = cu_next_cursor p, cu_has_more = cu_has_more p\<rparr>, s))) s"

subsection \<open>Users\<close>

definition user_not_found :: failure where
  "user_not_found = HTTPException 404 ''User not found'' []"

definition update_user_status ::
  "'r env \<Rightarrow> time \<Rightarrow> string \<Rightarrow> int \<Rightarrow> bool option \<Rightarrow> bool option \<Rightarrow> 'r app_state \<Rightarrow>
     (user_response, 'r app_state) handled" where
  "update_user_status E now credentials uid is_active is_verified s =
     require_permissions E now credentials [''users:write'']
       (\<lambda>s. case get_user (st_db s) uid of
              None \<Rightarrow> (Inl user_not_found, s)
            | Some u \<Rightarrow>
                (let u = (case is_active of None \<Rightarrow> u | Some b \<Rightarrow> u\<lparr>user_is_active := b\<rparr>);
                     u = (case is_verified of None \<Rightarrow> u | Some b \<Rightarrow> u\<lparr>user_is_verified := b\<rparr>)
                 in case update_user (st_db s) u of
                      Inl e \<Rightarrow> (Inl e, s)
                    | Inr d \<Rightarrow> (Inr (to_admin_user_response d u), s\<lparr>st_db := d\<rparr>))) s"

definition admin_deactivate_user ::
  "'r env \<Rightarrow> time \<Rightarrow> string \<Rightarrow> int \<Rightarrow> 'r app_state \<Rightarrow> (unit, 'r app_state) handled" where
  "admin_deactivate_user E now credentials uid s =
     require_permissions E now credentials [''users:delete'']
       (\<lambda>s. case get_user (st_db s) uid of
              None \<Rightarrow> (Inl user_not_found, s)
            | Some u \<Rightarrow>
                (case update_user (st_db s) (u\<lparr>user_is_active := False\<rparr>) of
                   Inl e \<Rightarrow> (Inl e, s)
                 | Inr d \<Rightarrow> (Inr (), s\<lparr>st_db := d\<rparr>))) s"

subsection \<open>Roles\<close>

record role_response =
  rr_name :: string
  rr_description :: "string option"
  rr_permissions :: "string list"

definition list_roles ::
  "'r env \<Rightarrow> time \<Rightarrow> string \<Rightarrow> 'r app_state \<Rightarrow> (role_response list, 'r app_state) handled" where
  "list_roles E now credentials s =
     require_permissions E now credentials [''roles:manage'']
       (\<lambda>s. (Inr (map (\<lambda>r. \<lparr>rr_name = role_name r, rr_description = role_description r,
                            rr_permissions = map permission_name (permissions_of (st_db s) (role_id r))\<rparr>)
                    (roles (st_db s))), s)) s"

definition role_granted :: "string \<Rightarrow> pydict" where
  "role_granted n =
     [(''type'', PStr ''notification''),
      (''body'', PStr (''You have been granted the '' @ [CHR 39] @ n @ [CHR 39] @ '' role''))]"

text \<open>The handler awaits the notification. Nothing that goes wrong with Redis leaves \<open>publish_to_user\<close>,
  but what a socket of the user on this worker raises does: \<open>deliver\<close> is that exception, if there is
  one. The role is committed by then.\<close>

definition assign_role ::
  "'r env \<Rightarrow> (int \<Rightarrow> failure option) \<Rightarrow> time \<Rightarrow> string \<Rightarrow> int \<Rightarrow> string \<Rightarrow> 'r app_state \<Rightarrow>
     (user_response, 'r app_state) handled" where
  "assign_role E deliver now credentials uid role_nm s =
     require_permissions E now credentials [''roles:manage'']
       (\<lambda>s. case get_user (st_db s) uid of
              None \<Rightarrow> (Inl user_not_found, s)
            | Some u \<Rightarrow>
                (case select_role_by_name (st_db s) role_nm of
                   None \<Rightarrow> (Inl (HTTPException 404 ''Role not found'' []), s)
                 | Some r \<Rightarrow>
                     if r \<in> set (roles_of (st_db s) (user_id u))
                     then (Inr (to_admin_user_response (st_db s) u), s)
                     else (case append_role (st_db s) (user_id u) (role_id r) of
                             Inl e \<Rightarrow> (Inl e, s)
                           | Inr d \<Rightarrow>
                               (case deliver (user_id u) of
                                  None \<Rightarrow> Inr (to_admin_user_response d u) | Some e \<Rightarrow> Inl e,
                                s\<lparr>st_db := d,
                                  st_outbox := st_outbox s @ [(user_id u, role_granted (role_name r))]\<rparr>)))) s"

definition revoke_role ::
  "'r env \<Rightarrow> time \<Rightarrow> string \<Rightarrow> int \<Rightarrow> string \<Rightarrow> 'r app_state \<Rightarrow>
     (user_response, 'r app_state) handled" where
  "revoke_role E now credentials uid role_nm s =
     require_permissions E now credentials [''roles:manage'']
       (\<lambda>s. case get_user (st_db s) uid of
              None \<Rightarrow> (Inl user_not_found, s)
            | Some u \<Rightarrow>
                (let d = set_roles (st_db s) (user_id u)
                           (filter (\<lambda>r. role_name r \<noteq> role_nm) (roles_of (st_db s) (user_id u)))
                 in (Inr (to_admin_user_response d u), s\<lparr>st_db := d\<rparr>))) s"

subsection \<open>Reports\<close>

record celery_result =
  cr_status :: string
  cr_ready :: bool
  cr_successful :: bool
  cr_value :: pyval

record report_task_response =
  rt_task_id :: string
  rt_status :: string

record report_status_response =
  rs_task_id :: string
  rs_status :: string
  rs_result :: "pyval option"

definition trigger_user_summary_report ::
  "'r env \<Rightarrow> (string \<Rightarrow> celery_result) \<Rightarrow> time \<Rightarrow> string \<Rightarrow> string \<Rightarrow> 'r app_state \<Rightarrow>
     (report_task_response, 'r app_state) handled" where
  "trigger_user_summary_report E backend now credentials task_id s =
     require_permissions E now credentials [''users:read'']
       (\<lambda>s. (Inr \<lparr>rt_task_id = task_id, rt_status = cr_status (backend task_id)\<rparr>,
             s\<lparr>st_queue := st_queue s @ [GenerateUserSummaryReport task_id]\<rparr>)) s"

definition get_report_status ::
  "'r env \<Rightarrow> (string \<Rightarrow> celery_result) \<Rightarrow> time \<Rightarrow> string \<Rightarrow> string \<Rightarrow> 'r app_state \<Rightarrow>
     (report_status_response, 'r app_state) handled" where
  "get_report_status E backend now credentials task_id s =
     require_permissions E now credentials [''users:read'']
       (\<lambda>s. let result = backend task_id in
          (Inr \<lparr>rs_task_id = task_id, rs_status = cr_status result,
                rs_result = (if cr_ready result \<and> cr_successful result then Some (cr_value result)
                             else None)\<rparr>, s)) s"

text \<open>The task itself; \<open>users_by_role\<close> is the grouped inner join of roles and users.\<close>

record user_summary =
  us_total_users :: nat
  us_active_users :: nat
  us_verified_users :: nat
  us_users_by_role :: "(string \<times> nat) list"

definition role_join :: "database \<Rightarrow> (role \<times> user) list" where
  "role_join d =
     [(r, u). r \<leftarrow> roles d, (uid, rid) \<leftarrow> user_roles d, rid = role_id r, u \<leftarrow> users d, user_id u = uid]"

definition group_counts :: "string list \<Rightarrow> (string \<times> nat) list" where
  "group_counts ns = map (\<lambda>n. (n, count_list ns n)) (remdups ns)"

definition generate_user_summary_report :: "database \<Rightarrow> user_summary" where
  "generate_user_summary_report d =
     \<lparr>us_total_users = length (users d),
      us_active_users = length (filter user_is_active (users d)),
      us_verified_users = length (filter user_is_verified (users d)),
      us_users_by_role = group_counts (map (\<lambda>(r, u). role_name r) (role_join d))\<rparr>"

subsection \<open>The routes keep the database invariant\<close>

lemma list_users_safe [safety]:
  "db_inv (st_db s) \<Longrightarrow> \<not> is_unhandled pagination \<Longrightarrow>
     (\<And>params. pagination = Inr params \<Longrightarrow> int (op_offset params) < OFFSET_END) \<Longrightarrow>
     safe_result (list_users E Q now tok pagination a s)"
  unfolding list_users_def
  by (rule require_permissions_safe) (auto simp: safe_result_def paginate_offset_Inl split: sum.split)

lemma list_users_state: "snd (list_users E Q now tok pagination a s) = s"
  unfolding list_users_def require_permissions_def authenticated_def after_dependency_def
  by (simp split: sum.split)

lemma list_users_feed_safe [safety]:
  "db_inv (st_db s) \<Longrightarrow> \<not> is_unhandled pagination \<Longrightarrow> safe_result (list_users_feed E Q now tok pagination s)"
  unfolding list_users_feed_def
  by (rule require_permissions_safe) (auto simp: safe_result_def Let_def split: sum.split)

lemma safe_update:
  assumes "db_inv (st_db s)" and "get_user (st_db s) i = Some x" and "user_id u = user_id x"
    and "user_email u = user_email x"
    and "user_hashed_password u = None \<Longrightarrow> user_hashed_password x = None"
  shows "safe_result (case update_user (st_db s) u of Inl e \<Rightarrow> (Inl e, s) | Inr d \<Rightarrow> (Inr (f d), s\<lparr>st_db := d\<rparr>))"
  using update_existing [OF assms] by simp

lemma update_user_status_safe [safety]:
  assumes "db_inv (st_db s)"
  shows "safe_result (update_user_status E now tok uid a v s)"
  unfolding update_user_status_def
proof (rule require_permissions_safe [OF assms])
  show "safe_result (case get_user (st_db s) uid of
        None \<Rightarrow> (Inl user_not_found, s)
      | Some u \<Rightarrow>
          (let u = (case a of None \<Rightarrow> u | Some b \<Rightarrow> u\<lparr>user_is_active := b\<rparr>);
               u = (case v of None \<Rightarrow> u | Some b \<Rightarrow> u\<lparr>user_is_verified := b\<rparr>)
           in case update_user (st_db s) u of
                Inl e \<Rightarrow> (Inl e, s)
              | Inr d \<Rightarrow> (Inr (to_admin_user_response d u), s\<lparr>st_db := d\<rparr>)))"
  proof (cases "get_user (st_db s) uid")
    case None
    then show ?thesis using assms by (simp add: user_not_found_def)
  next
    case (Some u)
    let ?u = "case a of None \<Rightarrow> u | Some b \<Rightarrow> u\<lparr>user_is_active := b\<rparr>"
    let ?w = "case v of None \<Rightarrow> ?u | Some b \<Rightarrow> ?u\<lparr>user_is_verified := b\<rparr>"
    have "safe_result (case update_user (st_db s) ?w of Inl e \<Rightarrow> (Inl e, s)
        | Inr d \<Rightarrow> (Inr (to_admin_user_response d ?w), s\<lparr>st_db := d\<rparr>))"
      by (rule safe_update [OF assms Some]) (auto split: option.splits)
    with Some show ?thesis by (simp add: Let_def)
  qed
qed

lemma admin_deactivate_user_safe [safety]:
  assumes "db_inv (st_db s)"
  shows "safe_result (admin_deactivate_user E now tok uid s)"
  unfolding admin_deactivate_user_def
proof (rule require_permissions_safe [OF assms])
  have "safe_result (case update_user (st_db s) (u\<lparr>user_is_active := False\<rparr>) of
      Inl e \<Rightarrow> (Inl e, s) | Inr d \<Rightarrow> (Inr (), s\<lparr>st_db := d\<rparr>))"
    if "get_user (st_db s) uid = Some u" for u
    by (rule safe_update [OF assms that]) simp_all
  then show "safe_result (case get_user (st_db s) uid of
        None \<Rightarrow> (Inl user_not_found, s)
      | Some u \<Rightarrow>
          (case update_user (st_db s) (u\<lparr>user_is_active := False\<rparr>) of
             Inl e \<Rightarrow> (Inl e, s) | Inr d \<Rightarrow> (Inr (), s\<lparr>st_db := d\<rparr>)))"
    using assms by (auto simp: user_not_found_def split: option.split)
qed

lemma list_roles_safe [safety]: "db_inv (st_db s) \<Longrightarrow> safe_result (list_roles E now tok s)"
  unfolding list_roles_def by (rule require_permissions_safe) simp_all

lemma roles_of_iff:
  "r \<in> set (roles_of d uid) \<longleftrightarrow> r \<in> set (roles d) \<and> (uid, role_id r) \<in> set (user_roles d)"
  by (auto simp: roles_of_def)

text \<open>What a socket raises changes the answer and nothing else.\<close>

lemma assign_role_state:
  "snd (assign_role E deliver now tok uid n s) = snd (assign_role E (\<lambda>_. None) now tok uid n s)"
  unfolding assign_role_def require_permissions_def authenticated_def after_dependency_def
  by (simp split: option.split sum.split)

lemma assign_role_delivered:
  "deliver uid = None \<Longrightarrow> assign_role E deliver now tok uid n s = assign_role E (\<lambda>_. None) now tok uid n s"
  unfolding assign_role_def require_permissions_def authenticated_def after_dependency_def
  by (auto dest: get_user_SomeD split: option.split sum.split)

lemma assign_role_not_raised:
  "fst (assign_role E deliver now tok uid n s) = Inl e \<Longrightarrow>
     fst (assign_role E (\<lambda>_. None) now tok uid n s) = Inl e \<or> deliver uid = Some e"
  unfolding assign_role_def require_permissions_def authenticated_def after_dependency_def
  by (auto dest: get_user_SomeD split: option.splits sum.splits if_splits)

lemma assign_role_safe:
  assumes "db_inv (st_db s)"
  shows "safe_result (assign_role E (\<lambda>_. None) now tok uid n s)"
  unfolding assign_role_def
proof (rule require_permissions_safe [OF assms])
  have new: "\<exists>d. append_role (st_db s) (user_id u) (role_id r) = Inr d \<and> db_inv d"
    if "get_user (st_db s) uid = Some u" "select_role_by_name (st_db s) n = Some r"
      "r \<notin> set (roles_of (st_db s) (user_id u))" for u r
  proof -
    have "r \<in> set (roles (st_db s))" using select_role_SomeD [OF that(2)] by blast
    with that(3) have "append_role (st_db s) (user_id u) (role_id r) =
        Inr ((st_db s)\<lparr>user_roles := user_roles (st_db s) @ [(user_id u, role_id r)]\<rparr>)"
      by (simp add: append_role_def roles_of_iff)
    moreover from append_role_inv [OF this assms] have
      "db_inv ((st_db s)\<lparr>user_roles := user_roles (st_db s) @ [(user_id u, role_id r)]\<rparr>)"
      using get_user_SomeD [OF that(1)] \<open>r \<in> set (roles (st_db s))\<close> by auto
    ultimately show ?thesis by blast
  qed
  show "safe_result (case get_user (st_db s) uid of
        None \<Rightarrow> (Inl user_not_found, s)
      | Some u \<Rightarrow>
          (case select_role_by_name (st_db s) n of
             None \<Rightarrow> (Inl (HTTPException 404 ''Role not found'' []), s)
           | Some r \<Rightarrow>
               if r \<in> set (roles_of (st_db s) (user_id u))
               then (Inr (to_admin_user_response (st_db s) u), s)
               else (case append_role (st_db s) (user_id u) (role_id r) of
                       Inl e \<Rightarrow> (Inl e, s)
                     | Inr d \<Rightarrow>
                         (case None of None \<Rightarrow> Inr (to_admin_user_response d u) | Some e \<Rightarrow> Inl e,
                          s\<lparr>st_db := d,
                            st_outbox := st_outbox s @ [(user_id u, role_granted (role_name r))]\<rparr>))))"
    using assms new by (fastforce simp: user_not_found_def split: option.split)
qed

lemma assign_role_inv: "db_inv (st_db s) \<Longrightarrow> db_inv (st_db (snd (assign_role E deliver now tok uid n s)))"
  using assign_role_safe [of s E now tok uid n] by (simp add: safe_result_def assign_role_state [of E deliver])

lemma revoke_role_safe [safety]:
  assumes "db_inv (st_db s)"
  shows "safe_result (revoke_role E now tok uid n s)"
  unfolding revoke_role_def
  by (rule require_permissions_safe)
     (use assms set_roles_inv in \<open>auto simp: user_not_found_def Let_def split: option.split\<close>)

lemma trigger_report_safe [safety]:
  "db_inv (st_db s) \<Longrightarrow> safe_result (trigger_user_summary_report E backend now tok i s)"
  unfolding trigger_user_summary_report_def by (rule require_permissions_safe) simp_all

lemma report_status_safe [safety]:
  "db_inv (st_db s) \<Longrightarrow> safe_result (get_report_status E backend now tok i s)"
  unfolding get_report_status_def by (rule require_permissions_safe) (simp_all add: Let_def)

subsection \<open>Properties\<close>

definition permitted :: "'r env \<Rightarrow> time \<Rightarrow> string \<Rightarrow> 'r app_state \<Rightarrow> string \<Rightarrow> bool" where
  "permitted E now credentials s p \<longleftrightarrow>
     (case get_current_user E now credentials s of
        Inl _ \<Rightarrow> False | Inr u \<Rightarrow> p \<in> user_permissions (st_db s) u)"

definition turned_away :: "'r app_state \<Rightarrow> ('a, 'r app_state) handled \<Rightarrow> bool" where
  "turned_away s res \<longleftrightarrow> snd res = s \<and>
     (case fst res of Inl err \<Rightarrow> failure_status err \<in> {401, 403} | Inr _ \<Rightarrow> False)"

lemma not_permitted_turned_away:
  assumes "\<not> permitted E now tok s p"
  shows "turned_away s (require_permissions E now tok [p] body s)"
  by (rule require_permissions_cases [of E now tok s "[p]" body])
     (use assms in \<open>auto simp: permitted_def turned_away_def\<close>)

text \<open>C20. Nobody administers without the permission. For every administration route, a caller
  who is not authenticated as an active user holding the route's permission through one of his
  roles gets a 401 or a 403 and the state is as it was, whatever the arguments.\<close>

theorem admin_routes_guarded:
  "(\<not> permitted E now tok s ''users:read'' \<longrightarrow>
      turned_away s (list_users E Q now tok pagination is_active s) \<and>
      turned_away s (list_users_feed E Q now tok cursors s) \<and>
      turned_away s (trigger_user_summary_report E backend now tok i s) \<and>
      turned_away s (get_report_status E backend now tok i s)) \<and>
   (\<not> permitted E now tok s ''users:write'' \<longrightarrow>
      turned_away s (update_user_status E now tok uid a v s)) \<and>
   (\<not> permitted E now tok s ''users:delete'' \<longrightarrow>
      turned_away s (admin_deactivate_user E now tok uid s)) \<and>
   (\<not> permitted E now tok s ''roles:manage'' \<longrightarrow>
      turned_away s (list_roles E now tok s) \<and> turned_away s (assign_role E deliver now tok uid n s) \<and>
      turned_away s (revoke_role E now tok uid n s))"
  by (intro conjI impI)
     (simp_all only: list_users_def list_users_feed_def trigger_user_summary_report_def
       get_report_status_def update_user_status_def admin_deactivate_user_def list_roles_def
       assign_role_def revoke_role_def not_permitted_turned_away not_False_eq_True)

theorem admin_routes_guarded_witness:
  "turned_away ex_verified (revoke_role ex_env (20 * second) ex_access 1 ''user'' ex_verified)"
proof -
  have "roles_of (st_db ex_verified) i = []" for i
    by (simp add: roles_of_def ex_verified_def verified_by_def ex_registered_def empty_database_def)
  then have "\<not> permitted ex_env (20 * second) ex_access ex_verified ''roles:manage''"
    using ex_current by (simp add: permitted_def user_permissions_def)
  then show ?thesis using admin_routes_guarded by blast
qed

text \<open>A deployment whose one user administers it.\<close>

definition ex_admin_role :: role where
  "ex_admin_role = \<lparr>role_id = 1, role_name = ''admin'', role_description = None\<rparr>"

definition ex_user_role :: role where
  "ex_user_role = \<lparr>role_id = 2, role_name = ''user'', role_description = None\<rparr>"

definition ex_admin :: "ref_store app_state" where
  "ex_admin = ex_verified\<lparr>st_db := (st_db ex_verified)\<lparr>roles := [ex_admin_role, ex_user_role],
     permissions := [\<lparr>permission_id = 1, permission_name = ''roles:manage'', permission_description = None\<rparr>],
     role_permissions := [(1, 1)], user_roles := [(1, 1)], seq_roles := 3, seq_permissions := 2\<rparr>\<rparr>"

lemma ex_admin_facts:
  "db_inv (st_db ex_admin)" "get_user (st_db ex_admin) 1 = Some (ex_user\<lparr>user_is_verified := True\<rparr>)"
  "select_role_by_name (st_db ex_admin) ''user'' = Some ex_user_role"
  "require_permissions ex_env (20 * second) ex_access [''roles:manage''] body ex_admin = body ex_admin"
proof -
  have wf: "db_inv (st_db ex_verified)" by (rule ex_verified_user(2))
  have ids: "user_id ` set (users (st_db ex_verified)) = {1}"
    by (simp add: ex_verified_users) (simp add: ex_user_def)
  show "db_inv (st_db ex_admin)"
    using wf ids sign_in_ok_mono [of "st_db ex_admin" "st_db ex_verified"]
    by (simp add: ex_admin_def db_inv_def db_wf_def users_wf_def oauth_wf_def files_wf_def rbac_wf_def
        ex_admin_role_def ex_user_role_def)
  show "get_user (st_db ex_admin) 1 = Some (ex_user\<lparr>user_is_verified := True\<rparr>)"
    using ex_verified_get by (simp add: ex_admin_def get_user_def)
  show "select_role_by_name (st_db ex_admin) ''user'' = Some ex_user_role"
    by (simp add: ex_admin_def select_role_by_name_def ex_admin_role_def ex_user_role_def)
  have "get_current_user ex_env (20 * second) ex_access ex_admin = Inr (ex_user\<lparr>user_is_verified := True\<rparr>)"
    using ex_current get_current_user_cong [of ex_admin ex_verified] by (simp add: ex_admin_def)
  moreover have "''roles:manage'' \<in> user_permissions (st_db ex_admin) (ex_user\<lparr>user_is_verified := True\<rparr>)"
    by (simp add: user_permissions_def roles_of_def permissions_of_def ex_admin_def ex_admin_role_def
        ex_user_role_def ex_user_def)
  ultimately show "require_permissions ex_env (20 * second) ex_access [''roles:manage''] body ex_admin = body ex_admin"
    by (simp add: require_permissions_def authenticated_def permission_checker_def)
qed

definition ex_granted :: "ref_store app_state" where
  "ex_granted = snd (assign_role ex_env (\<lambda>_. None) (20 * second) ex_access 1 ''user'' ex_admin)"

lemma ex_grant:
  "\<exists>resp. assign_role ex_env (\<lambda>_. None) (20 * second) ex_access 1 ''user'' ex_admin = (Inr resp, ex_granted)"
  using ex_admin_facts(2,3)
  by (simp add: ex_granted_def assign_role_def ex_admin_facts(4) [simplified] append_role_def)
     (simp add: ex_admin_def roles_of_def ex_user_role_def ex_admin_role_def ex_user_def)

lemma require_permissions_Inr:
  assumes "require_permissions E now tok ps body s = (Inr x, t)"
  shows "body s = (Inr x, t)"
  by (rule require_permissions_cases [of E now tok s ps body]) (use assms in auto)

text \<open>Granting a role. A grant that succeeds gives that user that role and no other
  user or role anything; the answer lists the roles now held; the user is notified once, when
  the role is new to him; granting a role he has changes nothing.\<close>

theorem assign_role_effect:
  assumes "db_inv (st_db s)" and "assign_role E deliver now tok uid n s = (Inr resp, s1)"
  shows "\<exists>r. select_role_by_name (st_db s) n = Some r \<and> users (st_db s1) = users (st_db s) \<and>
    (\<forall>i r'. r' \<in> set (roles_of (st_db s1) i) \<longleftrightarrow>
       r' \<in> set (roles_of (st_db s) i) \<or> (i = uid \<and> r' = r)) \<and>
    ur_id resp = uid \<and> ur_roles resp = map role_name (roles_of (st_db s1) uid) \<and>
    (if r \<in> set (roles_of (st_db s) uid) then s1 = s
     else st_outbox s1 = st_outbox s @ [(uid, role_granted n)])"
proof -
  note body = require_permissions_Inr [OF assms(2) [unfolded assign_role_def]]
  obtain u where u: "get_user (st_db s) uid = Some u" using body by (auto split: option.splits)
  obtain r where r: "select_role_by_name (st_db s) n = Some r"
    using body u by (auto split: option.splits)
  have id: "user_id u = uid" using get_user_SomeD [OF u] by blast
  have rr: "r \<in> set (roles (st_db s))" "role_name r = n" using select_role_SomeD [OF r] by auto
  have wf: "rbac_wf (st_db s)" using assms(1) by (simp add: db_inv_def db_wf_def)
  show ?thesis
  proof (cases "r \<in> set (roles_of (st_db s) uid)")
    case True
    with body u r id show ?thesis
      by (intro exI [of _ r]) (auto simp: to_user_response_def)
  next
    case False
    then have "(uid, role_id r) \<notin> set (user_roles (st_db s))" using rr by (simp add: roles_of_iff)
    then have s1: "s1 = s\<lparr>st_db := (st_db s)\<lparr>user_roles := user_roles (st_db s) @ [(uid, role_id r)]\<rparr>,
        st_outbox := st_outbox s @ [(uid, role_granted n)]\<rparr>"
      and resp: "resp = to_user_response (st_db s1) u"
      using body u r id False rr(2) by (auto simp: append_role_def split: option.splits)
    have "r' \<in> set (roles_of (st_db s1) i) \<longleftrightarrow>
        r' \<in> set (roles_of (st_db s) i) \<or> (i = uid \<and> r' = r)" for i r'
      using role_same_id [OF wf _ rr(1), of r'] rr(1) by (auto simp: s1 roles_of_iff)
    with False r id show ?thesis
      by (intro exI [of _ r]) (simp add: s1 resp to_user_response_def)
  qed
qed

theorem assign_role_effect_witness:
  "ex_user_role \<in> set (roles_of (st_db ex_granted) 1)"
proof -
  obtain resp where "assign_role ex_env (\<lambda>_. None) (20 * second) ex_access 1 ''user'' ex_admin = (Inr resp, ex_granted)"
    using ex_grant by blast
  from assign_role_effect [OF ex_admin_facts(1) this] show ?thesis
    by (auto simp: ex_admin_facts(3))
qed

text \<open>Revoking a role. It takes every role of that name from that user, leaves the others he
  has and everybody else's, and taking back a role that was just granted to a user who did not
  have it restores the database exactly.\<close>

theorem revoke_role_effect:
  assumes "db_inv (st_db s)" and "revoke_role E now tok uid n s = (Inr resp, s1)"
  shows "(\<forall>i r. r \<in> set (roles_of (st_db s1) i) \<longleftrightarrow>
      r \<in> set (roles_of (st_db s) i) \<and> (i = uid \<longrightarrow> role_name r \<noteq> n)) \<and>
    n \<notin> set (ur_roles resp) \<and> users (st_db s1) = users (st_db s) \<and>
    (\<forall>d. append_role d uid i = Inr (st_db s) \<longrightarrow> rbac_wf d \<longrightarrow>
       (\<forall>r \<in> set (roles d). role_id r = i \<longleftrightarrow> role_name r = n) \<longrightarrow> st_db s1 = d)"
proof -
  note body = require_permissions_Inr [OF assms(2) [unfolded revoke_role_def]]
  obtain u where u: "get_user (st_db s) uid = Some u" using body by (auto split: option.splits)
  have id: "user_id u = uid" using get_user_SomeD [OF u] by blast
  let ?keep = "filter (\<lambda>r. role_name r \<noteq> n) (roles_of (st_db s) uid)"
  have s1: "st_db s1 = set_roles (st_db s) uid ?keep"
    and resp: "resp = to_user_response (st_db s1) u"
    using body u id by (auto simp: Let_def)
  have wf: "rbac_wf (st_db s)" using assms(1) by (simp add: db_inv_def db_wf_def)
  have roles1: "roles (st_db s1) = roles (st_db s)" by (simp add: s1 set_roles_def)
  have iff: "r \<in> set (roles_of (st_db s1) i) \<longleftrightarrow>
      r \<in> set (roles_of (st_db s) i) \<and> (i = uid \<longrightarrow> role_name r \<noteq> n)" for i r
  proof (cases "r \<in> set (roles (st_db s))")
    case True
    then have "role_id r \<in> role_id ` set ?keep \<longleftrightarrow> r \<in> set ?keep"
      using role_same_id [OF wf True] by (auto simp: roles_of_iff)
    with True show ?thesis by (auto simp: roles_of_iff roles1) (auto simp: s1 set_roles_def roles_of_iff)
  next
    case False
    then show ?thesis by (simp add: roles_of_iff roles1)
  qed
  have restored: "st_db s1 = d"
    if d: "append_role d uid i = Inr (st_db s)" and wfd: "rbac_wf d"
      and name: "\<forall>r \<in> set (roles d). role_id r = i \<longleftrightarrow> role_name r = n" for d i
  proof -
    have sd: "st_db s = d\<lparr>user_roles := user_roles d @ [(uid, i)]\<rparr>" and new: "(uid, i) \<notin> set (user_roles d)"
      using d by (auto simp: append_role_def split: if_splits)
    have keep: "role_id ` set ?keep = {j. (uid, j) \<in> set (user_roles d)}"
      using wfd name new by (fastforce simp: sd roles_of_iff rbac_wf_def image_iff)
    have "filter (\<lambda>(v, j). v \<noteq> uid \<or> j \<in> role_id ` set ?keep) (user_roles d @ [(uid, i)]) = user_roles d"
      unfolding keep using new by (auto simp: filter_id_conv)
    then show ?thesis by (simp add: s1 set_roles_def sd)
  qed
  have "n \<notin> set (ur_roles resp)"
    using iff [of _ uid] by (auto simp: resp to_user_response_def id)
  moreover have "users (st_db s1) = users (st_db s)" by (simp add: s1 set_roles_def)
  ultimately show ?thesis using iff restored by blast
qed

theorem revoke_role_effect_witness:
  "\<exists>resp s1. revoke_role ex_env (20 * second) ex_access 1 ''admin'' ex_admin = (Inr resp, s1) \<and>
     ''admin'' \<notin> set (ur_roles resp)"
proof -
  obtain resp s1 where rev: "revoke_role ex_env (20 * second) ex_access 1 ''admin'' ex_admin = (Inr resp, s1)"
    using ex_admin_facts(2) by (simp add: revoke_role_def ex_admin_facts(4) [simplified] Let_def)
  from revoke_role_effect [OF ex_admin_facts(1) rev] rev show ?thesis by blast
qed

text \<open>The report: the grouped join counts, for each role, the users that have it.\<close>

lemma sum_list_single:
  assumes "distinct (map f xs)" and "x \<in> set xs"
  shows "sum_list (map (\<lambda>y. if f y = f x then g y else 0) xs) = (g x :: nat)"
  using assms
proof (induction xs)
  case (Cons y xs)
  have "sum_list (map (\<lambda>z. if f z = f x then g z else 0) ys) = 0" if "f x \<notin> f ` set ys" for ys
    using that by (induction ys) auto
  with Cons show ?case by (cases "y = x") (auto simp: image_iff)
qed simp

lemma length_filter_single:
  assumes "distinct (map f xs)" and "x \<in> set xs"
  shows "length (filter (\<lambda>y. f y = f x) xs) = 1"
proof -
  have "length (filter (\<lambda>y. f y = k) ys) = sum_list (map (\<lambda>y. if f y = k then 1 else 0) ys)" for k ys
    by (induction ys) simp_all
  then show ?thesis using sum_list_single [OF assms, of "\<lambda>_. 1"] by simp
qed

definition holders :: "database \<Rightarrow> role \<Rightarrow> (role \<times> user) list" where
  "holders d r = concat (map (\<lambda>(uid, rid). if rid = role_id r
     then map (Pair r) (filter (\<lambda>u. user_id u = uid) (users d)) else []) (user_roles d))"

lemma role_join_holders: "role_join d = concat (map (holders d) (roles d))"
proof -
  have "concat (map (\<lambda>u. if user_id u = uid then [(r, u)] else []) us) =
      map (Pair r) (filter (\<lambda>u. user_id u = uid) us)" for r uid us
    by (induction us) simp_all
  then show ?thesis
    unfolding role_join_def holders_def
    by (intro arg_cong [where f = concat] map_cong refl) (auto intro!: arg_cong [where f = concat] map_cong)
qed

lemma length_holders:
  assumes "db_wf d"
  shows "length (holders d r) = length (filter (\<lambda>u. (user_id u, role_id r) \<in> set (user_roles d)) (users d))"
proof -
  have wf: "rbac_wf d" "users_wf d" using assms by (simp_all add: db_wf_def)
  have one: "length (filter (\<lambda>u. user_id u = uid) (users d)) = 1" if "(uid, rid) \<in> set (user_roles d)" for uid rid
  proof -
    have "uid \<in> user_id ` set (users d)" using wf(1) that by (fastforce simp: rbac_wf_def)
    then obtain u where "u \<in> set (users d)" "user_id u = uid" by auto
    with wf(2) length_filter_single [of user_id "users d" u] show ?thesis by (simp add: users_wf_def)
  qed
  have "length (concat (map (\<lambda>(uid, rid). if rid = role_id r
      then map (Pair r) (filter (\<lambda>u. user_id u = uid) (users d)) else []) urs)) =
      length (filter (\<lambda>(uid, rid). rid = role_id r) urs)" if "set urs \<subseteq> set (user_roles d)" for urs
    using that one by (induction urs) auto
  then have "length (holders d r) = length (filter (\<lambda>(uid, rid). rid = role_id r) (user_roles d))"
    by (simp add: holders_def)
  also have "\<dots> = card (set (filter (\<lambda>(uid, rid). rid = role_id r) (user_roles d)))"
    using wf(1) by (intro distinct_card [symmetric]) (simp add: rbac_wf_def)
  also have "\<dots> = card (user_id ` set (filter (\<lambda>u. (user_id u, role_id r) \<in> set (user_roles d)) (users d)))"
  proof -
    have "set (filter (\<lambda>(uid, rid). rid = role_id r) (user_roles d)) =
        (\<lambda>i. (i, role_id r)) ` user_id ` set (filter (\<lambda>u. (user_id u, role_id r) \<in> set (user_roles d)) (users d))"
      using wf(1) by (force simp: rbac_wf_def)
    then show ?thesis by (simp add: card_image inj_on_def)
  qed
  also have "\<dots> = length (filter (\<lambda>u. (user_id u, role_id r) \<in> set (user_roles d)) (users d))"
  proof -
    have "distinct (map user_id (filter (\<lambda>u. (user_id u, role_id r) \<in> set (user_roles d)) (users d)))"
      using wf(2) by (simp add: users_wf_def distinct_map_filterI)
    from distinct_card [OF this] show ?thesis by simp
  qed
  finally show ?thesis .
qed

lemma role_join_count:
  assumes "db_wf d" and r: "r \<in> set (roles d)"
  shows "count_list (map (\<lambda>(r, u). role_name r) (role_join d)) (role_name r) =
    length (filter (\<lambda>u. r \<in> set (roles_of d (user_id u))) (users d))"
proof -
  have wf: "distinct (map role_name (roles d))" using assms(1) by (simp add: db_wf_def rbac_wf_def)
  have names: "map (\<lambda>(r, u). role_name r) (holders d q) = replicate (length (holders d q)) (role_name q)" for q
    by (rule replicate_eqI) (auto simp: holders_def split: if_splits)
  have rep: "count_list (replicate k a) b = (if a = b then k else 0)" for k and a b :: string
    by (induction k) auto
  have "count_list (map (\<lambda>(r, u). role_name r) (concat (map (holders d) rs))) n =
      sum_list (map (\<lambda>q. if role_name q = n then length (holders d q) else 0) rs)" for rs n
    by (induction rs) (simp_all add: names rep)
  then have "count_list (map (\<lambda>(r, u). role_name r) (role_join d)) (role_name r) = length (holders d r)"
    using sum_list_single [OF wf r, of "\<lambda>q. length (holders d q)"] by (simp add: role_join_holders)
  then show ?thesis using r by (simp add: length_holders [OF assms(1)] roles_of_iff)
qed

lemma map_of_group_counts:
  "map_of (group_counts ns) n = (if n \<in> set ns then Some (count_list ns n) else None)"
proof -
  have "map_of (map (\<lambda>n. (n, f n)) xs) n = (if n \<in> set xs then Some (f n) else None)"
    for f :: "string \<Rightarrow> nat" and xs by (induction xs) auto
  then show ?thesis by (simp add: group_counts_def)
qed

text \<open>The summary report is right about roles: the entry of a role in the grouped join is the
  number of users whose role list contains it, roles nobody holds have no entry, and every
  entry is a role of the database; the active and the verified are among the total.\<close>

theorem report_counts_role_holders:
  assumes "db_inv d"
  shows "(\<forall>r \<in> set (roles d).
      map_of (us_users_by_role (generate_user_summary_report d)) (role_name r) =
        (let k = length (filter (\<lambda>u. r \<in> set (roles_of d (user_id u))) (users d))
         in if k = 0 then None else Some k)) \<and>
    fst ` set (us_users_by_role (generate_user_summary_report d)) \<subseteq> role_name ` set (roles d) \<and>
    us_active_users (generate_user_summary_report d) \<le> us_total_users (generate_user_summary_report d) \<and>
    us_verified_users (generate_user_summary_report d) \<le> us_total_users (generate_user_summary_report d)"
proof -
  have wf: "db_wf d" using assms by simp
  have "map_of (group_counts (map (\<lambda>(r, u). role_name r) (role_join d))) (role_name r) =
      (let k = length (filter (\<lambda>u. r \<in> set (roles_of d (user_id u))) (users d))
       in if k = 0 then None else Some k)" if "r \<in> set (roles d)" for r
    using role_join_count [OF wf that]
      count_list_0_iff [of "map (\<lambda>(r, u). role_name r) (role_join d)" "role_name r"]
    by (simp only: map_of_group_counts Let_def) presburger
  moreover have "fst ` set (group_counts (map (\<lambda>(r, u). role_name r) (role_join d))) \<subseteq>
      role_name ` set (roles d)"
    by (auto simp: group_counts_def role_join_holders holders_def split: if_splits)
  ultimately show ?thesis by (simp add: generate_user_summary_report_def length_filter_le)
qed

theorem report_counts_role_holders_witness:
  "map_of (us_users_by_role (generate_user_summary_report (st_db ex_admin))) ''admin'' = Some 1"
proof -
  have r: "ex_admin_role \<in> set (roles (st_db ex_admin))" by (simp add: ex_admin_def)
  have "length (filter (\<lambda>u. ex_admin_role \<in> set (roles_of (st_db ex_admin) (user_id u)))
      (users (st_db ex_admin))) = 1"
    by (simp add: ex_admin_def roles_of_def ex_verified_users) (simp add: ex_admin_role_def ex_user_def)
  moreover have "role_name ex_admin_role = ''admin''" by (simp add: ex_admin_role_def)
  moreover have "map_of (us_users_by_role (generate_user_summary_report (st_db ex_admin)))
      (role_name ex_admin_role) = (let k = length (filter (\<lambda>u. ex_admin_role \<in>
        set (roles_of (st_db ex_admin) (user_id u))) (users (st_db ex_admin)))
      in if k = 0 then None else Some k)"
    using report_counts_role_holders [OF ex_admin_facts(1)] r by blast
  ultimately show ?thesis by simp
qed

end
