(* ===== verification/FilesApi.thy ===== *)
theory FilesApi
  imports FileValidation Pagination Examples UserProfile
begin

text \<open>
  The file routes \<open>app/api/files.py\<close> over object storage \<open>app/services/storage.py\<close>. The S3
  client is a parameter, the record \<open>s3_ops\<close> of the five calls made on it, each on the state of
  the store; the locale \<open>object_store\<close> states what uploading and deleting do to the objects,
  read through a function the program itself does not have. A handler works on the pair of the
  application state and the store.
\<close>

record 'o s3_ops =
  s_head_bucket :: "'o \<Rightarrow> string \<Rightarrow> bool"
  s_create_bucket :: "'o \<Rightarrow> string \<Rightarrow> failure + 'o"
  s_upload_fileobj :: "'o \<Rightarrow> string \<Rightarrow> string \<Rightarrow> string \<Rightarrow> string option \<Rightarrow> failure + 'o"
  s_presign :: "'o \<Rightarrow> string \<Rightarrow> string \<Rightarrow> int \<Rightarrow> string"
  s_delete_object :: "'o \<Rightarrow> string \<Rightarrow> string \<Rightarrow> failure + 'o"

locale object_store =
  fixes S :: "'o s3_ops" and stored :: "'o \<Rightarrow> string \<Rightarrow> string \<Rightarrow> string option"
  assumes stored_upload: "s_upload_fileobj S o1 b k content ct = Inr o2 \<Longrightarrow>
      stored o2 b' k' = (if b' = b \<and> k' = k then Some content else stored o1 b' k')"
    and stored_create: "s_create_bucket S o1 b = Inr o2 \<Longrightarrow> stored o2 b' k' = stored o1 b' k'"
    and stored_delete: "s_delete_object S o1 b k = Inr o2 \<Longrightarrow>
      stored o2 b' k' = (if b' = b \<and> k' = k then None else stored o1 b' k')"

subsection \<open>Storage\<close>

definition is_storage_configured :: "settings \<Rightarrow> bool" where
  "is_storage_configured cfg = configured (s3_access_key_id cfg) (s3_secret_access_key cfg)"

definition ensure_bucket :: "'o s3_ops \<Rightarrow> settings \<Rightarrow> 'o \<Rightarrow> failure + 'o" where
  "ensure_bucket S cfg ob =
     (if s_head_bucket S ob (s3_bucket_name cfg) then Inr ob
      else s_create_bucket S ob (s3_bucket_name cfg))"

text \<open>\<open>hex\<close> is the fresh \<open>uuid4\<close> of the call; \<open>CHR 92\<close> is the backslash.\<close>

definition safe_name :: "string \<Rightarrow> string" where
  "safe_name filename = replace_char (CHR 92) CHR ''_'' (replace_char CHR ''/'' CHR ''_'' filename)"

definition build_object_key :: "string \<Rightarrow> int \<Rightarrow> string \<Rightarrow> string \<Rightarrow> string" where
  "build_object_key hex uid category filename =
     category @ ''/'' @ py_str uid @ ''/'' @ hex @ ''_'' @ safe_name filename"

definition upload_fileobj ::
  "'o s3_ops \<Rightarrow> settings \<Rightarrow> string \<Rightarrow> string \<Rightarrow> string option \<Rightarrow> 'o \<Rightarrow> (unit, 'o) handled" where
  "upload_fileobj S cfg content key content_type ob =
     (case ensure_bucket S cfg ob of
        Inl e \<Rightarrow> (Inl e, ob)
      | Inr ob1 \<Rightarrow>
          (case s_upload_fileobj S ob1 (s3_bucket_name cfg) key content
                  (case content_type of None \<Rightarrow> None | Some ct \<Rightarrow> if ct = [] then None else Some ct) of
             Inl e \<Rightarrow> (Inl e, ob1)
           | Inr ob2 \<Rightarrow> (Inr (), ob2)))"

definition generate_presigned_url :: "'o s3_ops \<Rightarrow> settings \<Rightarrow> string \<Rightarrow> 'o \<Rightarrow> string" where
  "generate_presigned_url S cfg key ob = s_presign S ob (s3_bucket_name cfg) key 3600"

definition delete_object :: "'o s3_ops \<Rightarrow> settings \<Rightarrow> string \<Rightarrow> 'o \<Rightarrow> failure + 'o" where
  "delete_object S cfg key ob = s_delete_object S ob (s3_bucket_name cfg) key"

subsection \<open>The table\<close>

definition get_file_row :: "database \<Rightarrow> int \<Rightarrow> file_upload option" where
  "get_file_row d i = row_get file_id (file_uploads d) i"

definition insert_file ::
  "database \<Rightarrow> int \<Rightarrow> string \<Rightarrow> string \<Rightarrow> string \<Rightarrow> int \<Rightarrow> string \<Rightarrow> time \<Rightarrow>
     failure + (file_upload \<times> database)" where
  "insert_file d uid filename content_type category size_bytes key now =
     (if list_ex (\<lambda>f. file_storage_key f = key) (file_uploads d) then Inl integrity_error
      else let f = \<lparr>file_id = seq_file_uploads d, file_user_id = uid, file_filename = filename,
                    file_content_type = content_type, file_category = category,
                    file_size_bytes = size_bytes, file_storage_key = key, file_created_at = now\<rparr>
           in Inr (f, d\<lparr>file_uploads := row_add (file_uploads d) f,
                        seq_file_uploads := seq_file_uploads d + 1\<rparr>))"

definition delete_file_row :: "database \<Rightarrow> int \<Rightarrow> database" where
  "delete_file_row d i = d\<lparr>file_uploads := row_delete file_id (file_uploads d) i\<rparr>"

subsection \<open>The routes\<close>

definition FILE_SORT_FIELDS :: "string list" where
  "FILE_SORT_FIELDS = [''id'', ''created_at'', ''size_bytes'', ''filename'']"

definition storage_not_configured :: failure where
  "storage_not_configured = HTTPException 503 ''File storage is not configured'' []"

definition quoted :: "string \<Rightarrow> string" where
  "quoted s = [CHR 39] @ s @ [CHR 39]"

record file_upload_response =
  fr_id :: int
  fr_filename :: string
  fr_content_type :: string
  fr_category :: string
  fr_size_bytes :: int
  fr_created_at :: time

definition to_file_response :: "file_upload \<Rightarrow> file_upload_response" where
  "to_file_response f =
     \<lparr>fr_id = file_id f, fr_filename = file_filename f, fr_content_type = file_content_type f,
      fr_category = file_category f, fr_size_bytes = file_size_bytes f,
      fr_created_at = file_created_at f\<rparr>"

record upload_form =
  up_category :: string
  up_filename :: "string option"
  up_content_type :: "string option"
  up_content :: string

definition upload_name :: "upload_form \<Rightarrow> string" where
  "upload_name form =
     (case up_filename form of None \<Rightarrow> ''upload'' | Some n \<Rightarrow> if n = [] then ''upload'' else n)"

text \<open>The checks, in order, that come before anything is stored: the size and the type.\<close>

definition validate_upload :: "settings \<Rightarrow> upload_form \<Rightarrow> failure + (nat \<times> string)" where
  "validate_upload cfg form =
     (if \<not> is_storage_configured cfg then Inl storage_not_configured
      else (case map_of CATEGORIES (up_category form) of
              None \<Rightarrow> Inl (HTTPException 400
                (''Unknown category '' @ quoted (up_category form) @ ''. Choose one of: ['' @
                 join '', '' (map quoted [''csv'', ''image'', ''pdf'', ''video'']) @ '']'') [])
            | Some category \<Rightarrow>
                (case (case up_content_type form of
                         None \<Rightarrow> None
                       | Some ct \<Rightarrow> if ct \<in> set (cat_allowed_content_types category) then Some ct else None) of
                   None \<Rightarrow> Inl (HTTPException 400
                     (''Content-Type '' @
                      quoted (case up_content_type form of None \<Rightarrow> ''None'' | Some ct \<Rightarrow> ct) @
                      '' is not allowed for '' @ up_category form @ '' uploads'') [])
                 | Some ct \<Rightarrow>
                     (case read_and_validate_stream (up_content form) category of
                        Inl e \<Rightarrow> Inl e
                      | Inr size_bytes \<Rightarrow>
                          (if up_category form = ''csv''
                           then (case validate_csv_content (up_content form) of
                                   Inl e \<Rightarrow> Inl e | Inr _ \<Rightarrow> Inr (size_bytes, ct))
                           else Inr (size_bytes, ct))))))"

definition store_upload ::
  "'o s3_ops \<Rightarrow> settings \<Rightarrow> time \<Rightarrow> string \<Rightarrow> upload_form \<Rightarrow> user \<Rightarrow>
     'r app_state \<times> 'o \<Rightarrow> (file_upload_response, 'r app_state \<times> 'o) handled" where
  "store_upload S cfg now hex form u so =
     (let (s, ob) = so in
      case validate_upload cfg form of
        Inl e \<Rightarrow> (Inl e, so)
      | Inr (size_bytes, ct) \<Rightarrow>
          (let storage_key = build_object_key hex (user_id u) (up_category form) (upload_name form) in
           case upload_fileobj S cfg (up_content form) storage_key (Some ct) ob of
             (Inl e, ob1) \<Rightarrow> (Inl e, (s, ob1))
           | (Inr _, ob1) \<Rightarrow>
               (case insert_file (st_db s) (user_id u) (upload_name form) ct (up_category form)
                       (int size_bytes) storage_key now of
                  Inl e \<Rightarrow> (Inl e, (s, ob1))
                | Inr (f, d) \<Rightarrow> (Inr (to_file_response f), (s\<lparr>st_db := d\<rparr>, ob1)))))"

definition for_current_user ::
  "'r env \<Rightarrow> time \<Rightarrow> string \<Rightarrow>
     (user \<Rightarrow> 'r app_state \<times> 'o \<Rightarrow> ('a, 'r app_state \<times> 'o) handled) \<Rightarrow>
     'r app_state \<times> 'o \<Rightarrow> ('a, 'r app_state \<times> 'o) handled" where
  "for_current_user E now credentials body so =
     after_dependency (get_current_user E now credentials (fst so), so) body"

definition upload_file ::
  "'r env \<Rightarrow> 'o s3_ops \<Rightarrow> time \<Rightarrow> string \<Rightarrow> string \<Rightarrow> upload_form \<Rightarrow>
     'r app_state \<times> 'o \<Rightarrow> (file_upload_response, 'r app_state \<times> 'o) handled" where
  "upload_file E S now credentials hex form so =
     for_current_user E now credentials (store_upload S (e_settings E) now hex form) so"

definition list_my_files ::
  "'r env \<Rightarrow> file_upload sql_ops \<Rightarrow> time \<Rightarrow> string \<Rightarrow> failure + offset_params \<Rightarrow>
     'r app_state \<times> 'o \<Rightarrow> (file_upload_response page, 'r app_state \<times> 'o) handled" where
  "list_my_files E Q now credentials pagination so =
     for_current_user E now credentials
       (\<lambda>u (s, ob). case pagination of
          Inl e \<Rightarrow> (Inl e, (s, ob))
        | Inr params \<Rightarrow>
            (let statement = filter (\<lambda>f. file_user_id f = user_id u) (file_uploads (st_db s));
                 statement = apply_sort Q FILE_SORT_FIELDS params statement
             in case paginate_offset statement params of
                  Inl e \<Rightarrow> (Inl e, (s, ob))
                | Inr p \<Rightarrow>
                    (Inr \<lparr>pg_items = map to_file_response (pg_items p), pg_total = pg_total p,
                      pg_limit = pg_limit p, pg_offset = pg_offset p, pg_has_more = pg_has_more p\<rparr>,
                     (s, ob)))) so"

definition file_not_found :: failure where
  "file_not_found = HTTPException 404 ''File not found'' []"

text \<open>The row of a file of the caller; a file of somebody else is treated like a missing one.\<close>

definition own_file :: "database \<Rightarrow> user \<Rightarrow> int \<Rightarrow> file_upload option" where
  "own_file d u i =
     (case get_file_row d i of
        None \<Rightarrow> None | Some f \<Rightarrow> if file_user_id f \<noteq> user_id u then None else Some f)"

definition get_file ::
  "'r env \<Rightarrow> 'o s3_ops \<Rightarrow> time \<Rightarrow> string \<Rightarrow> int \<Rightarrow>
     'r app_state \<times> 'o \<Rightarrow> (file_upload_response \<times> string, 'r app_state \<times> 'o) handled" where
  "get_file E S now credentials i so =
     for_current_user E now credentials
       (\<lambda>u (s, ob). case own_file (st_db s) u i of
          None \<Rightarrow> (Inl file_not_found, (s, ob))
        | Some f \<Rightarrow>
            if \<not> is_storage_configured (e_settings E) then (Inl storage_not_configured, (s, ob))
            else (Inr (to_file_response f,
                       generate_presigned_url S (e_settings E) (file_storage_key f) ob), (s, ob))) so"

definition delete_file ::
  "'r env \<Rightarrow> 'o s3_ops \<Rightarrow> time \<Rightarrow> string \<Rightarrow> int \<Rightarrow>
     'r app_state \<times> 'o \<Rightarrow> (unit, 'r app_state \<times> 'o) handled" where
  "delete_file E S now credentials i so =
     for_current_user E now credentials
       (\<lambda>u (s, ob). case own_file (st_db s) u i of
          None \<Rightarrow> (Inl file_not_found, (s, ob))
        | Some f \<Rightarrow>
            if \<not> is_storage_configured (e_settings E) then (Inl storage_not_configured, (s, ob))
            else (case delete_object S (e_settings E) (file_storage_key f) ob of
                    Inl e \<Rightarrow> (Inl e, (s, ob))
                  | Inr ob1 \<Rightarrow> (Inr (), (s\<lparr>st_db := delete_file_row (st_db s) (file_id f)\<rparr>, ob1)))) so"

subsection \<open>A reference store\<close>

type_synonym ref_objects = "string \<Rightarrow> (string \<Rightarrow> string option) option"

definition ref_stored :: "ref_objects \<Rightarrow> string \<Rightarrow> string \<Rightarrow> string option" where
  "ref_stored ob b k = (case ob b of None \<Rightarrow> None | Some objs \<Rightarrow> objs k)"

definition ref_s3 :: "ref_objects s3_ops" where
  "ref_s3 =
     \<lparr>s_head_bucket = (\<lambda>ob b. ob b \<noteq> None),
      s_create_bucket = (\<lambda>ob b. if ob b = None then Inr (ob(b \<mapsto> Map.empty)) else Inl (Unhandled ''ClientError'')),
      s_upload_fileobj = (\<lambda>ob b k content ct. case ob b of
         None \<Rightarrow> Inl (Unhandled ''ClientError'') | Some objs \<Rightarrow> Inr (ob(b \<mapsto> objs(k \<mapsto> content)))),
      s_presign = (\<lambda>ob b k secs. b @ ''/'' @ k),
      s_delete_object = (\<lambda>ob b k. case ob b of
         None \<Rightarrow> Inl (Unhandled ''ClientError'') | Some objs \<Rightarrow> Inr (ob(b \<mapsto> objs(k := None))))\<rparr>"

interpretation ref_s3: object_store ref_s3 ref_stored
  by unfold_locales (auto simp: ref_s3_def ref_stored_def split: option.splits if_splits)

subsection \<open>The file table\<close>

lemma get_file_SomeD: "get_file_row d i = Some f \<Longrightarrow> f \<in> set (file_uploads d) \<and> file_id f = i"
  by (simp add: get_file_row_def row_get_set)

lemma insert_file_Inr:
  "insert_file d uid fname ct cat n key now = Inr (f, d') \<longleftrightarrow>
     key \<notin> file_storage_key ` set (file_uploads d) \<and>
     f = \<lparr>file_id = seq_file_uploads d, file_user_id = uid, file_filename = fname,
          file_content_type = ct, file_category = cat, file_size_bytes = n,
          file_storage_key = key, file_created_at = now\<rparr> \<and>
     d' = d\<lparr>file_uploads := row_add (file_uploads d) f, seq_file_uploads := seq_file_uploads d + 1\<rparr>"
  by (auto simp: insert_file_def Let_def list_ex_iff image_iff)

lemma insert_file_inv:
  assumes "insert_file d uid fname ct cat n key now = Inr (f, d')" and "db_inv d"
    and "uid \<in> user_id ` set (users d)"
  shows "db_inv d'"
proof -
  have "files_wf d'"
    using assms by (fastforce simp: insert_file_Inr db_inv_def db_wf_def files_wf_def)
  moreover have "users d' = users d" "oauth_accounts d' = oauth_accounts d" "rbac_wf d'" "users_wf d'" "oauth_wf d'"
    using assms(1,2) by (auto simp: insert_file_Inr db_inv_def db_wf_def rbac_wf_def users_wf_def oauth_wf_def)
  ultimately show ?thesis
    using assms(2) sign_in_ok_mono [of d' d] by (simp add: db_inv_def db_wf_def)
qed

lemma delete_file_row_inv: "db_inv d \<Longrightarrow> db_inv (delete_file_row d i)"
  using sign_in_ok_mono [of "delete_file_row d i" d]
  by (simp add: delete_file_row_def db_inv_def db_wf_def users_wf_def oauth_wf_def rbac_wf_def
      files_wf_def distinct_row_delete)

subsection \<open>Uploading\<close>

lemma upload_file_stages:
  assumes "upload_file E S now tok hex form (s, ob) = (Inr resp, (s1, ob1))"
  obtains u n ct f d where "get_current_user E now tok s = Inr u"
    "validate_upload (e_settings E) form = Inr (n, ct)"
    "upload_fileobj S (e_settings E) (up_content form)
       (build_object_key hex (user_id u) (up_category form) (upload_name form)) (Some ct) ob = (Inr (), ob1)"
    "insert_file (st_db s) (user_id u) (upload_name form) ct (up_category form) (int n)
       (build_object_key hex (user_id u) (up_category form) (upload_name form)) now = Inr (f, d)"
    "resp = to_file_response f" "s1 = s\<lparr>st_db := d\<rparr>"
  using assms
  by (auto simp: upload_file_def for_current_user_def after_dependency_def store_upload_def Let_def
      split: sum.splits prod.splits)

lemma validate_upload_Inr:
  assumes "validate_upload cfg form = Inr (n, ct)"
  obtains category where "map_of CATEGORIES (up_category form) = Some category"
    "up_content_type form = Some ct" "ct \<in> set (cat_allowed_content_types category)"
    "read_and_validate_stream (up_content form) category = Inr n" "is_storage_configured cfg"
  using assms by (auto simp: validate_upload_def split: if_splits option.splits sum.splits)

context object_store begin

lemma stored_upload_fileobj:
  assumes "upload_fileobj S cfg content key ct ob = (Inr (), ob1)"
  shows "stored ob1 b k = (if b = s3_bucket_name cfg \<and> k = key then Some content else stored ob b k)"
  using assms stored_upload stored_create
  by (fastforce simp: upload_fileobj_def ensure_bucket_def split: sum.splits if_splits)
end

subsection \<open>Properties of the file routes\<close>

lemma own_file_SomeD:
  "own_file d u i = Some f \<Longrightarrow> f \<in> set (file_uploads d) \<and> file_id f = i \<and> file_user_id f = user_id u"
  by (auto simp: own_file_def dest: get_file_SomeD split: option.splits if_splits)

lemma own_file_in:
  "db_wf d \<Longrightarrow> f \<in> set (file_uploads d) \<Longrightarrow> file_user_id f = user_id u \<Longrightarrow> own_file d u (file_id f) = Some f"
  by (simp add: own_file_def get_file_row_def db_wf_def files_wf_def row_get_in)

lemma own_file_None:
  "\<forall>f \<in> set (file_uploads d). file_id f = i \<longrightarrow> file_user_id f \<noteq> user_id u \<Longrightarrow> own_file d u i = None"
  by (metis own_file_SomeD option.exhaust)

text \<open>Only the two slashes of the template are in a key: a name cannot add a path component.\<close>

definition path_depth :: "string \<Rightarrow> nat" where
  "path_depth key = length (filter (\<lambda>c. c = CHR ''/'') key)"

lemma path_depth_append [simp]: "path_depth (a @ b) = path_depth a + path_depth b"
  by (simp add: path_depth_def)

lemma path_depth_none: "CHR ''/'' \<notin> set s \<Longrightarrow> path_depth s = 0"
  by (auto simp: path_depth_def filter_empty_conv)

lemma py_str_no_slash: "CHR ''/'' \<notin> set (py_str n)"
proof -
  have "\<not> is_decimal_char CHR ''/''" by (simp add: is_decimal_char_def code_def)
  then show ?thesis using nat_digits_decimal [of "CHR ''/''"] by (auto simp: py_str_def)
qed

lemma object_key_depth:
  assumes "map_of CATEGORIES category = Some c" and "CHR ''/'' \<notin> set hex"
  shows "path_depth (build_object_key hex uid category filename) = 2"
proof -
  have "path_depth category = 0"
    using assms(1) by (auto simp: CATEGORIES_def IMAGE_def PDF_def CSV_def VIDEO_def path_depth_def
        split: if_splits)
  moreover have "CHR ''/'' \<notin> set (safe_name filename)"
    by (auto simp: safe_name_def replace_char_def)
  ultimately show ?thesis
    using assms(2) py_str_no_slash [of uid] path_depth_none [of hex] path_depth_none [of "safe_name filename"]
      path_depth_none [of "py_str uid"]
    by (simp add: build_object_key_def) (simp add: path_depth_def)
qed

text \<open>C22. What an upload leaves behind. When the route answers with success, the file was within
  its category's size, not empty and of an allowed content type; the store has its exact bytes
  under a fresh key of the caller, two directories deep whatever the file is called, and nothing
  else in the store changed; the table has one new row, of the caller, with the exact size and
  that key, and nothing else in the state changed. Asking for the file then answers with the row
  and a link to that object.\<close>

theorem upload_stores_exactly:
  assumes "object_store S stored" and "db_inv (st_db s)" and "CHR ''/'' \<notin> set hex"
    and "upload_file E S now tok hex form (s, ob) = (Inr resp, (s1, ob1))"
  shows "\<exists>u f category.
     get_current_user E now tok s = Inr u \<and> resp = to_file_response f \<and>
     file_user_id f = user_id u \<and> file_size_bytes f = int (length (up_content form)) \<and>
     file_storage_key f = build_object_key hex (user_id u) (up_category form) (upload_name form) \<and>
     path_depth (file_storage_key f) = 2 \<and>
     file_storage_key f \<notin> file_storage_key ` set (file_uploads (st_db s)) \<and>
     map_of CATEGORIES (up_category form) = Some category \<and>
     length (up_content form) \<in> {1..cat_max_size_bytes category} \<and>
     file_content_type f \<in> set (cat_allowed_content_types category) \<and>
     up_content_type form = Some (file_content_type f) \<and>
     stored ob1 = (stored ob)(s3_bucket_name (e_settings E) :=
       (stored ob (s3_bucket_name (e_settings E)))(file_storage_key f \<mapsto> up_content form)) \<and>
     s1 = s\<lparr>st_db := (st_db s)\<lparr>file_uploads := file_uploads (st_db s) @ [f],
                               seq_file_uploads := seq_file_uploads (st_db s) + 1\<rparr>\<rparr> \<and>
     db_inv (st_db s1) \<and>
     get_file E S now tok (fr_id resp) (s1, ob1) =
       (Inr (resp, s_presign S ob1 (s3_bucket_name (e_settings E)) (file_storage_key f) 3600), (s1, ob1))"
proof -
  obtain u n ct f d where u: "get_current_user E now tok s = Inr u"
    and v: "validate_upload (e_settings E) form = Inr (n, ct)"
    and up: "upload_fileobj S (e_settings E) (up_content form)
       (build_object_key hex (user_id u) (up_category form) (upload_name form)) (Some ct) ob = (Inr (), ob1)"
    and ins: "insert_file (st_db s) (user_id u) (upload_name form) ct (up_category form) (int n)
       (build_object_key hex (user_id u) (up_category form) (upload_name form)) now = Inr (f, d)"
    and r: "resp = to_file_response f" "s1 = s\<lparr>st_db := d\<rparr>"
    using upload_file_stages [OF assms(4)] by metis
  have eff: "stored ob1 b k = (if b = s3_bucket_name (e_settings E) \<and>
         k = build_object_key hex (user_id u) (up_category form) (upload_name form)
       then Some (up_content form) else stored ob b k)" for b k
    using object_store.stored_upload_fileobj [OF assms(1) up] by metis
  obtain category where cat: "map_of CATEGORIES (up_category form) = Some category"
    "up_content_type form = Some ct" "ct \<in> set (cat_allowed_content_types category)"
    "read_and_validate_stream (up_content form) category = Inr n" "is_storage_configured (e_settings E)"
    using validate_upload_Inr [OF v] by metis
  have size: "n = length (up_content form)" "n \<in> {1..cat_max_size_bytes category}"
    using read_and_validate_bounds [OF cat(4)] by auto
  have inv: "db_inv d"
    using insert_file_inv [OF ins assms(2)] current_user_in [OF u] by blast
  have f: "f \<in> set (file_uploads d)" "file_user_id f = user_id u"
    "file_storage_key f = build_object_key hex (user_id u) (up_category form) (upload_name form)"
    "users d = users (st_db s)" "file_content_type f = ct" "file_size_bytes f = int n"
    "file_storage_key f \<notin> file_storage_key ` set (file_uploads (st_db s))"
    "d = (st_db s)\<lparr>file_uploads := file_uploads (st_db s) @ [f],
                   seq_file_uploads := seq_file_uploads (st_db s) + 1\<rparr>"
    using ins by (auto simp: insert_file_Inr row_add_def)
  have fr: "fr_id (to_file_response f) = file_id f" by (simp add: to_file_response_def)
  have "get_current_user E now tok s1 = Inr u"
    using u get_current_user_cong [of s1 s] f(4) by (simp add: r(2))
  moreover have "own_file d u (file_id f) = Some f"
    using own_file_in inv f(1,2) by (simp add: db_inv_def)
  ultimately have "get_file E S now tok (fr_id resp) (s1, ob1) =
      (Inr (resp, s_presign S ob1 (s3_bucket_name (e_settings E)) (file_storage_key f) 3600), (s1, ob1))"
    using cat(5) by (simp add: get_file_def for_current_user_def r generate_presigned_url_def fr)
  moreover have "stored ob1 = (stored ob)(s3_bucket_name (e_settings E) :=
       (stored ob (s3_bucket_name (e_settings E)))(file_storage_key f \<mapsto> up_content form))"
    by (intro ext) (simp add: eff f(3))
  ultimately show ?thesis
    using u r f cat size inv object_key_depth [OF cat(1) assms(3)]
    by (intro exI [of _ u] exI [of _ f] exI [of _ category]) simp
qed

subsection \<open>A worked upload\<close>

definition ex_s3_settings :: settings where
  "ex_s3_settings = ex_settings\<lparr>s3_access_key_id := Some ''k'', s3_secret_access_key := Some ''s''\<rparr>"

definition ex_form :: upload_form where
  "ex_form = \<lparr>up_category = ''pdf'', up_filename = Some ''../a'', up_content_type = Some ''application/pdf'',
              up_content = ''%PDF-''\<rparr>"

definition ex_file :: file_upload where
  "ex_file = \<lparr>file_id = 1, file_user_id = 1, file_filename = ''../a'', file_content_type = ''application/pdf'',
     file_category = ''pdf'', file_size_bytes = 5, file_storage_key = build_object_key ''f0'' 1 ''pdf'' ''../a'',
     file_created_at = 20 * second\<rparr>"

definition ex_uploaded :: "ref_store app_state" where
  "ex_uploaded = ex_verified\<lparr>st_db := (st_db ex_verified)\<lparr>file_uploads := [ex_file], seq_file_uploads := 2\<rparr>\<rparr>"

definition ex_objects :: ref_objects where
  "ex_objects = [s3_bucket_name ex_s3_settings \<mapsto> [file_storage_key ex_file \<mapsto> ''%PDF-'']]"

lemma ex_s3_current: "get_current_user (ref_env ex_s3_settings) (20 * second) ex_access ex_verified =
    Inr (ex_user\<lparr>user_is_verified := True\<rparr>)"
proof -
  have "decode_access_token ref_jwt ex_s3_settings now t = decode_access_token ref_jwt ex_settings now t" for now t
    by (simp add: decode_access_token_def decode_token_def ex_s3_settings_def)
  then show ?thesis using ex_current by (simp add: get_current_user_def cong: option.case_cong)
qed

lemma ex_files: "file_uploads (st_db ex_verified) = []" "seq_file_uploads (st_db ex_verified) = 1"
  by (simp_all add: ex_verified_def verified_by_def ex_registered_def empty_database_def)

lemma ex_upload:
  "upload_file (ref_env ex_s3_settings) ref_s3 (20 * second) ex_access ''f0'' ex_form (ex_verified, Map.empty) =
     (Inr (to_file_response ex_file), (ex_uploaded, ex_objects))"
proof -
  have chunk: "take CHUNK_SIZE ''%PDF-'' = ''%PDF-''" "drop CHUNK_SIZE ''%PDF-'' = []"
    by (simp_all add: CHUNK_SIZE_def)
  have empty: "read_chunks PDF [] n h = Inr (n, h)" for n h by (subst read_chunks.simps) simp
  have "cat_max_size_bytes PDF = 20971520" by (simp add: PDF_def)
  then have "read_chunks PDF ''%PDF-'' 0 [] = Inr (5, ''%PDF-'')"
    by (subst read_chunks.simps)
       (simp add: chunk empty scan_chunk_for_viruses_def EICAR_SIGNATURE_def SIGNATURE_HEAD_SIZE_def)
  then have "read_and_validate_stream ''%PDF-'' PDF = Inr 5"
    by (simp add: read_and_validate_stream_def) (simp add: PDF_def looks_like_pdf_def)
  moreover have "map_of CATEGORIES ''pdf'' = Some PDF" "cat_allowed_content_types PDF = [''application/pdf'']"
    by (simp_all add: CATEGORIES_def IMAGE_def PDF_def CSV_def VIDEO_def)
  moreover have "is_storage_configured ex_s3_settings"
    by (simp add: is_storage_configured_def ex_s3_settings_def configured_def)
  ultimately have "validate_upload ex_s3_settings ex_form = Inr (5, ''application/pdf'')"
    by (simp add: validate_upload_def ex_form_def)
  then have "store_upload ref_s3 ex_s3_settings (20 * second) ''f0'' ex_form
      (ex_user\<lparr>user_is_verified := True\<rparr>) (ex_verified, Map.empty) =
      (Inr (to_file_response ex_file), (ex_uploaded, ex_objects))"
    by (simp add: store_upload_def upload_fileobj_def ensure_bucket_def ref_s3_def insert_file_def
        ex_files ex_uploaded_def ex_objects_def)
      (simp add: ex_form_def ex_file_def ex_user_def upload_name_def row_add_def Let_def)
  then show ?thesis
    using ex_s3_current by (simp only: upload_file_def for_current_user_def fst_conv
      after_dependency_simps ref_env_simps)
qed

theorem upload_stores_exactly_witness:
  "file_storage_key ex_file = build_object_key ''f0'' 1 ''pdf'' ''../a'' \<and>
   path_depth (file_storage_key ex_file) = 2 \<and>
   ref_stored ex_objects (s3_bucket_name ex_s3_settings) (file_storage_key ex_file) = Some ''%PDF-''"
proof -
  have "CHR ''/'' \<notin> set ''f0''" by simp
  from upload_stores_exactly [OF ref_s3.object_store_axioms ex_verified_user(2) this ex_upload]
  obtain u and f :: file_upload where f: "get_current_user (ref_env ex_s3_settings) (20 * second) ex_access ex_verified = Inr u"
    "file_storage_key f = build_object_key ''f0'' (user_id u) (up_category ex_form) (upload_name ex_form)"
    "path_depth (file_storage_key f) = 2"
    "ref_stored ex_objects = (ref_stored Map.empty)(s3_bucket_name ex_s3_settings :=
       (ref_stored Map.empty (s3_bucket_name ex_s3_settings))(file_storage_key f \<mapsto> up_content ex_form))"
    unfolding ref_env_simps by blast
  have "u = ex_user\<lparr>user_is_verified := True\<rparr>" using f(1) ex_s3_current by simp
  then have "file_storage_key f = file_storage_key ex_file"
    using f(2) by (simp add: ex_user_def ex_form_def upload_name_def) (simp add: ex_file_def)
  with f(3,4) show ?thesis by (simp add: ex_form_def) (simp add: ex_file_def)
qed

text \<open>C23. Only the owner reaches a file. For an authenticated caller the listing holds rows of the
  caller only; a file that does not exist and one of somebody else answer alike, with a 404 that
  leaves everything as it was; a successful deletion was of a file of the caller and removes
  exactly its row and its object.\<close>

theorem files_owner_only:
  assumes "object_store S stored" and "sql_engine Q file_id" and "db_inv (st_db s)"
    and "get_current_user E now tok s = Inr u"
  shows "(\<forall>pg so. list_my_files E Q now tok pagination (s, ob) = (Inr pg, so) \<longrightarrow>
      so = (s, ob) \<and> pg_total pg = length [f \<leftarrow> file_uploads (st_db s). file_user_id f = user_id u] \<and>
      set (pg_items pg) \<subseteq>
        to_file_response ` {f \<in> set (file_uploads (st_db s)). file_user_id f = user_id u}) \<and>
    ((\<forall>f \<in> set (file_uploads (st_db s)). file_id f = i \<longrightarrow> file_user_id f \<noteq> user_id u) \<longrightarrow>
      get_file E S now tok i (s, ob) = (Inl file_not_found, (s, ob)) \<and>
      delete_file E S now tok i (s, ob) = (Inl file_not_found, (s, ob))) \<and>
    (\<forall>s1 ob1. delete_file E S now tok i (s, ob) = (Inr (), (s1, ob1)) \<longrightarrow>
      (\<exists>f \<in> set (file_uploads (st_db s)). file_id f = i \<and> file_user_id f = user_id u \<and>
        s1 = s\<lparr>st_db := (st_db s)\<lparr>file_uploads := remove1 f (file_uploads (st_db s))\<rparr>\<rparr> \<and>
        db_inv (st_db s1) \<and>
        stored ob1 = (stored ob)(s3_bucket_name (e_settings E) :=
          (stored ob (s3_bucket_name (e_settings E)))(file_storage_key f := None))))"
proof (intro conjI allI impI)
  fix pg so assume l: "list_my_files E Q now tok pagination (s, ob) = (Inr pg, so)"
  then obtain params where params: "pagination = Inr params"
    by (cases pagination) (auto simp: list_my_files_def for_current_user_def assms(4))
  note order = sql_engine.set_order [OF assms(2)] sql_engine.length_order [OF assms(2)]
  show "so = (s, ob)" "pg_total pg = length [f \<leftarrow> file_uploads (st_db s). file_user_id f = user_id u]"
    using l by (auto simp: list_my_files_def for_current_user_def assms(4) params
        Let_def apply_sort_def order split: sum.splits dest!: paginate_offset_Inr)
  show "set (pg_items pg) \<subseteq>
      to_file_response ` {f \<in> set (file_uploads (st_db s)). file_user_id f = user_id u}"
    using l by (auto simp: list_my_files_def for_current_user_def assms(4) params
        Let_def apply_sort_def order split: sum.splits dest!: paginate_offset_Inr in_set_takeD in_set_dropD)
next
  assume "\<forall>f \<in> set (file_uploads (st_db s)). file_id f = i \<longrightarrow> file_user_id f \<noteq> user_id u"
  then have "own_file (st_db s) u i = None" by (rule own_file_None)
  then show "get_file E S now tok i (s, ob) = (Inl file_not_found, (s, ob))"
    "delete_file E S now tok i (s, ob) = (Inl file_not_found, (s, ob))"
    by (simp_all add: get_file_def delete_file_def for_current_user_def assms(4))
next
  fix s1 ob1 assume "delete_file E S now tok i (s, ob) = (Inr (), (s1, ob1))"
  then obtain f where f: "own_file (st_db s) u i = Some f"
    "delete_object S (e_settings E) (file_storage_key f) ob = Inr ob1"
    "s1 = s\<lparr>st_db := delete_file_row (st_db s) (file_id f)\<rparr>"
    by (auto simp: delete_file_def for_current_user_def assms(4) split: option.splits sum.splits if_splits)
  have in_table: "f \<in> set (file_uploads (st_db s))" "file_id f = i" "file_user_id f = user_id u"
    using own_file_SomeD [OF f(1)] by simp_all
  have "row_delete file_id (file_uploads (st_db s)) (file_id f) = remove1 f (file_uploads (st_db s))"
    using assms(3) in_table(1) by (intro row_delete_remove1) (simp_all add: db_inv_def db_wf_def files_wf_def)
  moreover have "stored ob1 = (stored ob)(s3_bucket_name (e_settings E) :=
      (stored ob (s3_bucket_name (e_settings E)))(file_storage_key f := None))"
    using object_store.stored_delete [OF assms(1)] f(2) by (intro ext) (simp add: delete_object_def)
  ultimately show "\<exists>f \<in> set (file_uploads (st_db s)). file_id f = i \<and> file_user_id f = user_id u \<and>
        s1 = s\<lparr>st_db := (st_db s)\<lparr>file_uploads := remove1 f (file_uploads (st_db s))\<rparr>\<rparr> \<and>
        db_inv (st_db s1) \<and>
        stored ob1 = (stored ob)(s3_bucket_name (e_settings E) :=
          (stored ob (s3_bucket_name (e_settings E)))(file_storage_key f := None))"
    using in_table f(3) delete_file_row_inv [OF assms(3), of i]
    by (intro bexI [of _ f]) (simp_all add: delete_file_row_def)
qed

text \<open>The first user deletes the uploaded file, and has no file with the number 2.\<close>

theorem files_owner_only_witness:
  "delete_file (ref_env ex_s3_settings) ref_s3 (20 * second) ex_access 2 (ex_uploaded, ex_objects) =
     (Inl file_not_found, (ex_uploaded, ex_objects)) \<and>
   (\<exists>s1 ob1. delete_file (ref_env ex_s3_settings) ref_s3 (20 * second) ex_access 1
       (ex_uploaded, ex_objects) = (Inr (), (s1, ob1)) \<and>
     file_uploads (st_db s1) = [] \<and>
     ref_stored ob1 (s3_bucket_name ex_s3_settings) (file_storage_key ex_file) = None)"
proof -
  have user: "get_current_user (ref_env ex_s3_settings) (20 * second) ex_access ex_uploaded =
      Inr (ex_user\<lparr>user_is_verified := True\<rparr>)"
    using ex_s3_current get_current_user_cong [of ex_uploaded ex_verified] by (simp add: ex_uploaded_def)
  have inv: "db_inv (st_db ex_uploaded)"
    using insert_file_inv [of "st_db ex_verified" 1 "''../a''" "''application/pdf''" "''pdf''" 5
        "file_storage_key ex_file" "20 * second" ex_file "st_db ex_uploaded"] ex_verified_user(2)
    by (simp add: insert_file_Inr ex_files ex_verified_users ex_uploaded_def row_add_def)
       (simp add: ex_file_def ex_user_def)
  have rows: "file_uploads (st_db ex_uploaded) = [ex_file]" by (simp add: ex_uploaded_def)
  have id: "file_id ex_file = 1" "user_id (ex_user\<lparr>user_is_verified := True\<rparr>) = 1"
    "file_user_id ex_file = 1" by (simp_all add: ex_file_def ex_user_def)
  note all = files_owner_only [OF ref_s3.object_store_axioms ref_sql.sql_engine_axioms inv user,
      where ob = ex_objects]
  have "own_file (st_db ex_uploaded) (ex_user\<lparr>user_is_verified := True\<rparr>) 1 = Some ex_file"
    by (simp add: own_file_def get_file_row_def row_get_def rows id)
  moreover have "is_storage_configured ex_s3_settings"
    by (simp add: is_storage_configured_def ex_s3_settings_def configured_def)
  moreover obtain ob1 where
    "delete_object ref_s3 ex_s3_settings (file_storage_key ex_file) ex_objects = Inr ob1"
    by (simp add: delete_object_def ref_s3_def ex_objects_def)
  ultimately obtain s1 where d: "delete_file (ref_env ex_s3_settings) ref_s3 (20 * second) ex_access 1
       (ex_uploaded, ex_objects) = (Inr (), (s1, ob1))"
    using user [simplified] by (simp add: delete_file_def for_current_user_def)
  with all [where i = 1] have "file_uploads (st_db s1) = [] \<and>
      ref_stored ob1 (s3_bucket_name ex_s3_settings) (file_storage_key ex_file) = None"
    by (auto simp: rows)
  with d all [where i = 2] show ?thesis by (auto simp: rows id)
qed

end
