(* ===== verification/Cleanup.thy ===== *)
theory Cleanup
  imports Examples
begin

text \<open>
  The scheduled job \<open>app/tasks/cleanup.py\<close>: it deletes the accounts that were not verified within
  a week, with everything that hangs on them. The task runs in one transaction, at the instant
  \<open>now\<close>.
\<close>

definition UNVERIFIED_USER_MAX_AGE_DAYS :: int where "UNVERIFIED_USER_MAX_AGE_DAYS = 7"

definition stale_users :: "database \<Rightarrow> time \<Rightarrow> user list" where
  "stale_users d now =
     (let cutoff = now - UNVERIFIED_USER_MAX_AGE_DAYS * (24 * 60 * 60 * second)
      in filter (\<lambda>u. \<not> user_is_verified u \<and> user_created_at u < cutoff) (users d))"

definition cleanup_unverified_users :: "time \<Rightarrow> 'r app_state \<Rightarrow> nat \<times> 'r app_state" where
  "cleanup_unverified_users now s =
     (let stale = stale_users (st_db s) now
      in (length stale,
          s\<lparr>st_db := fold (\<lambda>u d. delete_user d (user_id u)) stale (st_db s)\<rparr>))"

subsection \<open>What the job removes\<close>

lemma fold_delete:
  fixes us :: "user list"
  defines "gone \<equiv> user_id ` set us"
  shows "fold (\<lambda>u d. delete_user d (user_id u)) us d =
    d\<lparr>users := filter (\<lambda>u. user_id u \<notin> gone) (users d),
      oauth_accounts := filter (\<lambda>a. oauth_user_id a \<notin> gone) (oauth_accounts d),
      user_roles := filter (\<lambda>(uid, rid). uid \<notin> gone) (user_roles d),
      file_uploads := filter (\<lambda>f. file_user_id f \<notin> gone) (file_uploads d)\<rparr>"
  unfolding gone_def
proof (induction us arbitrary: d)
  case (Cons u us)
  have "(\<lambda>(uid, rid). uid \<notin> user_id ` set us \<and> uid \<noteq> user_id u) =
        (\<lambda>(uid, rid). uid \<noteq> user_id u \<and> uid \<notin> user_id ` set us)" by auto
  then show ?case
    by (simp add: Cons.IH) (simp add: delete_user_def row_delete_def conj_commute case_prod_unfold)
qed (simp add: case_prod_unfold)

lemma fold_delete_inv: "db_inv d \<Longrightarrow> db_inv (fold (\<lambda>u d. delete_user d (user_id u)) us d)"
  by (induction us arbitrary: d) (simp_all add: delete_user_inv)

text \<open>C31. The cleanup. Exactly the accounts that are not verified and older than seven days go, with
  their provider accounts, role grants and file rows, and their addresses are free again; every
  other account keeps everything it had, nothing else changes, the invariant of the database
  holds, and a second run at the same instant finds nothing to do.\<close>

theorem cleanup_effect:
  assumes "db_inv (st_db s)" and "cleanup_unverified_users now s = (n, s')"
  defines "kept \<equiv> \<lambda>u. user_is_verified u \<or> now - 7 * 86400 * second \<le> user_created_at u"
  shows "users (st_db s') = filter kept (users (st_db s)) \<and>
    n = length (filter (\<lambda>u. \<not> kept u) (users (st_db s))) \<and>
    (\<forall>u \<in> set (users (st_db s)).
      (if kept u
       then oauth_accounts_of (st_db s') (user_id u) = oauth_accounts_of (st_db s) (user_id u) \<and>
         roles_of (st_db s') (user_id u) = roles_of (st_db s) (user_id u) \<and>
         [f \<leftarrow> file_uploads (st_db s'). file_user_id f = user_id u] =
           [f \<leftarrow> file_uploads (st_db s). file_user_id f = user_id u]
       else oauth_accounts_of (st_db s') (user_id u) = [] \<and> roles_of (st_db s') (user_id u) = [] \<and>
         [f \<leftarrow> file_uploads (st_db s'). file_user_id f = user_id u] = [] \<and>
         select_user_by_email (st_db s') (user_email u) = None)) \<and>
    roles (st_db s') = roles (st_db s) \<and> db_inv (st_db s') \<and>
    s' = s\<lparr>st_db := st_db s'\<rparr> \<and> cleanup_unverified_users now s' = (0, s')"
proof -
  let ?d = "st_db s" and ?stale = "stale_users (st_db s) now"
  have stale: "?stale = filter (\<lambda>u. \<not> kept u) (users ?d)"
    by (auto simp: stale_users_def kept_def UNVERIFIED_USER_MAX_AGE_DAYS_def Let_def not_le intro: filter_cong)
  have n: "n = length ?stale" and s': "s' = s\<lparr>st_db := fold (\<lambda>u d. delete_user d (user_id u)) ?stale ?d\<rparr>"
    using assms(2) by (simp_all add: cleanup_unverified_users_def Let_def)
  have ids: "distinct (map user_id (users ?d))" and emails: "distinct (map user_email (users ?d))"
    using assms(1) by (simp_all add: db_inv_def db_wf_def users_wf_def)
  define gone where "gone = user_id ` set ?stale"
  have gone: "user_id u \<in> gone \<longleftrightarrow> \<not> kept u" if "u \<in> set (users ?d)" for u
    using that distinct_map_eq [OF ids] by (auto simp: gone_def stale)
  have d': "st_db s' = ?d\<lparr>users := filter (\<lambda>u. user_id u \<notin> gone) (users ?d),
      oauth_accounts := filter (\<lambda>a. oauth_user_id a \<notin> gone) (oauth_accounts ?d),
      user_roles := filter (\<lambda>(uid, rid). uid \<notin> gone) (user_roles ?d),
      file_uploads := filter (\<lambda>f. file_user_id f \<notin> gone) (file_uploads ?d)\<rparr>"
    by (simp add: s' fold_delete gone_def)
  have users: "users (st_db s') = filter kept (users ?d)"
    using gone by (simp add: d' cong: filter_cong)
  have keep: "oauth_accounts_of (st_db s') i = oauth_accounts_of ?d i \<and> roles_of (st_db s') i = roles_of ?d i \<and>
      [f \<leftarrow> file_uploads (st_db s'). file_user_id f = i] = [f \<leftarrow> file_uploads ?d. file_user_id f = i]"
    if "i \<notin> gone" for i
    using that by (auto simp: d' oauth_accounts_of_def roles_of_def intro!: filter_cong)
  have drop: "oauth_accounts_of (st_db s') i = [] \<and> roles_of (st_db s') i = [] \<and>
      [f \<leftarrow> file_uploads (st_db s'). file_user_id f = i] = []" if "i \<in> gone" for i
    using that by (auto simp: d' oauth_accounts_of_def roles_of_def filter_empty_conv)
  have free: "select_user_by_email (st_db s') (user_email u) = None"
    if "u \<in> set (users ?d)" "\<not> kept u" for u
    using that distinct_map_eq [OF emails] by (auto simp: select_user_None users)
  have inv: "db_inv (st_db s')" using fold_delete_inv [OF assms(1)] by (simp add: s')
  have "stale_users (st_db s') now = []"
    using users stale by (auto simp: stale_users_def kept_def UNVERIFIED_USER_MAX_AGE_DAYS_def Let_def
        filter_empty_conv not_less)
  then have "cleanup_unverified_users now s' = (0, s')"
    by (simp add: cleanup_unverified_users_def)
  moreover have "roles (st_db s') = roles ?d" by (simp add: d')
  moreover have "s' = s\<lparr>st_db := st_db s'\<rparr>" by (simp add: s')
  moreover have "n = length (filter (\<lambda>u. \<not> kept u) (users ?d))" using n stale by simp
  ultimately show ?thesis using users inv gone keep drop free by simp
qed

text \<open>Eight days after registering without following the link.\<close>

theorem cleanup_effect_witness:
  "\<exists>s'. cleanup_unverified_users (8 * 86400 * second) ex_registered = (1, s') \<and> users (st_db s') = [] \<and>
     select_user_by_email (st_db s') ''ab@c.de'' = None"
proof -
  obtain n s' where c: "cleanup_unverified_users (8 * 86400 * second) ex_registered = (n, s')" by fastforce
  have u: "users (st_db ex_registered) = [ex_user]" "\<not> user_is_verified ex_user" "user_created_at ex_user = 0"
    "user_email ex_user = ''ab@c.de''"
    by (simp_all add: ex_registered_def ex_user_def)
  show ?thesis
    using cleanup_effect [OF ex_inv(2) c] c by (simp add: u)
qed

end
