(* ===== verification/System.thy ===== *)
theory System
  imports AccountFlows AdminApi FilesApi Cleanup
begin

text \<open>
  The service as a whole: every HTTP route of \<open>app/api\<close> as one request of the datatype \<open>request\<close>,
  handled by the function of the code that the route names, and the scheduled cleanup, in any
  order and at any instants. The state is the one of the handlers together with the file store.
  The third parties of one request are the record \<open>parties\<close>; they may answer differently to
  every request. The values a request draws at random are the record \<open>drawn\<close>.
\<close>

subsection \<open>Requests\<close>

text \<open>Credentials are the token of the \<open>Authorization\<close> header; a client is the host it calls from.\<close>

datatype (plugins only: code size) request =
    RegisterUser "string option" string string
  | LoginUser "string option" string string
  | RefreshAccessToken string
  | Logout string "string option"
  | VerifyEmail string
  | ForgotPassword "string option" string
  | ResetPassword string string
  | OauthLogin string
  | OauthLink string string
  | OauthCallback string string string
  | ListLinkedAccounts string
  | UnlinkProvider string string
  | ReadCurrentUser string
  | UpdateCurrentUser string "string option"
  | ChangeCurrentUserPassword string string string
  | DeactivateCurrentUser string
  | ReadCurrentUserV2 string
  | UpdateCurrentUserV2 string "string option"
  | ChangeCurrentUserPasswordV2 string string string
  | DeactivateCurrentUserV2 string
  | ListUsers string int int "string option" string "string option" "bool option"
  | ListUsersFeed string "string option" int "string option"
  | UpdateUserStatus string int "bool option" "bool option"
  | AdminDeactivateUser string int
  | ListRoles string
  | AssignRole string int string
  | RevokeRole string int string
  | TriggerUserSummaryReport string
  | GetReportStatus string string
  | UploadFile string upload_form
  | ListMyFiles string int int "string option" string "string option"
  | GetFile string int
  | DeleteFile string int

record drawn =
  dr_jti1 :: string
  dr_jti2 :: string
  dr_salt :: string
  dr_state :: string
  dr_hex :: string
  dr_task_id :: string

record 'o parties =
  p_valid :: email_validator
  p_clients :: oauth_clients
  p_url_for :: "string \<Rightarrow> string"
  p_users_sql :: "user sql_ops"
  p_files_sql :: "file_upload sql_ops"
  p_backend :: "string \<Rightarrow> celery_result"
  p_deliver :: "int \<Rightarrow> failure option"
  p_s3 :: "'o s3_ops"

text \<open>The outcome of a route without the body of its response.\<close>

definition outcome :: "('a, 's) handled \<Rightarrow> (unit, 's) handled" where
  "outcome r = (case r of (Inl e, s) \<Rightarrow> (Inl e, s) | (Inr _, s) \<Rightarrow> (Inr (), s))"

definition on_app :: "('a, 'r app_state) handled \<Rightarrow> 'o \<Rightarrow> (unit, 'r app_state \<times> 'o) handled" where
  "on_app r ob = (case outcome r of (res, s) \<Rightarrow> (res, (s, ob)))"

fun handle ::
  "'r env \<Rightarrow> 'o parties \<Rightarrow> drawn \<Rightarrow> time \<Rightarrow> request \<Rightarrow> 'r app_state \<times> 'o \<Rightarrow>
     (unit, 'r app_state \<times> 'o) handled" where
  "handle E P x now (RegisterUser client e p) (s, ob) =
     on_app (register_route E (p_valid P) now client (dr_jti1 x) (dr_salt x) e p s) ob"
| "handle E P x now (LoginUser client e p) (s, ob) =
     on_app (login_route E (p_valid P) now client (dr_jti1 x) (dr_jti2 x) e p s) ob"
| "handle E P x now (RefreshAccessToken tok) (s, ob) =
     on_app (refresh_access_token E now (dr_jti1 x) tok s) ob"
| "handle E P x now (Logout cred tok) (s, ob) = on_app (logout E now cred tok s) ob"
| "handle E P x now (VerifyEmail tok) (s, ob) = on_app (verify_email E now tok s) ob"
| "handle E P x now (ForgotPassword client e) (s, ob) =
     on_app (forgot_password_route E (p_valid P) now client (dr_jti1 x) e s) ob"
| "handle E P x now (ResetPassword tok p) (s, ob) =
     on_app (reset_password_route E now (dr_salt x) tok p s) ob"
| "handle E P x now (OauthLogin provider) (s, ob) =
     on_app (oauth_login E (p_clients P) (p_url_for P) now (dr_state x) provider s) ob"
| "handle E P x now (OauthLink cred provider) (s, ob) =
     on_app (oauth_link E (p_clients P) (p_url_for P) now cred (dr_state x) provider s) ob"
| "handle E P x now (OauthCallback provider auth_code st) (s, ob) =
     on_app (oauth_callback E (p_clients P) (p_url_for P) now (dr_jti1 x) (dr_jti2 x) provider
       auth_code st s) ob"
| "handle E P x now (ListLinkedAccounts cred) (s, ob) = on_app (list_linked_accounts E now cred s) ob"
| "handle E P x now (UnlinkProvider cred provider) (s, ob) = on_app (unlink_provider E now cred provider s) ob"
| "handle E P x now (ReadCurrentUser cred) (s, ob) = on_app (read_current_user E now cred s) ob"
| "handle E P x now (UpdateCurrentUser cred e) (s, ob) =
     on_app (update_current_user E (p_valid P) now cred e s) ob"
| "handle E P x now (ChangeCurrentUserPassword cred old new) (s, ob) =
     on_app (change_current_user_password E now cred (dr_salt x) old new s) ob"
| "handle E P x now (DeactivateCurrentUser cred) (s, ob) = on_app (deactivate_current_user E now cred s) ob"
| "handle E P x now (ReadCurrentUserV2 cred) (s, ob) = on_app (read_current_user_v2 E now cred s) ob"
| "handle E P x now (UpdateCurrentUserV2 cred e) (s, ob) =
     on_app (update_current_user_v2 E (p_valid P) now cred e s) ob"
| "handle E P x now (ChangeCurrentUserPasswordV2 cred old new) (s, ob) =
     on_app (change_current_user_password_v2 E now cred (dr_salt x) old new s) ob"
| "handle E P x now (DeactivateCurrentUserV2 cred) (s, ob) =
     on_app (deactivate_current_user_v2 E now cred s) ob"
| "handle E P x now (ListUsers cred limit offset by dir q active) (s, ob) =
     on_app (list_users E (p_users_sql P) now cred (get_offset_pagination limit offset by dir q) active s) ob"
| "handle E P x now (ListUsersFeed cred cursor limit q) (s, ob) =
     on_app (list_users_feed E (p_users_sql P) now cred (get_cursor_pagination cursor limit q) s) ob"
| "handle E P x now (UpdateUserStatus cred uid active verified) (s, ob) =
     on_app (update_user_status E now cred uid active verified s) ob"
| "handle E P x now (AdminDeactivateUser cred uid) (s, ob) = on_app (admin_deactivate_user E now cred uid s) ob"
| "handle E P x now (ListRoles cred) (s, ob) = on_app (list_roles E now cred s) ob"
| "handle E P x now (AssignRole cred uid n) (s, ob) = on_app (assign_role E (p_deliver P) now cred uid n s) ob"
| "handle E P x now (RevokeRole cred uid n) (s, ob) = on_app (revoke_role E now cred uid n s) ob"
| "handle E P x now (TriggerUserSummaryReport cred) (s, ob) =
     on_app (trigger_user_summary_report E (p_backend P) now cred (dr_task_id x) s) ob"
| "handle E P x now (GetReportStatus cred i) (s, ob) = on_app (get_report_status E (p_backend P) now cred i s) ob"
| "handle E P x now (UploadFile cred form) so = outcome (upload_file E (p_s3 P) now cred (dr_hex x) form so)"
| "handle E P x now (ListMyFiles cred limit offset by dir q) so =
     outcome (list_my_files E (p_files_sql P) now cred (get_offset_pagination limit offset by dir q) so)"
| "handle E P x now (GetFile cred i) so = outcome (get_file E (p_s3 P) now cred i so)"
| "handle E P x now (DeleteFile cred i) so = outcome (delete_file E (p_s3 P) now cred i so)"

subsection \<open>Runs\<close>

text \<open>A Redis server that holds no state values of OAuth flows, as a new one does.\<close>

definition no_oauth_states :: "'r redis_ops \<Rightarrow> 'r \<Rightarrow> bool" where
  "no_oauth_states R r \<longleftrightarrow> (\<forall>t st. r_get R r t (STATE_KEY_PREFIX @ st) = None)"

text \<open>Primary keys are 32-bit: a sequence that has reached the end of them inserts no more.\<close>

definition ids_in_range :: "database \<Rightarrow> bool" where
  "ids_in_range d \<longleftrightarrow> (\<forall>u \<in> set (users d). 0 < user_id u \<and> user_id u < 2 ^ 31)"

inductive served :: "'r env \<Rightarrow> time \<Rightarrow> 'r app_state \<times> 'o \<Rightarrow> bool" for E where
  start: "db_inv (st_db s) \<Longrightarrow> no_oauth_states (e_redis E) (st_redis s) \<Longrightarrow> served E t (s, ob)"
| request: "served E t (s, ob) \<Longrightarrow> t \<le> t' \<Longrightarrow> ids_in_range (st_db s) \<Longrightarrow>
    handle E P x t' rq (s, ob) = (res, so) \<Longrightarrow> served E t' so"
| cleanup: "served E t (s, ob) \<Longrightarrow> t \<le> t' \<Longrightarrow> cleanup_unverified_users t' s = (n, s') \<Longrightarrow>
    served E t' (s', ob)"

subsection \<open>The invariant of Redis\<close>

definition states_ok :: "'r redis_ops \<Rightarrow> time \<Rightarrow> 'r \<Rightarrow> bool" where
  "states_ok R t r \<longleftrightarrow>
     (\<forall>t' \<ge> t. \<forall>st v. r_get R r t' (STATE_KEY_PREFIX @ st) = Some v \<longrightarrow> state_value_ok v)"

lemma states_ok_later: "states_ok R t r \<Longrightarrow> t \<le> t' \<Longrightarrow> states_ok R t' r"
  unfolding states_ok_def by (meson order_trans)

lemma states_ok_start: "no_oauth_states R r \<Longrightarrow> states_ok R t r"
  by (simp add: states_ok_def no_oauth_states_def)

lemma state_key_other [simp]:
  "STATE_KEY_PREFIX @ st \<noteq> BLACKLIST_KEY_PREFIX @ j" "STATE_KEY_PREFIX @ st \<noteq> USED_KEY_PREFIX @ j"
  "STATE_KEY_PREFIX @ st \<noteq> rate_limit_key rl h"
  by (simp_all add: STATE_KEY_PREFIX_def BLACKLIST_KEY_PREFIX_def USED_KEY_PREFIX_def rate_limit_key_def)

context redis_server begin

lemma states_ok_blacklist: "states_ok R t r \<Longrightarrow> states_ok R t (blacklist_token R r t j ttl)"
  by (simp add: states_ok_def blacklist_token_def get_set)

lemma states_ok_used: "states_ok R t r \<Longrightarrow> states_ok R t (mark_token_used R r t j ttl)"
  by (simp add: states_ok_def mark_token_used_def get_set)

lemma states_ok_rate_limit:
  "states_ok R t r \<Longrightarrow> states_ok R t (snd (rate_limit_call R rl t client r))"
  by (simp add: states_ok_def rate_limit_call_def Let_def incr_other expire_other split: prod.split)
     (metis incr_other expire_other snd_conv state_key_other(3))

lemma states_ok_set:
  assumes "states_ok R t r" and "state_value_ok v"
  shows "states_ok R t (r_set R r t (STATE_KEY_PREFIX @ st) v STATE_TTL_SECONDS)"
  unfolding states_ok_def
proof (intro allI impI)
  fix t' st' v' assume "t \<le> t'"
    "r_get R (r_set R r t (STATE_KEY_PREFIX @ st) v STATE_TTL_SECONDS) t' (STATE_KEY_PREFIX @ st') = Some v'"
  then have "v' = v \<or> r_get R r t' (STATE_KEY_PREFIX @ st') = Some v'"
    by (auto simp: get_set STATE_TTL_SECONDS_def split: if_splits)
  then show "state_value_ok v'" using assms \<open>t \<le> t'\<close> by (auto simp: states_ok_def)
qed

lemma states_ok_delete: "states_ok R t r \<Longrightarrow> states_ok R t (r_delete R r t (STATE_KEY_PREFIX @ st))"
  by (auto simp: states_ok_def get_delete split: if_splits)

end

subsection \<open>What the routes do to Redis\<close>

lemma authenticated_redis:
  "(\<And>u. st_redis (snd (body u s)) = st_redis s) \<Longrightarrow>
     st_redis (snd (authenticated E now tok body s)) = st_redis s"
  using authenticated_state [where P = "\<lambda>t. st_redis t = st_redis s"] by blast

lemma require_permissions_redis:
  "st_redis (snd (body s)) = st_redis s \<Longrightarrow>
     st_redis (snd (require_permissions E now tok ps body s)) = st_redis s"
  by (rule require_permissions_cases [of E now tok s ps body]) auto

lemma committed_redis [simp]: "st_redis (snd (committed s res)) = st_redis s"
  by (cases res) auto

lemma updated_user_redis [simp]: "st_redis (snd (updated_user valid e u s)) = st_redis s"
  by (simp add: updated_user_def split: sum.split option.split)

lemma snd_sum_case_pair:
  "st_redis (snd (case res of (Inl e, t) \<Rightarrow> (Inl e, t) | (Inr x, t) \<Rightarrow> (Inr (f x t), t))) = st_redis (snd res)"
  by (auto split: prod.split sum.split)

lemmas profile_redis =
  read_current_user_def update_current_user_def change_current_user_password_def deactivate_current_user_def
  read_current_user_v2_def update_current_user_v2_def same_in_both_versions
  list_linked_accounts_def unlink_provider_def

lemma profile_routes_redis [frame]:
  "st_redis (snd (read_current_user E now tok s)) = st_redis s"
  "st_redis (snd (update_current_user E valid now tok e s)) = st_redis s"
  "st_redis (snd (change_current_user_password E now tok salt old new s)) = st_redis s"
  "st_redis (snd (deactivate_current_user E now tok s)) = st_redis s"
  "st_redis (snd (read_current_user_v2 E now tok s)) = st_redis s"
  "st_redis (snd (update_current_user_v2 E valid now tok e s)) = st_redis s"
  "st_redis (snd (list_linked_accounts E now tok s)) = st_redis s"
  "st_redis (snd (unlink_provider E now tok provider s)) = st_redis s"
  unfolding profile_redis
  by (rule authenticated_redis; simp add: snd_sum_case_pair split: sum.split)+

lemma admin_routes_redis [frame]:
  "st_redis (snd (list_users E Q now tok pagination a s)) = st_redis s"
  "st_redis (snd (list_users_feed E Q now tok cpagination s)) = st_redis s"
  "st_redis (snd (update_user_status E now tok uid a v s)) = st_redis s"
  "st_redis (snd (admin_deactivate_user E now tok uid s)) = st_redis s"
  "st_redis (snd (list_roles E now tok s)) = st_redis s"
  "st_redis (snd (assign_role E deliver now tok uid n s)) = st_redis s"
  "st_redis (snd (revoke_role E now tok uid n s)) = st_redis s"
  "st_redis (snd (trigger_user_summary_report E backend now tok i s)) = st_redis s"
  "st_redis (snd (get_report_status E backend now tok i s)) = st_redis s"
  unfolding list_users_def list_users_feed_def update_user_status_def admin_deactivate_user_def
    list_roles_def assign_role_def revoke_role_def trigger_user_summary_report_def get_report_status_def
  by (rule require_permissions_redis; simp add: Let_def split: sum.split option.split)+

lemma refresh_redis [frame]: "st_redis (snd (refresh_access_token E now jti tok s)) = st_redis s"
  by (simp add: refresh_access_token_def Let_def split: option.split)

lemma register_user_redis [frame]: "st_redis (snd (register_user E now jti salt d s)) = st_redis s"
  by (simp add: register_user_def Let_def split: sum.split option.split prod.split)

lemma login_user_redis [frame]: "st_redis (snd (login_user E now j1 j2 d s)) = st_redis s"
  by (simp add: login_user_def Let_def split: option.split)

lemma forgot_password_redis [frame]: "st_redis (snd (forgot_password E now jti e s)) = st_redis s"
  by (simp add: forgot_password_def Let_def split: option.split)

lemma file_routes_redis [frame]:
  "st_redis (fst (snd (upload_file E S now tok hex form so))) = st_redis (fst so)"
  "st_redis (fst (snd (list_my_files E Q now tok pagination so))) = st_redis (fst so)"
  "st_redis (fst (snd (get_file E S now tok i so))) = st_redis (fst so)"
  "st_redis (fst (snd (delete_file E S now tok i so))) = st_redis (fst so)"
  unfolding upload_file_def list_my_files_def get_file_def delete_file_def for_current_user_def after_dependency_def
    store_upload_def
  by (simp_all add: Let_def case_prod_unfold split: sum.split option.split)

text \<open>The routes that write to Redis keep the state values good.\<close>

lemma states_ok_limited:
  assumes "redis_server (e_redis E)" and "states_ok (e_redis E) now (st_redis s)"
    and "\<And>r. st_redis (snd (body (s\<lparr>st_redis := r\<rparr>))) = r"
  shows "states_ok (e_redis E) now (st_redis (snd (limited E rl now client body s)))"
  using redis_server.states_ok_rate_limit [OF assms(1,2), of rl client] assms(3)
  by (auto simp: limited_def split: prod.split sum.split)

lemma states_ok_limited_routes:
  assumes "redis_server (e_redis E)" and "states_ok (e_redis E) now (st_redis s)"
  shows "states_ok (e_redis E) now (st_redis (snd (register_route E valid now client jti salt e p s)))"
    and "states_ok (e_redis E) now (st_redis (snd (login_route E valid now client j1 j2 e p s)))"
    and "states_ok (e_redis E) now (st_redis (snd (forgot_password_route E valid now client jti e s)))"
  unfolding register_route_def login_route_def forgot_password_route_def
  by (rule states_ok_limited [OF assms]; simp add: frame split: sum.split option.split)+

lemma states_ok_token_routes:
  assumes "redis_server (e_redis E)" and "states_ok (e_redis E) now (st_redis s)"
  shows "states_ok (e_redis E) now (st_redis (snd (logout E now cred tok s)))"
    and "states_ok (e_redis E) now (st_redis (snd (verify_email E now etok s)))"
    and "states_ok (e_redis E) now (st_redis (snd (reset_password_route E now salt rtok p s)))"
  using assms(2) redis_server.states_ok_blacklist [OF assms(1)] redis_server.states_ok_used [OF assms(1)]
  by (simp_all add: logout_def verify_email_def reset_password_route_def reset_password_def Let_def
      split: option.split sum.split)

lemma states_ok_start_flow:
  assumes "redis_server (e_redis E)" and "states_ok (e_redis E) now (st_redis s)" and "state_value_ok v"
  shows "states_ok (e_redis E) now (st_redis (snd (start_flow E clients url_for now st provider v s)))"
  using assms redis_server.states_ok_set [OF assms] by (simp add: start_flow_def split: sum.split)

lemma states_ok_oauth_link:
  assumes "redis_server (e_redis E)" and "states_ok (e_redis E) now (st_redis s)"
    and "ids_in_range (st_db s)"
  shows "states_ok (e_redis E) now (st_redis (snd (oauth_link E clients url_for now tok st provider s)))"
proof (cases "get_current_user E now tok s")
  case (Inl e)
  then show ?thesis using assms(2) by (simp add: oauth_link_def authenticated_def)
next
  case (Inr u)
  then have "u \<in> set (users (st_db s))" by (rule current_user_in)
  then have "\<bar>user_id u\<bar> < 10 ^ 20" using assms(3) by (force simp: ids_in_range_def)
  from states_ok_start_flow [OF assms(1,2) state_value_ok_written(2) [OF this]] Inr show ?thesis
    by (simp add: oauth_link_def authenticated_def)
qed

lemma states_ok_oauth_login:
  assumes "redis_server (e_redis E)" and "states_ok (e_redis E) now (st_redis s)"
  shows "states_ok (e_redis E) now (st_redis (snd (oauth_login E clients url_for now st provider s)))"
  unfolding oauth_login_def by (rule states_ok_start_flow [OF assms state_value_ok_written(1)])

lemma states_ok_callback:
  assumes "redis_server (e_redis E)" and "states_ok (e_redis E) now (st_redis s)"
  shows "states_ok (e_redis E) now
    (st_redis (snd (oauth_callback E clients url_for now j1 j2 provider ac st s)))"
  using assms(2) redis_server.states_ok_delete [OF assms]
  by (simp add: oauth_callback_eq Let_def split: sum.split option.split prod.split)

subsection \<open>How a route fails\<close>

text \<open>The failures of a result, but for exceptions the code did not mean to raise: an HTTP
  exception has one of these statuses, a body is rejected only where one is validated.\<close>

definition failing :: "int set \<Rightarrow> bool \<Rightarrow> failure + 'a \<Rightarrow> bool" where
  "failing C V res =
     (case res of
        Inl (HTTPException c _ _) \<Rightarrow> c \<in> C
      | Inl (RequestValidationError _) \<Rightarrow> V
      | Inl (WebSocketException _) \<Rightarrow> False
      | _ \<Rightarrow> True)"

lemma failing_simps [simp]:
  "failing C V (Inr x)" "failing C V (Inl (HTTPException c m h)) \<longleftrightarrow> c \<in> C"
  "failing C V (Inl (RequestValidationError m)) \<longleftrightarrow> V" "failing C V (Inl (Unhandled w))"
  "failing C V (Inl integrity_error)"
  by (simp_all add: failing_def integrity_error_def)

lemma failing_mono: "failing C V res \<Longrightarrow> C \<subseteq> C' \<Longrightarrow> (V \<Longrightarrow> V') \<Longrightarrow> failing C' V' res"
  by (auto simp: failing_def split: sum.splits failure.splits)

lemma fails_authenticated:
  "{401, 403} \<subseteq> C \<Longrightarrow> (\<And>u. failing C V (fst (body u s))) \<Longrightarrow>
     failing C V (fst (authenticated E now tok body s))"
  by (auto simp: authenticated_def get_current_user_def split: option.split)

lemma fails_permissions:
  "{401, 403} \<subseteq> C \<Longrightarrow> failing C V (fst (body s)) \<Longrightarrow>
     failing C V (fst (require_permissions E now tok ps body s))"
  unfolding require_permissions_def
  by (rule fails_authenticated) (auto simp: permission_checker_def)

lemma fails_committed [simp]: "failing C V (fst (committed s res)) \<longleftrightarrow> failing C V res"
  by (cases res) (auto simp: failing_def split: failure.split)

lemma fails_limited:
  "429 \<in> C \<Longrightarrow> (\<And>r. failing C V (fst (body (s\<lparr>st_redis := r\<rparr>)))) \<Longrightarrow>
     failing C V (fst (limited E rl now client body s))"
  by (auto simp: limited_def rate_limit_call_def too_many_requests_def Let_def split: prod.split)

lemma fails_update [simp]:
  "failing C V (case update_user d u of Inl e \<Rightarrow> Inl e | Inr d' \<Rightarrow> Inr (f d'))"
  "failing C V (fst (case update_user d u of Inl e \<Rightarrow> (Inl e, s) | Inr d' \<Rightarrow> (Inr (g d'), h d')))"
  by (simp_all add: update_user_def)

lemma fails_pagination:
  "get_offset_pagination limit offset by dir q = Inl e \<Longrightarrow> \<exists>m. e = RequestValidationError m"
  "get_cursor_pagination cursor limit q = Inl e \<Longrightarrow> \<exists>m. e = RequestValidationError m"
  by (auto simp: get_offset_pagination_def get_cursor_pagination_def split: if_splits)

lemma pagination_offset:
  "get_offset_pagination limit offset by dir q = Inr params \<Longrightarrow> int (op_offset params) = offset"
  by (auto simp: get_offset_pagination_def split: if_splits)

lemma quiet_pagination:
  "\<not> is_unhandled (get_offset_pagination limit offset by dir q)"
  "\<not> is_unhandled (get_cursor_pagination cursor limit q)"
  by (simp_all add: get_offset_pagination_def get_cursor_pagination_def)

lemma fails_register: "failing {409, 429} True (fst (register_route E valid now client jti salt e p s))"
  unfolding register_route_def
  by (rule fails_limited) (auto simp: validate_user_create_def register_user_def email_taken_def
      insert_user_def append_role_def Let_def split: option.split sum.split)

lemma fails_login: "failing {401, 403, 429} True (fst (login_route E valid now client j1 j2 e p s))"
  unfolding login_route_def
  by (rule fails_limited) (auto simp: login_user_def invalid_credentials_def Let_def split: option.split)

lemma fails_refresh: "failing {401} False (fst (refresh_access_token E now jti tok s))"
  by (auto simp: refresh_access_token_def Let_def split: option.split)

lemma fails_logout: "failing {401} False (fst (logout E now cred tok s))"
  by (auto simp: logout_def Let_def split: option.split)

lemma fails_verify: "failing {401, 404} False (fst (verify_email E now tok s))"
  by (auto simp: verify_email_def Let_def split: option.split)

lemma fails_forgot: "failing {429} True (fst (forgot_password_route E valid now client jti e s))"
  unfolding forgot_password_route_def
  by (rule fails_limited) (auto simp: forgot_password_def Let_def split: option.split)

lemma fails_reset: "failing {400, 401, 403, 404} True (fst (reset_password_route E now salt tok p s))"
  by (auto simp: reset_password_route_def reset_password_def Let_def split: option.split sum.split)

lemma fails_profile:
  "failing {401, 403} False (fst (read_current_user E now tok s))"
  "failing {401, 403} False (fst (read_current_user_v2 E now tok s))"
  "failing {401, 403} False (fst (deactivate_current_user E now tok s))"
  "failing {401, 403} False (fst (list_linked_accounts E now tok s))"
  "failing {400, 401, 403} True (fst (change_current_user_password E now tok salt old new s))"
  "failing {400, 401, 403, 404} False (fst (unlink_provider E now tok provider s))"
  unfolding read_current_user_def read_current_user_v2_def deactivate_current_user_def
    list_linked_accounts_def change_current_user_password_def unlink_provider_def
  by (rule fails_authenticated; auto simp: deactivate_user_def change_user_password_def update_user_def unlink_from_def Let_def
      split: sum.split option.split)+

lemma fails_updated_user: "failing {401, 403, 409} True (fst (updated_user valid e u s))"
  by (auto simp: updated_user_def validate_user_update_def update_user_email_def email_taken_def Let_def
      split: option.split)

lemma failing_map:
  "failing C V (fst (case res of (Inl e, t) \<Rightarrow> (Inl e, t) | (Inr x, t) \<Rightarrow> (Inr (f x t), t))) \<longleftrightarrow>
     failing C V (fst res)"
  by (auto simp: failing_def split: prod.split sum.split failure.split)

lemma fails_profile_update:
  "failing {401, 403, 409} True (fst (update_current_user E valid now tok e s))"
  "failing {401, 403, 409} True (fst (update_current_user_v2 E valid now tok e s))"
  unfolding update_current_user_def update_current_user_v2_def
  by (rule fails_authenticated; simp add: failing_map fails_updated_user)+

lemma fails_admin:
  "failing {401, 403} True (fst (list_users E Q now tok (get_offset_pagination limit offset by dir q) a s))"
  "failing {400, 401, 403} True (fst (list_users_feed E Q now tok (get_cursor_pagination cursor limit q) s))"
  "failing {401, 403, 404} False (fst (update_user_status E now tok uid a v s))"
  "failing {401, 403, 404} False (fst (admin_deactivate_user E now tok uid s))"
  "failing {401, 403} False (fst (list_roles E now tok s))"
  "failing {401, 403, 404} False (fst (assign_role E (\<lambda>_. None) now tok uid n s))"
  "failing {401, 403, 404} False (fst (revoke_role E now tok uid n s))"
  "failing {401, 403} False (fst (trigger_user_summary_report E backend now tok i s))"
  "failing {401, 403} False (fst (get_report_status E backend now tok i s))"
  unfolding list_users_def list_users_feed_def update_user_status_def admin_deactivate_user_def
    list_roles_def assign_role_def revoke_role_def trigger_user_summary_report_def get_report_status_def
  by (rule fails_permissions; auto simp: user_not_found_def append_role_def Let_def paginate_offset_Inl
      dest: fails_pagination split: sum.split option.split)+

text \<open>A failure that a third party raised, handed on as it is.\<close>

definition provider_raised :: "oauth_clients \<Rightarrow> failure \<Rightarrow> bool" where
  "provider_raised clients e \<longleftrightarrow> (\<exists>p c. clients p = Some c \<and>
     ((\<exists>r st. c_create_authorization_url c r st = Inl e) \<or> (\<exists>r ac. c_fetch_access_token c r ac = Inl e) \<or>
      (\<exists>tok. c_fetch_identity c tok = Inl e)))"

definition store_raised :: "'o s3_ops \<Rightarrow> failure \<Rightarrow> bool" where
  "store_raised S e \<longleftrightarrow> (\<exists>ob b. s_create_bucket S ob b = Inl e) \<or>
     (\<exists>ob b k content ct. s_upload_fileobj S ob b k content ct = Inl e) \<or> (\<exists>ob b k. s_delete_object S ob b k = Inl e)"

lemma provider_raisedI:
  "clients p = Some c \<Longrightarrow> c_create_authorization_url c r st = Inl e \<Longrightarrow> provider_raised clients e"
  "clients p = Some c \<Longrightarrow> c_fetch_access_token c r ac = Inl e \<Longrightarrow> provider_raised clients e"
  "clients p = Some c \<Longrightarrow> c_fetch_identity c tok = Inl e \<Longrightarrow> provider_raised clients e"
  unfolding provider_raised_def by blast+

lemma fails_require_client: "failing {404, 503} False (require_client clients provider)"
  by (auto simp: require_client_def split: option.split)

lemma fails_start_flow:
  assumes "start_flow E clients url_for now st provider v s = (Inl e, s')"
  shows "provider_raised clients e \<or> (failing {404, 503} False (Inl e :: failure + unit) \<and> \<not> unforeseen e)"
proof (cases "require_client clients provider")
  case (Inl e')
  then show ?thesis
    using assms fails_require_client [of clients provider] require_client_not_unhandled [of clients provider]
    by (auto simp: start_flow_def failing_def split: failure.split)
next
  case (Inr c)
  then have "c_create_authorization_url c (url_for provider) st = Inl e"
    using assms by (simp add: start_flow_def)
  moreover have "clients provider = Some c" using Inr by (simp add: require_client_Inr)
  ultimately show ?thesis by (intro disjI1 provider_raisedI(1))
qed

lemma fails_resolve: "failing {400, 403, 404, 409} False (fst (resolve_user d now provider puid address v))"
  by (auto simp: resolve_user_def linking_user_def link_identity_def sign_in_identity_def find_or_create_user_def
      reject_inactive_def insert_oauth_account_def insert_user_def Let_def
      split: option.split sum.split prod.split)

lemma fails_identify: "identify c r ac = Inl e \<Longrightarrow> clients p = Some c \<Longrightarrow> provider_raised clients e"
  by (auto simp: identify_def intro: provider_raisedI(2,3) split: sum.splits)

lemma fails_callback:
  assumes "oauth_callback E clients url_for now j1 j2 provider ac st s = (Inl e, s')"
    and "db_inv (st_db s)" and "states_ok (e_redis E) now (st_redis s)"
  shows "provider_raised clients e \<or>
    (failing {400, 403, 404, 409, 503} False (Inl e :: failure + unit) \<and> \<not> unforeseen e)"
proof (cases "require_client clients provider")
  case (Inl e')
  then show ?thesis
    using assms(1) fails_require_client [of clients provider] require_client_not_unhandled [of clients provider]
    by (auto simp: oauth_callback_eq failing_def split: failure.split)
next
  case c: (Inr c)
  show ?thesis
  proof (cases "r_get (e_redis E) (st_redis s) now (STATE_KEY_PREFIX @ st)")
    case None
    then show ?thesis using assms(1) c by (auto simp: oauth_callback_eq)
  next
    case (Some v)
    then have v: "state_value_ok v" using assms(3) by (auto simp: states_ok_def)
    show ?thesis
    proof (cases "identify c (url_for provider) ac")
      case (Inl e')
      then show ?thesis
        using assms(1) c Some fails_identify [OF Inl] by (auto simp: oauth_callback_eq require_client_Inr)
    next
      case (Inr p)
      obtain puid address where p: "p = (puid, address)" by fastforce
      obtain r d where r: "resolve_user (st_db s) now provider puid address v = (r, d)" by fastforce
      then have "r = Inl e"
        using assms(1) c Some Inr p by (cases r) (auto simp: oauth_callback_eq Let_def)
      then show ?thesis
        using fails_resolve [of "st_db s" now provider puid address v]
          resolve_user_not_unhandled [OF assms(2) v, of now provider puid address] r
        by (auto simp: failing_def split: failure.splits)
    qed
  qed
qed

lemma fails_oauth_link:
  assumes "oauth_link E clients url_for now tok st provider s = (Inl e, s')"
  shows "provider_raised clients e \<or>
    (failing {401, 403, 404, 503} False (Inl e :: failure + unit) \<and> \<not> unforeseen e)"
proof (cases "get_current_user E now tok s")
  case (Inl e')
  then show ?thesis
    using assms by (auto simp: oauth_link_def authenticated_def get_current_user_def split: option.splits if_splits)
next
  case (Inr u)
  then have "start_flow E clients url_for now st provider (''link:'' @ py_str (user_id u)) s = (Inl e, s')"
    using assms by (simp add: oauth_link_def authenticated_def)
  from fails_start_flow [OF this] show ?thesis
    by (auto simp: failing_def split: failure.splits)
qed

lemma fails_read_chunks:
  "read_chunks category rest n h = Inl e \<Longrightarrow> e = too_large category \<or> e = virus_found"
  by (induction category rest n h rule: read_chunks.induct)
     (auto simp: read_chunks.simps Let_def split: if_splits)

lemma fails_stream:
  assumes "read_and_validate_stream upload category = Inl e"
  shows "\<exists>c m. e = HTTPException c m [] \<and> c \<in> {400, 413, 422}"
proof (cases "read_chunks category upload 0 []")
  case (Inl e')
  then show ?thesis using assms fails_read_chunks [OF Inl]
    by (auto simp: read_and_validate_stream_def too_large_def virus_found_def)
next
  case (Inr p)
  then show ?thesis using assms by (cases p) (auto simp: read_and_validate_stream_def split: if_splits)
qed

lemma fails_csv:
  "validate_csv_content upload = Inl e \<Longrightarrow>
     (\<exists>m. e = HTTPException 400 m []) \<or> e = Unhandled ''csv.Error''"
  unfolding validate_csv_content_def Let_def by (simp split: if_splits csv_next.splits) blast+

lemma fails_validate_upload:
  assumes "validate_upload cfg form = Inl e"
  shows "failing {400, 413, 422, 503} False (Inl e :: failure + unit) \<and>
    (unforeseen e \<longrightarrow> e = Unhandled ''csv.Error'' \<and> up_category form = ''csv'' \<and>
       validate_csv_content (up_content form) = Inl e)"
proof -
  consider m where "e = HTTPException 503 m []" | m where "e = HTTPException 400 m []"
    | category where "read_and_validate_stream (up_content form) category = Inl e"
    | "validate_csv_content (up_content form) = Inl e" "up_category form = ''csv''"
    using assms unfolding validate_upload_def storage_not_configured_def
    by (simp split: if_splits option.splits sum.splits) blast+
  then show ?thesis
  proof cases
    case 3
    then show ?thesis using fails_stream by fastforce
  next
    case 4
    then show ?thesis using fails_csv [OF 4(1)] by auto
  qed auto
qed

lemma insert_file_Inl:
  "insert_file d uid fname ct cat n key now = Inl e \<longleftrightarrow>
     e = integrity_error \<and> key \<in> file_storage_key ` set (file_uploads d)"
  by (auto simp: insert_file_def Let_def list_ex_iff image_iff)

lemma fails_upload:
  assumes "upload_file E S now tok hex form (s, ob) = (Inl e, so)"
  shows "store_raised S e \<or> failing {400, 401, 403, 413, 422, 503} False (Inl e :: failure + unit) \<and>
    (unforeseen e \<longrightarrow> e = Unhandled ''csv.Error'' \<and> up_category form = ''csv'' \<and>
         validate_csv_content (up_content form) = Inl e \<or>
       e = Unhandled ''IntegrityError'' \<and> (\<exists>u. get_current_user E now tok s = Inr u \<and>
         build_object_key hex (user_id u) (up_category form) (upload_name form)
           \<in> file_storage_key ` set (file_uploads (st_db s))))"
proof (cases "get_current_user E now tok s")
  case (Inl e')
  then show ?thesis using assms
    by (auto simp: upload_file_def for_current_user_def get_current_user_def split: option.splits if_splits)
next
  case (Inr u)
  then have st: "store_upload S (e_settings E) now hex form u (s, ob) = (Inl e, so)"
    using assms by (simp add: upload_file_def for_current_user_def)
  show ?thesis
  proof (cases "validate_upload (e_settings E) form")
    case (Inl e')
    then have "e' = e" using st by (simp add: store_upload_def)
    with fails_validate_upload [OF Inl] show ?thesis by (auto simp: failing_def split: failure.splits)
  next
    case (Inr p)
    obtain n ct where p: "p = (n, ct)" by fastforce
    obtain r ob1 where up: "upload_fileobj S (e_settings E) (up_content form)
        (build_object_key hex (user_id u) (up_category form) (upload_name form)) (Some ct) ob = (r, ob1)" by fastforce
    show ?thesis
    proof (cases r)
      case (Inl e')
      then have "e' = e" using st up Inr p by (simp add: store_upload_def Let_def)
      then have "store_raised S e"
        using up Inl by (auto simp: store_raised_def upload_fileobj_def ensure_bucket_def split: sum.splits if_splits)
      then show ?thesis ..
    next
      case (Inr x)
      let ?key = "build_object_key hex (user_id u) (up_category form) (upload_name form)"
      have "insert_file (st_db s) (user_id u) (upload_name form) ct (up_category form) (int n) ?key now = Inl e"
        using st up Inr \<open>validate_upload _ _ = Inr p\<close> p
        by (simp add: store_upload_def Let_def split: sum.splits prod.splits)
      then have "e = integrity_error" "?key \<in> file_storage_key ` set (file_uploads (st_db s))"
        by (simp_all add: insert_file_Inl)
      then show ?thesis using \<open>get_current_user E now tok s = Inr u\<close>
        by (intro disjI2) (simp add: integrity_error_def)
    qed
  qed
qed

lemma fails_file_routes:
  "failing {401, 403} True
     (fst (list_my_files E Q now tok (get_offset_pagination limit offset by dir q) (s, ob)))"
  "failing {401, 403, 404, 503} False (fst (get_file E S now tok i (s, ob)))"
  "fst (list_my_files E Q now tok (get_offset_pagination limit offset by dir q) (s, ob)) = Inl e \<Longrightarrow>
     unforeseen e \<Longrightarrow> OFFSET_END \<le> offset \<and> e = Unhandled ''DataError''"
  "\<not> is_unhandled (fst (get_file E S now tok i (s, ob)))"
  unfolding list_my_files_def get_file_def for_current_user_def after_dependency_def get_current_user_def
  by (auto simp: file_not_found_def storage_not_configured_def Let_def paginate_offset_Inl pagination_offset
      dest: fails_pagination split: option.splits sum.splits if_splits)

lemma fails_list_users:
  assumes "fst (list_users E Q now tok (get_offset_pagination limit offset by dir q) a s) = Inl e"
    and "unforeseen e" and "db_inv (st_db s)"
  shows "OFFSET_END \<le> offset \<and> e = Unhandled ''DataError''"
proof (rule ccontr)
  assume no: "\<not> ?thesis"
  show False
  proof (cases "OFFSET_END \<le> offset")
    case False
    then have "safe_result (list_users E Q now tok (get_offset_pagination limit offset by dir q) a s)"
      using assms(3) quiet_pagination(1) by (intro safety) (auto simp: pagination_offset)
    then show False using assms(1,2) by (simp add: safe_result_def)
  next
    case True
    with no assms(1,2) show False
      unfolding list_users_def require_permissions_def authenticated_def after_dependency_def
      by (auto simp: get_current_user_def permission_checker_def paginate_offset_Inl
          dest: fails_pagination split: option.splits sum.splits if_splits)
  qed
qed

lemma fails_delete_file:
  "delete_file E S now tok i (s, ob) = (Inl e, so) \<Longrightarrow> store_raised S e \<or>
     failing {401, 403, 404, 503} False (Inl e :: failure + unit) \<and> \<not> unforeseen e"
  by (auto simp: delete_file_def for_current_user_def after_dependency_def get_current_user_def
      file_not_found_def storage_not_configured_def delete_object_def store_raised_def
      split: option.splits sum.splits if_splits)

subsection \<open>The invariant of the service\<close>

lemma on_app_simps [simp]:
  "snd (on_app r ob) = (snd r, ob)"
  "fst (on_app r ob) = (case fst r of Inl e \<Rightarrow> Inl e | Inr _ \<Rightarrow> Inr ())"
  "snd (outcome r') = snd r'"
  "fst (outcome r') = (case fst r' of Inl e \<Rightarrow> Inl e | Inr _ \<Rightarrow> Inr ())"
  by (simp_all add: on_app_def outcome_def split: prod.split sum.split)

lemma file_routes_inv:
  assumes "db_inv (st_db (fst so))"
  shows "db_inv (st_db (fst (snd (upload_file E S now tok hex form so))))"
    and "db_inv (st_db (fst (snd (list_my_files E Q now tok pagination so))))"
    and "db_inv (st_db (fst (snd (get_file E S now tok i so))))"
    and "db_inv (st_db (fst (snd (delete_file E S now tok i so))))"
proof -
  have ins: "db_inv d"
    if "insert_file (st_db (fst so)) (user_id u) fname ct cat n key now = Inr (f, d)"
      "get_current_user E now tok (fst so) = Inr u" for u fname ct cat n key f d
    using insert_file_inv [OF that(1) assms] current_user_in [OF that(2)] by simp
  show "db_inv (st_db (fst (snd (upload_file E S now tok hex form so))))"
    using assms ins
    by (cases "get_current_user E now tok (fst so)")
       (simp_all add: upload_file_def for_current_user_def store_upload_def Let_def case_prod_unfold
         split: sum.split prod.split)
  show "db_inv (st_db (fst (snd (list_my_files E Q now tok pagination so))))"
    "db_inv (st_db (fst (snd (get_file E S now tok i so))))"
    "db_inv (st_db (fst (snd (delete_file E S now tok i so))))"
    using assms delete_file_row_inv [OF assms]
    by (simp_all add: list_my_files_def get_file_def delete_file_def for_current_user_def after_dependency_def
        Let_def case_prod_unfold split: sum.split option.split)
qed

lemma version_2_safe [safety]:
  "db_inv (st_db s) \<Longrightarrow> safe_result (change_current_user_password_v2 E now tok salt old new s)"
  "db_inv (st_db s) \<Longrightarrow> safe_result (deactivate_current_user_v2 E now tok s)"
  unfolding same_in_both_versions by (rule safety; assumption)+

lemma safe_result_inv: "safe_result r \<Longrightarrow> db_inv (st_db (snd r))"
  by (simp add: safe_result_def)

lemma oauth_start_inv:
  assumes "db_inv (st_db s)"
  shows "db_inv (st_db (snd (oauth_login E clients url_for now st provider s)))"
    and "db_inv (st_db (snd (oauth_link E clients url_for now tok st provider s)))"
  using assms
  by (cases "get_current_user E now tok s"; simp add: oauth_login_def oauth_link_def authenticated_def)+

lemma handle_inv:
  assumes "db_inv (st_db s)"
  shows "db_inv (st_db (fst (snd (handle E P x now rq (s, ob)))))"
  using assms
  by (cases rq) (simp_all add: safe_result_inv safety quiet_pagination oauth_callback_inv oauth_start_inv file_routes_inv
      list_users_state assign_role_inv)

lemma handle_states_ok:
  assumes "redis_server (e_redis E)" and "states_ok (e_redis E) now (st_redis s)" and "ids_in_range (st_db s)"
  shows "states_ok (e_redis E) now (st_redis (fst (snd (handle E P x now rq (s, ob)))))"
  using assms states_ok_limited_routes [OF assms(1,2)] states_ok_token_routes [OF assms(1,2)]
    states_ok_oauth_login [OF assms(1,2)] states_ok_oauth_link [OF assms] states_ok_callback [OF assms(1,2)]
  by (cases rq) (simp_all add: frame same_in_both_versions)

lemma served_inv:
  assumes "redis_server (e_redis E)" and "served E t so"
  shows "db_inv (st_db (fst so)) \<and> states_ok (e_redis E) t (st_redis (fst so))"
  using assms(2)
proof (induction rule: served.induct)
  case (start s t ob)
  then show ?case using states_ok_start by auto
next
  case (request t s ob t' P x rq res so)
  have "so = snd (handle E P x t' rq (s, ob))" using request.hyps by simp
  then show ?case
    using request handle_inv [of s E P x t' rq ob] states_ok_later [of "e_redis E" t "st_redis s" t']
      handle_states_ok [OF assms(1), of t' s P x rq ob] by auto
next
  case (cleanup t s ob t' n s')
  have "s' = s\<lparr>st_db := st_db s'\<rparr>" "db_inv (st_db s')"
    using cleanup fold_delete_inv by (auto simp: cleanup_unverified_users_def Let_def)
  then have "st_redis s' = st_redis s" by (metis app_state.select_convs(2) app_state.surjective app_state.update_convs(1))
  then show ?case using cleanup \<open>db_inv (st_db s')\<close> states_ok_later by auto
qed

text \<open>C29. The invariant of the service. Whatever requests arrive in whatever order and at whatever
  times, with whatever the third parties answer, and whenever the cleanup runs: the database
  keeps every reference and every uniqueness the schema declares, no two accounts share an
  address and no provider identity belongs to two, every account can still be signed in to, and
  every OAuth state value that Redis will hand out is one the callback understands.\<close>

theorem service_invariant:
  assumes "redis_server (e_redis E)" and "served E t (s, ob)"
  defines "d \<equiv> st_db s"
  shows "db_inv d \<and> distinct (map user_email (users d)) \<and>
    distinct (map (\<lambda>a. (oauth_provider a, oauth_provider_user_id a)) (oauth_accounts d)) \<and>
    (\<forall>u \<in> set (users d). user_hashed_password u \<noteq> None \<or> oauth_accounts_of d (user_id u) \<noteq> []) \<and>
    (\<forall>t' st v. t \<le> t' \<longrightarrow> r_get (e_redis E) (st_redis s) t' (STATE_KEY_PREFIX @ st) = Some v \<longrightarrow>
       (\<exists>uid. linking_user v = Inr uid))"
proof -
  have inv: "db_inv d" "states_ok (e_redis E) t (st_redis s)"
    using served_inv [OF assms(1,2)] by (simp_all add: d_def)
  have "\<exists>uid. linking_user v = Inr uid" if "state_value_ok v" for v
    using that by (auto simp: state_value_ok_def linking_user_def split: if_splits option.splits)
  then have "\<forall>t' st v. t \<le> t' \<longrightarrow> r_get (e_redis E) (st_redis s) t' (STATE_KEY_PREFIX @ st) = Some v \<longrightarrow>
       (\<exists>uid. linking_user v = Inr uid)"
    using inv(2) unfolding states_ok_def by blast
  moreover have "db_wf d" "sign_in_ok d" using inv(1) by (simp_all add: db_inv_def)
  moreover from this(1) have "users_wf d" "oauth_wf d" by (simp_all add: db_wf_def)
  ultimately show ?thesis
    using inv(1) by (auto simp: users_wf_def oauth_wf_def sign_in_ok_def can_sign_in_def list_all_iff)
qed

text \<open>The statuses a route answers with when it refuses, and whether it validates a body or
  query parameters.\<close>

fun failure_statuses :: "request \<Rightarrow> int set \<times> bool" where
  "failure_statuses (RegisterUser _ _ _) = ({409, 429}, True)"
| "failure_statuses (LoginUser _ _ _) = ({401, 403, 429}, True)"
| "failure_statuses (RefreshAccessToken _) = ({401}, False)"
| "failure_statuses (Logout _ _) = ({401}, False)"
| "failure_statuses (VerifyEmail _) = ({401, 404}, False)"
| "failure_statuses (ForgotPassword _ _) = ({429}, True)"
| "failure_statuses (ResetPassword _ _) = ({400, 401, 403, 404}, True)"
| "failure_statuses (OauthLogin _) = ({404, 503}, False)"
| "failure_statuses (OauthLink _ _) = ({401, 403, 404, 503}, False)"
| "failure_statuses (OauthCallback _ _ _) = ({400, 403, 404, 409, 503}, False)"
| "failure_statuses (UnlinkProvider _ _) = ({400, 401, 403, 404}, False)"
| "failure_statuses (UpdateCurrentUser _ _) = ({401, 403, 409}, True)"
| "failure_statuses (UpdateCurrentUserV2 _ _) = ({401, 403, 409}, True)"
| "failure_statuses (ChangeCurrentUserPassword _ _ _) = ({400, 401, 403}, True)"
| "failure_statuses (ChangeCurrentUserPasswordV2 _ _ _) = ({400, 401, 403}, True)"
| "failure_statuses (ListUsers _ _ _ _ _ _ _) = ({401, 403}, True)"
| "failure_statuses (ListUsersFeed _ _ _ _) = ({400, 401, 403}, True)"
| "failure_statuses (UpdateUserStatus _ _ _ _) = ({401, 403, 404}, False)"
| "failure_statuses (AdminDeactivateUser _ _) = ({401, 403, 404}, False)"
| "failure_statuses (AssignRole _ _ _) = ({401, 403, 404}, False)"
| "failure_statuses (RevokeRole _ _ _) = ({401, 403, 404}, False)"
| "failure_statuses (UploadFile _ _) = ({400, 401, 403, 413, 422, 503}, False)"
| "failure_statuses (ListMyFiles _ _ _ _ _ _) = ({401, 403}, True)"
| "failure_statuses (GetFile _ _) = ({401, 403, 404, 503}, False)"
| "failure_statuses (DeleteFile _ _) = ({401, 403, 404, 503}, False)"
| "failure_statuses _ = ({401, 403}, False)"

text \<open>The third party that a route hands a failure on from.\<close>

fun third_party_raised :: "'o parties \<Rightarrow> request \<Rightarrow> failure \<Rightarrow> bool" where
  "third_party_raised P (OauthLogin _) e = provider_raised (p_clients P) e"
| "third_party_raised P (OauthLink _ _) e = provider_raised (p_clients P) e"
| "third_party_raised P (OauthCallback _ _ _) e = provider_raised (p_clients P) e"
| "third_party_raised P (AssignRole _ uid _) e = (p_deliver P uid = Some e)"
| "third_party_raised P (UploadFile _ _) e = store_raised (p_s3 P) e"
| "third_party_raised P (DeleteFile _ _) e = store_raised (p_s3 P) e"
| "third_party_raised P _ e = False"

text \<open>The two ways an upload ends in an exception nothing in the program handles.\<close>

definition upload_crashes :: "'r env \<Rightarrow> drawn \<Rightarrow> time \<Rightarrow> request \<Rightarrow> 'r app_state \<Rightarrow> failure \<Rightarrow> bool" where
  "upload_crashes E x now rq s e \<longleftrightarrow>
     (\<exists>cred form. rq = UploadFile cred form \<and>
        (e = Unhandled ''csv.Error'' \<and> up_category form = ''csv'' \<and> validate_csv_content (up_content form) = Inl e \<or>
         e = Unhandled ''IntegrityError'' \<and> (\<exists>u. get_current_user E now cred s = Inr u \<and>
           build_object_key (dr_hex x) (user_id u) (up_category form) (upload_name form)
             \<in> file_storage_key ` set (file_uploads (st_db s)))))"

text \<open>A page that begins where the database cannot count.\<close>

fun offset_refused :: "request \<Rightarrow> failure \<Rightarrow> bool" where
  "offset_refused (ListUsers _ _ offset _ _ _ _) e = (OFFSET_END \<le> offset \<and> e = Unhandled ''DataError'')"
| "offset_refused (ListMyFiles _ _ offset _ _ _) e = (OFFSET_END \<le> offset \<and> e = Unhandled ''DataError'')"
| "offset_refused _ e = False"

definition expected :: "request \<Rightarrow> failure \<Rightarrow> bool" where
  "expected rq e \<longleftrightarrow>
     (case e of
        HTTPException c _ _ \<Rightarrow> c \<in> fst (failure_statuses rq)
      | RequestValidationError _ \<Rightarrow> snd (failure_statuses rq)
      | _ \<Rightarrow> False)"

lemma expectedI:
  "failing (fst (failure_statuses rq)) (snd (failure_statuses rq)) (Inl e :: failure + 'a) \<Longrightarrow> \<not> unforeseen e \<Longrightarrow>
     expected rq e"
  by (cases e) (auto simp: expected_def failing_def)

lemma expected_safe:
  assumes "safe_result r" and "failing (fst (failure_statuses rq)) (snd (failure_statuses rq)) (fst r)"
    and "on_app r ob = (Inl e, so)"
  shows "expected rq e"
  using assms
  by (cases "fst r") (auto simp: on_app_def outcome_def safe_result_def split: prod.splits sum.splits
      intro: expectedI)

lemmas route_fails = fails_register fails_login fails_refresh fails_logout fails_verify fails_forgot fails_reset
  fails_profile fails_profile_update fails_admin fails_profile [folded same_in_both_versions]

lemma on_app_Inl: "on_app r ob = (Inl e, so) \<Longrightarrow> \<exists>s'. r = (Inl e, s')"
  by (auto simp: on_app_def outcome_def split: prod.splits sum.splits)

lemma outcome_Inl: "outcome r = (Inl e, so) \<Longrightarrow> r = (Inl e, so)"
  by (auto simp: outcome_def split: prod.splits sum.splits)

lemma handle_failures:
  assumes inv: "db_inv (st_db s)" and st: "states_ok (e_redis E) now (st_redis s)"
    and h: "handle E P x now rq (s, ob) = (Inl e, so)"
  shows "expected rq e \<or> third_party_raised P rq e \<or> upload_crashes E x now rq s e \<or> offset_refused rq e"
proof -
  show ?thesis
  proof (cases rq)
    case (ListUsers cred limit offset fld dir q a)
    obtain s' where l: "list_users E (p_users_sql P) now cred (get_offset_pagination limit offset fld dir q) a s = (Inl e, s')"
      using on_app_Inl [OF h [unfolded ListUsers handle.simps]] by blast
    then show ?thesis
      using ListUsers fails_admin(1) [of E "p_users_sql P" now cred limit offset fld dir q a s]
        fails_list_users [OF _ _ inv, of E "p_users_sql P" now cred limit offset fld dir q a e]
      by (auto intro: expectedI)
  next
    case (AssignRole cred uid n)
    obtain s' where "assign_role E (p_deliver P) now cred uid n s = (Inl e, s')"
      using on_app_Inl [OF h [unfolded AssignRole handle.simps]] by blast
    then have "fst (assign_role E (\<lambda>_. None) now cred uid n s) = Inl e \<or> p_deliver P uid = Some e"
      using assign_role_not_raised [of E "p_deliver P" now cred uid n s e] by simp
    then show ?thesis
      using AssignRole fails_admin(6) [of E now cred uid n s] assign_role_safe [OF inv, of E now cred uid n]
      by (auto simp: safe_result_def intro: expectedI)
  next
    case (OauthLogin provider)
    obtain s' where "oauth_login E (p_clients P) (p_url_for P) now (dr_state x) provider s = (Inl e, s')"
      using on_app_Inl [OF h [unfolded OauthLogin handle.simps]] by blast
    from fails_start_flow [OF this [unfolded oauth_login_def]] show ?thesis
      using OauthLogin by (auto intro: expectedI)
  next
    case (OauthLink cred provider)
    obtain s' where "oauth_link E (p_clients P) (p_url_for P) now cred (dr_state x) provider s = (Inl e, s')"
      using on_app_Inl [OF h [unfolded OauthLink handle.simps]] by blast
    from fails_oauth_link [OF this] show ?thesis using OauthLink by (auto intro: expectedI)
  next
    case (OauthCallback provider ac state)
    obtain s' where "oauth_callback E (p_clients P) (p_url_for P) now (dr_jti1 x) (dr_jti2 x) provider ac state s =
        (Inl e, s')"
      using on_app_Inl [OF h [unfolded OauthCallback handle.simps]] by blast
    from fails_callback [OF this inv st] show ?thesis using OauthCallback by (auto intro: expectedI)
  next
    case (UploadFile cred form)
    have "upload_file E (p_s3 P) now cred (dr_hex x) form (s, ob) = (Inl e, so)" by (rule outcome_Inl [OF h [unfolded UploadFile handle.simps]])
    from fails_upload [OF this] show ?thesis using UploadFile by (auto simp: upload_crashes_def intro: expectedI)
  next
    case (ListMyFiles cred limit offset fld dir q)
    have "list_my_files E (p_files_sql P) now cred (get_offset_pagination limit offset fld dir q) (s, ob) = (Inl e, so)"
      by (rule outcome_Inl [OF h [unfolded ListMyFiles handle.simps]])
    then show ?thesis
      using ListMyFiles fails_file_routes(1,3) [of E "p_files_sql P" now cred limit offset fld dir q s ob] fst_conv
      by (auto intro: expectedI)
  next
    case (GetFile cred i)
    have "get_file E (p_s3 P) now cred i (s, ob) = (Inl e, so)" by (rule outcome_Inl [OF h [unfolded GetFile handle.simps]])
    then show ?thesis
      using GetFile fails_file_routes(2,4) [of E "p_s3 P" now cred i s ob] by (auto intro: expectedI)
  next
    case (DeleteFile cred i)
    have "delete_file E (p_s3 P) now cred i (s, ob) = (Inl e, so)" by (rule outcome_Inl [OF h [unfolded DeleteFile handle.simps]])
    from fails_delete_file [OF this] show ?thesis using DeleteFile by (auto intro: expectedI)
  qed ((rule disjI1, insert h, simp only: handle.simps,
      (erule expected_safe [rotated 2]; simp add: inv safety quiet_pagination route_fails same_in_both_versions))+)
qed

text \<open>How requests fail. In every state the service can reach, each route ends with a response, or
  with one of the statuses listed for it, or with a validation error where it validates
  something; what an OAuth provider or the file store raises is handed on by the routes that
  call it, and what a socket of the notified user raises by the granting of a role. No other
  exception leaves a route, but for an offset beyond what the database can read and two ways an
  upload can end: a CSV sample that the \<open>csv\<close> module cannot parse, and a storage key that is taken.\<close>

theorem route_failures:
  assumes "redis_server (e_redis E)" and "served E t (s, ob)" and "t \<le> now"
    and "handle E P x now rq (s, ob) = (Inl e, so)"
  shows "expected rq e \<or> third_party_raised P rq e \<or> upload_crashes E x now rq s e \<or> offset_refused rq e"
proof -
  have "db_inv (st_db s)" "states_ok (e_redis E) t (st_redis s)"
    using served_inv [OF assms(1,2)] by simp_all
  from this(1) states_ok_later [OF this(2) assms(3)]
  have "db_inv (st_db s)" "states_ok (e_redis E) now (st_redis s)" .
  then show ?thesis using assms(4) by (rule handle_failures)
qed

text \<open>The example deployment: the first user follows the link, then asks for a reset with an empty
  password.\<close>

definition ex_parties :: "ref_objects parties" where
  "ex_parties = \<lparr>p_valid = Some, p_clients = (\<lambda>_. None), p_url_for = (\<lambda>p. p),
     p_users_sql = ref_sql user_id, p_files_sql = ref_sql file_id,
     p_backend = (\<lambda>_. \<lparr>cr_status = ''PENDING'', cr_ready = False, cr_successful = False, cr_value = PNone\<rparr>),
     p_deliver = (\<lambda>_. None),
     p_s3 = ref_s3\<rparr>"

definition ex_drawn :: drawn where
  "ex_drawn = \<lparr>dr_jti1 = ''j1'', dr_jti2 = ''j2'', dr_salt = ''salt'', dr_state = ''st'', dr_hex = ''00'',
     dr_task_id = ''t''\<rparr>"

lemma ex_served: "served ex_env (5 * second) (ex_verified, Map.empty :: ref_objects)"
proof (rule served.request)
  show "served ex_env 0 (ex_registered, Map.empty :: ref_objects)"
    by (rule served.start) (simp_all add: ex_inv no_oauth_states_def ref_redis_def ref_get_def)
  show "ids_in_range (st_db ex_registered)"
    by (simp add: ids_in_range_def ex_registered_def ex_user_def)
  show "handle ex_env ex_parties ex_drawn (5 * second) (VerifyEmail ex_link) (ex_registered, Map.empty) =
      (Inr (), (ex_verified, Map.empty))"
    using ex_verify by (simp add: on_app_def outcome_def)
qed simp

theorem service_invariant_witness:
  "db_inv (st_db ex_verified) \<and> distinct (map user_email (users (st_db ex_verified)))"
  using service_invariant [OF _ ex_served] ref.redis_server_axioms by simp

theorem route_failures_witness:
  "\<exists>e so. handle ex_env ex_parties ex_drawn (6 * second) (ResetPassword ex_link []) (ex_verified, Map.empty) = (Inl e, so) \<and>
     expected (ResetPassword ex_link []) e"
proof -
  obtain e so where h:
    "handle ex_env ex_parties ex_drawn (6 * second) (ResetPassword ex_link []) (ex_verified, Map.empty) = (Inl e, so)"
    by (simp add: on_app_def outcome_def reset_password_route_def validate_new_password_def)
  have "redis_server (e_redis ex_env)" using ref.redis_server_axioms by simp
  from route_failures [OF this ex_served _ h] h show ?thesis by (auto simp: upload_crashes_def)
qed

end
