(* ===== verification/Responses.thy ===== *)
theory Responses
  imports System
begin

text \<open>
  What the routes send back: the response models of \<open>app/schemas\<close>, the values the handlers return
  for them, and the validation FastAPI does in between. Every decorator in \<open>app/api\<close> names the
  status of a success and a model; the value a handler returns is checked against the model, and
  one that does not fit ends in an exception, a 500 response, after the handler has committed.
  The part that can go wrong is \<open>EmailStr\<close>: an address that came in through a request body was
  checked by the same validator, one that an OAuth provider sent was not.
\<close>

subsection \<open>Models\<close>

text \<open>A dictionary field of arbitrary content is \<open>SObject\<close>, \<open>T | None\<close> is \<open>SNullable T\<close>.\<close>

datatype schema =
    SBool
  | SInt
  | SStr
  | SEmail
  | STime
  | SObject
  | SNullable schema
  | SListOf schema
  | SModel "(string \<times> schema) list"

text \<open>The type of a value as a client sees it: the fields of a model in their order and no others.\<close>

fun conforms :: "email_validator \<Rightarrow> schema \<Rightarrow> pyval \<Rightarrow> bool"
  and conforms_fields :: "email_validator \<Rightarrow> (string \<times> schema) list \<Rightarrow> pydict \<Rightarrow> bool" where
  "conforms valid SBool v = (case v of PBool _ \<Rightarrow> True | _ \<Rightarrow> False)"
| "conforms valid SInt v = (case v of PInt _ \<Rightarrow> True | _ \<Rightarrow> False)"
| "conforms valid SStr v = (case v of PStr _ \<Rightarrow> True | _ \<Rightarrow> False)"
| "conforms valid SEmail v = (case v of PStr a \<Rightarrow> valid a = Some a | _ \<Rightarrow> False)"
| "conforms valid STime v = (case v of PTime _ \<Rightarrow> True | _ \<Rightarrow> False)"
| "conforms valid SObject v = (case v of PDict _ \<Rightarrow> True | _ \<Rightarrow> False)"
| "conforms valid (SNullable m) v = (v = PNone \<or> conforms valid m v)"
| "conforms valid (SListOf m) v = (case v of PList vs \<Rightarrow> list_all (conforms valid m) vs | _ \<Rightarrow> False)"
| "conforms valid (SModel fs) v = (case v of PDict d \<Rightarrow> conforms_fields valid fs d | _ \<Rightarrow> False)"
| "conforms_fields valid [] d = (d = [])"
| "conforms_fields valid ((k, m) # fs) d =
     (case d of [] \<Rightarrow> False | (k', v) # d' \<Rightarrow> k' = k \<and> conforms valid m v \<and> conforms_fields valid fs d')"

text \<open>The validation of a returned value: fields are taken by name, an address is replaced by the
  form the validator gives it. \<open>None\<close> is an exception. Values that pydantic would convert to the
  type of a field do not occur.\<close>

fun all_some :: "'a option list \<Rightarrow> 'a list option" where
  "all_some [] = Some []"
| "all_some (None # xs) = None"
| "all_some (Some x # xs) = map_option (Cons x) (all_some xs)"

fun serialize :: "email_validator \<Rightarrow> schema \<Rightarrow> pyval \<Rightarrow> pyval option"
  and serialize_fields :: "email_validator \<Rightarrow> (string \<times> schema) list \<Rightarrow> pydict \<Rightarrow> pydict option" where
  "serialize valid SBool v = (case v of PBool _ \<Rightarrow> Some v | _ \<Rightarrow> None)"
| "serialize valid SInt v = (case v of PInt _ \<Rightarrow> Some v | _ \<Rightarrow> None)"
| "serialize valid SStr v = (case v of PStr _ \<Rightarrow> Some v | _ \<Rightarrow> None)"
| "serialize valid SEmail v = (case v of PStr a \<Rightarrow> map_option PStr (valid a) | _ \<Rightarrow> None)"
| "serialize valid STime v = (case v of PTime _ \<Rightarrow> Some v | _ \<Rightarrow> None)"
| "serialize valid SObject v = (case v of PDict _ \<Rightarrow> Some v | _ \<Rightarrow> None)"
| "serialize valid (SNullable m) v = (if v = PNone then Some PNone else serialize valid m v)"
| "serialize valid (SListOf m) v =
     (case v of PList vs \<Rightarrow> map_option PList (all_some (map (serialize valid m) vs)) | _ \<Rightarrow> None)"
| "serialize valid (SModel fs) v =
     (case v of PDict d \<Rightarrow> map_option PDict (serialize_fields valid fs d) | _ \<Rightarrow> None)"
| "serialize_fields valid [] d = Some []"
| "serialize_fields valid ((k, m) # fs) d =
     (case map_of d k of
        None \<Rightarrow> None
      | Some v \<Rightarrow>
          (case serialize valid m v of
             None \<Rightarrow> None
           | Some w \<Rightarrow> map_option (Cons (k, w)) (serialize_fields valid fs d)))"

subsection \<open>The response models of \<open>app/schemas\<close>\<close>

definition MessageResponse :: schema where "MessageResponse = SModel [(''message'', SStr)]"

definition ForgotPasswordResponse :: schema where "ForgotPasswordResponse = SModel [(''message'', SStr)]"

definition RegistrationResponse :: schema where
  "RegistrationResponse = SModel
     [(''id'', SInt), (''email'', SEmail), (''is_active'', SBool), (''is_verified'', SBool), (''message'', SStr)]"

definition TokenResponse :: schema where
  "TokenResponse = SModel [(''access_token'', SStr), (''refresh_token'', SStr), (''token_type'', SStr)]"

definition AccessTokenResponse :: schema where
  "AccessTokenResponse = SModel [(''access_token'', SStr), (''token_type'', SStr)]"

definition user_fields :: "(string \<times> schema) list" where
  "user_fields = [(''id'', SInt), (''email'', SEmail), (''is_active'', SBool), (''is_verified'', SBool),
     (''roles'', SListOf SStr)]"

definition UserResponse :: schema where "UserResponse = SModel user_fields"

definition UserResponseV2 :: schema where
  "UserResponseV2 = SModel (user_fields @ [(''oauth_providers'', SListOf SStr)])"

definition AdminUserResponse :: schema where
  "AdminUserResponse = SModel
     [(''id'', SInt), (''email'', SEmail), (''is_active'', SBool), (''is_verified'', SBool),
      (''roles'', SListOf SStr)]"

definition RoleResponse :: schema where
  "RoleResponse = SModel
     [(''name'', SStr), (''description'', SNullable SStr), (''permissions'', SListOf SStr)]"

definition LinkedProviderResponse :: schema where
  "LinkedProviderResponse = SModel
     [(''provider'', SStr), (''email'', SNullable SStr), (''created_at'', STime)]"

definition ReportTaskResponse :: schema where
  "ReportTaskResponse = SModel [(''task_id'', SStr), (''status'', SStr)]"

definition ReportStatusResponse :: schema where
  "ReportStatusResponse = SModel
     [(''task_id'', SStr), (''status'', SStr), (''result'', SNullable SObject)]"

definition file_fields :: "(string \<times> schema) list" where
  "file_fields = [(''id'', SInt), (''filename'', SStr), (''content_type'', SStr), (''category'', SStr),
     (''size_bytes'', SInt), (''created_at'', STime)]"

definition FileUploadResponse :: schema where "FileUploadResponse = SModel file_fields"

definition FileDownloadResponse :: schema where
  "FileDownloadResponse = SModel (file_fields @ [(''download_url'', SStr)])"

definition Page :: "schema \<Rightarrow> schema" where
  "Page m = SModel [(''items'', SListOf m), (''total'', SInt), (''limit'', SInt), (''offset'', SInt),
     (''has_more'', SBool)]"

definition CursorPage :: "schema \<Rightarrow> schema" where
  "CursorPage m = SModel [(''items'', SListOf m), (''next_cursor'', SNullable SStr), (''has_more'', SBool)]"

lemmas response_models = MessageResponse_def ForgotPasswordResponse_def RegistrationResponse_def
  TokenResponse_def AccessTokenResponse_def user_fields_def UserResponse_def UserResponseV2_def
  AdminUserResponse_def RoleResponse_def LinkedProviderResponse_def ReportTaskResponse_def
  ReportStatusResponse_def file_fields_def FileUploadResponse_def FileDownloadResponse_def
  Page_def CursorPage_def

subsection \<open>The values the handlers return\<close>

definition nullable_str :: "string option \<Rightarrow> pyval" where
  "nullable_str s = (case s of None \<Rightarrow> PNone | Some x \<Rightarrow> PStr x)"

definition message_value :: "string \<Rightarrow> pyval" where
  "message_value m = PDict [(''message'', PStr m)]"

definition registration_value :: "registration_response \<Rightarrow> pyval" where
  "registration_value r = PDict
     [(''id'', PInt (reg_id r)), (''email'', PStr (reg_email r)), (''is_active'', PBool (reg_is_active r)),
      (''is_verified'', PBool (reg_is_verified r)), (''message'', PStr (reg_message r))]"

definition token_value :: "token_response \<Rightarrow> pyval" where
  "token_value r = PDict
     [(''access_token'', PStr (tr_access_token r)), (''refresh_token'', PStr (tr_refresh_token r)),
      (''token_type'', PStr (tr_token_type r))]"

definition access_token_value :: "access_token_response \<Rightarrow> pyval" where
  "access_token_value r = PDict
     [(''access_token'', PStr (atr_access_token r)), (''token_type'', PStr (atr_token_type r))]"

definition user_pairs :: "'a user_response_scheme \<Rightarrow> pydict" where
  "user_pairs r =
     [(''id'', PInt (ur_id r)), (''email'', PStr (ur_email r)), (''is_active'', PBool (ur_is_active r)),
      (''is_verified'', PBool (ur_is_verified r)), (''roles'', PList (map PStr (ur_roles r)))]"

definition user_value :: "user_response \<Rightarrow> pyval" where "user_value r = PDict (user_pairs r)"

definition user_v2_value :: "user_response_v2 \<Rightarrow> pyval" where
  "user_v2_value r =
     PDict (user_pairs r @ [(''oauth_providers'', PList (map PStr (ur2_oauth_providers r)))])"

definition role_value :: "role_response \<Rightarrow> pyval" where
  "role_value r = PDict
     [(''name'', PStr (rr_name r)), (''description'', nullable_str (rr_description r)),
      (''permissions'', PList (map PStr (rr_permissions r)))]"

definition linked_value :: "linked_provider \<Rightarrow> pyval" where
  "linked_value a = PDict
     [(''provider'', PStr (lp_provider a)), (''email'', nullable_str (lp_email a)),
      (''created_at'', PTime (lp_created_at a))]"

definition report_task_value :: "report_task_response \<Rightarrow> pyval" where
  "report_task_value r = PDict [(''task_id'', PStr (rt_task_id r)), (''status'', PStr (rt_status r))]"

definition report_status_value :: "report_status_response \<Rightarrow> pyval" where
  "report_status_value r = PDict
     [(''task_id'', PStr (rs_task_id r)), (''status'', PStr (rs_status r)),
      (''result'', case rs_result r of None \<Rightarrow> PNone | Some v \<Rightarrow> v)]"

definition file_pairs :: "file_upload_response \<Rightarrow> pydict" where
  "file_pairs f =
     [(''id'', PInt (fr_id f)), (''filename'', PStr (fr_filename f)), (''content_type'', PStr (fr_content_type f)),
      (''category'', PStr (fr_category f)), (''size_bytes'', PInt (fr_size_bytes f)),
      (''created_at'', PTime (fr_created_at f))]"

definition file_value :: "file_upload_response \<Rightarrow> pyval" where "file_value f = PDict (file_pairs f)"

definition download_value :: "file_upload_response \<times> string \<Rightarrow> pyval" where
  "download_value f = PDict (file_pairs (fst f) @ [(''download_url'', PStr (snd f))])"

definition page_value :: "('a \<Rightarrow> pyval) \<Rightarrow> 'a page \<Rightarrow> pyval" where
  "page_value val p = PDict
     [(''items'', PList (map val (pg_items p))), (''total'', PInt (int (pg_total p))),
      (''limit'', PInt (int (pg_limit p))), (''offset'', PInt (int (pg_offset p))),
      (''has_more'', PBool (pg_has_more p))]"

definition cursor_page_value :: "('a \<Rightarrow> pyval) \<Rightarrow> 'a cursor_page \<Rightarrow> pyval" where
  "cursor_page_value val p = PDict
     [(''items'', PList (map val (cu_items p))), (''next_cursor'', nullable_str (cu_next_cursor p)),
      (''has_more'', PBool (cu_has_more p))]"

lemmas returned_values = nullable_str_def message_value_def registration_value_def token_value_def
  access_token_value_def user_pairs_def user_value_def user_v2_value_def role_value_def linked_value_def
  report_task_value_def report_status_value_def file_pairs_def file_value_def download_value_def
  page_value_def cursor_page_value_def

subsection \<open>What a route declares and returns\<close>

text \<open>A handler returns a response of its own, empty or a redirect, or a value for the model.\<close>

datatype returned = NoContent | RedirectTo string | Returns pyval

definition returning :: "('a \<Rightarrow> 'b) \<Rightarrow> ('a, 's) handled \<Rightarrow> ('b, 's) handled" where
  "returning f r = (case r of (Inl e, s) \<Rightarrow> (Inl e, s) | (Inr v, s) \<Rightarrow> (Inr (f v), s))"

definition app_returns ::
  "('a \<Rightarrow> returned) \<Rightarrow> ('a, 'r app_state) handled \<Rightarrow> 'o \<Rightarrow> (returned, 'r app_state \<times> 'o) handled" where
  "app_returns f r ob = (case returning f r of (res, s) \<Rightarrow> (res, (s, ob)))"

fun returns ::
  "'r env \<Rightarrow> 'o parties \<Rightarrow> drawn \<Rightarrow> time \<Rightarrow> request \<Rightarrow> 'r app_state \<times> 'o \<Rightarrow>
     (returned, 'r app_state \<times> 'o) handled" where
  "returns E P x now (RegisterUser client e p) (s, ob) =
     app_returns (Returns \<circ> registration_value)
       (register_route E (p_valid P) now client (dr_jti1 x) (dr_salt x) e p s) ob"
| "returns E P x now (LoginUser client e p) (s, ob) =
     app_returns (Returns \<circ> token_value)
       (login_route E (p_valid P) now client (dr_jti1 x) (dr_jti2 x) e p s) ob"
| "returns E P x now (RefreshAccessToken tok) (s, ob) =
     app_returns (Returns \<circ> access_token_value) (refresh_access_token E now (dr_jti1 x) tok s) ob"
| "returns E P x now (Logout cred tok) (s, ob) = app_returns (\<lambda>_. NoContent) (logout E now cred tok s) ob"
| "returns E P x now (VerifyEmail tok) (s, ob) =
     app_returns (Returns \<circ> message_value) (verify_email E now tok s) ob"
| "returns E P x now (ForgotPassword client e) (s, ob) =
     app_returns (Returns \<circ> message_value)
       (forgot_password_route E (p_valid P) now client (dr_jti1 x) e s) ob"
| "returns E P x now (ResetPassword tok p) (s, ob) =
     app_returns (Returns \<circ> message_value) (reset_password_route E now (dr_salt x) tok p s) ob"
| "returns E P x now (OauthLogin provider) (s, ob) =
     app_returns RedirectTo (oauth_login E (p_clients P) (p_url_for P) now (dr_state x) provider s) ob"
| "returns E P x now (OauthLink cred provider) (s, ob) =
     app_returns RedirectTo (oauth_link E (p_clients P) (p_url_for P) now cred (dr_state x) provider s) ob"
| "returns E P x now (OauthCallback provider auth_code st) (s, ob) =
     app_returns (Returns \<circ> token_value)
       (oauth_callback E (p_clients P) (p_url_for P) now (dr_jti1 x) (dr_jti2 x) provider auth_code st s) ob"
| "returns E P x now (ListLinkedAccounts cred) (s, ob) =
     app_returns (\<lambda>as. Returns (PList (map linked_value as))) (list_linked_accounts E now cred s) ob"
| "returns E P x now (UnlinkProvider cred provider) (s, ob) =
     app_returns (\<lambda>_. NoContent) (unlink_provider E now cred provider s) ob"
| "returns E P x now (ReadCurrentUser cred) (s, ob) =
     app_returns (Returns \<circ> user_value) (read_current_user E now cred s) ob"
| "returns E P x now (UpdateCurrentUser cred e) (s, ob) =
     app_returns (Returns \<circ> user_value) (update_current_user E (p_valid P) now cred e s) ob"
| "returns E P x now (ChangeCurrentUserPassword cred old new) (s, ob) =
     app_returns (\<lambda>_. NoContent) (change_current_user_password E now cred (dr_salt x) old new s) ob"
| "returns E P x now (DeactivateCurrentUser cred) (s, ob) =
     app_returns (\<lambda>_. NoContent) (deactivate_current_user E now cred s) ob"
| "returns E P x now (ReadCurrentUserV2 cred) (s, ob) =
     app_returns (Returns \<circ> user_v2_value) (read_current_user_v2 E now cred s) ob"
| "returns E P x now (UpdateCurrentUserV2 cred e) (s, ob) =
     app_returns (Returns \<circ> user_v2_value) (update_current_user_v2 E (p_valid P) now cred e s) ob"
| "returns E P x now (ChangeCurrentUserPasswordV2 cred old new) (s, ob) =
     app_returns (\<lambda>_. NoContent) (change_current_user_password_v2 E now cred (dr_salt x) old new s) ob"
| "returns E P x now (DeactivateCurrentUserV2 cred) (s, ob) =
     app_returns (\<lambda>_. NoContent) (deactivate_current_user_v2 E now cred s) ob"
| "returns E P x now (ListUsers cred limit offset by dir q active) (s, ob) =
     app_returns (Returns \<circ> page_value user_value)
       (list_users E (p_users_sql P) now cred (get_offset_pagination limit offset by dir q) active s) ob"
| "returns E P x now (ListUsersFeed cred cursor limit q) (s, ob) =
     app_returns (Returns \<circ> cursor_page_value user_value)
       (list_users_feed E (p_users_sql P) now cred (get_cursor_pagination cursor limit q) s) ob"
| "returns E P x now (UpdateUserStatus cred uid active verified) (s, ob) =
     app_returns (Returns \<circ> user_value) (update_user_status E now cred uid active verified s) ob"
| "returns E P x now (AdminDeactivateUser cred uid) (s, ob) =
     app_returns (\<lambda>_. NoContent) (admin_deactivate_user E now cred uid s) ob"
| "returns E P x now (ListRoles cred) (s, ob) =
     app_returns (\<lambda>rs. Returns (PList (map role_value rs))) (list_roles E now cred s) ob"
| "returns E P x now (AssignRole cred uid n) (s, ob) =
     app_returns (Returns \<circ> user_value) (assign_role E (p_deliver P) now cred uid n s) ob"
| "returns E P x now (RevokeRole cred uid n) (s, ob) =
     app_returns (Returns \<circ> user_value) (revoke_role E now cred uid n s) ob"
| "returns E P x now (TriggerUserSummaryReport cred) (s, ob) =
     app_returns (Returns \<circ> report_task_value)
       (trigger_user_summary_report E (p_backend P) now cred (dr_task_id x) s) ob"
| "returns E P x now (GetReportStatus cred i) (s, ob) =
     app_returns (Returns \<circ> report_status_value) (get_report_status E (p_backend P) now cred i s) ob"
| "returns E P x now (UploadFile cred form) so =
     returning (Returns \<circ> file_value) (upload_file E (p_s3 P) now cred (dr_hex x) form so)"
| "returns E P x now (ListMyFiles cred limit offset by dir q) so =
     returning (Returns \<circ> page_value file_value)
       (list_my_files E (p_files_sql P) now cred (get_offset_pagination limit offset by dir q) so)"
| "returns E P x now (GetFile cred i) so =
     returning (Returns \<circ> download_value) (get_file E (p_s3 P) now cred i so)"
| "returns E P x now (DeleteFile cred i) so =
     returning (\<lambda>_. NoContent) (delete_file E (p_s3 P) now cred i so)"

text \<open>The decorators: the status of a success and the response model.\<close>

fun declared :: "request \<Rightarrow> int \<times> schema option" where
  "declared (RegisterUser _ _ _) = (201, Some RegistrationResponse)"
| "declared (LoginUser _ _ _) = (200, Some TokenResponse)"
| "declared (RefreshAccessToken _) = (200, Some AccessTokenResponse)"
| "declared (Logout _ _) = (204, None)"
| "declared (VerifyEmail _) = (200, Some MessageResponse)"
| "declared (ForgotPassword _ _) = (200, Some ForgotPasswordResponse)"
| "declared (ResetPassword _ _) = (200, Some MessageResponse)"
| "declared (OauthLogin _) = (307, None)"
| "declared (OauthLink _ _) = (307, None)"
| "declared (OauthCallback _ _ _) = (200, Some TokenResponse)"
| "declared (ListLinkedAccounts _) = (200, Some (SListOf LinkedProviderResponse))"
| "declared (UnlinkProvider _ _) = (204, None)"
| "declared (ReadCurrentUser _) = (200, Some UserResponse)"
| "declared (UpdateCurrentUser _ _) = (200, Some UserResponse)"
| "declared (ChangeCurrentUserPassword _ _ _) = (204, None)"
| "declared (DeactivateCurrentUser _) = (204, None)"
| "declared (ReadCurrentUserV2 _) = (200, Some UserResponseV2)"
| "declared (UpdateCurrentUserV2 _ _) = (200, Some UserResponseV2)"
| "declared (ChangeCurrentUserPasswordV2 _ _ _) = (204, None)"
| "declared (DeactivateCurrentUserV2 _) = (204, None)"
| "declared (ListUsers _ _ _ _ _ _ _) = (200, Some (Page AdminUserResponse))"
| "declared (ListUsersFeed _ _ _ _) = (200, Some (CursorPage AdminUserResponse))"
| "declared (UpdateUserStatus _ _ _ _) = (200, Some AdminUserResponse)"
| "declared (AdminDeactivateUser _ _) = (204, None)"
| "declared (ListRoles _) = (200, Some (SListOf RoleResponse))"
| "declared (AssignRole _ _ _) = (200, Some AdminUserResponse)"
| "declared (RevokeRole _ _ _) = (200, Some AdminUserResponse)"
| "declared (TriggerUserSummaryReport _) = (202, Some ReportTaskResponse)"
| "declared (GetReportStatus _ _) = (200, Some ReportStatusResponse)"
| "declared (UploadFile _ _) = (201, Some FileUploadResponse)"
| "declared (ListMyFiles _ _ _ _ _ _) = (200, Some (Page FileUploadResponse))"
| "declared (GetFile _ _) = (200, Some FileDownloadResponse)"
| "declared (DeleteFile _ _) = (204, None)"

text \<open>The response of a route: status, redirect, body.\<close>

record reply =
  rp_status :: int
  rp_location :: "string option"
  rp_body :: "pyval option"

definition response_invalid :: failure where
  "response_invalid = Unhandled ''ValidationError''"

definition reply_to :: "email_validator \<Rightarrow> int \<times> schema option \<Rightarrow> returned \<Rightarrow> failure + reply" where
  "reply_to valid decl v =
     (case v of
        NoContent \<Rightarrow> Inr \<lparr>rp_status = fst decl, rp_location = None, rp_body = None\<rparr>
      | RedirectTo url \<Rightarrow> Inr \<lparr>rp_status = fst decl, rp_location = Some url, rp_body = None\<rparr>
      | Returns w \<Rightarrow>
          (case snd decl of
             None \<Rightarrow> Inr \<lparr>rp_status = fst decl, rp_location = None, rp_body = Some w\<rparr>
           | Some m \<Rightarrow>
               (case serialize valid m w of
                  None \<Rightarrow> Inl response_invalid
                | Some body \<Rightarrow> Inr \<lparr>rp_status = fst decl, rp_location = None, rp_body = Some body\<rparr>)))"

definition serve ::
  "'r env \<Rightarrow> 'o parties \<Rightarrow> drawn \<Rightarrow> time \<Rightarrow> request \<Rightarrow> 'r app_state \<times> 'o \<Rightarrow>
     (reply, 'r app_state \<times> 'o) handled" where
  "serve E P x now rq so =
     (case returns E P x now rq so of
        (Inl e, so') \<Rightarrow> (Inl e, so')
      | (Inr v, so') \<Rightarrow> (reply_to (p_valid P) (declared rq) v, so'))"

lemma outcome_returning [simp]: "outcome (returning f r) = outcome r"
  by (auto simp: outcome_def returning_def split: prod.split sum.split)

lemma outcome_app_returns [simp]: "outcome (app_returns f r ob) = on_app r ob"
  by (auto simp: app_returns_def on_app_def outcome_def returning_def split: prod.split sum.split)

text \<open>These are the handlers of \<open>System\<close>, with their values.\<close>

lemma outcome_returns: "outcome (returns E P x now rq so) = handle E P x now rq so"
  by (cases so; cases rq) (simp_all only: returns.simps handle.simps outcome_app_returns outcome_returning)

subsection \<open>Serialized values have the type of the model\<close>

lemma all_some_all:
  "all_some xs = Some ys \<Longrightarrow> (\<And>y. Some y \<in> set xs \<Longrightarrow> P y) \<Longrightarrow> list_all P ys"
  by (induction xs arbitrary: ys rule: all_some.induct) auto

lemma serialize_conforms:
  "(\<forall>a b. valid a = Some b \<longrightarrow> valid b = Some b) \<Longrightarrow> serialize valid m v = Some w \<Longrightarrow> conforms valid m w"
  "(\<forall>a b. valid a = Some b \<longrightarrow> valid b = Some b) \<Longrightarrow> serialize_fields valid fs d = Some d' \<Longrightarrow>
     conforms_fields valid fs d'"
proof (induction valid m v and valid fs d arbitrary: w and d' rule: serialize_serialize_fields.induct)
  case (8 valid m v)
  then obtain vs ys where v: "v = PList vs" "w = PList ys"
    and ys: "all_some (map (serialize valid m) vs) = Some ys"
    by (auto split: pyval.splits)
  have "conforms valid m y" if y: "Some y \<in> set (map (serialize valid m) vs)" for y
  proof -
    obtain u where "u \<in> set vs" "serialize valid m u = Some y" using y by (auto dest: sym)
    then show ?thesis by (rule 8(1) [OF v(1) _ 8(2)])
  qed
  then show ?case using all_some_all [OF ys, of "conforms valid m"] v(2) by simp
qed (auto split: pyval.splits option.splits if_splits)

text \<open>What is asked of the address validator: the form it gives an address is one it accepts as it is,
  and it accepts the lower-cased form too.\<close>

locale email_syntax =
  fixes valid :: email_validator
  assumes normal: "valid a = Some b \<Longrightarrow> valid b = Some b"
    and lower_accepted: "valid a = Some b \<Longrightarrow> valid (lower b) \<noteq> None"
begin

lemma reply_conforms:
  "reply_to valid decl v = Inr r \<Longrightarrow> rp_body r = Some w \<Longrightarrow> snd decl = Some m \<Longrightarrow> conforms valid m w"
  using serialize_conforms(1) [of valid m] normal
  by (auto simp: reply_to_def split: returned.splits option.splits)

end

text \<open>Which values serialize.\<close>

lemma all_some_None: "all_some xs = None \<longleftrightarrow> None \<in> set xs"
  by (induction xs rule: all_some.induct) auto

lemma serialize_list:
  "serialize valid (SListOf m) (PList vs) = None \<longleftrightarrow> (\<exists>v \<in> set vs. serialize valid m v = None)"
  by (simp add: all_some_None image_iff eq_commute [of None])

lemma serialize_strings [simp]: "serialize valid (SListOf SStr) (PList (map PStr xs)) = Some (PList (map PStr xs))"
  by (induction xs) auto

lemma serialize_user [simp]:
  "serialize valid UserResponse (user_value r) = None \<longleftrightarrow> valid (ur_email r) = None"
  "serialize valid AdminUserResponse (user_value r) = None \<longleftrightarrow> valid (ur_email r) = None"
  "serialize valid UserResponseV2 (user_v2_value r2) = None \<longleftrightarrow> valid (ur_email r2) = None"
  by (auto simp: response_models returned_values simp del: serialize.simps(8) split: option.split)

lemma serialize_registration [simp]:
  "serialize valid RegistrationResponse (registration_value r) = None \<longleftrightarrow> valid (reg_email r) = None"
  by (auto simp: response_models returned_values split: option.split)

lemma serialize_plain [simp]:
  "serialize valid MessageResponse (message_value m) \<noteq> None"
  "serialize valid ForgotPasswordResponse (message_value m) \<noteq> None"
  "serialize valid TokenResponse (token_value t) \<noteq> None"
  "serialize valid AccessTokenResponse (access_token_value a) \<noteq> None"
  "serialize valid ReportTaskResponse (report_task_value rt) \<noteq> None"
  "serialize valid FileUploadResponse (file_value f) \<noteq> None"
  "serialize valid FileDownloadResponse (download_value fd) \<noteq> None"
  "serialize valid LinkedProviderResponse (linked_value l) \<noteq> None"
  "serialize valid RoleResponse (role_value rr) \<noteq> None"
  by (simp_all add: response_models returned_values del: serialize.simps(8) split: option.split)

lemma serialize_report_status [simp]:
  "serialize valid ReportStatusResponse (report_status_value r) = None \<longleftrightarrow>
     (case rs_result r of None \<Rightarrow> False | Some PNone \<Rightarrow> False | Some (PDict d) \<Rightarrow> False | _ \<Rightarrow> True)"
  by (auto simp: response_models returned_values split: option.split pyval.split)

lemma serialize_page [simp]:
  "serialize valid (Page m) (page_value val p) = None \<longleftrightarrow> (\<exists>v \<in> set (pg_items p). serialize valid m (val v) = None)"
  "serialize valid (CursorPage m) (cursor_page_value val c) = None \<longleftrightarrow>
     (\<exists>v \<in> set (cu_items c). serialize valid m (val v) = None)"
  using serialize_list [of valid m "map val (pg_items p)"] serialize_list [of valid m "map val (cu_items c)"]
  by (auto simp: response_models returned_values simp del: serialize.simps(8) split: option.splits)

end
