(* ===== verification/UserRules.thy ===== *)
theory UserRules
  imports System
begin

text \<open>
  What every request does to the rows of the users table, stated once for any property of rows: a
  property that survives the changes the handlers make to a row, and that the rows they insert
  have, holds of all rows after every request. The locale lists the changes: a new password, a
  changed address that the validator accepted, verification, activation and what an administrator
  sets. It is used for the addresses that may be shown (\<open>Contract\<close>) and for the age of unverified
  accounts (\<open>Expiry\<close>).
\<close>

definition every_user :: "(user \<Rightarrow> bool) \<Rightarrow> database \<Rightarrow> bool" where
  "every_user K d \<longleftrightarrow> list_all K (users d)"

text \<open>\<open>address_ok\<close> are the addresses a provider may send, \<open>time_ok\<close> the times at which rows may be added,
  \<open>admin_ok\<close> what an administrator may set \<open>is_verified\<close> to.\<close>

locale user_rule =
  fixes K :: "user \<Rightarrow> bool" and valid :: email_validator and address_ok :: "string \<Rightarrow> bool"
    and time_ok :: "time \<Rightarrow> bool" and admin_ok :: "bool option \<Rightarrow> bool"
  assumes new_password: "K u \<Longrightarrow> K (u\<lparr>user_hashed_password := h\<rparr>)"
    and new_address: "K u \<Longrightarrow> valid e = Some e' \<Longrightarrow> K (u\<lparr>user_email := lower e'\<rparr>)"
    and activation: "K u \<Longrightarrow> K (u\<lparr>user_is_active := b\<rparr>)"
    and verification: "K u \<Longrightarrow> K (u\<lparr>user_is_verified := True\<rparr>)"
    and administration: "K u \<Longrightarrow> admin_ok (Some b) \<Longrightarrow> K (u\<lparr>user_is_verified := b\<rparr>)"
    and registered: "valid e = Some e' \<Longrightarrow> time_ok now \<Longrightarrow>
      K \<lparr>user_id = i, user_email = lower e', user_hashed_password = h,
         user_is_active = True, user_is_verified = False, user_created_at = now\<rparr>"
    and provided: "address_ok a \<Longrightarrow> time_ok now \<Longrightarrow>
      K \<lparr>user_id = i, user_email = a, user_hashed_password = None,
         user_is_active = True, user_is_verified = True, user_created_at = now\<rparr>"

definition identities_ok :: "(string \<Rightarrow> bool) \<Rightarrow> oauth_clients \<Rightarrow> bool" where
  "identities_ok ok clients \<longleftrightarrow>
     (\<forall>provider c tok puid a. clients provider = Some c \<longrightarrow> c_fetch_identity c tok = Inr (puid, Some a) \<longrightarrow> ok a)"

named_theorems rules \<open>handlers keep what holds of every row\<close>

lemma every_userD: "every_user K d \<Longrightarrow> u \<in> set (users d) \<Longrightarrow> K u"
  by (auto simp: every_user_def list_all_iff)

lemma every_user_same: "users d' = users d \<Longrightarrow> every_user K d' = every_user K d"
  by (simp add: every_user_def)

lemma every_user_update: "update_user d v = Inr d' \<Longrightarrow> every_user K d \<Longrightarrow> K v \<Longrightarrow> every_user K d'"
  by (auto simp: update_user_Inr every_user_def list_all_iff dest: row_put_cases)

lemma every_user_found:
  "every_user K d \<Longrightarrow> get_user d i = Some u \<Longrightarrow> K u"
  "every_user K d \<Longrightarrow> select_user_by_email d e = Some u \<Longrightarrow> K u"
  using every_userD get_user_SomeD select_user_SomeD by blast+

lemma every_user_delete: "every_user K d \<Longrightarrow> every_user K (delete_user d i)"
  by (auto simp: every_user_def delete_user_def row_delete_def list_all_iff)

lemma every_user_assigned:
  "update_user d v = Inr d' \<Longrightarrow> every_user K d \<Longrightarrow> get_user d i = Some u \<Longrightarrow> (K u \<Longrightarrow> K v) \<Longrightarrow> every_user K d'"
  using every_user_update every_user_found(1) by blast

lemma every_user_kept:
  "update_user d v = Inr d' \<Longrightarrow> every_user K d \<Longrightarrow> u \<in> set (users d) \<Longrightarrow> (K u \<Longrightarrow> K v) \<Longrightarrow> every_user K d'"
  using every_user_update every_userD by blast

lemma users_append_role: "append_role d uid rid = Inr d' \<Longrightarrow> users d' = users d"
  by (auto simp: append_role_def split: if_splits)

lemma users_insert_oauth: "insert_oauth_account d uid provider puid e now = Inr d' \<Longrightarrow> users d' = users d"
  by (auto simp: insert_oauth_Inr)

lemma users_insert_file: "insert_file d uid fname ct cat n key now = Inr (f, d') \<Longrightarrow> users d' = users d"
  by (auto simp: insert_file_Inr)

lemma users_frame [simp]:
  "users (set_roles d uid rs) = users d" "users (delete_oauth_account d i) = users d"
  "users (delete_file_row d i) = users d"
  by (simp_all add: set_roles_def delete_oauth_account_def delete_file_row_def)

lemma every_user_frame [simp]:
  "every_user K (delete_oauth_account d i) = every_user K d"
  "every_user K (set_roles d uid rs) = every_user K d"
  "every_user K (delete_file_row d i) = every_user K d"
  by (simp_all add: every_user_def)

lemma register_user_Inl: "register_user E now jti salt c s = (Inl e, t) \<Longrightarrow> t = s"
  by (auto simp: register_user_def Let_def split: option.splits sum.splits prod.splits)

subsection \<open>Dependencies\<close>

abbreviation ruled :: "(user \<Rightarrow> bool) \<Rightarrow> 'r app_state \<Rightarrow> bool" where
  "ruled K s \<equiv> every_user K (st_db s)"

lemma ruled_authenticated:
  "ruled K s \<Longrightarrow> (\<And>u. u \<in> set (users (st_db s)) \<Longrightarrow> ruled K (snd (body u s))) \<Longrightarrow>
     ruled K (snd (authenticated E now tok body s))"
  using current_user_in [of E now tok s] by (cases "get_current_user E now tok s") (auto simp: authenticated_def)

lemma ruled_permitted:
  "ruled K s \<Longrightarrow> ruled K (snd (body s)) \<Longrightarrow> ruled K (snd (require_permissions E now tok ps body s))"
  by (rule require_permissions_cases [of E now tok s ps body]) auto

lemma ruled_limited:
  "ruled K s \<Longrightarrow> (\<And>r. ruled K (snd (body (s\<lparr>st_redis := r\<rparr>)))) \<Longrightarrow> ruled K (snd (limited E rl now client body s))"
  by (auto simp: limited_def split: prod.split sum.split)

lemma ruled_committed:
  "ruled K s \<Longrightarrow> (\<And>x d. res = Inr (x, d) \<Longrightarrow> every_user K d) \<Longrightarrow> ruled K (snd (committed s res))"
  by (cases res) auto

subsection \<open>The handlers\<close>

context user_rule
begin

lemma ruled_services:
  assumes "every_user K d"
  shows "change_user_password H salt d u old new = Inr (x, d') \<Longrightarrow> u \<in> set (users d) \<Longrightarrow> every_user K d'"
    and "deactivate_user d u = Inr (x, d') \<Longrightarrow> u \<in> set (users d) \<Longrightarrow> every_user K d'"
    and "unlink_from d u provider = Inr (x, d') \<Longrightarrow> every_user K d'"
  using assms
  by (auto simp: change_user_password_def deactivate_user_def unlink_from_def Let_def
      split: option.splits sum.splits if_splits elim!: every_user_kept intro: new_password activation)

lemma ruled_register_user:
  assumes "ruled K s" and "time_ok now" and "validate_user_create valid e p = Inr c"
  shows "ruled K (snd (register_user E now jti salt c s))"
proof (cases "register_user E now jti salt c s")
  case (Pair res t)
  show ?thesis
  proof (cases res)
    case (Inl err)
    with Pair assms(1) register_user_Inl [of E now jti salt c s err t] show ?thesis by simp
  next
    case (Inr resp)
    have "valid e = Some (uc_email c)"
      using assms(3) by (auto simp: validate_user_create_def split: option.splits sum.splits)
    with register_user_Inr(3) [OF Pair [unfolded Inr]] Pair assms(1) registered [OF _ assms(2)] show ?thesis
      by (simp add: every_user_def list_all_iff)
  qed
qed

lemma ruled_register [rules]:
  assumes "ruled K s" and "time_ok now"
  shows "ruled K (snd (register_route E valid now client jti salt e p s))"
  unfolding register_route_def
proof (rule ruled_limited [OF assms(1)])
  fix r
  show "ruled K (snd (case validate_user_create valid e p of
      Inl err \<Rightarrow> (Inl err, s\<lparr>st_redis := r\<rparr>)
    | Inr user_data \<Rightarrow> register_user E now jti salt user_data (s\<lparr>st_redis := r\<rparr>)))"
    using assms by (auto split: sum.split intro!: ruled_register_user)
qed

lemma ruled_auth [rules]:
  assumes "ruled K s"
  shows "ruled K (snd (login_route E valid now client j1 j2 e p s))"
    and "ruled K (snd (refresh_access_token E now jti tok s))"
    and "ruled K (snd (logout E now cred rtok s))"
    and "ruled K (snd (verify_email E now tok s))"
    and "ruled K (snd (forgot_password_route E valid now client jti e s))"
    and "ruled K (snd (reset_password_route E now salt tok p s))"
proof -
  note assigned = every_user_assigned [OF _ assms]
  show "ruled K (snd (login_route E valid now client j1 j2 e p s))"
    unfolding login_route_def by (rule ruled_limited [OF assms]) (use assms in \<open>auto split: option.split\<close>)
  show "ruled K (snd (refresh_access_token E now jti tok s))"
    using assms by (simp add: refresh_access_token_def Let_def split: option.split)
  show "ruled K (snd (logout E now cred rtok s))"
    using assms by (simp add: logout_def Let_def split: option.split)
  show "ruled K (snd (verify_email E now tok s))"
    using assms by (auto simp: verify_email_def Let_def split: option.split sum.split elim!: assigned intro: verification)
  show "ruled K (snd (forgot_password_route E valid now client jti e s))"
    unfolding forgot_password_route_def
    by (rule ruled_limited [OF assms]) (use assms in \<open>auto simp: forgot_password_def Let_def split: option.split\<close>)
  show "ruled K (snd (reset_password_route E now salt tok p s))"
    using assms by (auto simp: reset_password_route_def reset_password_def Let_def
        split: option.split sum.split elim!: assigned intro: new_password)
qed

lemma ruled_updated_user:
  assumes "ruled K s" and "u \<in> set (users (st_db s))"
  shows "ruled K (snd (updated_user valid e u s))"
  using assms
  by (auto simp: updated_user_def validate_user_update_def update_user_email_def Let_def
      split: option.split sum.split elim!: every_user_kept intro: new_address)

lemma ruled_profile [rules]:
  assumes "ruled K s"
  shows "ruled K (snd (read_current_user E now tok s))"
    and "ruled K (snd (update_current_user E valid now tok e s))"
    and "ruled K (snd (change_current_user_password E now tok salt old new s))"
    and "ruled K (snd (deactivate_current_user E now tok s))"
    and "ruled K (snd (read_current_user_v2 E now tok s))"
    and "ruled K (snd (update_current_user_v2 E valid now tok e s))"
    and "ruled K (snd (list_linked_accounts E now tok s))"
    and "ruled K (snd (unlink_provider E now tok provider s))"
proof -
  show "ruled K (snd (read_current_user E now tok s))"
    "ruled K (snd (read_current_user_v2 E now tok s))"
    "ruled K (snd (list_linked_accounts E now tok s))"
    unfolding read_current_user_def read_current_user_v2_def list_linked_accounts_def
    by (rule ruled_authenticated [OF assms]; simp add: assms)+
  show "ruled K (snd (update_current_user E valid now tok e s))"
    "ruled K (snd (update_current_user_v2 E valid now tok e s))"
    unfolding update_current_user_def update_current_user_v2_def
    by (rule ruled_authenticated [OF assms], drule ruled_updated_user [OF assms, of _ e], auto split: prod.split sum.split)+
  show "ruled K (snd (change_current_user_password E now tok salt old new s))"
    unfolding change_current_user_password_def
    by (rule ruled_authenticated [OF assms])
       (auto simp: assms split: sum.split intro!: ruled_committed dest: ruled_services [OF assms])
  show "ruled K (snd (deactivate_current_user E now tok s))"
    unfolding deactivate_current_user_def
    by (rule ruled_authenticated [OF assms]) (auto simp: assms intro!: ruled_committed dest: ruled_services [OF assms])
  show "ruled K (snd (unlink_provider E now tok provider s))"
    unfolding unlink_provider_def
    by (rule ruled_authenticated [OF assms]) (auto simp: assms intro!: ruled_committed dest: ruled_services [OF assms])
qed

lemma ruled_admin [rules]:
  assumes "ruled K s"
  shows "ruled K (snd (list_users E Q now tok pagination a s))"
    and "ruled K (snd (list_users_feed E Q now tok cpagination s))"
    and "admin_ok v \<Longrightarrow> ruled K (snd (update_user_status E now tok uid a v s))"
    and "ruled K (snd (admin_deactivate_user E now tok uid s))"
    and "ruled K (snd (list_roles E now tok s))"
    and "ruled K (snd (assign_role E deliver now tok uid n s))"
    and "ruled K (snd (revoke_role E now tok uid n s))"
    and "ruled K (snd (trigger_user_summary_report E backend now tok i s))"
    and "ruled K (snd (get_report_status E backend now tok i s))"
proof -
  note permitted = ruled_permitted [OF assms]
  show "ruled K (snd (list_users E Q now tok pagination a s))"
    "ruled K (snd (list_users_feed E Q now tok cpagination s))"
    "ruled K (snd (list_roles E now tok s))"
    "ruled K (snd (revoke_role E now tok uid n s))"
    "ruled K (snd (trigger_user_summary_report E backend now tok i s))"
    "ruled K (snd (get_report_status E backend now tok i s))"
    unfolding list_users_def list_users_feed_def list_roles_def revoke_role_def
      trigger_user_summary_report_def get_report_status_def
    by (rule permitted; simp add: assms Let_def split: sum.split option.split)+
  show "ruled K (snd (update_user_status E now tok uid a v s))" if "admin_ok v"
    unfolding update_user_status_def
    by (rule permitted)
       (use that in \<open>auto simp: assms Let_def split: sum.split option.split
          elim!: every_user_assigned [OF _ assms] intro: activation administration\<close>)
  show "ruled K (snd (admin_deactivate_user E now tok uid s))"
    unfolding admin_deactivate_user_def
    by (rule permitted)
       (auto simp: assms split: sum.split option.split elim!: every_user_assigned [OF _ assms] intro: activation)
  show "ruled K (snd (assign_role E deliver now tok uid n s))"
    unfolding assign_role_def
    by (rule permitted)
       (use assms in \<open>auto simp: every_user_def split: sum.split option.split dest!: users_append_role\<close>)
qed

lemma ruled_start_flow:
  "ruled K s \<Longrightarrow> ruled K (snd (start_flow E clients url_for now st provider v s))"
  by (simp add: start_flow_def split: sum.split)

lemma ruled_resolve:
  assumes "every_user K d" and "time_ok now" and "\<And>a. address = Some a \<Longrightarrow> address_ok a"
  shows "every_user K (snd (resolve_user d now provider puid address v))"
proof -
  have "every_user K (snd (link_identity d now provider puid address uid))" for uid
    using assms(1) by (auto simp: link_identity_eq every_user_def split: option.split)
  moreover have found: "every_user K d'"
    if "find_or_create_user d now a = Inr (u, d')" "address_ok a" for a u d'
    using that assms(1) provided [OF _ assms(2)]
    by (auto simp: find_or_create_user_def insert_user_Inr every_user_def list_all_iff split: option.splits)
  have "snd (reject_inactive u d') = d'" for u d' by (simp add: reject_inactive_def split: option.split)
  then have "every_user K (snd (sign_in_identity d now provider puid address))"
    using assms found
    by (auto simp: sign_in_identity_def every_user_def split: option.split sum.split dest!: users_insert_oauth)
  ultimately show ?thesis using assms(1) by (simp add: resolve_user_def split: sum.split option.split)
qed

lemma ruled_oauth [rules]:
  assumes "ruled K s"
  shows "ruled K (snd (oauth_login E clients url_for now st provider s))"
    and "ruled K (snd (oauth_link E clients url_for now tok st provider s))"
    and "identities_ok address_ok clients \<Longrightarrow> time_ok now \<Longrightarrow>
      ruled K (snd (oauth_callback E clients url_for now j1 j2 provider ac st s))"
proof -
  show "ruled K (snd (oauth_login E clients url_for now st provider s))"
    using assms by (simp add: oauth_login_def ruled_start_flow)
  show "ruled K (snd (oauth_link E clients url_for now tok st provider s))"
    unfolding oauth_link_def by (rule ruled_authenticated [OF assms]) (simp add: assms ruled_start_flow)
  show "ruled K (snd (oauth_callback E clients url_for now j1 j2 provider ac st s))"
    if ids: "identities_ok address_ok clients" "time_ok now"
  proof (cases "require_client clients provider")
    case (Inr c)
    then have c: "clients provider = Some c" by (auto simp: require_client_def split: if_splits option.splits)
    have "address_ok a" if "identify c (url_for provider) ac = Inr (puid, Some a)" for puid a
      using that ids c by (auto simp: identify_def identities_ok_def split: sum.splits)
    with Inr assms ruled_resolve [OF _ ids(2)] show ?thesis
      by (auto simp: oauth_callback_eq Let_def split: sum.split option.split prod.split)
         (metis snd_conv)+
  qed (simp add: oauth_callback_eq assms)
qed

lemma ruled_files [rules]:
  assumes "ruled K (fst so)"
  shows "ruled K (fst (snd (upload_file E S now tok hex form so)))"
    and "ruled K (fst (snd (list_my_files E Q now tok pagination so)))"
    and "ruled K (fst (snd (get_file E S now tok i so)))"
    and "ruled K (fst (snd (delete_file E S now tok i so)))"
proof -
  show "ruled K (fst (snd (upload_file E S now tok hex form so)))"
    using assms
    by (cases "get_current_user E now tok (fst so)")
       (auto simp: upload_file_def for_current_user_def store_upload_def Let_def every_user_def
         split: prod.split sum.split dest!: users_insert_file)
  show "ruled K (fst (snd (list_my_files E Q now tok pagination so)))"
    "ruled K (fst (snd (get_file E S now tok i so)))"
    "ruled K (fst (snd (delete_file E S now tok i so)))"
    using assms
    by (cases "get_current_user E now tok (fst so)";
        auto simp: list_my_files_def get_file_def delete_file_def for_current_user_def Let_def
          split: prod.split sum.split option.split)+
qed

lemma ruled_handle:
  assumes "ruled K s" and "p_valid P = valid" and "identities_ok address_ok (p_clients P)" and "time_ok now"
    and "\<And>cred uid a v. rq = UpdateUserStatus cred uid a v \<Longrightarrow> admin_ok v"
  shows "ruled K (fst (snd (handle E P x now rq (s, ob))))"
  using assms by (cases rq) (simp_all add: rules same_in_both_versions)

end

lemma every_user_cleanup: "ruled K s \<Longrightarrow> ruled K (snd (cleanup_unverified_users now s))"
  by (auto simp: cleanup_unverified_users_def fold_delete every_user_def list_all_iff Let_def)

end
