(* ===== verification/Contract.thy ===== *)
theory Contract
  imports Responses UserRules
begin

text \<open>
  The responses of the service have the types their routes declare, as long as every stored
  address is one the validator accepts. The addresses of request bodies are, because the same
  validator let them in; those of OAuth providers are not checked by the code, and one that the
  validator refuses makes every response that shows the account fail.
\<close>

subsection \<open>Stored addresses\<close>

definition addresses_valid :: "email_validator \<Rightarrow> database \<Rightarrow> bool" where
  "addresses_valid valid d \<longleftrightarrow> every_user (\<lambda>u. valid (user_email u) \<noteq> None) d"

definition identities_valid :: "email_validator \<Rightarrow> oauth_clients \<Rightarrow> bool" where
  "identities_valid valid clients \<longleftrightarrow> identities_ok (\<lambda>a. valid a \<noteq> None) clients"

lemma addresses_validD: "addresses_valid valid d \<Longrightarrow> u \<in> set (users d) \<Longrightarrow> valid (user_email u) \<noteq> None"
  unfolding addresses_valid_def by (rule every_userD)

abbreviation good :: "email_validator \<Rightarrow> 'r app_state \<Rightarrow> bool" where
  "good valid s \<equiv> addresses_valid valid (st_db s)"

text \<open>Acceptable addresses are a rule of the user rows: nothing changes an address but the profile
  update, which has it checked.\<close>

sublocale email_syntax \<subseteq> addresses: user_rule "\<lambda>u. valid (user_email u) \<noteq> None" valid
    "\<lambda>a. valid a \<noteq> None" "\<lambda>_. True" "\<lambda>_. True"
  using lower_accepted by unfold_locales simp_all

context email_syntax begin

lemma handle_good:
  assumes "good valid s" and "p_valid P = valid" and "identities_valid valid (p_clients P)"
  shows "good valid (fst (snd (handle E P x now rq (s, ob))))"
  unfolding addresses_valid_def
  by (rule addresses.ruled_handle) (use assms in \<open>simp_all add: addresses_valid_def identities_valid_def\<close>)

end

subsection \<open>Returned values fit their models\<close>

declare serialize.simps(8) [simp del]

lemma serialize_map [simp]:
  "serialize valid (SListOf m) (PList (map f xs)) = None \<longleftrightarrow> (\<exists>y \<in> set xs. serialize valid m (f y) = None)"
  using serialize_list [of valid m "map f xs"] by auto

definition suits :: "email_validator \<Rightarrow> int \<times> schema option \<Rightarrow> returned \<Rightarrow> bool" where
  "suits valid decl v \<longleftrightarrow>
     (case (v, snd decl) of
        (Returns w, Some m) \<Rightarrow> serialize valid m w \<noteq> None
      | (Returns w, None) \<Rightarrow> False
      | (_, None) \<Rightarrow> True
      | _ \<Rightarrow> False)"

lemma suits_simps [simp]:
  "suits valid (st, Some m) (Returns w) \<longleftrightarrow> serialize valid m w \<noteq> None"
  "suits valid (st, None) NoContent" "suits valid (st, None) (RedirectTo url)"
  by (simp_all add: suits_def)

lemma suits_reply: "suits valid decl v \<Longrightarrow> reply_to valid decl v \<noteq> Inl e"
  by (auto simp: suits_def reply_to_def split: returned.splits option.splits)

lemma returning_Inr: "returning f r = (Inr v, t) \<longleftrightarrow> (\<exists>y. r = (Inr y, t) \<and> v = f y)"
  by (auto simp: returning_def split: prod.splits sum.splits)

lemma app_returns_Inr:
  "app_returns f r ob = (Inr v, so) \<longleftrightarrow> (\<exists>y t. r = (Inr y, t) \<and> v = f y \<and> so = (t, ob))"
  by (cases r) (auto simp: app_returns_def returning_def split: sum.splits)

lemma limited_Inr:
  "limited E rl now client body s = (Inr y, t) \<Longrightarrow> \<exists>r. body (s\<lparr>st_redis := r\<rparr>) = (Inr y, t)"
  by (auto simp: limited_def split: prod.splits sum.splits)

lemma permitted_Inr:
  "require_permissions E now tok ps body s = (Inr y, t) \<Longrightarrow> body s = (Inr y, t)"
  by (rule require_permissions_cases [of E now tok s ps body]) auto

text \<open>The address in a response is one that the validator accepts.\<close>

lemma user_response_email [simp]:
  "ur_email (to_user_response d u) = user_email u" "ur_email (to_user_response_v2 d u) = user_email u"
  by (simp_all add: to_user_response_def to_user_response_v2_def)

lemma set_user_rows:
  assumes "sql_engine Q user_id"
  shows "set (user_rows Q d params a) \<subseteq> set (users d)"
  using sql_engine.set_order [OF assms]
  by (auto simp: user_rows_def apply_sort_def apply_search_def Let_def split: option.splits if_splits)

lemma cursor_items:
  assumes "sql_engine Q pk" and "paginate_cursor pk Q rows params = Inr p"
  shows "set (cu_items p) \<subseteq> set rows"
proof -
  let ?chosen = "case cp_cursor params of
      None \<Rightarrow> Inr rows
    | Some c \<Rightarrow> (case decode_cursor c of Inl e \<Rightarrow> Inl e | Inr last_id \<Rightarrow> Inr (filter (\<lambda>r. last_id < pk r) rows))"
  obtain selected where selected: "?chosen = Inr selected"
    using assms(2) by (cases ?chosen) (simp_all add: paginate_cursor_def)
  then have "cu_items p = take (cp_limit params) (take (cp_limit params + 1) (q_order Q ''id'' False selected))"
    using assms(2) by (auto simp: paginate_cursor_def Let_def)
  then have "set (cu_items p) \<subseteq> set selected"
    using sql_engine.set_order [OF assms(1), of "''id''" False selected] by (auto dest: in_set_takeD)
  moreover have "set selected \<subseteq> set rows"
    using selected by (auto split: option.splits sum.splits)
  ultimately show ?thesis by blast
qed

context email_syntax begin

lemma shown_registration:
  assumes "register_route E valid now client jti salt e p s = (Inr y, t)"
  shows "valid (reg_email y) \<noteq> None"
proof -
  obtain r where body: "(case validate_user_create valid e p of
      Inl err \<Rightarrow> (Inl err, s\<lparr>st_redis := r\<rparr>)
    | Inr user_data \<Rightarrow> register_user E now jti salt user_data (s\<lparr>st_redis := r\<rparr>)) = (Inr y, t)"
    using limited_Inr [OF assms [unfolded register_route_def]] by blast
  then obtain c where c: "validate_user_create valid e p = Inr c"
    by (cases "validate_user_create valid e p") auto
  with body have reg: "register_user E now jti salt c (s\<lparr>st_redis := r\<rparr>) = (Inr y, t)" by simp
  have "valid (lower (uc_email c)) \<noteq> None"
    using c lower_accepted by (auto simp: validate_user_create_def split: option.splits sum.splits)
  then show ?thesis by (simp add: register_user_Inr(2) [OF reg])
qed

lemma shown_profile:
  assumes "good valid s"
  shows "read_current_user E now tok s = (Inr y, t) \<Longrightarrow> valid (ur_email y) \<noteq> None"
    and "read_current_user_v2 E now tok s = (Inr y2, t) \<Longrightarrow> valid (ur_email y2) \<noteq> None"
  using addresses_validD [OF assms] current_user_in
  by (fastforce simp: read_current_user_def read_current_user_v2_def authenticated_Inr)+

lemma shown_updated_user:
  assumes "good valid s" and "u \<in> set (users (st_db s))" and "updated_user valid e u s = (Inr v, t)"
  shows "valid (user_email v) \<noteq> None"
  using assms addresses_validD [OF assms(1,2)] lower_accepted
  by (auto simp: updated_user_def validate_user_update_def update_user_email_def committed_def Let_def
      split: option.splits sum.splits prod.splits)

lemma shown_update:
  assumes "good valid s"
  shows "update_current_user E valid now tok e s = (Inr y, t) \<Longrightarrow> valid (ur_email y) \<noteq> None"
    and "update_current_user_v2 E valid now tok e s = (Inr y2, t) \<Longrightarrow> valid (ur_email y2) \<noteq> None"
proof -
  assume "update_current_user E valid now tok e s = (Inr y, t)"
  then obtain u where "get_current_user E now tok s = Inr u"
    and "(case updated_user valid e u s of
        (Inl err, s1) \<Rightarrow> (Inl err, s1) | (Inr u1, s1) \<Rightarrow> (Inr (to_user_response (st_db s1) u1), s1)) = (Inr y, t)"
    by (auto simp: update_current_user_def authenticated_Inr)
  then obtain v where "get_current_user E now tok s = Inr u" "updated_user valid e u s = (Inr v, t)"
    "ur_email y = user_email v"
    by (cases "updated_user valid e u s") (auto split: sum.splits)
  then show "valid (ur_email y) \<noteq> None" using shown_updated_user [OF assms current_user_in] by metis
next
  assume "update_current_user_v2 E valid now tok e s = (Inr y2, t)"
  then obtain u where "get_current_user E now tok s = Inr u"
    and "(case updated_user valid e u s of
        (Inl err, s1) \<Rightarrow> (Inl err, s1) | (Inr u1, s1) \<Rightarrow> (Inr (to_user_response_v2 (st_db s1) u1), s1)) = (Inr y2, t)"
    by (auto simp: update_current_user_v2_def authenticated_Inr)
  then obtain v where "get_current_user E now tok s = Inr u" "updated_user valid e u s = (Inr v, t)"
    "ur_email y2 = user_email v"
    by (cases "updated_user valid e u s") (auto split: sum.splits)
  then show "valid (ur_email y2) \<noteq> None" using shown_updated_user [OF assms current_user_in] by metis
qed

lemma shown_admin:
  assumes "good valid s"
  shows "update_user_status E now tok uid a v s = (Inr y, t) \<Longrightarrow> valid (ur_email y) \<noteq> None"
    and "assign_role E deliver now tok uid n s = (Inr y, t) \<Longrightarrow> valid (ur_email y) \<noteq> None"
    and "revoke_role E now tok uid n s = (Inr y, t) \<Longrightarrow> valid (ur_email y) \<noteq> None"
  using every_user_found(1) [OF assms [unfolded addresses_valid_def]]
  by (auto simp: update_user_status_def assign_role_def revoke_role_def Let_def
      split: option.splits sum.splits if_splits dest!: permitted_Inr)

lemma shown_lists:
  assumes "good valid s" and "sql_engine Q user_id"
  shows "list_users E Q now tok pagination a s = (Inr p, t) \<Longrightarrow> r \<in> set (pg_items p) \<Longrightarrow> valid (ur_email r) \<noteq> None"
    and "list_users_feed E Q now tok cpagination s = (Inr c, t) \<Longrightarrow> r \<in> set (cu_items c) \<Longrightarrow> valid (ur_email r) \<noteq> None"
proof -
  assume "list_users E Q now tok pagination a s = (Inr p, t)" and r: "r \<in> set (pg_items p)"
  then obtain params where "pg_items p = map (to_user_response (st_db s))
      (take (op_limit params) (drop (op_offset params) (user_rows Q (st_db s) params a)))"
    by (auto simp: list_users_def dest!: permitted_Inr paginate_offset_Inr split: sum.splits)
  then obtain u where "u \<in> set (user_rows Q (st_db s) params a)" "r = to_user_response (st_db s) u"
    using r by (auto dest: in_set_takeD in_set_dropD)
  then show "valid (ur_email r) \<noteq> None"
    using addresses_validD [OF assms(1)] set_user_rows [OF assms(2), of "st_db s" params a] by auto
next
  assume "list_users_feed E Q now tok cpagination s = (Inr c, t)" and r: "r \<in> set (cu_items c)"
  then obtain params p where "paginate_cursor user_id Q (feed_rows Q (st_db s) params) params = Inr p"
    and "cu_items c = map (to_user_response (st_db s)) (cu_items p)"
    by (auto simp: list_users_feed_def dest!: permitted_Inr split: sum.splits)
  moreover have "set (feed_rows Q (st_db s) params) \<subseteq> set (users (st_db s))" for params
    by (auto simp: feed_rows_def split: option.splits if_splits)
  ultimately show "valid (ur_email r) \<noteq> None"
    using addresses_validD [OF assms(1)] cursor_items [OF assms(2)] r by fastforce
qed

end

text \<open>What the program's own tasks leave in the result backend is a dictionary or nothing.\<close>

fun task_value :: "pyval \<Rightarrow> bool" where
  "task_value PNone = True"
| "task_value (PDict d) = True"
| "task_value _ = False"

definition backend_regular :: "(string \<Rightarrow> celery_result) \<Rightarrow> bool" where
  "backend_regular backend \<longleftrightarrow>
     (\<forall>i. cr_ready (backend i) \<longrightarrow> cr_successful (backend i) \<longrightarrow> task_value (cr_value (backend i)))"

lemma report_fits:
  assumes "backend_regular backend" and "get_report_status E backend now tok i s = (Inr y, t)"
  shows "serialize valid ReportStatusResponse (report_status_value y) \<noteq> None"
proof -
  have "rs_result y = None \<or> (\<exists>v. rs_result y = Some v \<and> task_value v)"
    using assms permitted_Inr [OF assms(2) [unfolded get_report_status_def]]
    by (auto simp: Let_def backend_regular_def)
  then show ?thesis by (auto elim!: task_value.elims)
qed

context email_syntax begin

lemma returns_suit:
  assumes "good valid s" and "p_valid P = valid" and "sql_engine (p_users_sql P) user_id"
    and "backend_regular (p_backend P)" and "returns E P x now rq (s, ob) = (Inr v, so)"
  shows "suits valid (declared rq) v"
  using assms(5)
  by (cases rq)
     (auto simp: assms(2) app_returns_Inr returning_Inr simp del: serialize_report_status
       dest: shown_profile [OF assms(1)] shown_update [OF assms(1)] shown_admin [OF assms(1)]
         shown_lists [OF assms(1,3)] shown_registration report_fits [where valid = valid, OF assms(4)])

end

subsection \<open>The contract of the API\<close>

text \<open>Runs of the service with one validator, where the addresses that providers send are acceptable.\<close>

inductive conversed :: "email_validator \<Rightarrow> 'r env \<Rightarrow> time \<Rightarrow> 'r app_state \<times> 'o \<Rightarrow> bool" for valid E where
  start: "addresses_valid valid (st_db s) \<Longrightarrow> conversed valid E t (s, ob)"
| request: "conversed valid E t (s, ob) \<Longrightarrow> t \<le> t' \<Longrightarrow> p_valid P = valid \<Longrightarrow>
    identities_valid valid (p_clients P) \<Longrightarrow> serve E P x t' rq (s, ob) = (res, so) \<Longrightarrow> conversed valid E t' so"
| cleanup: "conversed valid E t (s, ob) \<Longrightarrow> t \<le> t' \<Longrightarrow> cleanup_unverified_users t' s = (n, s') \<Longrightarrow>
    conversed valid E t' (s', ob)"

lemma serve_state: "snd (serve E P x now rq so) = snd (handle E P x now rq so)"
  unfolding outcome_returns [symmetric]
  by (auto simp: serve_def outcome_def split: prod.split sum.split)

lemma serve_failed:
  "returns E P x now rq so = (Inl e, so') \<Longrightarrow> serve E P x now rq so = (Inl e, so') \<and> handle E P x now rq so = (Inl e, so')"
  unfolding outcome_returns [symmetric] by (simp add: serve_def outcome_def)

lemma serve_returned:
  "returns E P x now rq so = (Inr v, so') \<Longrightarrow>
     serve E P x now rq so = (reply_to (p_valid P) (declared rq) v, so') \<and> handle E P x now rq so = (Inr (), so')"
  unfolding outcome_returns [symmetric] by (simp add: serve_def outcome_def)

lemma fold_delete_addresses:
  "addresses_valid valid d \<Longrightarrow> addresses_valid valid (fold (\<lambda>u d. delete_user d (user_id u)) us d)"
  by (induction us arbitrary: d) (simp_all add: addresses_valid_def every_user_delete)

lemma conversed_good:
  assumes "email_syntax valid" and "conversed valid E t so"
  shows "good valid (fst so)"
  using assms(2)
proof (induction rule: conversed.induct)
  case (request t s ob t' P x rq res so)
  have "so = snd (handle E P x t' rq (s, ob))" using serve_state [of E P x t' rq "(s, ob)"] request.hyps by simp
  then show ?case using email_syntax.handle_good [OF assms(1)] request by simp
next
  case (cleanup t s ob t' n s')
  then show ?case by (auto simp: cleanup_unverified_users_def Let_def fold_delete_addresses)
qed simp

text \<open>C34. The API keeps its contract. As long as OAuth providers send addresses that the validator
  accepts, validating a response never fails: a request is answered exactly when its handler
  succeeds, with the status that its route declares and with a body of the declared type, or
  without a body where none is declared.\<close>

theorem responses_conform:
  assumes "email_syntax valid" and "conversed valid E t (s, ob)" and "p_valid P = valid"
    and "sql_engine (p_users_sql P) user_id" and "backend_regular (p_backend P)"
    and "serve E P x now rq (s, ob) = (res, so)"
  shows "case res of
      Inl e \<Rightarrow> handle E P x now rq (s, ob) = (Inl e, so)
    | Inr r \<Rightarrow> handle E P x now rq (s, ob) = (Inr (), so) \<and> rp_status r = fst (declared rq) \<and>
        (case snd (declared rq) of
           None \<Rightarrow> rp_body r = None
         | Some m \<Rightarrow> \<exists>w. rp_body r = Some w \<and> conforms valid m w)"
proof (cases "fst (returns E P x now rq (s, ob))")
  case (Inl e)
  then obtain so' where ret: "returns E P x now rq (s, ob) = (Inl e, so')"
    by (cases "returns E P x now rq (s, ob)") simp
  then show ?thesis using serve_failed [OF ret] assms(6) by simp
next
  case (Inr v)
  then obtain so' where ret: "returns E P x now rq (s, ob) = (Inr v, so')"
    by (cases "returns E P x now rq (s, ob)") simp
  note here = serve_returned [OF ret]
  have good: "good valid s" using conversed_good [OF assms(1,2)] by simp
  have suit: "suits valid (declared rq) v"
    by (rule email_syntax.returns_suit [OF assms(1) good assms(3-5) ret])
  then obtain r where r: "reply_to valid (declared rq) v = Inr r"
    using suits_reply by (metis sum.exhaust)
  have "rp_status r = fst (declared rq)" and "snd (declared rq) = None \<Longrightarrow> rp_body r = None"
    and "snd (declared rq) = Some m \<Longrightarrow> \<exists>w. rp_body r = Some w" for m
    using r suit by (auto simp: reply_to_def suits_def split: returned.splits option.splits)
  with here r email_syntax.reply_conforms [OF assms(1) r] assms(3,6) show ?thesis
    by (auto split: option.split)
qed

subsection \<open>A reference validator\<close>

text \<open>One address sign, a domain with a dot that is not under the special-use domain \<open>local\<close>; the
  domain is lower-cased.\<close>

definition ref_email :: email_validator where
  "ref_email a =
     (let l = takeWhile (\<lambda>c. c \<noteq> CHR ''@'') a; d = lower (tl (dropWhile (\<lambda>c. c \<noteq> CHR ''@'') a))
      in if CHR ''@'' \<in> set a \<and> l \<noteq> [] \<and> CHR ''.'' \<in> set d \<and> CHR ''@'' \<notin> set d \<and> drop (length d - 6) d \<noteq> ''.local''
         then Some (l @ CHR ''@'' # d) else None)"

lemma lower_char_at: "lower_char c = CHR ''@'' \<longleftrightarrow> c = CHR ''@''"
proof -
  have "lower_char c \<noteq> CHR ''@''" if "is_upper_char c"
  proof -
    have "65 \<le> code c \<and> code c + 32 < 256" using that by (auto simp: is_upper_char_def Let_def)
    then have "code (lower_char c) = code c + 32" using that by (simp add: lower_char_def code_def)
    with \<open>65 \<le> code c \<and> _\<close> show ?thesis by (auto simp: code_def)
  qed
  then show ?thesis by (auto simp: lower_char_def is_upper_char_def code_def)
qed

lemma at_lower [simp]: "CHR ''@'' \<in> set (lower s) \<longleftrightarrow> CHR ''@'' \<in> set s"
  by (simp add: lower_def image_iff eq_commute [of "CHR ''@''"] lower_char_at)

lemma ref_email_join:
  assumes "CHR ''@'' \<notin> set l" and "l \<noteq> []" and "d = lower d" and "CHR ''.'' \<in> set d" and "CHR ''@'' \<notin> set d"
    and "drop (length d - 6) d \<noteq> ''.local''"
  shows "ref_email (l @ CHR ''@'' # d) = Some (l @ CHR ''@'' # d)"
proof -
  have "takeWhile (\<lambda>c. c \<noteq> CHR ''@'') (l @ CHR ''@'' # d) = l"
    and "dropWhile (\<lambda>c. c \<noteq> CHR ''@'') (l @ CHR ''@'' # d) = CHR ''@'' # d"
    using assms(1) by (simp_all add: takeWhile_append dropWhile_append)
  then show ?thesis using assms(2-) by (simp add: ref_email_def Let_def)
qed

lemma ref_email_Some:
  assumes "ref_email a = Some b"
  obtains l d where "b = l @ CHR ''@'' # d" "CHR ''@'' \<notin> set l" "l \<noteq> []" "d = lower d" "CHR ''.'' \<in> set d"
    "CHR ''@'' \<notin> set d" "drop (length d - 6) d \<noteq> ''.local''"
  using assms set_takeWhileD
  by (fastforce simp: ref_email_def Let_def split: if_splits)

interpretation ref_email: email_syntax ref_email
proof unfold_locales
  fix a b assume "ref_email a = Some b"
  then obtain l d where b: "b = l @ CHR ''@'' # d" "CHR ''@'' \<notin> set l" "l \<noteq> []" "d = lower d" "CHR ''.'' \<in> set d"
    "CHR ''@'' \<notin> set d" "drop (length d - 6) d \<noteq> ''.local''" by (rule ref_email_Some)
  then show "ref_email b = Some b" using ref_email_join by simp
  have "lower b = lower l @ CHR ''@'' # d"
    using b(1,4) by (simp add: lower_def) (simp add: lower_char_at)
  moreover have "lower l \<noteq> []" using b(3) by (simp add: lower_def)
  ultimately show "ref_email (lower b) \<noteq> None" using ref_email_join [of "lower l" d] b(2,4-7) by simp
qed

text \<open>An address that the validator refuses gets in through an OAuth provider and then nothing can
  show the account. Signing in with a new identity stores the address as the provider sends it.
  From then on, whatever the address, the profile routes of both versions answer its owner with a
  500, and so does every page of the administrator's listing and of the feed that the account
  is on, for all the accounts on the page.\<close>

theorem refused_address_unanswerable:
  assumes "p_valid P = valid" and "valid a = None"
  shows "(db_inv d \<longrightarrow> select_oauth_account d provider puid = None \<longrightarrow> select_user_by_email d a = None \<longrightarrow>
      (\<exists>u d'. sign_in_identity d now provider puid (Some a) = (Inr u, d') \<and> u \<in> set (users d') \<and> user_email u = a)) \<and>
    (\<forall>u. user_email u = a \<longrightarrow> get_current_user E now tok s = Inr u \<longrightarrow>
      serve E P x now (ReadCurrentUser tok) (s, ob) = (Inl response_invalid, (s, ob)) \<and>
      serve E P x now (ReadCurrentUserV2 tok) (s, ob) = (Inl response_invalid, (s, ob))) \<and>
    (\<forall>p t r. list_users E (p_users_sql P) now tok (get_offset_pagination limit offset fld dir q) active s = (Inr p, t) \<longrightarrow>
      r \<in> set (pg_items p) \<longrightarrow> ur_email r = a \<longrightarrow>
      fst (serve E P x now (ListUsers tok limit offset fld dir q active) (s, ob)) = Inl response_invalid) \<and>
    (\<forall>p t r. list_users_feed E (p_users_sql P) now tok (get_cursor_pagination cursor limit q) s = (Inr p, t) \<longrightarrow>
      r \<in> set (cu_items p) \<longrightarrow> ur_email r = a \<longrightarrow>
      fst (serve E P x now (ListUsersFeed tok cursor limit q) (s, ob)) = Inl response_invalid)"
proof (intro conjI allI impI)
  assume "db_inv d" "select_oauth_account d provider puid = None" "select_user_by_email d a = None"
  then show "\<exists>u d'. sign_in_identity d now provider puid (Some a) = (Inr u, d') \<and> u \<in> set (users d') \<and> user_email u = a"
    by (auto simp: sign_in_identity_def find_or_create_user_def insert_user_def insert_oauth_account_def
        select_oauth_account_def get_user_None reject_inactive_def Let_def split: option.splits)
next
  fix u assume u: "user_email u = a" "get_current_user E now tok s = Inr u"
  have none: "serialize valid UserResponse (user_value (to_user_response (st_db s) u)) = None"
    "serialize valid UserResponseV2 (user_v2_value (to_user_response_v2 (st_db s) u)) = None"
    using u assms(2) by simp_all
  show "serve E P x now (ReadCurrentUser tok) (s, ob) = (Inl response_invalid, (s, ob))"
    using u assms
    by (simp add: none serve_def read_current_user_def authenticated_def app_returns_def returning_def reply_to_def)
  show "serve E P x now (ReadCurrentUserV2 tok) (s, ob) = (Inl response_invalid, (s, ob))"
    using u assms
    by (simp add: none serve_def read_current_user_v2_def authenticated_def app_returns_def returning_def reply_to_def)
next
  fix p t r
  assume l: "list_users E (p_users_sql P) now tok (get_offset_pagination limit offset fld dir q) active s = (Inr p, t)"
    and "r \<in> set (pg_items p)" "ur_email r = a"
  then have none: "serialize valid (Page AdminUserResponse) (page_value user_value p) = None"
    using assms(2) by auto
  then show "fst (serve E P x now (ListUsers tok limit offset fld dir q active) (s, ob)) = Inl response_invalid"
    using l assms(1) by (simp add: none serve_def app_returns_def returning_def reply_to_def)
next
  fix p t r
  assume l: "list_users_feed E (p_users_sql P) now tok (get_cursor_pagination cursor limit q) s = (Inr p, t)"
    and "r \<in> set (cu_items p)" "ur_email r = a"
  then have none: "serialize valid (CursorPage AdminUserResponse) (cursor_page_value user_value p) = None"
    using assms(2) by auto
  then show "fst (serve E P x now (ListUsersFeed tok cursor limit q) (s, ob)) = Inl response_invalid"
    using l assms(1) by (simp add: none serve_def app_returns_def returning_def reply_to_def)
qed

text \<open>The first user reads his profile; a user of a company network signs in through a provider.\<close>

abbreviation ex_strict_parties :: "ref_objects parties" where
  "ex_strict_parties \<equiv> ex_parties\<lparr>p_valid := ref_email\<rparr>"

lemma ex_addresses: "ref_email ''ab@c.de'' = Some ''ab@c.de''" "ref_email ''ab@corp.local'' = None"
  by code_simp+

lemma ex_conversed: "conversed ref_email ex_env 0 (ex_verified, Map.empty :: ref_objects)"
  by (rule conversed.start) (simp add: addresses_valid_def every_user_def ex_verified_users, simp add: ex_user_def ex_addresses)

theorem responses_conform_witness:
  "\<exists>r so w. serve ex_env ex_strict_parties ex_drawn (20 * second) (ReadCurrentUser ex_access)
      (ex_verified, Map.empty) = (Inr r, so) \<and> rp_status r = 200 \<and>
    rp_body r = Some w \<and> conforms ref_email UserResponse w"
proof -
  let ?rq = "ReadCurrentUser ex_access" and ?so = "(ex_verified, Map.empty :: ref_objects)"
  obtain res so where r: "serve ex_env ex_strict_parties ex_drawn (20 * second) ?rq ?so = (res, so)"
    by (meson surj_pair)
  have "sql_engine (p_users_sql ex_strict_parties) user_id"
    by (simp add: ex_parties_def ref_sql.sql_engine_axioms)
  moreover have "backend_regular (p_backend ex_strict_parties)"
    by (simp add: ex_parties_def backend_regular_def)
  ultimately have c: "case res of
      Inl e \<Rightarrow> handle ex_env ex_strict_parties ex_drawn (20 * second) ?rq ?so = (Inl e, so)
    | Inr r \<Rightarrow> handle ex_env ex_strict_parties ex_drawn (20 * second) ?rq ?so = (Inr (), so) \<and>
        rp_status r = fst (declared ?rq) \<and>
        (case snd (declared ?rq) of
           None \<Rightarrow> rp_body r = None
         | Some m \<Rightarrow> \<exists>w. rp_body r = Some w \<and> conforms ref_email m w)"
    by (intro responses_conform [OF ref_email.email_syntax_axioms ex_conversed _ _ _ r]) simp_all
  have h: "fst (handle ex_env ex_strict_parties ex_drawn (20 * second) ?rq ?so) = Inr ()"
    using ex_current by (simp add: on_app_def outcome_def read_current_user_def authenticated_def)
  show ?thesis
  proof (cases res)
    case (Inl e)
    then have "handle ex_env ex_strict_parties ex_drawn (20 * second) ?rq ?so = (Inl e, so)" using c by simp
    then show ?thesis using h by (metis fst_conv sum.distinct(1))
  next
    case (Inr v)
    with c r show ?thesis by auto
  qed
qed

theorem refused_address_unanswerable_witness:
  "\<exists>u d'. sign_in_identity empty_database 0 ''microsoft'' ''42'' (Some ''ab@corp.local'') = (Inr u, d') \<and>
     u \<in> set (users d') \<and> ref_email (user_email u) = None"
proof -
  have "p_valid ex_strict_parties = ref_email" by simp
  note created = refused_address_unanswerable [OF this, where a = "''ab@corp.local''" and d = empty_database
      and provider = "''microsoft''" and puid = "''42''" and now = 0, THEN conjunct1, OF ex_addresses(2)]
  have "select_oauth_account empty_database ''microsoft'' ''42'' = None"
    and "select_user_by_email empty_database ''ab@corp.local'' = None"
    by (simp_all add: empty_database_def select_oauth_account_def select_user_by_email_def)
  with created db_inv_empty
  have "\<exists>u d'. sign_in_identity empty_database 0 ''microsoft'' ''42'' (Some ''ab@corp.local'') = (Inr u, d') \<and>
      u \<in> set (users d') \<and> user_email u = ''ab@corp.local''" by blast
  then show ?thesis using ex_addresses(2) by metis
qed

end
