(* ===== verification/Json.thy ===== *)
theory Json
  imports PyText
begin

text \<open>
  Python's \<open>json\<close> module, as far as the WebSocket bridge, the request bodies and the log use it: \<open>json.dumps\<close> with its
  default options (ASCII output, the separators \<open>", "\<close> and \<open>": "\<close>) and \<open>json.loads\<close>.
  Python also reads literals that the values of the model do not have: the float constants \<open>NaN\<close>
  and \<open>Infinity\<close>, and escapes of characters beyond \<open>00ff\<close>. A text with one of them is
  \<open>Unsupported\<close>, which is not a refusal: nothing is said of it. A float literal is read as the
  rational it denotes; the recursion limit of the interpreter is not modelled. The last lemmas are
  the round trip and that the fuel of the reader, twice the length of its input, is enough.
\<close>

subsection \<open>Writing\<close>

definition hex_char :: "nat \<Rightarrow> char" where
  "hex_char d = (if d < 10 then digit_char d else char_of (87 + d))"

text \<open>\<open>ensure_ascii\<close>: everything outside the printable ASCII range is escaped.\<close>

definition escape_char :: "char \<Rightarrow> string" where
  "escape_char c =
     (if c = CHR 34 then [CHR 92, CHR 34]
      else if c = CHR 92 then [CHR 92, CHR 92]
      else if code c = 10 then [CHR 92, CHR ''n'']
      else if code c = 13 then [CHR 92, CHR ''r'']
      else if code c = 9 then [CHR 92, CHR ''t'']
      else if code c = 12 then [CHR 92, CHR ''f'']
      else if code c = 8 then [CHR 92, CHR ''b'']
      else if 32 \<le> code c \<and> code c \<le> 126 then [c]
      else [CHR 92, CHR ''u'', CHR ''0'', CHR ''0'', hex_char (code c div 16), hex_char (code c mod 16)])"

definition json_quote :: "string \<Rightarrow> string" where
  "json_quote s = [CHR 34] @ concat (map escape_char s) @ [CHR 34]"

text \<open>\<open>None\<close> is an exception: a value \<open>json\<close> does not write, or an integer of more digits than
  CPython converts. \<open>fr\<close> is how a float is written; what goes over the bridge has none, so
  \<open>json_dumps\<close> refuses them.\<close>

definition json_int :: "int \<Rightarrow> string option" where
  "json_int n = (if \<bar>n\<bar> < 10 ^ max_str_digits then Some (py_str n) else None)"

type_synonym float_writer = "rat \<Rightarrow> string option"

fun json_write :: "float_writer \<Rightarrow> pyval \<Rightarrow> string option"
  and json_items :: "float_writer \<Rightarrow> pyval list \<Rightarrow> string list option"
  and json_pairs :: "float_writer \<Rightarrow> pydict \<Rightarrow> string list option" where
  "json_write fr PNone = Some ''null''"
| "json_write fr (PBool b) = Some (if b then ''true'' else ''false'')"
| "json_write fr (PInt n) = json_int n"
| "json_write fr (PFloat q) = fr q"
| "json_write fr (PStr s) = Some (json_quote s)"
| "json_write fr (PTime t) = None"
| "json_write fr (PList vs) = map_option (\<lambda>ps. ''['' @ join '', '' ps @ '']'') (json_items fr vs)"
| "json_write fr (PDict d) = map_option (\<lambda>ps. ''{'' @ join '', '' ps @ ''}'') (json_pairs fr d)"
| "json_items fr [] = Some []"
| "json_items fr (v # vs) =
     (case json_write fr v of
        None \<Rightarrow> None
      | Some p \<Rightarrow> (case json_items fr vs of None \<Rightarrow> None | Some ps \<Rightarrow> Some (p # ps)))"
| "json_pairs fr [] = Some []"
| "json_pairs fr ((k, v) # d) =
     (case json_write fr v of
        None \<Rightarrow> None
      | Some p \<Rightarrow>
          (case json_pairs fr d of
             None \<Rightarrow> None | Some ps \<Rightarrow> Some ((json_quote k @ '': '' @ p) # ps)))"

abbreviation json_dumps :: "pyval \<Rightarrow> string option" where
  "json_dumps \<equiv> json_write (\<lambda>_. None)"

subsection \<open>Reading\<close>

definition is_json_space :: "char \<Rightarrow> bool" where
  "is_json_space c \<longleftrightarrow> code c = 32 \<or> code c = 9 \<or> code c = 10 \<or> code c = 13"

definition skip_space :: "string \<Rightarrow> string" where
  "skip_space s = dropWhile is_json_space s"

definition hex_value :: "char \<Rightarrow> nat option" where
  "hex_value c =
     (let n = code c in
      if 48 \<le> n \<and> n \<le> 57 then Some (n - 48)
      else if 97 \<le> n \<and> n \<le> 102 then Some (n - 87)
      else if 65 \<le> n \<and> n \<le> 70 then Some (n - 55) else None)"

text \<open>The character a \<open>uXXXX\<close> escape stands for.\<close>

definition hex_escape :: "char \<Rightarrow> char \<Rightarrow> char \<Rightarrow> char \<Rightarrow> char option" where
  "hex_escape a b c d =
     (case (hex_value a, hex_value b, hex_value c, hex_value d) of
        (Some 0, Some 0, Some x, Some y) \<Rightarrow> Some (char_of (16 * x + y))
      | _ \<Rightarrow> None)"

definition short_escape :: "char \<Rightarrow> char option" where
  "short_escape c =
     map_of [(CHR 34, CHR 34), (CHR 92, CHR 92), (CHR ''/'', CHR ''/''), (CHR ''b'', char_of (8 :: nat)),
             (CHR ''f'', char_of (12 :: nat)), (CHR ''n'', char_of (10 :: nat)),
             (CHR ''r'', char_of (13 :: nat)), (CHR ''t'', char_of (9 :: nat))] c"

text \<open>The rest of a string literal, after its opening quote: its value and what follows it.\<close>

fun read_string :: "string \<Rightarrow> (string \<times> string) option" where
  "read_string [] = None"
| "read_string (c # r) =
     (if c = CHR 34 then Some ([], r)
      else if c = CHR 92 then
        (case r of
           [] \<Rightarrow> None
         | e # r' \<Rightarrow>
             if e = CHR ''u'' then
               (case r' of
                  w # x # y # z # r'' \<Rightarrow>
                    (case hex_escape w x y z of
                       None \<Rightarrow> None
                     | Some ch \<Rightarrow> map_option (\<lambda>(s, t). (ch # s, t)) (read_string r''))
                | _ \<Rightarrow> None)
             else (case short_escape e of
                     None \<Rightarrow> None
                   | Some ch \<Rightarrow> map_option (\<lambda>(s, t). (ch # s, t)) (read_string r')))
      else if code c < 32 then None
      else map_option (\<lambda>(s, t). (c # s, t)) (read_string r))"

text \<open>A number: its integer part, then possibly a fraction and an exponent.\<close>

definition digits_of :: "string \<Rightarrow> string" where
  "digits_of s = takeWhile is_decimal_char s"

definition after_digits :: "string \<Rightarrow> string" where
  "after_digits s = dropWhile is_decimal_char s"

definition read_fraction :: "string \<Rightarrow> string \<times> string" where
  "read_fraction s =
     (case s of
        c # r \<Rightarrow> if c = CHR ''.'' \<and> digits_of r \<noteq> [] then (digits_of r, after_digits r) else ([], s)
      | [] \<Rightarrow> ([], s))"

definition read_sign :: "string \<Rightarrow> bool \<times> string" where
  "read_sign s =
     (case s of
        c # r \<Rightarrow> if c = CHR ''-'' then (True, r) else if c = CHR ''+'' then (False, r) else (False, s)
      | [] \<Rightarrow> (False, s))"

definition read_exponent :: "string \<Rightarrow> (bool \<times> string) option \<times> string" where
  "read_exponent s =
     (case s of
        c # r \<Rightarrow>
          (let (neg, r') = read_sign r in
           if (c = CHR ''e'' \<or> c = CHR ''E'') \<and> digits_of r' \<noteq> []
           then (Some (neg, digits_of r'), after_digits r') else (None, s))
      | [] \<Rightarrow> (None, s))"

definition float_value :: "string \<Rightarrow> string \<Rightarrow> (bool \<times> string) option \<Rightarrow> rat" where
  "float_value ipart fpart expo =
     (let m = of_nat (digits_value (ipart @ fpart)) / 10 ^ length fpart in
      case expo of
        None \<Rightarrow> m
      | Some (neg, ds) \<Rightarrow> if neg then m / 10 ^ digits_value ds else m * 10 ^ digits_value ds)"

definition integer_part :: "string \<Rightarrow> string" where
  "integer_part s =
     (case s of c # _ \<Rightarrow> if c = CHR ''0'' then [c] else digits_of s | [] \<Rightarrow> [])"

definition read_magnitude :: "bool \<Rightarrow> string \<Rightarrow> (pyval \<times> string) option" where
  "read_magnitude neg s =
     (let ipart = integer_part s;
          (fpart, r) = read_fraction (drop (length ipart) s);
          (expo, r') = read_exponent r
      in if ipart = [] then None
         else if fpart = [] \<and> expo = None then
           (if length ipart \<le> max_str_digits
            then Some (PInt (if neg then - int (digits_value ipart) else int (digits_value ipart)), r')
            else None)
         else Some (PFloat (if neg then - float_value ipart fpart expo else float_value ipart fpart expo), r'))"

definition read_number :: "string \<Rightarrow> (pyval \<times> string) option" where
  "read_number s =
     (case s of
        [] \<Rightarrow> None
      | c # r \<Rightarrow> if c = CHR ''-'' then read_magnitude True r else read_magnitude False s)"

text \<open>\<open>d[k] = v\<close>: a key that is already there keeps its place.\<close>

fun dict_set :: "pydict \<Rightarrow> string \<Rightarrow> pyval \<Rightarrow> pydict" where
  "dict_set [] k v = [(k, v)]"
| "dict_set ((k', v') # d) k v = (if k' = k then (k, v) # d else (k', v') # dict_set d k v)"

text \<open>
  A value at the head of the input. \<open>read_elements\<close> reads after an opening bracket that was
  not closed at once, \<open>read_members\<close> the same after an opening brace.
\<close>

fun read_value :: "nat \<Rightarrow> string \<Rightarrow> (pyval \<times> string) option"
  and read_elements :: "nat \<Rightarrow> string \<Rightarrow> (pyval list \<times> string) option"
  and read_members :: "nat \<Rightarrow> pydict \<Rightarrow> string \<Rightarrow> (pydict \<times> string) option" where
  "read_value 0 s = None"
| "read_value (Suc n) s =
     (case s of
        [] \<Rightarrow> None
      | c # r \<Rightarrow>
          if c = CHR 34 then map_option (\<lambda>(v, t). (PStr v, t)) (read_string r)
          else if c = CHR ''{'' then
            (case skip_space r of
               [] \<Rightarrow> None
             | e # r' \<Rightarrow> if e = CHR ''}'' then Some (PDict [], r')
                       else map_option (\<lambda>(d, t). (PDict d, t)) (read_members n [] (e # r')))
          else if c = CHR ''['' then
            (case skip_space r of
               [] \<Rightarrow> None
             | e # r' \<Rightarrow> if e = CHR '']'' then Some (PList [], r')
                       else map_option (\<lambda>(vs, t). (PList vs, t)) (read_elements n (e # r')))
          else if startswith s ''null'' then Some (PNone, drop 4 s)
          else if startswith s ''true'' then Some (PBool True, drop 4 s)
          else if startswith s ''false'' then Some (PBool False, drop 5 s)
          else read_number s)"
| "read_elements 0 s = None"
| "read_elements (Suc n) s =
     (case read_value n s of
        None \<Rightarrow> None
      | Some (v, t) \<Rightarrow>
          (case skip_space t of
             [] \<Rightarrow> None
           | e # r \<Rightarrow>
               if e = CHR '']'' then Some ([v], r)
               else if e = CHR '','' then map_option (\<lambda>(vs, t). (v # vs, t)) (read_elements n (skip_space r))
               else None))"
| "read_members 0 d s = None"
| "read_members (Suc n) d s =
     (case s of
        [] \<Rightarrow> None
      | q # r0 \<Rightarrow>
          if q \<noteq> CHR 34 then None
          else (case read_string r0 of
                  None \<Rightarrow> None
                | Some (k, t) \<Rightarrow>
                    (case skip_space t of
                       [] \<Rightarrow> None
                     | e # r \<Rightarrow>
                         if e \<noteq> CHR '':'' then None
                         else (case read_value n (skip_space r) of
                                 None \<Rightarrow> None
                               | Some (v, t') \<Rightarrow>
                                   (case skip_space t' of
                                      [] \<Rightarrow> None
                                    | e' # r' \<Rightarrow>
                                        if e' = CHR ''}'' then Some (dict_set d k v, r')
                                        else if e' = CHR '',''
                                        then read_members n (dict_set d k v) (skip_space r')
                                        else None)))))"

text \<open>The document of a text that the values of the model can hold.\<close>

definition json_document :: "string \<Rightarrow> pyval option" where
  "json_document s =
     (case read_value (2 * length s + 2) (skip_space s) of
        None \<Rightarrow> None
      | Some (v, t) \<Rightarrow> if skip_space t = [] then Some v else None)"

text \<open>Whether a text has a part that only Python's values can hold: one of the float constants, or the
  escape of a character beyond \<open>00ff\<close>.\<close>

definition wide_escape :: "string \<Rightarrow> bool" where
  "wide_escape s =
     (case s of
        b # u # w # x # y # z # _ \<Rightarrow>
          b = CHR 92 \<and> u = CHR ''u'' \<and> list_all (\<lambda>c. hex_value c \<noteq> None) [w, x, y, z] \<and> hex_escape w x y z = None
      | _ \<Rightarrow> False)"

fun beyond_model :: "string \<Rightarrow> bool" where
  "beyond_model [] = False"
| "beyond_model (c # s) =
     (startswith (c # s) ''NaN'' \<or> startswith (c # s) ''Infinity'' \<or> wide_escape (c # s) \<or> beyond_model s)"

text \<open>\<open>json.loads(s)\<close>: its value, an exception (\<open>Malformed\<close>), or a value the model does not have.\<close>

datatype json_reading = Loaded pyval | Malformed | Unsupported

definition json_loads :: "string \<Rightarrow> json_reading" where
  "json_loads s =
     (case json_document s of
        Some v \<Rightarrow> Loaded v | None \<Rightarrow> if beyond_model s then Unsupported else Malformed)"

subsection \<open>What is written is read back\<close>

lemma hex_value_char: "d < 16 \<Longrightarrow> hex_value (hex_char d) = Some d"
  by (auto simp: hex_value_def hex_char_def code_digit_char code_char_of Let_def)

lemma hex_escape_char:
  "hex_escape CHR ''0'' CHR ''0'' (hex_char (code c div 16)) (hex_char (code c mod 16)) = Some c"
proof -
  have "code c div 16 < 16" using code_less_256 [of c] by (simp add: less_mult_imp_div_less)
  moreover have "hex_value CHR ''0'' = Some 0" by (simp add: hex_value_def code_def)
  moreover have "char_of (code c) = c" by (simp add: code_def)
  ultimately show ?thesis by (simp add: hex_escape_def hex_value_char)
qed

lemma code_char: "code c = n \<Longrightarrow> c = char_of n"
  by (auto simp: code_def)

lemma read_escaped: "read_string (escape_char c @ r) = map_option (\<lambda>(s, t). (c # s, t)) (read_string r)"
  by (auto simp: escape_char_def short_escape_def hex_escape_char dest!: code_char)

lemma read_quoted: "read_string (concat (map escape_char s) @ CHR 34 # r) = Some (s, r)"
  by (induction s) (simp_all add: read_escaped)

lemma escape_char_length: "1 \<le> length (escape_char c)"
  by (simp add: escape_char_def)

text \<open>What may follow a value: nothing that would prolong a number.\<close>

definition ends_number :: "string \<Rightarrow> bool" where
  "ends_number r = (case r of [] \<Rightarrow> True | c # _ \<Rightarrow> \<not> is_decimal_char c \<and> c \<notin> {CHR ''.'', CHR ''e'', CHR ''E''})"

lemma ends_number_simps [simp]:
  "ends_number []" "ends_number (CHR '','' # r)" "ends_number (CHR '']'' # r)" "ends_number (CHR ''}'' # r)"
  by (simp_all add: ends_number_def is_decimal_char_def code_def)

lemma take_digits:
  assumes "ends_number r"
  shows "digits_of (nat_digits n @ r) = nat_digits n" "after_digits (nat_digits n @ r) = r"
    "read_fraction r = ([], r)" "read_exponent r = (None, r)"
proof -
  have "takeWhile is_decimal_char r = []" "dropWhile is_decimal_char r = r"
    using assms by (auto simp: ends_number_def split: list.splits)
  then show "digits_of (nat_digits n @ r) = nat_digits n" "after_digits (nat_digits n @ r) = r"
    using nat_digits_decimal
    by (simp_all add: digits_of_def after_digits_def takeWhile_append2 dropWhile_append2)
  show "read_fraction r = ([], r)" "read_exponent r = (None, r)"
    using assms by (auto simp: ends_number_def read_fraction_def read_exponent_def split: list.splits)
qed

lemma nat_digits_zero: "hd (nat_digits n) = CHR ''0'' \<longleftrightarrow> n = 0"
proof (induction n rule: nat_digits.induct)
  case (1 n)
  have d: "digit_char k = CHR ''0'' \<longleftrightarrow> k = 0" if "k < 10" for k
    using that code_inject [of "digit_char k" "CHR ''0''"] code_digit_char [of k]
    by (simp add: code_def)
  show ?case
    using 1 d [of n] by (cases "n < 10") (auto simp: nat_digits.simps [of n])
qed

lemma nat_digits_0: "nat_digits 0 = ''0''"
  using nat_digits_zero [of 0] by (simp add: nat_digits.simps [of 0])

lemma integer_part_digits: "ends_number r \<Longrightarrow> integer_part (nat_digits n @ r) = nat_digits n"
proof (cases "n = 0")
  case False
  assume "ends_number r"
  moreover have "hd (nat_digits n) \<noteq> CHR ''0''" using False by (simp add: nat_digits_zero)
  ultimately show ?thesis
    using take_digits(1) [of r n] nat_digits_not_Nil [of n]
    by (cases "nat_digits n") (simp_all add: integer_part_def)
qed (simp add: integer_part_def nat_digits_0)

lemma read_magnitude_digits:
  assumes "n < 10 ^ max_str_digits" and "ends_number r"
  shows "read_magnitude neg (nat_digits n @ r) = Some (PInt (if neg then - int n else int n), r)"
  using length_nat_digits [OF assms(1) max_str_digits_pos]
  by (simp add: read_magnitude_def integer_part_digits take_digits assms(2) digits_value_nat_digits)

lemma read_number_int:
  assumes "\<bar>n\<bar> < 10 ^ max_str_digits" and "ends_number r"
  shows "read_number (py_str n @ r) = Some (PInt n, r)"
proof (cases "n < 0")
  case True
  then show ?thesis
    using assms by (simp add: read_number_def py_str_def read_magnitude_digits nat_less_iff)
next
  case False
  obtain c ds where cs: "nat_digits (nat n) = c # ds" by (meson neq_Nil_conv nat_digits_not_Nil)
  then have "c \<noteq> CHR ''-''"
    using nat_digits_decimal [of c "nat n"] by (auto simp: is_decimal_char_def code_def)
  then have "read_number (py_str n @ r) = read_magnitude False (nat_digits (nat n) @ r)"
    using False cs by (simp add: read_number_def py_str_def)
  with False show ?thesis using assms by (simp add: read_magnitude_digits nat_less_iff)
qed

lemma py_str_head:
  "\<exists>c r. py_str n = c # r \<and> (c = CHR ''-'' \<or> is_decimal_char c)"
proof (cases "n < 0")
  case True
  then show ?thesis by (simp add: py_str_def)
next
  case False
  obtain c ds where "nat_digits (nat n) = c # ds" by (meson neq_Nil_conv nat_digits_not_Nil)
  then show ?thesis using False nat_digits_decimal [of c "nat n"] by (simp add: py_str_def)
qed

lemma read_value_int:
  assumes "\<bar>n\<bar> < 10 ^ max_str_digits" and "ends_number r"
  shows "read_value (Suc k) (py_str n @ r) = Some (PInt n, r)"
proof -
  obtain c ds where c: "py_str n = c # ds" "c = CHR ''-'' \<or> is_decimal_char c"
    using py_str_head by blast
  then have "c \<notin> {CHR 34, CHR ''{'', CHR ''['', CHR ''n'', CHR ''t'', CHR ''f''}"
    by (auto simp: is_decimal_char_def code_def)
  then show ?thesis using read_number_int [OF assms] c(1) by simp
qed

text \<open>The values \<open>json\<close> can write, with the keys of a dictionary distinct as Python has them;
  \<open>fl\<close> says which floats.\<close>

fun writable :: "(rat \<Rightarrow> bool) \<Rightarrow> pyval \<Rightarrow> bool" where
  "writable fl (PInt n) = (\<bar>n\<bar> < 10 ^ max_str_digits)"
| "writable fl (PFloat q) = fl q"
| "writable fl (PTime t) = False"
| "writable fl (PList vs) = (\<forall>v \<in> set vs. writable fl v)"
| "writable fl (PDict d) = (distinct (map fst d) \<and> (\<forall>kv \<in> set d. writable fl (snd kv)))"
| "writable fl _ = True"

abbreviation json_value :: "pyval \<Rightarrow> bool" where
  "json_value \<equiv> writable (\<lambda>_. False)"

lemma dict_set_new: "k \<notin> fst ` set d \<Longrightarrow> dict_set d k v = d @ [(k, v)]"
  by (induction d k v rule: dict_set.induct) auto

lemma skip_space_simps [simp]:
  "skip_space [] = []" "skip_space (CHR '' '' # r) = skip_space r"
  "skip_space (CHR 34 # r) = CHR 34 # r" "skip_space (CHR '','' # r) = CHR '','' # r"
  "skip_space (CHR '':'' # r) = CHR '':'' # r" "skip_space (CHR '']'' # r) = CHR '']'' # r"
  "skip_space (CHR ''}'' # r) = CHR ''}'' # r"
  by (simp_all add: skip_space_def is_json_space_def code_def)

text \<open>What \<open>json\<close> writes starts with a character that no reader skips or takes for a bracket
  that closes.\<close>

definition starts_value :: "string \<Rightarrow> bool" where
  "starts_value p = (\<exists>c r. p = c # r \<and> \<not> is_json_space c \<and> c \<noteq> CHR ''}'' \<and> c \<noteq> CHR '']'')"

lemma starts_value_append: "starts_value p \<Longrightarrow> starts_value (p @ q)"
  by (auto simp: starts_value_def)

lemma skip_starts_value [simp]: "starts_value p \<Longrightarrow> skip_space p = p"
  by (auto simp: starts_value_def skip_space_def)

lemma starts_value_Cons: "starts_value (c # r) \<longleftrightarrow> \<not> is_json_space c \<and> c \<noteq> CHR ''}'' \<and> c \<noteq> CHR '']''"
  by (simp add: starts_value_def)

lemma join_Cons: "join sep (p # ps) = p @ (if ps = [] then [] else sep @ join sep ps)"
  by (cases ps) simp_all

text \<open>The induction over what is written, at one float writer.\<close>

lemma write_induct:
  assumes "P PNone" and "\<And>b. P (PBool b)" and "\<And>n. P (PInt n)" and "\<And>q. P (PFloat q)" and "\<And>s. P (PStr s)"
    and "\<And>t. P (PTime t)" and "\<And>vs. Q vs \<Longrightarrow> P (PList vs)" and "\<And>d. R d \<Longrightarrow> P (PDict d)" and "Q []"
    and "\<And>v vs. P v \<Longrightarrow> (\<And>p. json_write fr v = Some p \<Longrightarrow> Q vs) \<Longrightarrow> Q (v # vs)" and "R []"
    and "\<And>k v d. P v \<Longrightarrow> (\<And>p. json_write fr v = Some p \<Longrightarrow> R d) \<Longrightarrow> R ((k, v) # d)"
  shows "P v" and "Q vs" and "R d"
proof -
  have "f = fr \<Longrightarrow> P v" and "f = fr \<Longrightarrow> Q vs" and "f = fr \<Longrightarrow> R d" for f
    by (induction f v and f vs and f d rule: json_write_json_items_json_pairs.induct) (auto intro: assms)
  then show "P v" and "Q vs" and "R d" by blast+
qed

text \<open>Nothing outside printable ASCII is written, line ends least of all.\<close>

definition printable :: "string \<Rightarrow> bool" where
  "printable s \<longleftrightarrow> list_all (\<lambda>c. 32 \<le> code c \<and> code c \<le> 126) s"

lemma printable_simps [simp]:
  "printable []" "printable (s @ t) \<longleftrightarrow> printable s \<and> printable t"
  "printable (c # s) \<longleftrightarrow> 32 \<le> code c \<and> code c \<le> 126 \<and> printable s"
  by (auto simp: printable_def)

lemma printable_join: "printable sep \<Longrightarrow> list_all printable ps \<Longrightarrow> printable (join sep ps)"
  by (induction ps) (simp_all add: join_Cons)

lemma hex_char_printable: "d < 16 \<Longrightarrow> 32 \<le> code (hex_char d) \<and> code (hex_char d) \<le> 126"
  by (simp add: hex_char_def code_digit_char code_char_of)

lemma escape_char_printable: "printable (escape_char c)"
proof -
  have "code c div 16 < 16" using code_less_256 [of c] by (simp add: less_mult_imp_div_less)
  then show ?thesis
    using hex_char_printable [of "code c div 16"] hex_char_printable [of "code c mod 16"]
    by (auto simp: escape_char_def code_def)
qed

lemma json_quote_printable: "printable (json_quote s)"
proof -
  have "printable (concat (map escape_char s))" by (induction s) (simp_all add: escape_char_printable)
  then show ?thesis by (simp add: json_quote_def code_def)
qed

lemma decimal_printable: "(\<And>c. c \<in> set s \<Longrightarrow> is_decimal_char c) \<Longrightarrow> printable s"
  by (fastforce simp: printable_def list_all_iff is_decimal_char_def Let_def)

lemma nat_digits_printable: "printable (nat_digits n)"
  by (rule decimal_printable) (rule nat_digits_decimal)

lemma py_str_printable: "printable (py_str n)"
  by (simp add: py_str_def nat_digits_printable code_def)

text \<open>What is asked of a float writer: a literal that the reader takes for the same float, as
  \<open>float(repr(q)) == q\<close> in Python.\<close>

locale float_format =
  fixes fr :: float_writer and fl :: "rat \<Rightarrow> bool"
  assumes written: "fl q \<Longrightarrow> \<exists>p. fr q = Some p \<and> p \<noteq> [] \<and> printable p"
    and starts: "fr q = Some p \<Longrightarrow> starts_value p"
    and reads: "fl q \<Longrightarrow> fr q = Some p \<Longrightarrow> ends_number r \<Longrightarrow> read_value (Suc n) (p @ r) = Some (PFloat q, r)"

interpretation no_floats: float_format "\<lambda>_. None" "\<lambda>_. False"
  by unfold_locales simp_all

context float_format
begin

lemma json_dumps_starts:
  assumes "json_write fr v = Some p"
  shows "starts_value p"
proof (cases v)
  case (PInt n)
  obtain c r where c: "py_str n = c # r" "c = CHR ''-'' \<or> is_decimal_char c"
    using py_str_head by blast
  then have "\<not> is_json_space c" "c \<noteq> CHR ''}''" "c \<noteq> CHR '']''"
    by (auto simp: is_decimal_char_def is_json_space_def code_def)
  with c(1) have "starts_value (py_str n)" by (simp add: starts_value_Cons)
  then show ?thesis using PInt assms by (simp add: json_int_def split: if_splits)
next
  case (PBool b)
  then show ?thesis using assms by (cases b) (auto simp: starts_value_Cons is_json_space_def code_def)
qed (use assms in \<open>auto simp: starts_value_Cons json_quote_def is_json_space_def code_def intro: starts\<close>)

lemma json_items_length: "json_items fr vs = Some ps \<Longrightarrow> length ps = length vs"
  by (induction vs arbitrary: ps) (auto split: option.splits)

lemma json_items_starts:
  "json_items fr vs = Some ps \<Longrightarrow> vs \<noteq> [] \<Longrightarrow> starts_value (join '', '' ps @ q)"
  by (cases vs) (auto simp: join_Cons dest!: json_dumps_starts intro: starts_value_append split: option.splits)

lemma json_pairs_starts:
  "json_pairs fr d = Some ps \<Longrightarrow> d \<noteq> [] \<Longrightarrow> starts_value (join '', '' ps @ q)"
  by (cases d) (auto simp: join_Cons json_quote_def starts_value_def is_json_space_def code_def
      split: option.splits)

lemma json_empty: "json_items fr [] = Some ps \<Longrightarrow> ps = []" "json_pairs fr [] = Some ps \<Longrightarrow> ps = []"
  by simp_all

lemma starts_valueE:
  assumes "starts_value p"
  obtains c r where "p = c # r" "c \<noteq> CHR ''}''" "c \<noteq> CHR '']''" "skip_space p = p"
  using assms skip_starts_value [OF assms] by (auto simp: starts_value_def)

lemma read_written:
  "json_write fr v = Some p \<Longrightarrow> writable fl v \<Longrightarrow> ends_number r \<Longrightarrow> 2 * length p \<le> n \<Longrightarrow>
     read_value n (p @ r) = Some (v, r)"
  "json_items fr vs = Some ps \<Longrightarrow> vs \<noteq> [] \<Longrightarrow> (\<forall>v \<in> set vs. writable fl v) \<Longrightarrow>
     2 * length (join '', '' ps) < n \<Longrightarrow> read_elements n (join '', '' ps @ CHR '']'' # r) = Some (vs, r)"
  "json_pairs fr d = Some ps \<Longrightarrow> d \<noteq> [] \<Longrightarrow> (\<forall>kv \<in> set d. writable fl (snd kv)) \<Longrightarrow>
     distinct (map fst (acc @ d)) \<Longrightarrow> 2 * length (join '', '' ps) < n \<Longrightarrow>
     read_members n acc (join '', '' ps @ CHR ''}'' # r) = Some (acc @ d, r)"
proof (induction v and vs and d arbitrary: p r n and ps r n and acc ps r n
    rule: write_induct [where fr = fr])
  case 1
  then show ?case by (cases n) auto
next
  case (2 b)
  then show ?case by (cases n; cases b) auto
next
  case (3 i)
  then have "p = py_str i" "\<bar>i\<bar> < 10 ^ max_str_digits" by (simp_all add: json_int_def split: if_splits)
  moreover obtain m where "n = Suc m"
    using 3(4) py_str_head [of i] \<open>p = py_str i\<close> by (cases n) auto
  ultimately show ?case using read_value_int [of i r m] 3(3) by (simp del: read_value.simps)
next
  case (4 q)
  then obtain m where "n = Suc m" using written by (cases n) fastforce+
  with 4 show ?case using reads [of q p r m] by (simp del: read_value.simps)
next
  case (5 s)
  then obtain m where "n = Suc m" by (cases n) (auto simp: json_quote_def)
  with 5 show ?case by (auto simp: json_quote_def read_quoted)
next
  case (7 vs)
  then obtain ps where ps: "json_items fr vs = Some ps" "p = ''['' @ join '', '' ps @ '']''" by auto
  with 7(5) obtain m where m: "n = Suc m" "2 * length (join '', '' ps) < m" by (cases n) auto
  show ?case
  proof (cases "vs = []")
    case True
    then show ?thesis using ps m by auto
  next
    case False
    obtain c t where ct: "join '', '' ps @ CHR '']'' # r = c # t" "c \<noteq> CHR '']''"
      "skip_space (c # t) = c # t"
      using json_items_starts [OF ps(1) False, of "CHR '']'' # r"] by (metis starts_valueE)
    have "read_elements m (c # t) = Some (vs, r)"
      using 7(1) [OF ps(1) False _ m(2), of r] 7(3) ct(1) by simp
    then show ?thesis using ps(2) m(1) ct by simp
  qed
next
  case (8 d)
  then obtain ps where ps: "json_pairs fr d = Some ps" "p = ''{'' @ join '', '' ps @ ''}''" by auto
  with 8(5) obtain m where m: "n = Suc m" "2 * length (join '', '' ps) < m" by (cases n) auto
  show ?case
  proof (cases "d = []")
    case True
    then show ?thesis using ps m by auto
  next
    case False
    obtain c t where ct: "join '', '' ps @ CHR ''}'' # r = c # t" "c \<noteq> CHR ''}''"
      "skip_space (c # t) = c # t"
      using json_pairs_starts [OF ps(1) False, of "CHR ''}'' # r"] by (metis starts_valueE)
    have "read_members m [] (c # t) = Some (d, r)"
      using 8(1) [OF ps(1) False _ _ m(2), of "[]" r] 8(3) ct(1) by simp
    then show ?thesis using ps(2) m(1) ct by simp
  qed
next
  case (10 v vs)
  then obtain q qs where q: "json_write fr v = Some q" "json_items fr vs = Some qs" "ps = q # qs"
    by (auto split: option.splits)
  obtain m where m: "n = Suc m" "2 * length (join '', '' ps) \<le> m" using 10(6) by (cases n) auto
  show ?case
  proof (cases "vs = []")
    case True
    then have "read_value m (q @ CHR '']'' # r) = Some (v, CHR '']'' # r)"
      using 10(1) [OF q(1), of "CHR '']'' # r" m] 10(5) m(2) q(2,3) by simp
    then show ?thesis using True q m(1) by simp
  next
    case False
    let ?rest = "join '', '' qs @ CHR '']'' # r"
    have qs: "qs \<noteq> []" using False json_items_length [OF q(2)] by auto
    then have "read_value m (q @ CHR '','' # CHR '' '' # ?rest) = Some (v, CHR '','' # CHR '' '' # ?rest)"
      using 10(1) [OF q(1), of "CHR '','' # CHR '' '' # ?rest" m] 10(5) m(2) q(3)
      by (simp add: join_Cons)
    moreover have "read_elements m ?rest = Some (vs, r)"
      using 10(2) [OF q(1) q(2) False, of m r] 10(5) m(2) q(3) qs by (simp add: join_Cons)
    moreover have "skip_space ?rest = ?rest" using json_items_starts [OF q(2) False] by simp
    ultimately show ?thesis using q(3) qs m(1) by (simp add: join_Cons)
  qed
next
  case (12 k v d)
  then obtain q qs where q: "json_write fr v = Some q" "json_pairs fr d = Some qs"
    "ps = (json_quote k @ '': '' @ q) # qs"
    by (auto split: option.splits)
  obtain m where m: "n = Suc m" "2 * length (join '', '' ps) \<le> m" using 12(7) by (cases n) auto
  have new: "dict_set acc k v = acc @ [(k, v)]" using 12(6) by (intro dict_set_new) auto
  have key: "read_string (concat (map escape_char k) @ CHR 34 # t) = Some (k, t)" for t
    by (rule read_quoted)
  have start: "skip_space (q @ t) = q @ t" for t
    using json_dumps_starts [OF q(1)] starts_value_append by simp
  show ?case
  proof (cases "d = []")
    case True
    then have "read_value m (q @ CHR ''}'' # r) = Some (v, CHR ''}'' # r)"
      using 12(1) [OF q(1), of "CHR ''}'' # r" m] 12(5) m(2) q(2,3) by simp
    then show ?thesis using True q m(1) new by (simp add: json_quote_def key start)
  next
    case False
    let ?rest = "join '', '' qs @ CHR ''}'' # r"
    have qs: "qs \<noteq> []" using False q(2) by (cases d) (auto split: option.splits)
    then have "read_value m (q @ CHR '','' # CHR '' '' # ?rest) = Some (v, CHR '','' # CHR '' '' # ?rest)"
      using 12(1) [OF q(1), of "CHR '','' # CHR '' '' # ?rest" m] 12(5) m(2) q(3)
      by (simp add: join_Cons)
    moreover have "read_members m (acc @ [(k, v)]) ?rest = Some ((acc @ [(k, v)]) @ d, r)"
      using 12(2) [OF q(1) q(2) False, of "acc @ [(k, v)]" m r] 12(5,6) m(2) q(3) qs
      by (simp add: join_Cons)
    moreover have "skip_space ?rest = ?rest" using json_pairs_starts [OF q(2) False] by simp
    ultimately show ?thesis using q(3) qs m(1) new by (simp add: join_Cons json_quote_def key start)
  qed
qed auto

lemma json_printable:
  "writable fl v \<Longrightarrow> json_write fr v = Some p \<Longrightarrow> printable p"
  "(\<forall>v \<in> set vs. writable fl v) \<Longrightarrow> json_items fr vs = Some ps \<Longrightarrow> list_all printable ps"
  "(\<forall>kv \<in> set d. writable fl (snd kv)) \<Longrightarrow> json_pairs fr d = Some ps \<Longrightarrow> list_all printable ps"
proof (induction v and vs and d arbitrary: p and ps and ps rule: write_induct [where fr = fr])
  case (3 n)
  then show ?case by (auto simp: json_int_def py_str_printable split: if_splits)
next
  case (4 q)
  then show ?case using written by fastforce
qed (auto simp: printable_join json_quote_printable code_def split: option.splits)

lemma json_round_trip:
  assumes "json_write fr v = Some p" and "writable fl v"
  shows "json_loads p = Loaded v"
  using read_written(1) [OF assms, of "[]" "2 * length p + 2"] skip_starts_value [OF json_dumps_starts [OF assms(1)]]
  by (simp add: json_loads_def json_document_def del: read_value.simps)

lemma json_dumps_defined:
  "writable fl v \<Longrightarrow> json_write fr v \<noteq> None"
  "(\<forall>v \<in> set vs. writable fl v) \<Longrightarrow> json_items fr vs \<noteq> None"
  "(\<forall>kv \<in> set d. writable fl (snd kv)) \<Longrightarrow> json_pairs fr d \<noteq> None"
  by (induction v and vs and d rule: write_induct [where fr = fr])
     (auto simp: json_int_def dest: written split: option.splits)

end

subsection \<open>The fuel is enough\<close>

lemma skip_space_length: "length (skip_space s) \<le> length s"
  by (simp add: skip_space_def length_dropWhile_le)

lemma read_string_length: "read_string s = Some (x, t) \<Longrightarrow> length t < length s"
proof (induction s arbitrary: x t rule: measure_induct_rule [of length])
  case (less s)
  have IH: "read_string y = Some (x', t') \<Longrightarrow> length y < length s \<Longrightarrow> length t' < length y" for y x' t'
    using less.IH by blast
  show ?case
  proof (cases s)
    case (Cons c r)
    have "\<exists>y x'. read_string y = Some (x', t) \<and> length y \<le> length r" if "c \<noteq> CHR 34"
      using less.prems that Cons
      by (auto split: if_splits list.splits option.splits intro: le_SucI)
    moreover have "t = r" if "c = CHR 34" using less.prems that Cons by simp
    ultimately show ?thesis using IH Cons by fastforce
  qed (use less.prems in simp)
qed

lemma after_fraction_length: "length (snd (read_fraction s)) \<le> length s"
  by (auto simp: read_fraction_def after_digits_def length_dropWhile_le le_SucI split: list.split)

lemma after_exponent_length: "length (snd (read_exponent s)) \<le> length s"
proof (cases s)
  case (Cons c r)
  have "length (snd (read_sign r)) \<le> length r"
    by (simp add: read_sign_def split: list.split)
  then show ?thesis
    using Cons length_dropWhile_le [of is_decimal_char "snd (read_sign r)"]
    by (auto simp: read_exponent_def after_digits_def Let_def split: prod.split)
qed (simp add: read_exponent_def)

lemma read_magnitude_length: "read_magnitude neg s = Some (v, t) \<Longrightarrow> length t < length s"
proof -
  assume a: "read_magnitude neg s = Some (v, t)"
  let ?f = "read_fraction (drop (length (integer_part s)) s)"
  have "integer_part s \<noteq> []" "t = snd (read_exponent (snd ?f))"
    using a by (auto simp: read_magnitude_def Let_def split: prod.splits if_splits)
  moreover have "s \<noteq> []" using calculation(1) by (auto simp: integer_part_def)
  moreover have "length (snd (read_exponent (snd ?f))) \<le> length (drop (length (integer_part s)) s)"
    using after_exponent_length after_fraction_length le_trans by blast
  ultimately show ?thesis by (cases s; cases "integer_part s") auto
qed

lemma read_number_length: "read_number s = Some (v, t) \<Longrightarrow> length t < length s"
  by (auto simp: read_number_def dest!: read_magnitude_length split: list.splits if_splits)

lemma skip_space_Cons: "skip_space s = c # r \<Longrightarrow> length r < length s"
  using skip_space_length [of s] by simp

lemma read_length:
  "(read_value n s = Some (v, t) \<longrightarrow> length t < length s) \<and>
   (read_elements n s = Some (vs, t) \<longrightarrow> length t < length s) \<and>
   (read_members n d s = Some (d', t) \<longrightarrow> length t < length s)"
proof (induction n arbitrary: s v vs d d' t)
  case (Suc n)
  have IHv: "read_value n y = Some (v, t) \<Longrightarrow> length t < length y" for y v t using Suc.IH by blast
  have IHe: "read_elements n y = Some (vs, t) \<Longrightarrow> length t < length y" for y vs t using Suc.IH by blast
  have IHm: "read_members n d y = Some (d', t) \<Longrightarrow> length t < length y" for y d d' t using Suc.IH by blast
  have "length t < length s" if "read_value (Suc n) s = Some (v, t)"
  proof (cases s)
    case (Cons c r)
    have "length y \<le> length r" if "skip_space r = y" for y using that skip_space_length by blast
    then show ?thesis
      using that Cons
      by (auto split: list.splits if_splits dest!: read_string_length read_number_length IHe IHm)
  qed (use that in simp)
  moreover have "length t < length s" if a: "read_elements (Suc n) s = Some (vs, t)"
  proof -
    obtain w u e r where u: "read_value n s = Some (w, u)" "skip_space u = e # r"
      using a by (auto split: option.splits list.splits)
    have l: "length u < length s" "length r < length u" "length (skip_space r) \<le> length r"
      using IHv [OF u(1)] skip_space_Cons [OF u(2)] skip_space_length by auto
    show ?thesis using a u l by (auto split: if_splits dest!: IHe)
  qed
  moreover have "length t < length s" if a: "read_members (Suc n) d s = Some (d', t)"
  proof -
    obtain r0 k u e r v' u' e' r' where u: "s = CHR 34 # r0" "read_string r0 = Some (k, u)"
      "skip_space u = e # r" "read_value n (skip_space r) = Some (v', u')" "skip_space u' = e' # r'"
      using a by (auto split: option.splits list.splits if_splits)
    have l: "length u < length s" "length r < length u" "length (skip_space r) \<le> length r"
      "length u' < length (skip_space r)" "length r' < length u'" "length (skip_space r') \<le> length r'"
      using read_string_length [OF u(2)] skip_space_Cons [OF u(3)] skip_space_Cons [OF u(5)]
        IHv [OF u(4)] skip_space_length u(1) by auto
    show ?thesis using a u l by (auto split: if_splits dest!: IHm)
  qed
  ultimately show ?case by blast
qed simp

lemma read_fuel:
  "(2 * length s < n \<longrightarrow> n \<le> m \<longrightarrow> read_value m s = read_value n s) \<and>
   (2 * length s + 1 < n \<longrightarrow> n \<le> m \<longrightarrow> read_elements m s = read_elements n s) \<and>
   (2 * length s + 1 < n \<longrightarrow> n \<le> m \<longrightarrow> read_members m d s = read_members n d s)"
proof (induction n arbitrary: m s d)
  case (Suc n)
  have IHv: "read_value k y = read_value n y" if "2 * length y < n" "n \<le> k" for y k
    using Suc.IH that by blast
  have IHe: "read_elements k y = read_elements n y" if "2 * length y + 1 < n" "n \<le> k" for y k
    using Suc.IH that by blast
  have IHm: "read_members k d y = read_members n d y" if "2 * length y + 1 < n" "n \<le> k" for y d k
    using Suc.IH that by blast
  have "read_value m s = read_value (Suc n) s" if a: "2 * length s < Suc n" "Suc n \<le> m"
  proof (cases s)
    case (Cons c r)
    obtain k where k: "m = Suc k" "n \<le> k" using a(2) by (cases m) auto
    have "2 * length (skip_space r) + 1 < n" using a(1) Cons skip_space_length [of r] by simp
    then have "read_elements k (skip_space r) = read_elements n (skip_space r)"
      "read_members k [] (skip_space r) = read_members n [] (skip_space r)"
      using k(2) by (intro IHe IHm; simp)+
    then show ?thesis using Cons k(1) by (cases "skip_space r") simp_all
  next
    case Nil
    then show ?thesis using a by (cases m) auto
  qed
  moreover have "read_elements m s = read_elements (Suc n) s" if a: "2 * length s + 1 < Suc n" "Suc n \<le> m"
  proof -
    obtain k where k: "m = Suc k" "n \<le> k" using a(2) by (cases m) auto
    have v: "read_value k s = read_value n s" using a k by (intro IHv) auto
    have "read_elements k (skip_space r) = read_elements n (skip_space r)"
      if "read_value n s = Some (w, u)" "skip_space u = e # r" for w u e r
    proof -
      have "length u < length s" using that(1) by (simp add: read_length)
      then show ?thesis
        using skip_space_Cons [OF that(2)] skip_space_length [of r] a k by (intro IHe) simp_all
    qed
    then show ?thesis using k v by (simp split: option.split list.split)
  qed
  moreover have "read_members m d s = read_members (Suc n) d s" if a: "2 * length s + 1 < Suc n" "Suc n \<le> m"
  proof -
    obtain k where k: "m = Suc k" "n \<le> k" using a(2) by (cases m) auto
    have v: "read_value k (skip_space r) = read_value n (skip_space r)"
      if "s = q # r0" "read_string r0 = Some (i, u)" "skip_space u = e # r" for q r0 i u e r
      using that read_string_length [OF that(2)] skip_space_Cons [OF that(3)] skip_space_length [of r] a k
      by (intro IHv) simp_all
    have members: "read_members k d' (skip_space r') = read_members n d' (skip_space r')"
      if "s = q # r0" "read_string r0 = Some (i, u)" "skip_space u = e # r"
        "read_value n (skip_space r) = Some (w, u')" "skip_space u' = e' # r'" for q r0 i u e r w u' e' r' d'
    proof -
      have "length u' < length (skip_space r)"
        using that(4) by (simp add: read_length)
      then show ?thesis
        using that read_string_length [OF that(2)] skip_space_Cons [OF that(3)] skip_space_length [of r]
          skip_space_Cons [OF that(5)] skip_space_length [of r'] a k
        by (intro IHm) simp_all
    qed
    show ?thesis
      using k(1) v members by (simp split: option.split list.split)
  qed
  ultimately show ?case by blast
qed simp

lemma json_fuel_enough:
  "2 * length s + 2 \<le> n \<Longrightarrow> read_value n (skip_space s) = read_value (2 * length s + 2) (skip_space s)"
  using read_fuel [of "skip_space s" "2 * length s + 2" n] skip_space_length [of s] by simp

end
