(* ===== verification/Http.thy ===== *)
theory Http
  imports Router Contract Json
begin

text \<open>
  From the wire to the handler and back: the method and path of each request of \<open>System\<close>, the
  route it meets in the table of \<open>Router\<close>, and the messages the client gets when the outcome of
  the handler passes through the exception handlers and the middleware stack of \<open>Middleware\<close>.
\<close>

subsection \<open>Paths\<close>

definition path_of_segments :: "string list \<Rightarrow> string" where
  "path_of_segments ss = concat (map (Cons CHR ''/'') ss)"

text \<open>The segments of a request's path under its mount; a parameter is one segment.\<close>

fun request_segments :: "request \<Rightarrow> string list" where
  "request_segments (RegisterUser _ _ _) = [''auth'', ''register'']"
| "request_segments (LoginUser _ _ _) = [''auth'', ''login'']"
| "request_segments (RefreshAccessToken _) = [''auth'', ''refresh'']"
| "request_segments (Logout _ _) = [''auth'', ''logout'']"
| "request_segments (VerifyEmail _) = [''auth'', ''verify-email'']"
| "request_segments (ForgotPassword _ _) = [''auth'', ''forgot-password'']"
| "request_segments (ResetPassword _ _) = [''auth'', ''reset-password'']"
| "request_segments (OauthLogin provider) = [''auth'', ''oauth'', provider, ''login'']"
| "request_segments (OauthLink _ provider) = [''auth'', ''oauth'', provider, ''link'']"
| "request_segments (OauthCallback provider _ _) = [''auth'', ''oauth'', provider, ''callback'']"
| "request_segments (ListLinkedAccounts _) = [''auth'', ''oauth'', ''accounts'']"
| "request_segments (UnlinkProvider _ provider) = [''auth'', ''oauth'', provider]"
| "request_segments (ReadCurrentUser _) = [''users'', ''me'']"
| "request_segments (UpdateCurrentUser _ _) = [''users'', ''me'']"
| "request_segments (ChangeCurrentUserPassword _ _ _) = [''users'', ''me'', ''change-password'']"
| "request_segments (DeactivateCurrentUser _) = [''users'', ''me'']"
| "request_segments (ReadCurrentUserV2 _) = [''users'', ''me'']"
| "request_segments (UpdateCurrentUserV2 _ _) = [''users'', ''me'']"
| "request_segments (ChangeCurrentUserPasswordV2 _ _ _) = [''users'', ''me'', ''change-password'']"
| "request_segments (DeactivateCurrentUserV2 _) = [''users'', ''me'']"
| "request_segments (ListUsers _ _ _ _ _ _ _) = [''admin'', ''users'']"
| "request_segments (ListUsersFeed _ _ _ _) = [''admin'', ''users'', ''feed'']"
| "request_segments (UpdateUserStatus _ uid _ _) = [''admin'', ''users'', py_str uid]"
| "request_segments (AdminDeactivateUser _ uid) = [''admin'', ''users'', py_str uid]"
| "request_segments (ListRoles _) = [''admin'', ''roles'']"
| "request_segments (AssignRole _ uid _) = [''admin'', ''users'', py_str uid, ''roles'']"
| "request_segments (RevokeRole _ uid n) = [''admin'', ''users'', py_str uid, ''roles'', n]"
| "request_segments (TriggerUserSummaryReport _) = [''admin'', ''reports'', ''user-summary'']"
| "request_segments (GetReportStatus _ i) = [''admin'', ''reports'', i]"
| "request_segments (UploadFile _ _) = [''files'', ''upload'']"
| "request_segments (ListMyFiles _ _ _ _ _ _) = [''files'', '''']"
| "request_segments (GetFile _ i) = [''files'', py_str i]"
| "request_segments (DeleteFile _ i) = [''files'', py_str i]"

definition request_path :: "request \<Rightarrow> string" where
  "request_path rq = path_of_segments (request_segments rq)"

text \<open>The route of the request: method, template and function.\<close>

fun request_route :: "request \<Rightarrow> route" where
  "request_route (RegisterUser _ _ _) = route ''POST'' ''/auth/register'' ''auth.register_user''"
| "request_route (LoginUser _ _ _) = route ''POST'' ''/auth/login'' ''auth.login_user''"
| "request_route (RefreshAccessToken _) = route ''POST'' ''/auth/refresh'' ''auth.refresh_access_token''"
| "request_route (Logout _ _) = route ''POST'' ''/auth/logout'' ''auth.logout''"
| "request_route (VerifyEmail _) = route ''GET'' ''/auth/verify-email'' ''auth.verify_email''"
| "request_route (ForgotPassword _ _) = route ''POST'' ''/auth/forgot-password'' ''auth.forgot_password''"
| "request_route (ResetPassword _ _) = route ''POST'' ''/auth/reset-password'' ''auth.reset_password''"
| "request_route (OauthLogin _) = route ''GET'' ''/auth/oauth/{provider}/login'' ''oauth.oauth_login''"
| "request_route (OauthLink _ _) = route ''GET'' ''/auth/oauth/{provider}/link'' ''oauth.oauth_link''"
| "request_route (OauthCallback _ _ _) = route ''GET'' ''/auth/oauth/{provider}/callback'' ''oauth.oauth_callback''"
| "request_route (ListLinkedAccounts _) = route ''GET'' ''/auth/oauth/accounts'' ''oauth.list_linked_accounts''"
| "request_route (UnlinkProvider _ _) = route ''DELETE'' ''/auth/oauth/{provider}'' ''oauth.unlink_provider''"
| "request_route (ReadCurrentUser _) = route ''GET'' ''/users/me'' ''users.read_current_user''"
| "request_route (UpdateCurrentUser _ _) = route ''PATCH'' ''/users/me'' ''users.update_current_user''"
| "request_route (ChangeCurrentUserPassword _ _ _) =
     route ''POST'' ''/users/me/change-password'' ''users.change_current_user_password''"
| "request_route (DeactivateCurrentUser _) = route ''DELETE'' ''/users/me'' ''users.deactivate_current_user''"
| "request_route (ReadCurrentUserV2 _) = route ''GET'' ''/users/me'' ''v2.users.read_current_user''"
| "request_route (UpdateCurrentUserV2 _ _) = route ''PATCH'' ''/users/me'' ''v2.users.update_current_user''"
| "request_route (ChangeCurrentUserPasswordV2 _ _ _) =
     route ''POST'' ''/users/me/change-password'' ''v2.users.change_current_user_password''"
| "request_route (DeactivateCurrentUserV2 _) = route ''DELETE'' ''/users/me'' ''v2.users.deactivate_current_user''"
| "request_route (ListUsers _ _ _ _ _ _ _) = route ''GET'' ''/admin/users'' ''admin.list_users''"
| "request_route (ListUsersFeed _ _ _ _) = route ''GET'' ''/admin/users/feed'' ''admin.list_users_feed''"
| "request_route (UpdateUserStatus _ _ _ _) = route ''PATCH'' ''/admin/users/{user_id}'' ''admin.update_user_status''"
| "request_route (AdminDeactivateUser _ _) = route ''DELETE'' ''/admin/users/{user_id}'' ''admin.deactivate_user''"
| "request_route (ListRoles _) = route ''GET'' ''/admin/roles'' ''admin.list_roles''"
| "request_route (AssignRole _ _ _) = route ''POST'' ''/admin/users/{user_id}/roles'' ''admin.assign_role''"
| "request_route (RevokeRole _ _ _) =
     route ''DELETE'' ''/admin/users/{user_id}/roles/{role_name}'' ''admin.revoke_role''"
| "request_route (TriggerUserSummaryReport _) =
     route ''POST'' ''/admin/reports/user-summary'' ''admin.trigger_user_summary_report''"
| "request_route (GetReportStatus _ _) = route ''GET'' ''/admin/reports/{task_id}'' ''admin.get_report_status''"
| "request_route (UploadFile _ _) = route ''POST'' ''/files/upload'' ''files.upload_file''"
| "request_route (ListMyFiles _ _ _ _ _ _) = route ''GET'' ''/files/'' ''files.list_my_files''"
| "request_route (GetFile _ _) = route ''GET'' ''/files/{file_id}'' ''files.get_file''"
| "request_route (DeleteFile _ _) = route ''DELETE'' ''/files/{file_id}'' ''files.delete_file''"

text \<open>Under which prefixes a route is mounted: the profile routes of a version only there, version 1
  also without a prefix.\<close>

fun mounts :: "request \<Rightarrow> string set" where
  "mounts (ReadCurrentUser _) = {[], ''/api/v1''}"
| "mounts (UpdateCurrentUser _ _) = {[], ''/api/v1''}"
| "mounts (ChangeCurrentUserPassword _ _ _) = {[], ''/api/v1''}"
| "mounts (DeactivateCurrentUser _) = {[], ''/api/v1''}"
| "mounts (ReadCurrentUserV2 _) = {''/api/v2''}"
| "mounts (UpdateCurrentUserV2 _ _) = {''/api/v2''}"
| "mounts (ChangeCurrentUserPasswordV2 _ _ _) = {''/api/v2''}"
| "mounts (DeactivateCurrentUserV2 _) = {''/api/v2''}"
| "mounts _ = {[], ''/api/v1'', ''/api/v2''}"

text \<open>A path parameter is a segment: not empty, without a slash.\<close>

definition segment_ok :: "string \<Rightarrow> bool" where
  "segment_ok s \<longleftrightarrow> s \<noteq> [] \<and> CHR ''/'' \<notin> set s"

fun parameters_ok :: "request \<Rightarrow> bool" where
  "parameters_ok (OauthLogin provider) = segment_ok provider"
| "parameters_ok (OauthLink _ provider) = segment_ok provider"
| "parameters_ok (OauthCallback provider _ _) = segment_ok provider"
| "parameters_ok (UnlinkProvider _ provider) = segment_ok provider"
| "parameters_ok (RevokeRole _ _ n) = segment_ok n"
| "parameters_ok (GetReportStatus _ i) = segment_ok i"
| "parameters_ok _ = True"

lemma segments_of_path:
  "list_all (\<lambda>s. CHR ''/'' \<notin> set s) ss \<Longrightarrow> segments (path_of_segments ss) = [] # ss"
proof (induction ss)
  case Nil
  then show ?case by (simp add: path_of_segments_def segments_def)
next
  case (Cons x ss)
  then have x: "CHR ''/'' \<notin> set x" and IH: "segments (path_of_segments ss) = [] # ss" by simp_all
  have path: "path_of_segments (x # ss) = CHR ''/'' # x @ path_of_segments ss" by (simp add: path_of_segments_def)
  show ?case
  proof (cases ss)
    case Nil
    with x path show ?thesis by (simp add: path_of_segments_def segments_def split_on_no_sep)
  next
    case (Cons y ys)
    then obtain w where w: "path_of_segments ss = CHR ''/'' # w" by (simp add: path_of_segments_def)
    with IH have "split_on CHR ''/'' w = ss" by (simp add: segments_def)
    with x path w show ?thesis by (simp add: segments_def split_on_first)
  qed
qed

lemma segments_literal:
  "segments (CHR ''/'' # s) = [] # split_on CHR ''/'' s"
  by (simp add: segments_def)

lemma digits_no_slash [simp]: "CHR ''/'' \<notin> set (py_str n)" "py_str n \<noteq> []"
proof -
  have "CHR ''/'' \<notin> set (nat_digits m)" for m
    using nat_digits_decimal [of "CHR ''/''" m] by (auto simp: is_decimal_char_def code_def Let_def)
  then show "CHR ''/'' \<notin> set (py_str n)" by (simp add: py_str_def)
  show "py_str n \<noteq> []" by (simp add: py_str_def)
qed

lemma request_segments_ok:
  "parameters_ok rq \<Longrightarrow> list_all (\<lambda>s. CHR ''/'' \<notin> set s) (request_segments rq)"
  by (cases rq) (simp_all add: segment_ok_def)

lemma request_route_matches:
  assumes "parameters_ok rq"
  shows "path_matches (ro_path (request_route rq)) (request_path rq)"
  unfolding path_matches_def request_path_def segments_of_path [OF request_segments_ok [OF assms]]
  using assms
  by (cases rq) (simp_all add: route_def segments_literal segment_matches_def is_parameter_def segment_ok_def)

lemma request_route_listed:
  "{[], ''/api/v1''} \<subseteq> mounts rq \<Longrightarrow> request_route rq \<in> set v1_router"
  "''/api/v2'' \<in> mounts rq \<Longrightarrow> request_route rq \<in> set v2_router"
  by (cases rq; simp only: request_route.simps mounts.simps; (code_simp | simp))+

text \<open>The mounted route of a request is served, and matches its path.\<close>

lemma request_mounted:
  assumes "parameters_ok rq" and "mount \<in> mounts rq"
  defines "r \<equiv> (request_route rq)\<lparr>ro_path := mount @ ro_path (request_route rq)\<rparr>"
  shows "r \<in> set application_routes" and "path_matches (ro_path r) (mount @ request_path rq)"
proof -
  let ?r = "request_route rq"
  have m: "mount = [] \<or> mount = ''/api/v1'' \<or> mount = ''/api/v2''" using assms(2) by (cases rq) auto
  have v1: "?r \<in> set v1_router" if "mount \<noteq> ''/api/v2''"
    using request_route_listed(1) [of rq] assms(2) that by (cases rq) auto
  have v2: "?r \<in> set v2_router" if "mount = ''/api/v2''"
    using request_route_listed(2) [of rq] assms(2) that by auto
  show "r \<in> set application_routes"
    using m v1 v2 by (auto simp: application_routes_def under_def r_def)
  have slash: "startswith (ro_path ?r) ''/''"
    using v1 v2 m rooted_routers by (auto simp: rooted_def list_all_iff)
  show "path_matches (ro_path r) (mount @ request_path rq)"
  proof (cases "mount = []")
    case False
    then have "plain_base mount" using m plain_bases by blast
    then show ?thesis
      using path_matches_under [OF _ slash, of mount] request_route_matches [OF assms(1)] by (simp add: r_def)
  qed (use request_route_matches [OF assms(1)] in \<open>simp add: r_def\<close>)
qed

lemma request_deprecated:
  assumes "parameters_ok rq" and "mount \<in> mounts rq"
  shows "is_legacy_path (mount @ request_path rq) \<longleftrightarrow> mount = []"
proof -
  have m: "mount = [] \<or> mount = ''/api/v1'' \<or> mount = ''/api/v2''" using assms(2) by (cases rq) auto
  have segs: "segments (request_path rq) = [] # request_segments rq"
    unfolding request_path_def by (rule segments_of_path [OF request_segments_ok [OF assms(1)]])
  obtain w where w: "request_path rq = CHR ''/'' # w"
    by (cases rq) (simp_all add: request_path_def path_of_segments_def)
  have "hd (request_segments rq) \<in> set LEGACY_NAMES" and ne: "request_segments rq \<noteq> []"
    by (cases rq; simp add: LEGACY_NAMES_def)+
  then have "is_legacy_path (request_path rq)"
    using legacy_iff [of "request_path rq" "hd (request_segments rq)" "tl (request_segments rq)"] segs by simp
  moreover have "\<not> is_legacy_path (mount @ request_path rq)" if "mount \<noteq> []"
  proof -
    have "\<exists>rest. segments (mount @ request_path rq) = [] # ''api'' # rest"
      using m that base_segments [of w] by (auto simp: w)
    then show ?thesis using legacy_iff by (auto simp: LEGACY_NAMES_def)
  qed
  ultimately show ?thesis by auto
qed

text \<open>C35. Every request reaches its handler. Under each prefix that the application mounts the route
  at, the method and path of a request lead to the function of the code that handles it in the
  model, and to no other route; and on the unversioned paths the client is told so.\<close>

theorem requests_reach_handlers:
  assumes "parameters_ok rq" and "mount \<in> mounts rq"
  defines "p \<equiv> mount @ request_path rq"
  shows "endpoint_at application_routes (ro_method (request_route rq)) p = Some (ro_endpoint (request_route rq)) \<and>
    (\<exists>!r. r \<in> set application_routes \<and> ro_method r = ro_method (request_route rq) \<and> path_matches (ro_path r) p) \<and>
    (is_legacy_path p \<longleftrightarrow> mount = [])"
proof -
  let ?r = "request_route rq"
  let ?r' = "?r\<lparr>ro_path := mount @ ro_path ?r\<rparr>"
  note mounted = request_mounted [OF assms(1,2), folded p_def]
  have same: "r = ?r'" if "r \<in> set application_routes" "ro_method r = ro_method ?r" "path_matches (ro_path r) p" for r
    by (rule application_unique [OF that(1) mounted(1) _ that(3) mounted(2)]) (simp add: that(2))
  have one: "\<exists>!r. r \<in> set application_routes \<and> ro_method r = ro_method ?r \<and> path_matches (ro_path r) p"
  proof (rule ex1I [of _ ?r'])
    show "?r' \<in> set application_routes \<and> ro_method ?r' = ro_method ?r \<and> path_matches (ro_path ?r') p"
      using mounted by simp
  qed (use same in blast)
  have "ro_method ?r' = ro_method ?r" by simp
  then have "List.find (\<lambda>r. ro_method r = ro_method ?r \<and> path_matches (ro_path r) p) application_routes \<noteq> None"
    using mounted unfolding find_None_iff by metis
  then obtain r where r: "List.find (\<lambda>r. ro_method r = ro_method ?r \<and> path_matches (ro_path r) p) application_routes = Some r"
    by blast
  then have "r = ?r'" using find_Some_set [OF r] same by blast
  with r have "endpoint_at application_routes (ro_method ?r) p = Some (ro_endpoint ?r)"
    by (simp add: endpoint_at_def)
  then show ?thesis using one request_deprecated [OF assms(1,2), folded p_def] by (intro conjI)
qed

theorem requests_reach_handlers_witness:
  "endpoint_at application_routes ''GET'' (''/api/v2'' @ request_path (GetFile ''tok'' 7)) = Some ''files.get_file''"
  using requests_reach_handlers [of "GetFile ''tok'' 7" "''/api/v2''"] by (simp add: route_def)

end
