(* ===== verification/Bodies.thy ===== *)
theory Bodies
  imports Http
begin

text \<open>
  The bodies of requests: the request models of \<open>app/schemas\<close> and what FastAPI does with a JSON
  body before the handler runs. A body that is not JSON is refused at once; otherwise the
  dependencies of the route run, and a body that does not fit the model is refused then. The last
  theorem closes the circle with \<open>Responses\<close>: what a client can say is what a handler is given.
\<close>

subsection \<open>Fields\<close>

definition required_str :: "pydict \<Rightarrow> string \<Rightarrow> string option" where
  "required_str d k = (case map_of d k of Some (PStr s) \<Rightarrow> Some s | _ \<Rightarrow> None)"

text \<open>\<open>T | None = None\<close>: a field that is missing or null is \<open>Some None\<close>.\<close>

definition optional_str :: "pydict \<Rightarrow> string \<Rightarrow> string option option" where
  "optional_str d k =
     (case map_of d k of None \<Rightarrow> Some None | Some PNone \<Rightarrow> Some None | Some (PStr s) \<Rightarrow> Some (Some s) | _ \<Rightarrow> None)"

text \<open>What else than a boolean pydantic takes for one is a parameter.\<close>

type_synonym bool_reader = "pyval \<Rightarrow> bool option"

definition optional_bool :: "bool_reader \<Rightarrow> pydict \<Rightarrow> string \<Rightarrow> bool option option" where
  "optional_bool to_bool d k =
     (case map_of d k of None \<Rightarrow> Some None | Some PNone \<Rightarrow> Some None | Some v \<Rightarrow> map_option Some (to_bool v))"

subsection \<open>The request models\<close>

definition UserCreate :: "email_validator \<Rightarrow> pydict \<Rightarrow> (string \<times> string) option" where
  "UserCreate valid d =
     (case (required_str d ''email'', required_str d ''password'') of
        (Some e, Some p) \<Rightarrow> (case validate_user_create valid e p of Inl _ \<Rightarrow> None | Inr _ \<Rightarrow> Some (e, p))
      | _ \<Rightarrow> None)"

definition LoginRequest :: "email_validator \<Rightarrow> pydict \<Rightarrow> (string \<times> string) option" where
  "LoginRequest valid d =
     (case (required_str d ''email'', required_str d ''password'') of
        (Some e, Some p) \<Rightarrow> if valid e = None then None else Some (e, p)
      | _ \<Rightarrow> None)"

definition RefreshTokenRequest :: "pydict \<Rightarrow> string option" where
  "RefreshTokenRequest d = required_str d ''refresh_token''"

definition LogoutRequest :: "pydict \<Rightarrow> string option option" where
  "LogoutRequest d = optional_str d ''refresh_token''"

definition ForgotPasswordRequest :: "email_validator \<Rightarrow> pydict \<Rightarrow> string option" where
  "ForgotPasswordRequest valid d =
     (case required_str d ''email'' of Some e \<Rightarrow> if valid e = None then None else Some e | None \<Rightarrow> None)"

definition ResetPasswordRequest :: "pydict \<Rightarrow> (string \<times> string) option" where
  "ResetPasswordRequest d =
     (case (required_str d ''token'', required_str d ''new_password'') of
        (Some t, Some p) \<Rightarrow> (case validate_new_password p of Inl _ \<Rightarrow> None | Inr p' \<Rightarrow> Some (t, p'))
      | _ \<Rightarrow> None)"

definition UserUpdate :: "email_validator \<Rightarrow> pydict \<Rightarrow> string option option" where
  "UserUpdate valid d =
     (case optional_str d ''email'' of
        None \<Rightarrow> None
      | Some e \<Rightarrow> (case validate_user_update valid e of Inl _ \<Rightarrow> None | Inr _ \<Rightarrow> Some e))"

definition PasswordChange :: "pydict \<Rightarrow> (string \<times> string) option" where
  "PasswordChange d =
     (case (required_str d ''current_password'', required_str d ''new_password'') of
        (Some old, Some p) \<Rightarrow> (case validate_new_password p of Inl _ \<Rightarrow> None | Inr p' \<Rightarrow> Some (old, p'))
      | _ \<Rightarrow> None)"

definition AdminUserUpdate :: "bool_reader \<Rightarrow> pydict \<Rightarrow> (bool option \<times> bool option) option" where
  "AdminUserUpdate to_bool d =
     (case (optional_bool to_bool d ''is_active'', optional_bool to_bool d ''is_verified'') of
        (Some a, Some v) \<Rightarrow> Some (a, v)
      | _ \<Rightarrow> None)"

definition RoleAssignmentRequest :: "pydict \<Rightarrow> string option" where
  "RoleAssignmentRequest d = required_str d ''role''"

lemmas request_models = UserCreate_def LoginRequest_def RefreshTokenRequest_def LogoutRequest_def
  ForgotPasswordRequest_def ResetPasswordRequest_def UserUpdate_def PasswordChange_def AdminUserUpdate_def
  RoleAssignmentRequest_def

subsection \<open>The routes with a body\<close>

text \<open>A route with what else it takes from the request: the address of the client, the bearer token,
  the id in the path.\<close>

datatype body_route =
    AtRegister "string option"
  | AtLogin "string option"
  | AtRefresh
  | AtLogout string
  | AtForgotPassword "string option"
  | AtResetPassword
  | AtUpdateMe string
  | AtChangePassword string
  | AtUpdateMeV2 string
  | AtChangePasswordV2 string
  | AtUserStatus string int
  | AtAssignRole string int

fun body_request :: "bool_reader \<Rightarrow> email_validator \<Rightarrow> body_route \<Rightarrow> pydict \<Rightarrow> request option" where
  "body_request to_bool valid (AtRegister client) d =
     map_option (\<lambda>(e, p). RegisterUser client e p) (UserCreate valid d)"
| "body_request to_bool valid (AtLogin client) d =
     map_option (\<lambda>(e, p). LoginUser client e p) (LoginRequest valid d)"
| "body_request to_bool valid AtRefresh d = map_option RefreshAccessToken (RefreshTokenRequest d)"
| "body_request to_bool valid (AtLogout cred) d = map_option (Logout cred) (LogoutRequest d)"
| "body_request to_bool valid (AtForgotPassword client) d =
     map_option (ForgotPassword client) (ForgotPasswordRequest valid d)"
| "body_request to_bool valid AtResetPassword d = map_option (\<lambda>(t, p). ResetPassword t p) (ResetPasswordRequest d)"
| "body_request to_bool valid (AtUpdateMe cred) d = map_option (UpdateCurrentUser cred) (UserUpdate valid d)"
| "body_request to_bool valid (AtChangePassword cred) d =
     map_option (\<lambda>(old, p). ChangeCurrentUserPassword cred old p) (PasswordChange d)"
| "body_request to_bool valid (AtUpdateMeV2 cred) d = map_option (UpdateCurrentUserV2 cred) (UserUpdate valid d)"
| "body_request to_bool valid (AtChangePasswordV2 cred) d =
     map_option (\<lambda>(old, p). ChangeCurrentUserPasswordV2 cred old p) (PasswordChange d)"
| "body_request to_bool valid (AtUserStatus cred uid) d =
     map_option (\<lambda>(a, v). UpdateUserStatus cred uid a v) (AdminUserUpdate to_bool d)"
| "body_request to_bool valid (AtAssignRole cred uid) d =
     map_option (AssignRole cred uid) (RoleAssignmentRequest d)"

text \<open>The dependencies of these routes, which run whether the body fits or not.\<close>

fun dependencies :: "'r env \<Rightarrow> time \<Rightarrow> body_route \<Rightarrow> 'r app_state \<Rightarrow> (unit, 'r app_state) handled" where
  "dependencies E now (AtRegister client) s = limited E register_limiter now client (\<lambda>s. (Inr (), s)) s"
| "dependencies E now (AtLogin client) s = limited E login_limiter now client (\<lambda>s. (Inr (), s)) s"
| "dependencies E now AtRefresh s = (Inr (), s)"
| "dependencies E now (AtLogout cred) s = (Inr (), s)"
| "dependencies E now (AtForgotPassword client) s =
     limited E forgot_password_limiter now client (\<lambda>s. (Inr (), s)) s"
| "dependencies E now AtResetPassword s = (Inr (), s)"
| "dependencies E now (AtUpdateMe cred) s = authenticated E now cred (\<lambda>_ s. (Inr (), s)) s"
| "dependencies E now (AtChangePassword cred) s = authenticated E now cred (\<lambda>_ s. (Inr (), s)) s"
| "dependencies E now (AtUpdateMeV2 cred) s = authenticated E now cred (\<lambda>_ s. (Inr (), s)) s"
| "dependencies E now (AtChangePasswordV2 cred) s = authenticated E now cred (\<lambda>_ s. (Inr (), s)) s"
| "dependencies E now (AtUserStatus cred _) s =
     require_permissions E now cred [''users:write''] (\<lambda>s. (Inr (), s)) s"
| "dependencies E now (AtAssignRole cred _) s =
     require_permissions E now cred [''roles:manage''] (\<lambda>s. (Inr (), s)) s"

text \<open>
  A body as it arrives: \<open>raw\<close> is its text, decoded. \<open>refuse\<close> is FastAPI's answer to one that is not JSON,
  given before any dependency runs; an empty body, null and everything else that is not an object
  lack the model. The result is \<open>None\<close>, which says nothing, for a text that Python reads but whose
  value the model does not have (\<open>Unsupported\<close>), and for one with so many brackets that it could meet
  the recursion limit of the interpreter.
\<close>

text \<open>The opening brackets of a text, those in its string literals left out.\<close>

fun brackets :: "bool \<Rightarrow> string \<Rightarrow> nat" where
  "brackets in_string [] = 0"
| "brackets False (c # s) =
     (if c = CHR 34 then brackets True s
      else (if c = CHR ''['' \<or> c = CHR ''{'' then 1 else 0) + brackets False s)"
| "brackets True [c] = 0"
| "brackets True (c # d # s) =
     (if c = CHR 34 then brackets False (d # s) else if c = CHR 92 then brackets True s else brackets True (d # s))"

definition NESTING :: nat where "NESTING = 200"

definition read_body :: "string \<Rightarrow> json_reading" where
  "read_body raw = (if brackets False raw \<le> NESTING then json_loads raw else Unsupported)"

definition receive ::
  "(string \<Rightarrow> failure) \<Rightarrow> bool_reader \<Rightarrow> 'r env \<Rightarrow> 'o parties \<Rightarrow> drawn \<Rightarrow> time \<Rightarrow> body_route \<Rightarrow> string \<Rightarrow>
     'r app_state \<times> 'o \<Rightarrow> (reply, 'r app_state \<times> 'o) handled option" where
  "receive refuse to_bool E P x now br raw so =
     (case (if raw = [] then Loaded PNone else read_body raw) of
        Unsupported \<Rightarrow> None
      | Malformed \<Rightarrow> Some (Inl (refuse raw), so)
      | Loaded v \<Rightarrow> Some
          (case (case v of PDict d \<Rightarrow> body_request to_bool (p_valid P) br d | _ \<Rightarrow> None) of
             Some rq \<Rightarrow> serve E P x now rq so
           | None \<Rightarrow>
               (case dependencies E now br (fst so) of
                  (Inl e, s') \<Rightarrow> (Inl e, (s', snd so))
                | (Inr _, s') \<Rightarrow> (Inl (RequestValidationError ''body''), (s', snd so)))))"

text \<open>What is asked of the library: a boolean is read as it is, and a body that is not JSON is answered
  with 400 or 422.\<close>

locale body_reader =
  fixes refuse :: "string \<Rightarrow> failure" and to_bool :: bool_reader
  assumes reads_bool: "to_bool (PBool b) = Some b"
    and refusal: "(\<exists>d hs. refuse raw = HTTPException 400 d hs) \<or> (\<exists>m. refuse raw = RequestValidationError m)"

text \<open>The lax reading of pydantic.\<close>

definition lax_bool :: bool_reader where
  "lax_bool v =
     (case v of
        PBool b \<Rightarrow> Some b
      | PInt n \<Rightarrow> if n = 0 then Some False else if n = 1 then Some True else None
      | PFloat q \<Rightarrow> if q = 0 then Some False else if q = 1 then Some True else None
      | PStr s \<Rightarrow>
          if lower s \<in> {''1'', ''true'', ''t'', ''yes'', ''y'', ''on''} then Some True
          else if lower s \<in> {''0'', ''false'', ''f'', ''no'', ''n'', ''off''} then Some False else None
      | _ \<Rightarrow> None)"

definition json_refusal :: "string \<Rightarrow> failure" where
  "json_refusal raw = RequestValidationError ''json_invalid''"

interpretation lax: body_reader json_refusal lax_bool
  by unfold_locales (simp_all add: lax_bool_def json_refusal_def)

subsection \<open>What a client sends, and what the handler gets\<close>

text \<open>The request that a body stands for, if it stands for one.\<close>

definition understood :: "bool_reader \<Rightarrow> email_validator \<Rightarrow> body_route \<Rightarrow> string \<Rightarrow> request option" where
  "understood to_bool valid br raw =
     (case read_body raw of Loaded (PDict d) \<Rightarrow> body_request to_bool valid br d | _ \<Rightarrow> None)"

definition nullable_bool :: "bool option \<Rightarrow> pyval" where
  "nullable_bool b = (case b of None \<Rightarrow> PNone | Some b \<Rightarrow> PBool b)"

text \<open>The body a client sends for a request.\<close>

fun body_of :: "request \<Rightarrow> (body_route \<times> pydict) option" where
  "body_of (RegisterUser client e p) = Some (AtRegister client, [(''email'', PStr e), (''password'', PStr p)])"
| "body_of (LoginUser client e p) = Some (AtLogin client, [(''email'', PStr e), (''password'', PStr p)])"
| "body_of (RefreshAccessToken tok) = Some (AtRefresh, [(''refresh_token'', PStr tok)])"
| "body_of (Logout cred tok) = Some (AtLogout cred, [(''refresh_token'', nullable_str tok)])"
| "body_of (ForgotPassword client e) = Some (AtForgotPassword client, [(''email'', PStr e)])"
| "body_of (ResetPassword tok p) = Some (AtResetPassword, [(''token'', PStr tok), (''new_password'', PStr p)])"
| "body_of (UpdateCurrentUser cred e) = Some (AtUpdateMe cred, [(''email'', nullable_str e)])"
| "body_of (ChangeCurrentUserPassword cred old p) =
     Some (AtChangePassword cred, [(''current_password'', PStr old), (''new_password'', PStr p)])"
| "body_of (UpdateCurrentUserV2 cred e) = Some (AtUpdateMeV2 cred, [(''email'', nullable_str e)])"
| "body_of (ChangeCurrentUserPasswordV2 cred old p) =
     Some (AtChangePasswordV2 cred, [(''current_password'', PStr old), (''new_password'', PStr p)])"
| "body_of (UpdateUserStatus cred uid a v) =
     Some (AtUserStatus cred uid, [(''is_active'', nullable_bool a), (''is_verified'', nullable_bool v)])"
| "body_of (AssignRole cred uid n) = Some (AtAssignRole cred uid, [(''role'', PStr n)])"
| "body_of _ = None"

fun body_fields :: "body_route \<Rightarrow> string list" where
  "body_fields (AtRegister _) = [''email'', ''password'']"
| "body_fields (AtLogin _) = [''email'', ''password'']"
| "body_fields AtRefresh = [''refresh_token'']"
| "body_fields (AtLogout _) = [''refresh_token'']"
| "body_fields (AtForgotPassword _) = [''email'']"
| "body_fields AtResetPassword = [''token'', ''new_password'']"
| "body_fields (AtUpdateMe _) = [''email'']"
| "body_fields (AtChangePassword _) = [''current_password'', ''new_password'']"
| "body_fields (AtUpdateMeV2 _) = [''email'']"
| "body_fields (AtChangePasswordV2 _) = [''current_password'', ''new_password'']"
| "body_fields (AtUserStatus _ _) = [''is_active'', ''is_verified'']"
| "body_fields (AtAssignRole _ _) = [''role'']"

definition only_fields :: "string list \<Rightarrow> pydict \<Rightarrow> pydict" where
  "only_fields ks d = filter (\<lambda>kv. fst kv \<in> set ks) d"

lemma only_fields_reads [simp]:
  assumes "k \<in> set ks"
  shows "required_str (only_fields ks d) k = required_str d k"
    "optional_str (only_fields ks d) k = optional_str d k"
    "optional_bool to_bool (only_fields ks d) k = optional_bool to_bool d k"
proof -
  have "map_of (only_fields ks d) k = map_of d k" using assms by (induction d) (auto simp: only_fields_def)
  then show "required_str (only_fields ks d) k = required_str d k"
    "optional_str (only_fields ks d) k = optional_str d k"
    "optional_bool to_bool (only_fields ks d) k = optional_bool to_bool d k"
    by (simp_all add: required_str_def optional_str_def optional_bool_def)
qed

lemma body_request_fields:
  "body_request to_bool valid br (only_fields (body_fields br) d) = body_request to_bool valid br d"
  by (cases br) (simp_all add: request_models)

lemma validated_same: "validate_new_password p = Inr q \<Longrightarrow> q = p"
  by (simp add: validate_new_password_Inr)

lemma body_of_request:
  assumes "body_reader refuse to_bool" and "body_of rq = Some (br, d)" and "body_request to_bool valid br d \<noteq> None"
  shows "body_request to_bool valid br d = Some rq"
  using assms(2,3) body_reader.reads_bool [OF assms(1)]
  by (cases rq; (auto simp: request_models required_str_def optional_str_def optional_bool_def nullable_str_def
      nullable_bool_def split: sum.splits option.splits if_splits)?; metis validated_same)

lemma body_of_writable: "body_of rq = Some (br, d) \<Longrightarrow> json_value (PDict d)"
  by (cases rq) (auto simp: nullable_str_def nullable_bool_def split: option.splits)

lemma read_body_empty: "read_body [] = Malformed"
  by (simp add: read_body_def json_loads_def json_document_def numeral_2_eq_2)

lemma receive_understood:
  "understood to_bool (p_valid P) br raw = Some rq \<Longrightarrow>
     receive refuse to_bool E P x now br raw so = Some (serve E P x now rq so)"
  using read_body_empty
  by (cases "raw = []") (auto simp: understood_def receive_def split: option.splits pyval.splits json_reading.splits)

text \<open>A flat object has one bracket, whatever its strings hold.\<close>

lemma brackets_in: "c \<noteq> CHR 34 \<Longrightarrow> c \<noteq> CHR 92 \<Longrightarrow> brackets True (c # s) = brackets True s"
  by (cases s) auto

lemma brackets_escaped: "brackets True (CHR 92 # c # s) = brackets True s"
  by simp

lemma hex_char_plain: "d < 16 \<Longrightarrow> hex_char d \<noteq> CHR 34 \<and> hex_char d \<noteq> CHR 92"
  using hex_value_char [of d] by (auto simp: hex_value_def code_def Let_def split: if_splits)

lemma brackets_char: "brackets True (escape_char c @ s) = brackets True s"
proof -
  have "code c div 16 < 16" "code c mod 16 < 16" using code_less_256 [of c] by (simp_all add: less_mult_imp_div_less)
  from hex_char_plain [OF this(1)] hex_char_plain [OF this(2)] show ?thesis
    by (auto simp: escape_char_def brackets_in)
qed

lemma brackets_quote: "brackets False (json_quote t @ s) = brackets False s"
proof -
  have "brackets True (concat (map escape_char t) @ CHR 34 # s) = brackets False s"
    by (induction t) (auto simp: brackets_char, cases s, auto)
  then show ?thesis by (simp add: json_quote_def)
qed

fun flat :: "pyval \<Rightarrow> bool" where
  "flat PNone = True" | "flat (PBool b) = True" | "flat (PStr s) = True" | "flat v = False"

lemma brackets_flat: "flat v \<Longrightarrow> json_dumps v = Some p \<Longrightarrow> brackets False (p @ s) = brackets False s"
  by (cases v) (auto simp: brackets_quote split: if_splits)

lemma brackets_pairs:
  "list_all (\<lambda>kv. flat (snd kv)) d \<Longrightarrow> json_pairs (\<lambda>_. None) d = Some ps \<Longrightarrow>
     brackets False (join '', '' ps @ s) = brackets False s"
proof (induction d arbitrary: ps)
  case (Cons kv d)
  obtain k v where kv: "kv = (k, v)" by fastforce
  from Cons.prems(2) kv obtain p qs where p: "json_dumps v = Some p" "json_pairs (\<lambda>_. None) d = Some qs"
    "ps = (json_quote k @ '': '' @ p) # qs" by (auto split: option.splits)
  have "flat v" using Cons.prems(1) kv by simp
  note v = brackets_flat [OF this p(1)]
  show ?case
  proof (cases qs)
    case Nil
    then show ?thesis by (simp add: p(3) brackets_quote v)
  next
    case (Cons q rest)
    then have "join '', '' ps = json_quote k @ '': '' @ p @ '', '' @ join '', '' qs" by (simp add: p(3) join_Cons)
    then show ?thesis using Cons.IH [OF _ p(2)] Cons.prems(1) by (simp add: brackets_quote v)
  qed
qed simp

lemma brackets_object:
  "list_all (\<lambda>kv. flat (snd kv)) d \<Longrightarrow> json_dumps (PDict d) = Some raw \<Longrightarrow> brackets False raw = 1"
  by (auto simp: brackets_pairs)

lemma body_of_flat: "body_of rq = Some (br, d) \<Longrightarrow> list_all (\<lambda>kv. flat (snd kv)) d"
  by (cases rq) (auto simp: nullable_str_def nullable_bool_def split: option.splits)

text \<open>The refusals of the dependencies and of the validation.\<close>

definition body_refused :: "failure \<Rightarrow> bool" where
  "body_refused e =
     (case e of HTTPException st _ _ \<Rightarrow> st \<in> {400, 401, 403, 429} | RequestValidationError _ \<Rightarrow> True | _ \<Rightarrow> False)"

lemma current_user_refused: "get_current_user E now tok s = Inl e \<Longrightarrow> body_refused e"
  by (auto simp: get_current_user_def body_refused_def Let_def split: option.splits if_splits)

lemma dependencies_frame:
  assumes "dependencies E now br s = (r, s')"
  shows "s' = s\<lparr>st_redis := st_redis s'\<rparr> \<and> (\<forall>e. r = Inl e \<longrightarrow> body_refused e)"
proof -
  have limit: "t = s\<lparr>st_redis := st_redis t\<rparr> \<and> (\<forall>e. q = Inl e \<longrightarrow> body_refused e)"
    if "limited E rl now client (\<lambda>s. (Inr (), s)) s = (q, t)" for rl client q t
    using that by (auto simp: limited_def rate_limit_call_def too_many_requests_def body_refused_def Let_def
        split: prod.splits sum.splits if_splits)
  have user: "t = s \<and> (\<forall>e. q = Inl e \<longrightarrow> body_refused e)"
    if "authenticated E now cred (\<lambda>_ s. (Inr (), s)) s = (q, t)" for cred q t
    using that current_user_refused
    by (cases "get_current_user E now cred s") (auto simp: authenticated_def)
  have permission: "t = s \<and> (\<forall>e. q = Inl e \<longrightarrow> body_refused e)"
    if "require_permissions E now cred ps (\<lambda>s. (Inr (), s)) s = (q, t)" for cred ps q t
    using that current_user_refused
    by (cases "get_current_user E now cred s")
      (auto simp: require_permissions_def authenticated_def permission_checker_def body_refused_def
        split: if_splits)
  show ?thesis using assms by (cases br) (auto dest: limit user permission)
qed

text \<open>C36. From the body to the handler. Whatever request a client makes, the JSON text of its body leads
  to that very request; fields that the model does not name change nothing, so no client can set
  more of an account than the model offers; and every other body that the model can read is refused
  with a status of the dependencies or of the validation, without touching the database, the
  queue or the store (only a rate limiter may have counted), a text that is not JSON without
  touching anything. Nothing is said of the texts that Python reads and the model does not: those
  with \<open>NaN\<close>, \<open>Infinity\<close> or an escape of a character beyond \<open>00ff\<close>, or with more than 200 opening
  brackets.\<close>

theorem bodies_reach_handlers:
  assumes "body_reader refuse to_bool"
  shows "(\<forall>rq d. body_of rq = Some (br, d) \<longrightarrow> body_request to_bool (p_valid P) br d \<noteq> None \<longrightarrow>
      (\<exists>raw. json_dumps (PDict d) = Some raw \<and>
        receive refuse to_bool E P x now br raw so = Some (serve E P x now rq so))) \<and>
    (\<forall>raw rq d. read_body raw = Loaded (PDict d) \<longrightarrow>
      body_request to_bool (p_valid P) br (only_fields (body_fields br) d) = Some rq \<longrightarrow>
      receive refuse to_bool E P x now br raw so = Some (serve E P x now rq so)) \<and>
    (\<forall>raw. understood to_bool (p_valid P) br raw = None \<longrightarrow>
      (if read_body raw = Unsupported then receive refuse to_bool E P x now br raw so = None
       else \<exists>e so'. receive refuse to_bool E P x now br raw so = Some (Inl e, so') \<and> body_refused e \<and>
         so' = ((fst so)\<lparr>st_redis := st_redis (fst so')\<rparr>, snd so) \<and>
         (raw \<noteq> [] \<longrightarrow> read_body raw = Malformed \<longrightarrow> so' = so)))"
proof (intro conjI allI impI)
  fix rq d assume rq: "body_of rq = Some (br, d)" "body_request to_bool (p_valid P) br d \<noteq> None"
  have "json_value (PDict d)" by (rule body_of_writable [OF rq(1)])
  then obtain raw where raw: "json_dumps (PDict d) = Some raw" "json_loads raw = Loaded (PDict d)"
    using no_floats.json_dumps_defined(1) no_floats.json_round_trip by blast
  from brackets_object [OF body_of_flat [OF rq(1)] raw(1)] raw(2)
  have "read_body raw = Loaded (PDict d)" by (simp add: read_body_def NESTING_def)
  then have "understood to_bool (p_valid P) br raw = Some rq"
    using body_of_request [OF assms rq] by (simp add: understood_def)
  from receive_understood [OF this] raw(1)
  show "\<exists>raw. json_dumps (PDict d) = Some raw \<and>
      receive refuse to_bool E P x now br raw so = Some (serve E P x now rq so)" by blast
next
  fix raw rq d
  assume "read_body raw = Loaded (PDict d)"
    "body_request to_bool (p_valid P) br (only_fields (body_fields br) d) = Some rq"
  then have "understood to_bool (p_valid P) br raw = Some rq"
    by (simp add: understood_def body_request_fields)
  then show "receive refuse to_bool E P x now br raw so = Some (serve E P x now rq so)" by (rule receive_understood)
next
  fix raw assume none: "understood to_bool (p_valid P) br raw = None"
  show "if read_body raw = Unsupported then receive refuse to_bool E P x now br raw so = None
       else \<exists>e so'. receive refuse to_bool E P x now br raw so = Some (Inl e, so') \<and> body_refused e \<and>
         so' = ((fst so)\<lparr>st_redis := st_redis (fst so')\<rparr>, snd so) \<and>
         (raw \<noteq> [] \<longrightarrow> read_body raw = Malformed \<longrightarrow> so' = so)"
  proof (cases "if raw = [] then Loaded PNone else read_body raw")
    case Malformed
    then have "receive refuse to_bool E P x now br raw so = Some (Inl (refuse raw), so)"
      and "read_body raw = Malformed" by (simp_all add: receive_def split: if_splits)
    then show ?thesis using body_reader.refusal [OF assms, of raw] by (auto simp: body_refused_def)
  next
    case Unsupported
    then show ?thesis by (auto simp: receive_def split: if_splits)
  next
    case (Loaded v)
    then have some: "read_body raw \<noteq> Unsupported" "raw = [] \<or> read_body raw \<noteq> Malformed"
      using read_body_empty by (auto split: if_splits)
    obtain r s' where deps: "dependencies E now br (fst so) = (r, s')" by fastforce
    have "(case v of PDict d \<Rightarrow> body_request to_bool (p_valid P) br d | _ \<Rightarrow> None) = None"
      using none Loaded by (auto simp: understood_def split: pyval.split if_splits)
    then have "receive refuse to_bool E P x now br raw so =
        Some (case r of Inl e \<Rightarrow> (Inl e, (s', snd so)) | Inr _ \<Rightarrow> (Inl (RequestValidationError ''body''), (s', snd so)))"
      using Loaded deps by (simp add: receive_def split: sum.split)
    then show ?thesis
      using dependencies_frame [OF deps] some by (auto simp: body_refused_def split: sum.split)
  qed
qed

text \<open>Somebody tries to register as verified and as an administrator.\<close>

theorem bodies_reach_handlers_witness:
  "\<exists>raw. json_dumps (PDict [(''email'', PStr ''ab@c.de''), (''password'', PStr ''Secret123''),
        (''is_verified'', PBool True), (''roles'', PList [PStr ''admin''])]) = Some raw \<and>
     (\<forall>so. receive json_refusal lax_bool ex_env ex_parties ex_drawn 0 (AtRegister None) raw so =
       Some (serve ex_env ex_parties ex_drawn 0 (RegisterUser None ''ab@c.de'' ''Secret123'') so))"
proof -
  let ?d = "[(''email'', PStr ''ab@c.de''), (''password'', PStr ''Secret123''),
      (''is_verified'', PBool True), (''roles'', PList [PStr ''admin''])]"
  have "json_value (PDict ?d)" by simp
  then obtain raw where raw: "json_dumps (PDict ?d) = Some raw" "json_loads raw = Loaded (PDict ?d)"
    using no_floats.json_dumps_defined(1) no_floats.json_round_trip by blast
  have "case json_dumps (PDict ?d) of Some t \<Rightarrow> brackets False t = 2 | None \<Rightarrow> False" by code_simp
  then have "brackets False raw = 2" unfolding raw(1) option.case .
  with raw(2) have "read_body raw = Loaded (PDict ?d)" by (simp add: read_body_def NESTING_def)
  moreover have "validate_new_password ''Secret123'' = Inr ''Secret123''" by code_simp
  then have "body_request lax_bool (p_valid ex_parties) (AtRegister None)
      (only_fields (body_fields (AtRegister None)) ?d) = Some (RegisterUser None ''ab@c.de'' ''Secret123'')"
    by (simp add: only_fields_def request_models required_str_def validate_user_create_def ex_parties_def)
  ultimately show ?thesis
    using bodies_reach_handlers [OF lax.body_reader_axioms, of "AtRegister None" ex_parties] raw(1) by blast
qed

end
