(* ===== verification/WebSocketHub.thy ===== *)
theory WebSocketHub
  imports Json AdminApi
begin

text \<open>
  Real-time messages: the table of live sockets \<open>app/services/connection_manager.py\<close>, the bridge
  between worker processes \<open>app/services/ws_pubsub.py\<close> and the socket endpoint
  \<open>app/api/websocket.py\<close>. The WebSocket server, the network behind it and Redis are the
  parameter \<open>socket_ops\<close>: it says, for one moment, which exception a call raises, and in which
  order Python iterates over a set. The frames handed to sockets and the messages published
  are kept as logs in the state. An operation of the table runs without interleaving.
\<close>

datatype ws_exn = WebSocketDisconnect | OtherError string

record 'w socket_ops =
  w_accept :: "'w \<Rightarrow> ws_exn option"
  w_send :: "'w \<Rightarrow> ws_exn option"
  w_order :: "'w set \<Rightarrow> 'w list"
  w_publish :: "string \<Rightarrow> string \<Rightarrow> bool"

locale socket_server =
  fixes W :: "'w socket_ops"
  assumes order_set: "finite A \<Longrightarrow> set (w_order W A) = A"
    and order_distinct: "finite A \<Longrightarrow> distinct (w_order W A)"

text \<open>A server that never fails, and iterates in ascending order.\<close>

definition ref_sockets :: "nat socket_ops" where
  "ref_sockets = \<lparr>w_accept = (\<lambda>_. None), w_send = (\<lambda>_. None),
     w_order = sorted_list_of_set, w_publish = (\<lambda>_ _. True)\<rparr>"

interpretation ref_sockets: socket_server ref_sockets
  by unfold_locales (simp_all add: ref_sockets_def)

subsection \<open>The connection manager\<close>

record 'w hub =
  h_connections :: "int \<Rightarrow> 'w set option"
  h_frames :: "('w \<times> pyval) list"
  h_published :: "(string \<times> string) list"

definition USER_CHANNEL_PREFIX :: string where "USER_CHANNEL_PREFIX = ''ws:user:''"

definition empty_hub :: "'w hub" where
  "empty_hub = \<lparr>h_connections = Map.empty, h_frames = [], h_published = []\<rparr>"

definition connect :: "'w socket_ops \<Rightarrow> int \<Rightarrow> 'w \<Rightarrow> 'w hub \<Rightarrow> (ws_exn + unit) \<times> 'w hub" where
  "connect W uid w h =
     (case w_accept W w of
        Some e \<Rightarrow> (Inl e, h)
      | None \<Rightarrow>
          (let sockets = (case h_connections h uid of None \<Rightarrow> {} | Some A \<Rightarrow> A) in
           (Inr (), h\<lparr>h_connections := (h_connections h)(uid \<mapsto> insert w sockets)\<rparr>)))"

definition disconnect :: "int \<Rightarrow> 'w \<Rightarrow> 'w hub \<Rightarrow> 'w hub" where
  "disconnect uid w h =
     (case h_connections h uid of
        None \<Rightarrow> h
      | Some A \<Rightarrow>
          h\<lparr>h_connections := (h_connections h)(uid := if A - {w} = {} then None else Some (A - {w}))\<rparr>)"

definition send_json :: "'w socket_ops \<Rightarrow> 'w \<Rightarrow> pyval \<Rightarrow> 'w hub \<Rightarrow> (ws_exn + unit) \<times> 'w hub" where
  "send_json W w message h =
     (case w_send W w of
        Some e \<Rightarrow> (Inl e, h)
      | None \<Rightarrow> (Inr (), h\<lparr>h_frames := h_frames h @ [(w, message)]\<rparr>))"

fun send_all :: "'w socket_ops \<Rightarrow> 'w list \<Rightarrow> pyval \<Rightarrow> 'w hub \<Rightarrow> (ws_exn + unit) \<times> 'w hub" where
  "send_all W [] message h = (Inr (), h)"
| "send_all W (w # ws) message h =
     (case send_json W w message h of
        (Inl e, h') \<Rightarrow> (Inl e, h')
      | (Inr _, h') \<Rightarrow> send_all W ws message h')"

definition send_local :: "'w socket_ops \<Rightarrow> int \<Rightarrow> pyval \<Rightarrow> 'w hub \<Rightarrow> (ws_exn + bool) \<times> 'w hub" where
  "send_local W uid message h =
     (case h_connections h uid of
        None \<Rightarrow> (Inr False, h)
      | Some A \<Rightarrow>
          if A = {} then (Inr False, h)
          else (case send_all W (w_order W A) message h of
                  (Inl e, h') \<Rightarrow> (Inl e, h')
                | (Inr _, h') \<Rightarrow> (Inr True, h')))"

definition is_connected_locally :: "int \<Rightarrow> 'w hub \<Rightarrow> bool" where
  "is_connected_locally uid h = (case h_connections h uid of None \<Rightarrow> False | Some A \<Rightarrow> A \<noteq> {})"

subsection \<open>The bridge\<close>

text \<open>
  A user id is an \<open>int\<close>, or a \<open>bool\<close> that passed \<open>isinstance(v, int)\<close>: as a dictionary key it
  is the number \<open>uid\<close>, formatted it is the text \<open>shown\<close>. Formatting more digits than CPython
  converts raises, like every other failure of the publication it is swallowed.
\<close>

definition shown_id :: "pyval \<Rightarrow> string option" where
  "shown_id v =
     (case v of
        PInt n \<Rightarrow> json_int n
      | PBool b \<Rightarrow> Some (if b then ''True'' else ''False'')
      | _ \<Rightarrow> None)"

definition publish_to_user ::
  "'w socket_ops \<Rightarrow> int \<Rightarrow> string option \<Rightarrow> pydict \<Rightarrow> 'w hub \<Rightarrow> (ws_exn + unit) \<times> 'w hub" where
  "publish_to_user W uid shown message h =
     (case send_local W uid (PDict message) h of
        (Inl e, h') \<Rightarrow> (Inl e, h')
      | (Inr True, h') \<Rightarrow> (Inr (), h')
      | (Inr False, h') \<Rightarrow>
          (case (shown, json_dumps (PDict message)) of
             (Some text, Some data) \<Rightarrow>
               if w_publish W (USER_CHANNEL_PREFIX @ text) data
               then (Inr (), h'\<lparr>h_published := h_published h' @ [(USER_CHANNEL_PREFIX @ text, data)]\<rparr>)
               else (Inr (), h')
           | _ \<Rightarrow> (Inr (), h')))"

text \<open>\<open>s.removeprefix(p)\<close>.\<close>

definition removeprefix :: "string \<Rightarrow> string \<Rightarrow> string" where
  "removeprefix s p = (if startswith s p then drop (length p) s else s)"

record pubsub_item =
  item_type :: string
  item_channel :: string
  item_data :: string

text \<open>One turn of the listener's inner loop (what is published was written by \<open>json_dumps\<close>, so no text
  with a value outside the model arrives); an exception ends that loop for five seconds.\<close>

definition listen_item :: "'w socket_ops \<Rightarrow> pubsub_item \<Rightarrow> 'w hub \<Rightarrow> (ws_exn + unit) \<times> 'w hub" where
  "listen_item W item h =
     (if item_type item \<noteq> ''pmessage'' then (Inr (), h)
      else (case py_int (removeprefix (item_channel item) USER_CHANNEL_PREFIX) of
              None \<Rightarrow> (Inr (), h)
            | Some uid \<Rightarrow>
                (case json_loads (item_data item) of
                   Malformed \<Rightarrow> (Inr (), h)
                 | Unsupported \<Rightarrow> (Inr (), h)
                 | Loaded message \<Rightarrow>
                     (case send_local W uid message h of
                        (Inl e, h') \<Rightarrow> (Inl e, h')
                      | (Inr _, h') \<Rightarrow> (Inr (), h')))))"

fun run_pubsub_listener ::
  "('w socket_ops \<times> pubsub_item) list \<Rightarrow> 'w hub \<Rightarrow> (ws_exn + unit) \<times> 'w hub" where
  "run_pubsub_listener [] h = (Inr (), h)"
| "run_pubsub_listener ((W, item) # items) h =
     (case listen_item W item h of
        (Inl e, h') \<Rightarrow> (Inl e, h')
      | (Inr _, h') \<Rightarrow> run_pubsub_listener items h')"

subsection \<open>The endpoint\<close>

text \<open>What \<open>receive_json\<close> ends with: a value, an exception of the decoder, the peer's close.\<close>

datatype ws_received = Received pyval | Undecodable string | PeerClosed

definition ws_error :: "string \<Rightarrow> pyval" where
  "ws_error detail = PDict [(''type'', PStr ''error''), (''detail'', PStr detail)]"

definition private_message :: "int \<Rightarrow> string \<Rightarrow> pydict" where
  "private_message sender body =
     [(''type'', PStr ''message''), (''from'', PInt sender), (''body'', PStr body)]"

definition bad_fields :: string where
  "bad_fields = [CHR 39] @ ''to'' @ [CHR 39] @ '' must be an integer user id and '' @ [CHR 39] @
     ''body'' @ [CHR 39] @ '' a string''"

text \<open>The message in a frame: \<open>None\<close> when it is not a dictionary of type \<open>"message"\<close>.\<close>

definition message_fields :: "pyval \<Rightarrow> (pyval \<times> pyval) option" where
  "message_fields data =
     (case data of
        PDict d \<Rightarrow> if dict_get d ''type'' = PStr ''message''
                  then Some (dict_get d ''to'', dict_get d ''body'') else None
      | _ \<Rightarrow> None)"

definition handle_frame ::
  "'w socket_ops \<Rightarrow> int \<Rightarrow> 'w \<Rightarrow> ws_received \<Rightarrow> 'w hub \<Rightarrow> (ws_exn + unit) \<times> 'w hub" where
  "handle_frame W uid w received h =
     (case received of
        PeerClosed \<Rightarrow> (Inl WebSocketDisconnect, h)
      | Undecodable what \<Rightarrow> (Inl (OtherError what), h)
      | Received data \<Rightarrow>
          (case message_fields data of
             None \<Rightarrow> send_json W w (ws_error ''Unsupported message type'') h
           | Some (recipient_id, body) \<Rightarrow>
               (case (as_int recipient_id, as_str body) of
                  (Some to, Some text) \<Rightarrow>
                    publish_to_user W to (shown_id recipient_id) (private_message uid text) h
                | _ \<Rightarrow> send_json W w (ws_error bad_fields) h)))"

text \<open>
  The loop over the frames of one socket; \<open>None\<close> while it waits for the next. It ends with the
  exception that broke it, and the \<open>finally\<close> clause takes the socket out of the table.
\<close>

fun websocket_loop ::
  "int \<Rightarrow> 'w \<Rightarrow> ('w socket_ops \<times> ws_received) list \<Rightarrow> 'w hub \<Rightarrow> ws_exn option \<times> 'w hub" where
  "websocket_loop uid w [] h = (None, h)"
| "websocket_loop uid w ((W, received) # rs) h =
     (case handle_frame W uid w received h of
        (Inl e, h') \<Rightarrow> (Some e, disconnect uid w h')
      | (Inr _, h') \<Rightarrow> websocket_loop uid w rs h')"

text \<open>The exception that leaves the endpoint, if it has ended with one: a disconnect is caught.\<close>

definition websocket_endpoint ::
  "'w socket_ops \<Rightarrow> int \<Rightarrow> 'w \<Rightarrow> ('w socket_ops \<times> ws_received) list \<Rightarrow> 'w hub \<Rightarrow>
     ws_exn option \<times> 'w hub" where
  "websocket_endpoint W uid w rs h =
     (case connect W uid w h of
        (Inl e, h') \<Rightarrow> (Some e, h')
      | (Inr _, h') \<Rightarrow>
          (case websocket_loop uid w rs h' of
             (Some WebSocketDisconnect, h'') \<Rightarrow> (None, h'')
           | (res, h'') \<Rightarrow> (res, h'')))"

end
