(* ===== verification/Realtime.thy ===== *)
theory Realtime
  imports WebSocketHub
begin

text \<open>
  The WebSocket side of the whole deployment: several worker processes, each with its own table
  of sockets, and Redis between them. The steps are those of the code, in any interleaving: a
  socket opens, a frame of a socket is handled, an administrator's grant is announced, the
  listener of a worker takes up something that was published. Records of what happened are
  kept beside the program's own state: the user each socket was opened for, and what sessions
  and administrators asked to send (sender, addressee and text; addressee and role).
\<close>

record 'w worker =
  k_hub :: "'w hub"
  k_sessions :: "'w \<Rightarrow> int option"
  k_opened :: "'w \<Rightarrow> int option"

record 'w cluster =
  c_worker :: "nat \<Rightarrow> 'w worker"
  c_said :: "(int \<times> int \<times> string) set"
  c_announced :: "(int \<times> string) set"

datatype 'w ws_event =
    Opens int 'w
  | Frame 'w ws_received
  | Announces int string
  | Hears pubsub_item

definition empty_worker :: "'w worker" where
  "empty_worker = \<lparr>k_hub = empty_hub, k_sessions = Map.empty, k_opened = Map.empty\<rparr>"

definition empty_cluster :: "'w cluster" where
  "empty_cluster = \<lparr>c_worker = (\<lambda>_. empty_worker), c_said = {}, c_announced = {}\<rparr>"

text \<open>What a worker does. A session whose frame handling raises is over: its \<open>finally\<close> clause runs.\<close>

fun worker_step :: "'w socket_ops \<Rightarrow> 'w ws_event \<Rightarrow> 'w worker \<Rightarrow> 'w worker" where
  "worker_step W (Opens uid w) k =
     (case connect W uid w (k_hub k) of
        (Inl e, h) \<Rightarrow> k\<lparr>k_hub := h\<rparr>
      | (Inr _, h) \<Rightarrow> k\<lparr>k_hub := h, k_sessions := (k_sessions k)(w \<mapsto> uid),
                     k_opened := (k_opened k)(w \<mapsto> uid)\<rparr>)"
| "worker_step W (Frame w received) k =
     (case k_sessions k w of
        None \<Rightarrow> k
      | Some uid \<Rightarrow>
          (case handle_frame W uid w received (k_hub k) of
             (Inl e, h) \<Rightarrow> k\<lparr>k_hub := disconnect uid w h, k_sessions := (k_sessions k)(w := None)\<rparr>
           | (Inr _, h) \<Rightarrow> k\<lparr>k_hub := h\<rparr>))"
| "worker_step W (Announces uid role) k =
     k\<lparr>k_hub := snd (publish_to_user W uid (json_int uid) (role_granted role) (k_hub k))\<rparr>"
| "worker_step W (Hears item) k = k\<lparr>k_hub := snd (listen_item W item (k_hub k))\<rparr>"

text \<open>The private message a frame asks for: sender, addressee, text.\<close>

fun said_by :: "'w ws_event \<Rightarrow> 'w worker \<Rightarrow> (int \<times> int \<times> string) set" where
  "said_by (Frame w (Received data)) k =
     (case (k_sessions k w, message_fields data) of
        (Some uid, Some (recipient_id, body)) \<Rightarrow>
          (case (as_int recipient_id, as_str body) of
             (Some to, Some text) \<Rightarrow> {(uid, to, text)} | _ \<Rightarrow> {})
      | _ \<Rightarrow> {})"
| "said_by _ k = {}"

fun announced_by :: "'w ws_event \<Rightarrow> (int \<times> string) set" where
  "announced_by (Announces uid role) = {(uid, role)}"
| "announced_by _ = {}"

definition cluster_step ::
  "'w socket_ops \<Rightarrow> nat \<Rightarrow> 'w ws_event \<Rightarrow> 'w cluster \<Rightarrow> 'w cluster" where
  "cluster_step W i ev c =
     c\<lparr>c_worker := (c_worker c)(i := worker_step W ev (c_worker c i)),
       c_said := c_said c \<union> said_by ev (c_worker c i),
       c_announced := c_announced c \<union> announced_by ev\<rparr>"

text \<open>A socket object is new when it opens, and Redis hands on only what some worker published.\<close>

fun ws_enabled :: "'w ws_event \<Rightarrow> nat \<Rightarrow> 'w cluster \<Rightarrow> bool" where
  "ws_enabled (Opens uid w) i c = (k_opened (c_worker c i) w = None)"
| "ws_enabled (Hears item) i c =
     (\<exists>j. (item_channel item, item_data item) \<in> set (h_published (k_hub (c_worker c j))))"
| "ws_enabled _ i c = True"

inductive ws_reachable :: "'w cluster \<Rightarrow> bool" where
  start: "ws_reachable empty_cluster"
| step: "ws_reachable c \<Longrightarrow> socket_server W \<Longrightarrow> ws_enabled ev i c \<Longrightarrow> ws_reachable (cluster_step W i ev c)"

subsection \<open>Sending\<close>

lemma send_all_prefix:
  assumes "send_all W ws m h = (res, h')"
  shows "h_connections h' = h_connections h \<and> h_published h' = h_published h \<and>
    (\<exists>n. h_frames h' = h_frames h @ map (\<lambda>w. (w, m)) (take n ws) \<and> (res = Inr () \<longrightarrow> length ws \<le> n))"
  using assms
proof (induction ws arbitrary: h)
  case (Cons w ws)
  show ?case
  proof (cases "w_send W w")
    case None
    let ?h = "h\<lparr>h_frames := h_frames h @ [(w, m)]\<rparr>"
    have "send_all W ws m ?h = (res, h')" using Cons.prems None by (simp add: send_json_def)
    then obtain n where "h_connections h' = h_connections ?h" "h_published h' = h_published ?h"
      "h_frames h' = h_frames ?h @ map (\<lambda>w. (w, m)) (take n ws)" "res = Inr () \<longrightarrow> length ws \<le> n"
      using Cons.IH by blast
    then show ?thesis by (auto intro!: exI [of _ "Suc n"])
  next
    case (Some e)
    then show ?thesis using Cons.prems by (auto simp: send_json_def intro!: exI [of _ 0])
  qed
qed auto

lemma send_all_sound:
  assumes "\<And>w. w \<in> set ws \<Longrightarrow> w_send W w = None"
  shows "send_all W ws m h = (Inr (), h\<lparr>h_frames := h_frames h @ map (\<lambda>w. (w, m)) ws\<rparr>)"
  using assms by (induction ws arbitrary: h) (simp_all add: send_json_def)

text \<open>What a send can change: frames to sockets of that user are added.\<close>

definition only_frames :: "('w \<Rightarrow> pyval \<Rightarrow> bool) \<Rightarrow> 'w hub \<Rightarrow> 'w hub \<Rightarrow> bool" where
  "only_frames P h h' \<longleftrightarrow> h_connections h' = h_connections h \<and>
     (\<forall>(w, m) \<in> set (h_frames h'). (w, m) \<in> set (h_frames h) \<or> P w m)"

context socket_server begin

lemma send_local_frames:
  assumes "send_local W uid m h = (res, h')" and "\<forall>A. h_connections h uid = Some A \<longrightarrow> finite A"
  shows "only_frames (\<lambda>w m'. m' = m \<and> (\<exists>A. h_connections h uid = Some A \<and> w \<in> A)) h h'"
    "h_published h' = h_published h"
proof -
  have "only_frames (\<lambda>w m'. m' = m \<and> (\<exists>A. h_connections h uid = Some A \<and> w \<in> A)) h h' \<and>
    h_published h' = h_published h"
  proof (cases "h_connections h uid")
    case (Some A)
    then have A: "set (w_order W A) = A" using assms(2) order_set by blast
    obtain n where n: "h_connections h' = h_connections h" "h_published h' = h_published h"
      "h_frames h' = h_frames h @ map (\<lambda>w. (w, m)) (take n (w_order W A))"
    proof (cases "A = {}")
      case True
      then show thesis using assms(1) Some that [of 0] by (simp add: send_local_def)
    next
      case False
      obtain res' h1 where s: "send_all W (w_order W A) m h = (res', h1)" by fastforce
      moreover have "h1 = h'"
        using assms(1) Some False s by (cases res') (simp_all add: send_local_def)
      ultimately show thesis using send_all_prefix [OF s] that by blast
    qed
    have "w \<in> A" if "w \<in> set (take n (w_order W A))" for w
      using that A in_set_takeD by fast
    then show ?thesis using Some n by (auto simp: only_frames_def)
  qed (use assms(1) in \<open>simp add: send_local_def only_frames_def\<close>)
  then show "only_frames (\<lambda>w m'. m' = m \<and> (\<exists>A. h_connections h uid = Some A \<and> w \<in> A)) h h'"
    "h_published h' = h_published h" by simp_all
qed

lemma publish_frames:
  assumes "publish_to_user W uid shown d h = (res, h')" and "\<forall>A. h_connections h uid = Some A \<longrightarrow> finite A"
  shows "only_frames (\<lambda>w m. m = PDict d \<and> (\<exists>A. h_connections h uid = Some A \<and> w \<in> A)) h h'"
    "set (h_published h') \<subseteq> set (h_published h) \<union>
       {(USER_CHANNEL_PREFIX @ text, data) |text data. shown = Some text \<and> json_dumps (PDict d) = Some data}"
proof -
  obtain res1 h1 where 1: "send_local W uid (PDict d) h = (res1, h1)" by fastforce
  have "h_frames h' = h_frames h1 \<and> h_connections h' = h_connections h1 \<and>
      set (h_published h') \<subseteq> set (h_published h1) \<union>
       {(USER_CHANNEL_PREFIX @ text, data) |text data. shown = Some text \<and> json_dumps (PDict d) = Some data}"
    using assms(1) 1 by (auto simp: publish_to_user_def simp del: json_write.simps
        split: sum.splits bool.splits option.splits if_splits)
  then show "only_frames (\<lambda>w m. m = PDict d \<and> (\<exists>A. h_connections h uid = Some A \<and> w \<in> A)) h h'"
    "set (h_published h') \<subseteq> set (h_published h) \<union>
       {(USER_CHANNEL_PREFIX @ text, data) |text data. shown = Some text \<and> json_dumps (PDict d) = Some data}"
    using send_local_frames [OF 1 assms(2)] by (auto simp: only_frames_def)
qed

end

subsection \<open>The table of sockets\<close>

definition socket_table :: "('w \<Rightarrow> int option) \<Rightarrow> int \<Rightarrow> 'w set option" where
  "socket_table sessions uid =
     (if \<exists>w. sessions w = Some uid then Some {w. sessions w = Some uid} else None)"

definition table_ok :: "'w worker \<Rightarrow> bool" where
  "table_ok k \<longleftrightarrow> h_connections (k_hub k) = socket_table (k_sessions k) \<and>
     finite (dom (k_sessions k)) \<and> k_sessions k \<subseteq>\<^sub>m k_opened k"

lemma socket_table_Some: "socket_table f uid = Some A \<longleftrightarrow> A \<noteq> {} \<and> A = {w. f w = Some uid}"
  by (auto simp: socket_table_def)

lemma socket_table_open:
  assumes "f w = None"
  shows "(socket_table f)(uid \<mapsto> insert w (case socket_table f uid of None \<Rightarrow> {} | Some A \<Rightarrow> A)) =
    socket_table (f(w \<mapsto> uid))"
proof
  fix u
  show "((socket_table f)(uid \<mapsto> insert w (case socket_table f uid of None \<Rightarrow> {} | Some A \<Rightarrow> A))) u =
    socket_table (f(w \<mapsto> uid)) u"
  proof (cases "u = uid")
    case True
    have "{v. (f(w \<mapsto> uid)) v = Some uid} = insert w {v. f v = Some uid}" by auto
    then show ?thesis using True by (auto simp: socket_table_def)
  next
    case False
    have "(f(w \<mapsto> uid)) v = Some u \<longleftrightarrow> f v = Some u" for v using assms False by auto
    then show ?thesis using False by (simp add: socket_table_def)
  qed
qed

lemma socket_table_close:
  assumes "f w = Some uid" and that: "socket_table f uid = Some A"
  shows "(socket_table f)(uid := if A - {w} = {} then None else Some (A - {w})) = socket_table (f(w := None))"
proof
  fix u
  have A: "A = {v. f v = Some uid}" using that by (simp add: socket_table_Some)
  show "((socket_table f)(uid := if A - {w} = {} then None else Some (A - {w}))) u =
    socket_table (f(w := None)) u"
  proof (cases "u = uid")
    case True
    have eq: "{v. (f(w := None)) v = Some uid} = A - {w}" using A by auto
    then have "(\<exists>v. (f(w := None)) v = Some uid) \<longleftrightarrow> A - {w} \<noteq> {}" by blast
    then show ?thesis using True eq by (simp only: socket_table_def fun_upd_same split: if_split) simp
  next
    case False
    have "(f(w := None)) v = Some u \<longleftrightarrow> f v = Some u" for v using assms False by auto
    then show ?thesis using False by (simp add: socket_table_def)
  qed
qed

lemma disconnect_table:
  assumes "h_connections h = socket_table f" and "f w = Some uid"
  shows "disconnect uid w h = h\<lparr>h_connections := socket_table (f(w := None))\<rparr>"
proof -
  have A: "socket_table f uid = Some {v. f v = Some uid}"
    using assms(2) by (auto simp: socket_table_def)
  then show ?thesis
    using socket_table_close [OF assms(2) A] assms(1) A by (simp add: disconnect_def)
qed

lemma table_finite: "table_ok k \<Longrightarrow> \<forall>A. h_connections (k_hub k) uid = Some A \<longrightarrow> finite A"
  by (auto simp: table_ok_def socket_table_Some intro: finite_subset [of _ "dom (k_sessions k)"])

lemma table_opened:
  assumes "table_ok k" and "h_connections (k_hub k) uid = Some A" and "w \<in> A"
  shows "k_opened k w = Some uid"
  using assms by (auto simp: table_ok_def socket_table_Some map_le_def) (metis domI)

subsection \<open>What one step may send\<close>

text \<open>The frames an event may produce: an error to its own socket, or the message that was asked
  for, to sockets opened for its addressee.\<close>

definition error_frame :: "pyval \<Rightarrow> bool" where
  "error_frame m \<longleftrightarrow> (\<exists>detail. m = ws_error detail)"

definition may_send :: "(int \<times> int \<times> string) set \<Rightarrow> (int \<times> string) set \<Rightarrow> int \<Rightarrow> pydict \<Rightarrow> bool" where
  "may_send said announced to d \<longleftrightarrow>
     (\<exists>sender text. (sender, to, text) \<in> said \<and> d = private_message sender text) \<or>
     (\<exists>role. (to, role) \<in> announced \<and> d = role_granted role)"

definition frame_allowed ::
  "(int \<times> int \<times> string) set \<Rightarrow> (int \<times> string) set \<Rightarrow> 'w worker \<Rightarrow> 'w \<Rightarrow> pyval \<Rightarrow> bool" where
  "frame_allowed said announced k w m \<longleftrightarrow>
     error_frame m \<or> (\<exists>to d. m = PDict d \<and> k_opened k w = Some to \<and> may_send said announced to d)"

text \<open>What is on Redis: read back, it is a message to the user its channel names.\<close>

definition published_allowed ::
  "(int \<times> int \<times> string) set \<Rightarrow> (int \<times> string) set \<Rightarrow> string \<times> string \<Rightarrow> bool" where
  "published_allowed said announced p \<longleftrightarrow>
     (\<forall>to. py_int (removeprefix (fst p) USER_CHANNEL_PREFIX) = Some to \<longrightarrow>
        (\<exists>d. json_loads (snd p) = Loaded (PDict d) \<and> may_send said announced to d))"

lemma removeprefix_append [simp]: "removeprefix (p @ s) p = s"
  by (simp add: removeprefix_def)

lemma shown_id_read:
  assumes "shown_id v = Some text" and "py_int text = Some n"
  shows "as_int v = Some n"
proof (cases v)
  case (PBool b)
  have "py_int ''True'' = None" "py_int ''False'' = None" by code_simp+
  then show ?thesis using assms PBool by (cases b) (simp_all add: shown_id_def)
next
  case (PInt m)
  then show ?thesis
    using assms by (auto simp: shown_id_def json_int_def py_int_py_str split: if_splits)
qed (use assms in \<open>simp_all add: shown_id_def\<close>)

lemma may_send_readable:
  assumes "may_send said announced to d" and "json_dumps (PDict d) = Some data"
  shows "json_loads data = Loaded (PDict d)"
proof -
  have "json_value (PDict d)"
    using assms by (auto simp: may_send_def private_message_def role_granted_def json_int_def
        split: option.splits if_splits)
  then show ?thesis using no_floats.json_round_trip assms(2) by blast
qed

subsection \<open>The invariant of a deployment\<close>

definition worker_ok :: "(int \<times> int \<times> string) set \<Rightarrow> (int \<times> string) set \<Rightarrow> 'w worker \<Rightarrow> bool" where
  "worker_ok said announced k \<longleftrightarrow> table_ok k \<and>
     (\<forall>(w, m) \<in> set (h_frames (k_hub k)). frame_allowed said announced k w m) \<and>
     (\<forall>p \<in> set (h_published (k_hub k)). published_allowed said announced p)"

lemma may_send_mono: "may_send S A to d \<Longrightarrow> S \<subseteq> S' \<Longrightarrow> A \<subseteq> A' \<Longrightarrow> may_send S' A' to d"
  unfolding may_send_def by blast

lemma worker_ok_mono: "worker_ok S A k \<Longrightarrow> S \<subseteq> S' \<Longrightarrow> A \<subseteq> A' \<Longrightarrow> worker_ok S' A' k"
  unfolding worker_ok_def frame_allowed_def published_allowed_def
  by (fast elim: may_send_mono)

lemma worker_ok_hub:
  assumes "worker_ok S A k" and "only_frames P (k_hub k) h"
    and "\<And>w m. P w m \<Longrightarrow> frame_allowed S A k w m"
    and "\<And>p. p \<in> set (h_published h) \<Longrightarrow> p \<in> set (h_published (k_hub k)) \<or> published_allowed S A p"
  shows "worker_ok S A (k\<lparr>k_hub := h\<rparr>)"
  unfolding worker_ok_def
proof (intro conjI ballI)
  show "table_ok (k\<lparr>k_hub := h\<rparr>)"
    using assms(1,2) by (simp add: worker_ok_def table_ok_def only_frames_def)
  have same: "frame_allowed S A (k\<lparr>k_hub := h\<rparr>) = frame_allowed S A k"
    by (intro ext) (simp add: frame_allowed_def)
  fix x assume x: "x \<in> set (h_frames (k_hub (k\<lparr>k_hub := h\<rparr>)))"
  obtain w m where wm: "x = (w, m)" by fastforce
  then have "(w, m) \<in> set (h_frames (k_hub k)) \<or> P w m"
    using assms(2) x by (auto simp: only_frames_def)
  then show "case x of (w, m) \<Rightarrow> frame_allowed S A (k\<lparr>k_hub := h\<rparr>) w m"
    using assms(1,3) wm by (auto simp: worker_ok_def same)
next
  fix p assume "p \<in> set (h_published (k_hub (k\<lparr>k_hub := h\<rparr>)))"
  then show "published_allowed S A p" using assms(1,4) unfolding worker_ok_def by simp blast
qed

context socket_server begin

lemma send_worker_ok:
  assumes "worker_ok S A k" and "may_send S A uid d"
    and "send_local W uid (PDict d) (k_hub k) = (res, h)"
  shows "worker_ok S A (k\<lparr>k_hub := h\<rparr>)"
proof -
  have t: "table_ok k" using assms(1) by (simp add: worker_ok_def)
  note sent = send_local_frames [OF assms(3) table_finite [OF t]]
  have "frame_allowed S A k w m"
    if "m = PDict d \<and> (\<exists>B. h_connections (k_hub k) uid = Some B \<and> w \<in> B)" for w m
    using that table_opened [OF t] assms(2) by (auto simp: frame_allowed_def)
  then show ?thesis using worker_ok_hub [OF assms(1) sent(1)] sent(2) by simp
qed

lemma publish_worker_ok:
  assumes "worker_ok S A k" and "may_send S A uid d"
    and "\<And>text n. shown = Some text \<Longrightarrow> py_int text = Some n \<Longrightarrow> n = uid"
    and "publish_to_user W uid shown d (k_hub k) = (res, h)"
  shows "worker_ok S A (k\<lparr>k_hub := h\<rparr>)"
proof -
  have t: "table_ok k" using assms(1) by (simp add: worker_ok_def)
  note sent = publish_frames [OF assms(4) table_finite [OF t]]
  have "frame_allowed S A k w m"
    if "m = PDict d \<and> (\<exists>B. h_connections (k_hub k) uid = Some B \<and> w \<in> B)" for w m
    using that table_opened [OF t] assms(2) by (auto simp: frame_allowed_def)
  moreover have "p \<in> set (h_published (k_hub k)) \<or> published_allowed S A p" if p: "p \<in> set (h_published h)" for p
  proof (cases "p \<in> set (h_published (k_hub k))")
    case False
    then obtain str data where "p = (USER_CHANNEL_PREFIX @ str, data)" "shown = Some str"
      "json_dumps (PDict d) = Some data"
      using p sent(2) by blast
    then have "published_allowed S A p"
      using assms(2,3) may_send_readable [OF assms(2)] by (fastforce simp: published_allowed_def)
    then show ?thesis ..
  qed simp
  ultimately show ?thesis using worker_ok_hub [OF assms(1) sent(1)] by blast
qed

lemma error_worker_ok:
  assumes "worker_ok S A k" and "send_json W w (ws_error detail) (k_hub k) = (res, h)"
  shows "worker_ok S A (k\<lparr>k_hub := h\<rparr>)"
proof (rule worker_ok_hub [OF assms(1)])
  show "only_frames (\<lambda>w m. error_frame m) (k_hub k) h"
    using assms(2) by (auto simp: send_json_def only_frames_def error_frame_def split: option.splits)
  show "p \<in> set (h_published (k_hub k)) \<or> published_allowed S A p" if "p \<in> set (h_published h)" for p
    using that assms(2) by (auto simp: send_json_def split: option.splits)
qed (simp add: frame_allowed_def)

lemma frame_worker_ok:
  assumes "worker_ok S A k" and "k_sessions k w = Some uid"
    and "handle_frame W uid w received (k_hub k) = (res, h)"
  shows "worker_ok (S \<union> said_by (Frame w received) k) A (k\<lparr>k_hub := h\<rparr>)"
proof -
  let ?S = "S \<union> said_by (Frame w received) k"
  have ok: "worker_ok ?S A k" using worker_ok_mono assms(1) by blast
  show ?thesis
  proof (cases received)
    case (Received data)
    show ?thesis
    proof (cases "message_fields data")
      case None
      then show ?thesis using error_worker_ok [OF ok] assms(3) Received by (simp add: handle_frame_def)
    next
      case (Some rb)
      obtain r b where rb: "rb = (r, b)" by fastforce
      show ?thesis
      proof (cases "as_int r \<noteq> None \<and> as_str b \<noteq> None")
        case True
        then obtain to str where tt: "as_int r = Some to" "as_str b = Some str" by auto
        have "(uid, to, str) \<in> ?S" using Received Some rb tt assms(2) by simp
        then have "may_send ?S A to (private_message uid str)" unfolding may_send_def by blast
        moreover have "n = to" if "shown_id r = Some t" "py_int t = Some n" for t n
          using shown_id_read [OF that] tt(1) by simp
        moreover have "publish_to_user W to (shown_id r) (private_message uid str) (k_hub k) = (res, h)"
          using assms(3) Received Some rb tt by (simp add: handle_frame_def)
        ultimately show ?thesis using publish_worker_ok [OF ok] by blast
      next
        case False
        then have "send_json W w (ws_error bad_fields) (k_hub k) = (res, h)"
          using assms(3) Received Some rb by (auto simp: handle_frame_def split: option.splits)
        then show ?thesis using error_worker_ok [OF ok] by blast
      qed
    qed
  qed (use ok assms(3) in \<open>auto simp: handle_frame_def\<close>)
qed

lemma heard_worker_ok:
  assumes "worker_ok S A k" and "published_allowed S A (item_channel item, item_data item)"
    and "listen_item W item (k_hub k) = (res, h)"
  shows "worker_ok S A (k\<lparr>k_hub := h\<rparr>)"
proof (cases "item_type item \<noteq> ''pmessage'' \<or>
    py_int (removeprefix (item_channel item) USER_CHANNEL_PREFIX) = None")
  case True
  then have "h = k_hub k" using assms(3) by (auto simp: listen_item_def split: if_splits)
  then show ?thesis using assms(1) by simp
next
  case False
  then obtain uid where uid: "py_int (removeprefix (item_channel item) USER_CHANNEL_PREFIX) = Some uid"
    "item_type item = ''pmessage''" by auto
  then obtain d where d: "json_loads (item_data item) = Loaded (PDict d)" "may_send S A uid d"
    using assms(2) by (auto simp: published_allowed_def)
  then obtain res' where "send_local W uid (PDict d) (k_hub k) = (res', h)"
    using assms(3) uid by (auto simp: listen_item_def split: prod.splits sum.splits)
  then show ?thesis using send_worker_ok assms(1) d(2) by blast
qed

end

lemma close_worker_ok:
  assumes "worker_ok S A k" and "k_sessions k w = Some uid"
  shows "worker_ok S A (k\<lparr>k_hub := disconnect uid w (k_hub k), k_sessions := (k_sessions k)(w := None)\<rparr>)"
proof -
  have "disconnect uid w (k_hub k) = (k_hub k)\<lparr>h_connections := socket_table ((k_sessions k)(w := None))\<rparr>"
    using assms by (intro disconnect_table) (simp_all add: worker_ok_def table_ok_def)
  moreover have "(k_sessions k)(w := None) \<subseteq>\<^sub>m k_opened k"
    using assms(1) by (auto simp: worker_ok_def table_ok_def map_le_def)
  ultimately show ?thesis
    using assms(1) by (auto simp: worker_ok_def table_ok_def frame_allowed_def)
qed

lemma open_worker_ok:
  assumes "worker_ok S A k" and "k_opened k w = None" and "w_accept W w = None"
  shows "worker_ok S A (worker_step W (Opens uid w) k)"
proof -
  have t: "h_connections (k_hub k) = socket_table (k_sessions k)" "finite (dom (k_sessions k))"
    "k_sessions k \<subseteq>\<^sub>m k_opened k"
    using assms(1) by (simp_all add: worker_ok_def table_ok_def)
  have new: "k_sessions k w = None" using t(3) assms(2) by (metis domI map_le_def option.exhaust)
  have frames: "frame_allowed S A (k\<lparr>k_hub := h, k_sessions := f, k_opened := (k_opened k)(w \<mapsto> uid)\<rparr>) v m"
    if "frame_allowed S A k v m" for h f v m
    using that assms(2) by (auto simp: frame_allowed_def)
  have "(k_sessions k)(w \<mapsto> uid) \<subseteq>\<^sub>m (k_opened k)(w \<mapsto> uid)"
    using t(3) by (auto simp: map_le_def)
  then show ?thesis
    using assms(1,3) socket_table_open [of "k_sessions k" w, OF new] t frames
    by (auto simp: worker_ok_def table_ok_def connect_def Let_def)
qed

context socket_server begin

lemma worker_step_ok:
  assumes "worker_ok S A k" and "case ev of Opens uid w \<Rightarrow> k_opened k w = None
      | Hears item \<Rightarrow> published_allowed S A (item_channel item, item_data item) | _ \<Rightarrow> True"
  shows "worker_ok (S \<union> said_by ev k) (A \<union> announced_by ev) (worker_step W ev k)"
proof (cases ev)
  case (Opens uid w)
  show ?thesis
  proof (cases "w_accept W w")
    case None
    then show ?thesis using open_worker_ok [OF assms(1)] assms(2) Opens by simp
  next
    case (Some e)
    then show ?thesis using assms(1) Opens by (simp add: connect_def)
  qed
next
  case (Frame w received)
  show ?thesis
  proof (cases "k_sessions k w")
    case None
    then show ?thesis using worker_ok_mono [OF assms(1)] Frame by simp
  next
    case (Some uid)
    obtain res h where h: "handle_frame W uid w received (k_hub k) = (res, h)" by fastforce
    have ok: "worker_ok (S \<union> said_by ev k) A (k\<lparr>k_hub := h\<rparr>)"
      using frame_worker_ok [OF assms(1) Some h] Frame by simp
    show ?thesis
      using ok close_worker_ok [OF ok, of w uid] Some h Frame by (cases res) simp_all
  qed
next
  case (Announces uid role)
  obtain res h where h: "publish_to_user W uid (json_int uid) (role_granted role) (k_hub k) = (res, h)"
    by fastforce
  have "may_send S (A \<union> {(uid, role)}) uid (role_granted role)" unfolding may_send_def by blast
  moreover have "n = uid" if "json_int uid = Some t" "py_int t = Some n" for t n
    using shown_id_read [of "PInt uid"] that by (simp add: shown_id_def)
  moreover have "worker_ok S (A \<union> {(uid, role)}) k" using worker_ok_mono [OF assms(1)] by blast
  ultimately show ?thesis using publish_worker_ok [OF _ _ _ h] Announces h by simp
next
  case (Hears item)
  obtain res h where h: "listen_item W item (k_hub k) = (res, h)" by fastforce
  then show ?thesis using heard_worker_ok [OF assms(1) _ h] assms(2) Hears by simp
qed

lemma worker_step_opened: "k_opened k w = Some u \<Longrightarrow>
  (case ev of Opens uid v \<Rightarrow> k_opened k v = None | _ \<Rightarrow> True) \<Longrightarrow> k_opened (worker_step W ev k) w = Some u"
  by (cases ev) (auto split: prod.splits sum.splits option.splits)

end

definition cluster_ok :: "'w cluster \<Rightarrow> bool" where
  "cluster_ok c \<longleftrightarrow> (\<forall>i. worker_ok (c_said c) (c_announced c) (c_worker c i)) \<and>
     (\<forall>(sender, to, body) \<in> c_said c. \<exists>j w. k_opened (c_worker c j) w = Some sender)"

lemma said_by_sender: "(sender, to, body) \<in> said_by ev k \<Longrightarrow> \<exists>w. k_sessions k w = Some sender"
  by (cases "(ev, k)" rule: said_by.cases) (auto split: option.splits prod.splits)

lemma ws_reachable_ok: "ws_reachable c \<Longrightarrow> cluster_ok c"
proof (induction rule: ws_reachable.induct)
  case start
  show ?case
    by (simp add: cluster_ok_def empty_cluster_def worker_ok_def empty_worker_def empty_hub_def
        table_ok_def socket_table_def fun_eq_iff)
next
  case (step c W ev i)
  let ?k = "c_worker c i" and ?c = "cluster_step W i ev c"
  have ok: "worker_ok (c_said c) (c_announced c) (c_worker c j)" for j
    using step.IH by (simp add: cluster_ok_def)
  have new: "case ev of Opens uid w \<Rightarrow> k_opened ?k w = None
      | Hears item \<Rightarrow> published_allowed (c_said c) (c_announced c) (item_channel item, item_data item) | _ \<Rightarrow> True"
    using step.hyps(3) ok by (cases ev) (auto simp: worker_ok_def)
  have "worker_ok (c_said ?c) (c_announced ?c) (c_worker ?c j)" for j
    using socket_server.worker_step_ok [OF step.hyps(2) ok [of i] new] worker_ok_mono [OF ok [of j]]
    by (simp add: cluster_step_def)
  moreover have "\<exists>j w. k_opened (c_worker ?c j) w = Some sender" if m: "(sender, to, body) \<in> c_said ?c"
    for sender to body
  proof -
    have "\<exists>j w. k_opened (c_worker c j) w = Some sender"
    proof (cases "(sender, to, body) \<in> c_said c")
      case True
      then show ?thesis using step.IH by (auto simp: cluster_ok_def)
    next
      case False
      then obtain w where "k_sessions ?k w = Some sender"
        using m said_by_sender by (fastforce simp: cluster_step_def)
      then show ?thesis using ok [of i] by (auto simp: worker_ok_def table_ok_def map_le_def) (metis domI)
    qed
    then obtain j w where jw: "k_opened (c_worker c j) w = Some sender" by blast
    have "case ev of Opens uid v \<Rightarrow> k_opened ?k v = None | _ \<Rightarrow> True" using new by (cases ev) auto
    then have "k_opened (worker_step W ev ?k) w = Some sender" if "j = i"
      using socket_server.worker_step_opened [OF step.hyps(2)] jw that by blast
    then have "k_opened (c_worker ?c j) w = Some sender" using jw by (simp add: cluster_step_def)
    then show ?thesis by blast
  qed
  ultimately show ?case by (auto simp: cluster_ok_def)
qed

lemma reachable_table:
  "ws_reachable c \<Longrightarrow> table_ok (c_worker c i)"
  using ws_reachable_ok by (auto simp: cluster_ok_def worker_ok_def)

subsection \<open>Properties\<close>

text \<open>C25. The table of live sockets is exact. In every state the deployment can reach, whatever the
  interleaving of connections, frames, failures and messages from other workers, a worker's table
  holds for each user exactly the set of sockets whose sessions are open there, never an empty set
  and never a socket of a session that ended, and \<open>is_connected_locally\<close> says whether there is
  one.\<close>

theorem hub_mirrors_sessions:
  assumes "ws_reachable c"
  shows "(\<forall>uid. h_connections (k_hub (c_worker c i)) uid =
      (if {w. k_sessions (c_worker c i) w = Some uid} = {} then None
       else Some {w. k_sessions (c_worker c i) w = Some uid})) \<and>
    (\<forall>uid. is_connected_locally uid (k_hub (c_worker c i)) \<longleftrightarrow>
      uid \<in> ran (k_sessions (c_worker c i))) \<and>
    finite (dom (k_sessions (c_worker c i)))"
proof -
  have t: "h_connections (k_hub (c_worker c i)) = socket_table (k_sessions (c_worker c i))"
    "finite (dom (k_sessions (c_worker c i)))"
    using reachable_table [OF assms, of i] by (simp_all add: table_ok_def)
  then show ?thesis
    by (auto simp: is_connected_locally_def socket_table_def ran_def)
qed

text \<open>C26. Private messages are authentic. A private message that any socket of any worker was ever
  handed names as its sender a user for whom a session was opened, that session asked to send
  exactly this text to exactly one addressee, and the socket that got it was opened for that
  addressee: no frame, no other worker and no interleaving makes a user receive somebody else's
  message or a message with a forged sender.\<close>

theorem messages_are_authentic:
  assumes "ws_reachable c"
    and "(w, PDict (private_message sender body)) \<in> set (h_frames (k_hub (c_worker c i)))"
  shows "\<exists>to. k_opened (c_worker c i) w = Some to \<and> (sender, to, body) \<in> c_said c \<and>
    (\<exists>j v. k_opened (c_worker c j) v = Some sender)"
proof -
  have ok: "cluster_ok c" by (rule ws_reachable_ok [OF assms(1)])
  then have "frame_allowed (c_said c) (c_announced c) (c_worker c i) w (PDict (private_message sender body))"
    using assms(2) unfolding cluster_ok_def worker_ok_def by blast
  then obtain to where "k_opened (c_worker c i) w = Some to"
    "may_send (c_said c) (c_announced c) to (private_message sender body)"
    by (auto simp: frame_allowed_def error_frame_def ws_error_def private_message_def)
  moreover from this(2) have "(sender, to, body) \<in> c_said c"
    by (auto simp: may_send_def private_message_def role_granted_def)
  ultimately show ?thesis using ok unfolding cluster_ok_def by blast
qed

definition sound_network :: "'w socket_ops \<Rightarrow> bool" where
  "sound_network W \<longleftrightarrow> socket_server W \<and> (\<forall>w. w_send W w = None) \<and> (\<forall>ch data. w_publish W ch data)"

lemma sound_send_local:
  assumes "sound_network W" and "table_ok k"
  obtains vs where "distinct vs" "set vs = {v. k_sessions k v = Some uid}"
    "send_local W uid m (k_hub k) =
       (Inr (vs \<noteq> []), (k_hub k)\<lparr>h_frames := h_frames (k_hub k) @ map (\<lambda>v. (v, m)) vs\<rparr>)"
proof (cases "{v. k_sessions k v = Some uid} = {}")
  case True
  then have "h_connections (k_hub k) uid = None"
    using assms(2) by (auto simp: table_ok_def socket_table_def)
  then show ?thesis using True by (intro that [of "[]"]) (simp_all add: send_local_def)
next
  case False
  let ?A = "{v. k_sessions k v = Some uid}"
  have A: "h_connections (k_hub k) uid = Some ?A" "finite ?A"
    using assms(2) False table_finite [OF assms(2), of uid]
    by (auto simp: table_ok_def socket_table_def)
  have "set (w_order W ?A) = ?A" "distinct (w_order W ?A)"
    using assms(1) A(2) socket_server.order_set socket_server.order_distinct
    by (auto simp: sound_network_def)
  moreover have "send_all W (w_order W ?A) m (k_hub k) =
      (Inr (), (k_hub k)\<lparr>h_frames := h_frames (k_hub k) @ map (\<lambda>v. (v, m)) (w_order W ?A)\<rparr>)"
    using assms(1) by (intro send_all_sound) (simp add: sound_network_def)
  ultimately show ?thesis
    using False A(1) by (intro that [of "w_order W ?A"]) (auto simp: send_local_def)
qed

text \<open>A worker that hears a publication for a user sends it to every socket he has there.\<close>

lemma publication_heard:
  assumes "ws_reachable c" and "sound_network W" and "json_loads str = Loaded m" and "py_int (py_str to) = Some to"
  shows "\<exists>vs. distinct vs \<and> set vs = {v. k_sessions (c_worker c j) v = Some to} \<and>
    k_hub (worker_step W (Hears \<lparr>item_type = ''pmessage'',
             item_channel = USER_CHANNEL_PREFIX @ py_str to, item_data = str\<rparr>) (c_worker c j)) =
      (k_hub (c_worker c j))\<lparr>h_frames := h_frames (k_hub (c_worker c j)) @ map (\<lambda>v. (v, m)) vs\<rparr>"
proof -
  obtain us where "distinct us" "set us = {v. k_sessions (c_worker c j) v = Some to}"
    "send_local W to m (k_hub (c_worker c j)) =
       (Inr (us \<noteq> []), (k_hub (c_worker c j))\<lparr>h_frames := h_frames (k_hub (c_worker c j)) @ map (\<lambda>v. (v, m)) us\<rparr>)"
    using sound_send_local [OF assms(2) reachable_table [OF assms(1), of j], of to m] by metis
  then show ?thesis by (intro exI [of _ us]) (simp add: listen_item_def assms(3,4))
qed

text \<open>C27. Delivery of a private message. In a reachable state, with no failing socket and Redis up,
  a well-formed frame to a user who has sockets on the sender's worker puts the message once on
  each of these, and nowhere else: nothing is published, so sockets of the addressee on other
  workers do not get it. When the addressee has none there, the message is published once and
  nothing is sent; what was published makes the listener of every worker put it once on each of
  the addressee's sockets there, and on no other.\<close>

theorem private_message_delivery:
  assumes "ws_reachable c" and "sound_network W" and "k_sessions (c_worker c i) w = Some uid"
    and "message_fields data = Some (PInt to, PStr body)"
    and "\<bar>uid\<bar> < 10 ^ max_str_digits" and "\<bar>to\<bar> < 10 ^ max_str_digits"
  defines "c' \<equiv> cluster_step W i (Frame w (Received data)) c"
    and "m \<equiv> PDict (private_message uid body)"
    and "hub \<equiv> \<lambda>c i. k_hub (c_worker c i)"
    and "sockets \<equiv> \<lambda>i. {v. k_sessions (c_worker c i) v = Some to}"
  shows "if sockets i \<noteq> {}
    then \<exists>vs. distinct vs \<and> set vs = sockets i \<and> hub c' i =
      (hub c i)\<lparr>h_frames := h_frames (hub c i) @ map (\<lambda>v. (v, m)) vs\<rparr>
    else \<exists>channel text. hub c' i = (hub c i)\<lparr>h_published := h_published (hub c i) @ [(channel, text)]\<rparr> \<and>
      (\<forall>j W'. sound_network W' \<longrightarrow> (\<exists>vs. distinct vs \<and> set vs = sockets j \<and>
        k_hub (worker_step W' (Hears \<lparr>item_type = ''pmessage'', item_channel = channel, item_data = text\<rparr>)
                 (c_worker c' j)) =
          (hub c' j)\<lparr>h_frames := h_frames (hub c' j) @ map (\<lambda>v. (v, m)) vs\<rparr>))"
proof -
  let ?k = "c_worker c i"
  obtain vs where vs: "distinct vs" "set vs = sockets i"
    "send_local W to m (k_hub ?k) =
       (Inr (vs \<noteq> []), (k_hub ?k)\<lparr>h_frames := h_frames (k_hub ?k) @ map (\<lambda>v. (v, m)) vs\<rparr>)"
    using sound_send_local [OF assms(2) reachable_table [OF assms(1), of i]] unfolding sockets_def by blast
  obtain str where t: "json_dumps m = Some str"
    using no_floats.json_dumps_defined(1) [of m] assms(5) by (auto simp: m_def private_message_def)
  have again: "json_loads str = Loaded m"
    using t assms(5) by (intro no_floats.json_round_trip) (simp_all add: m_def private_message_def)
  have channel: "shown_id (PInt to) = Some (py_str to)" "py_int (py_str to) = Some to"
    using assms(6) by (simp_all add: shown_id_def json_int_def py_int_py_str)
  have step: "handle_frame W uid w (Received data) (k_hub ?k) =
      publish_to_user W to (Some (py_str to)) (private_message uid body) (k_hub ?k)"
    using assms(4) channel(1) by (simp add: handle_frame_def)
  have frame: "hub c' i = snd (publish_to_user W to (Some (py_str to)) (private_message uid body) (k_hub ?k))"
    if "fst (publish_to_user W to (Some (py_str to)) (private_message uid body) (k_hub ?k)) = Inr ()"
    using that by (auto simp: hub_def c'_def cluster_step_def assms(3) step split: prod.split sum.split)
  have reach': "ws_reachable c'"
    unfolding c'_def using assms(1,2) by (intro ws_reachable.step) (simp_all add: sound_network_def)
  show ?thesis
  proof (cases "sockets i = {}")
    case True
    then have "vs = []" using vs(2) by simp
    then have pub: "publish_to_user W to (Some (py_str to)) (private_message uid body) (k_hub ?k) =
       (Inr (), (k_hub ?k)\<lparr>h_published := h_published (k_hub ?k) @ [(USER_CHANNEL_PREFIX @ py_str to, str)]\<rparr>)"
      using vs(3) t assms(2)
      by (simp add: publish_to_user_def m_def sound_network_def del: json_write.simps)
    have same: "k_sessions (c_worker c' j) = k_sessions (c_worker c j)" for j
      using pub by (simp add: c'_def cluster_step_def assms(3) step)
    have "\<exists>vs. distinct vs \<and> set vs = sockets j \<and>
        k_hub (worker_step W' (Hears \<lparr>item_type = ''pmessage'',
                 item_channel = USER_CHANNEL_PREFIX @ py_str to, item_data = str\<rparr>) (c_worker c' j)) =
          (hub c' j)\<lparr>h_frames := h_frames (hub c' j) @ map (\<lambda>v. (v, m)) vs\<rparr>"
      if "sound_network W'" for j W'
      using publication_heard [OF reach' that again channel(2), of j] same unfolding sockets_def hub_def by simp
    moreover have "hub c' i = (hub c i)\<lparr>h_published := h_published (hub c i) @
        [(USER_CHANNEL_PREFIX @ py_str to, str)]\<rparr>"
      using frame pub by (simp add: hub_def)
    ultimately show ?thesis using True by (simp only: if_not_P) blast
  next
    case False
    then have "vs \<noteq> []" using vs(2) by auto
    then have "publish_to_user W to (Some (py_str to)) (private_message uid body) (k_hub ?k) =
       (Inr (), (k_hub ?k)\<lparr>h_frames := h_frames (k_hub ?k) @ map (\<lambda>v. (v, m)) vs\<rparr>)"
      using vs(3) by (simp add: publish_to_user_def m_def)
    then show ?thesis using False vs(1,2) frame by (auto simp: hub_def)
  qed
qed

text \<open>A deployment for the witnesses: users 1 and 2 on the first worker, with sockets 10 and 20, and
  user 3 on the third, with socket 30.\<close>

definition ex_cluster :: "nat cluster" where
  "ex_cluster = cluster_step ref_sockets 2 (Opens 3 30)
     (cluster_step ref_sockets 0 (Opens 2 20) (cluster_step ref_sockets 0 (Opens 1 10) empty_cluster))"

definition ex_frame :: "int \<Rightarrow> pyval" where
  "ex_frame to = PDict [(''type'', PStr ''message''), (''to'', PInt to), (''body'', PStr ''hi'')]"

definition ex_sent :: "int \<Rightarrow> nat cluster" where
  "ex_sent to = cluster_step ref_sockets 0 (Frame 10 (Received (ex_frame to))) ex_cluster"

lemma ex_fields: "message_fields (ex_frame to) = Some (PInt to, PStr ''hi'')"
  by (simp add: ex_frame_def message_fields_def dict_get_def)

lemma ex_cluster_reachable: "ws_reachable ex_cluster"
  unfolding ex_cluster_def
  by (intro ws_reachable.intros ref_sockets.socket_server_axioms)
     (simp_all add: cluster_step_def empty_cluster_def empty_worker_def connect_def ref_sockets_def)

lemma ex_sent_reachable: "ws_reachable (ex_sent to)"
  unfolding ex_sent_def
  by (intro ws_reachable.step ex_cluster_reachable ref_sockets.socket_server_axioms) simp

lemma ex_workers:
  "c_worker ex_cluster 0 = \<lparr>k_hub = \<lparr>h_connections = [1 \<mapsto> {10}, 2 \<mapsto> {20}], h_frames = [], h_published = []\<rparr>,
     k_sessions = [10 \<mapsto> 1, 20 \<mapsto> 2], k_opened = [10 \<mapsto> 1, 20 \<mapsto> 2]\<rparr>"
  "c_worker ex_cluster 2 = \<lparr>k_hub = \<lparr>h_connections = [3 \<mapsto> {30}], h_frames = [], h_published = []\<rparr>,
     k_sessions = [30 \<mapsto> 3], k_opened = [30 \<mapsto> 3]\<rparr>"
  by (simp_all add: ex_cluster_def cluster_step_def empty_cluster_def empty_worker_def empty_hub_def
      connect_def ref_sockets_def)

lemma sound_ref_sockets: "sound_network ref_sockets"
  using ref_sockets.socket_server_axioms by (simp add: sound_network_def ref_sockets_def)

lemma ex_frames: "h_frames (k_hub (c_worker (ex_sent 2) 0)) = [(20, PDict (private_message 1 ''hi''))]"
  by (simp add: ex_sent_def cluster_step_def ex_workers handle_frame_def ex_fields publish_to_user_def
      send_local_def send_json_def ref_sockets_def)

theorem hub_mirrors_sessions_witness:
  "h_connections (k_hub (c_worker ex_cluster 0)) 2 = Some {20} \<and>
   \<not> is_connected_locally 3 (k_hub (c_worker ex_cluster 0))"
proof -
  have "{w. k_sessions (c_worker ex_cluster 0) w = Some 2} = {20}"
    "3 \<notin> ran (k_sessions (c_worker ex_cluster 0))"
    by (auto simp: ex_workers ran_def)
  then show ?thesis using hub_mirrors_sessions [OF ex_cluster_reachable, of 0] by auto
qed

theorem messages_are_authentic_witness:
  "\<exists>to. k_opened (c_worker (ex_sent 2) 0) 20 = Some to \<and> (1, to, ''hi'') \<in> c_said (ex_sent 2)"
  using messages_are_authentic [OF ex_sent_reachable [of 2], of 20 1 "''hi''" 0] by (auto simp: ex_frames)

theorem private_message_delivery_witness:
  "h_frames (k_hub (c_worker (ex_sent 2) 0)) = [(20, PDict (private_message 1 ''hi''))] \<and>
   (\<exists>item. h_frames (k_hub (worker_step ref_sockets (Hears item) (c_worker (ex_sent 3) 2))) =
      [(30, PDict (private_message 1 ''hi''))])"
proof
  have sess: "k_sessions (c_worker ex_cluster 0) 10 = Some 1"
    "{v. k_sessions (c_worker ex_cluster 0) v = Some 2} = {20}"
    "{v. k_sessions (c_worker ex_cluster 0) v = Some 3} = {}"
    "{v. k_sessions (c_worker ex_cluster 2) v = Some 3} = {30}"
    by (auto simp: ex_workers)
  have small: "\<bar>n\<bar> < 10 ^ max_str_digits" if "\<bar>n\<bar> < 10 ^ 20" for n :: int
    using below_digit_limit [OF that] .
  have one: "vs = [x]" if "distinct vs" "set vs = {x}" for vs and x :: nat
    using that by (cases vs) (auto simp: subset_singleton_iff)
  note all = private_message_delivery [OF ex_cluster_reachable sound_ref_sockets sess(1) ex_fields
      small small, folded ex_sent_def]
  have none: "h_frames (k_hub (c_worker ex_cluster 0)) = []" "h_frames (k_hub (c_worker ex_cluster 2)) = []"
    by (simp_all add: ex_workers)
  show "h_frames (k_hub (c_worker (ex_sent 2) 0)) = [(20, PDict (private_message 1 ''hi''))]"
    using all [of 2] unfolding sess(2) by (auto simp: none dest!: one)
  show "\<exists>item. h_frames (k_hub (worker_step ref_sockets (Hears item) (c_worker (ex_sent 3) 2))) =
      [(30, PDict (private_message 1 ''hi''))]"
  proof -
    have same: "h_frames (k_hub (c_worker (ex_sent 3) 2)) = []"
      by (simp add: ex_sent_def cluster_step_def none(2))
    obtain channel str where pub: "\<forall>j W'. sound_network W' \<longrightarrow> (\<exists>vs. distinct vs \<and>
        set vs = {v. k_sessions (c_worker ex_cluster j) v = Some 3} \<and>
        k_hub (worker_step W' (Hears \<lparr>item_type = ''pmessage'', item_channel = channel, item_data = str\<rparr>)
                 (c_worker (ex_sent 3) j)) =
          (k_hub (c_worker (ex_sent 3) j))\<lparr>h_frames := h_frames (k_hub (c_worker (ex_sent 3) j)) @
             map (\<lambda>v. (v, PDict (private_message 1 ''hi''))) vs\<rparr>)"
      using all [of 3] unfolding sess(3) by auto
    have "\<exists>item. item = \<lparr>item_type = ''pmessage'', item_channel = channel, item_data = str\<rparr>" by simp
    then obtain item where item_def: "item = \<lparr>item_type = ''pmessage'', item_channel = channel, item_data = str\<rparr>" ..
    obtain vs where vs: "distinct vs" "set vs = {30}"
      "k_hub (worker_step ref_sockets (Hears item) (c_worker (ex_sent 3) 2)) =
        (k_hub (c_worker (ex_sent 3) 2))\<lparr>h_frames := h_frames (k_hub (c_worker (ex_sent 3) 2)) @
             map (\<lambda>v. (v, PDict (private_message 1 ''hi''))) vs\<rparr>"
      using pub sound_ref_sockets sess(4) unfolding item_def by metis
    have "h_frames (k_hub (worker_step ref_sockets (Hears item) (c_worker (ex_sent 3) 2))) =
        [(30, PDict (private_message 1 ''hi''))]"
      unfolding vs(3) using one [OF vs(1,2)] same by simp
    then show ?thesis by blast
  qed
qed

end
