(* ===== verification/Mailer.thy ===== *)
theory Mailer
  imports Examples "HOL-Library.Sublist"
begin

text \<open>
  Mail and the Celery tasks that send it: \<open>app/services/email.py\<close> and \<open>app/tasks/email.py\<close>. The
  SMTP server is the parameter \<open>smtp_ops\<close>: which exception a command raises, given the commands
  before it. The commands that were carried out are kept as a log. \<open>EmailMessage\<close> and
  \<open>formataddr\<close> are represented by the values the program hands to them. The Celery worker that
  runs a task is a parameter, of which its documented behaviour is asked: a task that raised
  \<open>self.retry\<close> is started again, not before the delay has passed, until \<open>max_retries\<close> is used up;
  and since \<open>celery_app.py\<close> has tasks acknowledged late, one whose worker died is delivered again.
\<close>

record email_message =
  em_subject :: string
  em_from :: "string \<times> string"
  em_to :: string
  em_text :: string
  em_html :: string

datatype smtp_command =
    Connect string int int
  | Ehlo
  | StartTls
  | Login string string
  | SendMessage email_message
  | Quit

type_synonym smtp_ops = "smtp_command list \<Rightarrow> smtp_command \<Rightarrow> string option"

text \<open>The commands are carried out one after the other until one raises.\<close>

fun smtp_session :: "smtp_ops \<Rightarrow> smtp_command list \<Rightarrow> smtp_command list \<Rightarrow> (failure + unit) \<times> smtp_command list" where
  "smtp_session S done [] = (Inr (), done)"
| "smtp_session S done (c # cs) =
     (case S done c of
        Some what \<Rightarrow> (Inl (Unhandled what), done)
      | None \<Rightarrow> smtp_session S (done @ [c]) cs)"

text \<open>Leaving the \<open>with\<close> block of \<open>smtplib.SMTP\<close>, however its body ended: \<open>QUIT\<close> is sent, and what it raises
  takes the place of what the body did, but for a connection that is already gone.\<close>

definition SERVER_DISCONNECTED :: string where "SERVER_DISCONNECTED = ''SMTPServerDisconnected''"

definition leave_smtp ::
  "smtp_ops \<Rightarrow> (failure + unit) \<times> smtp_command list \<Rightarrow> (failure + unit) \<times> smtp_command list" where
  "leave_smtp S run =
     (case run of (res, done) \<Rightarrow>
        (case S done Quit of
           None \<Rightarrow> (res, done @ [Quit])
         | Some what \<Rightarrow> if what = SERVER_DISCONNECTED then (res, done) else (Inl (Unhandled what), done)))"

definition sender_email :: "settings \<Rightarrow> string" where
  "sender_email cfg = (if smtp_from_email cfg \<noteq> [] then smtp_from_email cfg else smtp_username cfg)"

definition send_email ::
  "smtp_ops \<Rightarrow> settings \<Rightarrow> string \<Rightarrow> string \<Rightarrow> string \<Rightarrow> string \<Rightarrow> (failure + unit) \<times> smtp_command list" where
  "send_email S cfg recipient subject text_content html_content =
     (if smtp_username cfg = [] then (Inl (Unhandled ''RuntimeError''), [])
      else if smtp_password cfg = [] then (Inl (Unhandled ''RuntimeError''), [])
      else
        (let message = \<lparr>em_subject = subject, em_from = (smtp_from_name cfg, sender_email cfg),
                        em_to = recipient, em_text = text_content, em_html = html_content\<rparr>
         in case S [] (Connect (smtp_host cfg) (smtp_port cfg) 15) of
              Some what \<Rightarrow> (Inl (Unhandled what), [])
            | None \<Rightarrow>
                leave_smtp S (smtp_session S [Connect (smtp_host cfg) (smtp_port cfg) 15]
                  [Ehlo, StartTls, Ehlo, Login (smtp_username cfg) (smtp_password cfg), SendMessage message])))"

subsection \<open>The two letters\<close>

text \<open>A newline within a literal below is a line feed of the Python string.\<close>

definition link :: "settings \<Rightarrow> string \<Rightarrow> string \<Rightarrow> string" where
  "link cfg page token = frontend_url cfg @ ''/'' @ page @ ''?token='' @ token"

definition verification_text :: "string \<Rightarrow> string" where \<open>
  verification_text url =
  ''Welcome to FastAPI Authentication API.

Verify your email by opening this link:
'' @ url @ ''

This link expires in 30 minutes.''\<close>

definition verification_html :: "string \<Rightarrow> string" where \<open>
  verification_html url =
  ''
    <!DOCTYPE html>
    <html lang="en">
      <body style="font-family: Arial, sans-serif;">
        <h2>Verify your email address</h2>

        <p>
          Welcome to FastAPI Authentication API.
        </p>

        <p>
          Click the button below to verify your email.
        </p>

        <p>
          <a
            href="''
  @ url @
  ''"
            style="
              display: inline-block;
              padding: 12px 20px;
              background: #111827;
              color: #ffffff;
              text-decoration: none;
              border-radius: 6px;
            "
          >
            Verify email
          </a>
        </p>

        <p>
          This link expires in 30 minutes.
        </p>

        <p>
          If the button does not work, open:
        </p>

        <p>''
  @ url @
  ''</p>
      </body>
    </html>
    ''\<close>



definition send_verification_email ::
  "smtp_ops \<Rightarrow> settings \<Rightarrow> string \<Rightarrow> string \<Rightarrow> (failure + unit) \<times> smtp_command list" where
  "send_verification_email S cfg recipient verification_token =
     (let verification_url = link cfg ''verify-email'' verification_token
      in send_email S cfg recipient ''Verify your email address''
           (verification_text verification_url) (verification_html verification_url))"


subsection \<open>The tasks\<close>

text \<open>How one attempt ends; a retry carries the exception that is let out when none is left.\<close>

datatype task_outcome = Done | Retry failure

definition MAIL_TASK_MAX_RETRIES :: nat where "MAIL_TASK_MAX_RETRIES = 3"

definition MAIL_TASK_RETRY_DELAY :: int where "MAIL_TASK_RETRY_DELAY = 30"

definition send_verification_email_task ::
  "settings \<Rightarrow> string \<Rightarrow> string \<Rightarrow> smtp_ops \<Rightarrow> task_outcome \<times> smtp_command list" where
  "send_verification_email_task cfg recipient verification_token S =
     (case send_verification_email S cfg recipient verification_token of
        (Inl exc, sent) \<Rightarrow> (Retry exc, sent)
      | (Inr _, sent) \<Rightarrow> (Done, sent))"


text \<open>
  The worker. An execution has the instant it began, its outcome, which is \<open>None\<close> when the worker died
  before it acknowledged the task, and what it did: a beginning of what the task does at that
  instant. What one delivery of a task, with so many retries left, leads to: the executions of the
  task, those after a retry and those after a death in the order of the deliveries. A worker may also
  die after it asked for the retry; then both are delivered.
\<close>

type_synonym 'l executions = "(time \<times> task_outcome option \<times> 'l list) list"
type_synonym 'l celery_worker =
  "nat \<Rightarrow> int \<Rightarrow> (time \<Rightarrow> task_outcome \<times> 'l list) \<Rightarrow> time \<Rightarrow> 'l executions"

inductive delivered ::
  "int \<Rightarrow> (time \<Rightarrow> task_outcome \<times> 'l list) \<Rightarrow> nat \<Rightarrow> time \<Rightarrow> 'l executions \<Rightarrow> bool"
  for delay body where
  finished: "body now = (Done, l) \<Longrightarrow> delivered delay body n now [(now, Some Done, l)]"
| given_up: "body now = (Retry e, l) \<Longrightarrow> delivered delay body 0 now [(now, Some (Retry e), l)]"
| again: "body now = (Retry e, l) \<Longrightarrow> now + delay * second \<le> t \<Longrightarrow> delivered delay body n t es \<Longrightarrow>
    delivered delay body (Suc n) now ((now, Some (Retry e), l) # es)"
| died: "prefix l (snd (body now)) \<Longrightarrow> now \<le> t \<Longrightarrow> delivered delay body n t es \<Longrightarrow>
    delivered delay body n now ((now, None, l) # es)"
| died_late: "body now = (Retry e, l) \<Longrightarrow> now \<le> t \<Longrightarrow> delivered delay body (Suc n) t es \<Longrightarrow>
    now + delay * second \<le> t' \<Longrightarrow> delivered delay body n t' es' \<Longrightarrow>
    delivered delay body (Suc n) now ((now, None, l) # es @ es')"

definition deaths :: "'l executions \<Rightarrow> nat" where
  "deaths es = length (filter (\<lambda>(t, res, l). res = None) es)"

text \<open>What is asked of the worker: it does one of the things it may do.\<close>

locale celery_retries =
  fixes run :: "'l celery_worker"
  assumes executions: "delivered delay body n now (run n delay body now)"

text \<open>Without a death the executions are attempts one after another.\<close>

lemma no_deaths [simp]:
  "deaths [] = 0" "deaths ((t, Some r, l) # es) = deaths es" "deaths ((t, None, l) # es) = Suc (deaths es)"
  "deaths (es @ es') = deaths es + deaths es'"
  by (simp_all add: deaths_def)






text \<open>A worker that never dies and starts a task again the moment the delay has passed.\<close>

fun ref_worker :: "'l celery_worker" where
  "ref_worker n delay body now =
     (case (body now, n) of
        ((Retry e, l), Suc m) \<Rightarrow> (now, Some (Retry e), l) # ref_worker m delay body (now + delay * second)
      | ((res, l), _) \<Rightarrow> [(now, Some res, l)])"

lemma ref_worker_delivered: "delivered delay body n now (ref_worker n delay body now)"
proof (induction n arbitrary: now)
  case 0
  obtain res l where b: "body now = (res, l)" by fastforce
  show ?case
  proof (cases res)
    case Done
    with b show ?thesis by (auto intro: delivered.finished)
  next
    case (Retry e)
    with b show ?thesis by (auto intro: delivered.given_up)
  qed
next
  case (Suc n)
  obtain res l where b: "body now = (res, l)" by fastforce
  show ?case
  proof (cases res)
    case Done
    with b show ?thesis by (auto intro: delivered.finished)
  next
    case (Retry e)
    with b Suc show ?thesis by (auto intro: delivered.again)
  qed
qed

interpretation ref_worker: celery_retries ref_worker
  by unfold_locales (rule ref_worker_delivered)

text \<open>A worker that dies at every first delivery when all is done but the acknowledgement; the task comes
  back after the visibility timeout of the broker, an hour.\<close>

definition late_worker :: "'l celery_worker" where
  "late_worker n delay body now = (now, None, snd (body now)) # ref_worker n delay body (now + 3600 * second)"

interpretation late_worker: celery_retries late_worker
  by unfold_locales (unfold late_worker_def, rule delivered.died [OF _ _ ref_worker_delivered], simp_all)

subsection \<open>What the tasks guarantee\<close>



















lemma ex_credentials: "smtp_username ex_settings \<noteq> []" "smtp_password ex_settings \<noteq> []"
  by (simp_all add: ex_settings_def default_settings_def)


text \<open>A server that accepts the letter and answers \<open>QUIT\<close> with an error gets it four times; one whose worker
  dies before the acknowledgement, twice.\<close>

definition rude_smtp :: smtp_ops where
  "rude_smtp done c = (if c = Quit then Some ''SMTPResponseException'' else None)"

definition letters_sent :: "smtp_command executions \<Rightarrow> nat" where
  "letters_sent es = length (filter (\<lambda>c. case c of SendMessage _ \<Rightarrow> True | _ \<Rightarrow> False) (concat (map (snd \<circ> snd) es)))"

lemma letters_sent_again:
  "letters_sent (ref_worker MAIL_TASK_MAX_RETRIES MAIL_TASK_RETRY_DELAY
     (\<lambda>t. send_verification_email_task ex_settings ''ab@c.de'' ex_link rude_smtp) 0) = 4"
  "letters_sent (late_worker MAIL_TASK_MAX_RETRIES MAIL_TASK_RETRY_DELAY
     (\<lambda>t. send_verification_email_task ex_settings ''ab@c.de'' ex_link (\<lambda>_ _. None)) 0) = 2"
  using ex_credentials
  by (simp_all add: letters_sent_def late_worker_def MAIL_TASK_MAX_RETRIES_def MAIL_TASK_RETRY_DELAY_def
      numeral_eq_Suc send_verification_email_task_def send_verification_email_def send_email_def
      rude_smtp_def leave_smtp_def SERVER_DISCONNECTED_def Let_def)

end
