(* ===== verification/Migrations.thy ===== *)
theory Migrations
  imports Rbac
begin

text \<open>
  The schema migrations \<open>migrations/versions\<close> and the schema that \<open>app/models\<close> declares. A schema is
  a list of tables, with their rows, and a list of named indexes; an operation of Alembic changes
  it or fails the way PostgreSQL does: no two tables or indexes of one name, no statement on a
  table, column or index that is missing, no dropping of a table that a foreign key of another one
  names, no column that must not be null where a row has no value for it, and no unique index over
  rows that agree. The rows that the RBAC migration writes are modelled twice: as rows of the
  tables here, and on the \<open>database\<close> of the handlers.
\<close>

datatype sql_type = Integer | StringOf nat | Boolean | DateTimeTz

record column =
  col_name :: string
  col_type :: sql_type
  col_nullable :: bool
  col_unique :: bool
  col_primary :: bool
  col_references :: "string option"
  col_server_default :: "string option"

text \<open>A row has the text of a value, or NULL, for each of its columns.\<close>

type_synonym sql_row = "(string \<times> string option) list"

record sql_table =
  tbl_name :: string
  tbl_columns :: "column list"
  tbl_uniques :: "(string \<times> string list) list"
  tbl_rows :: "sql_row list"

record sql_index =
  ix_name :: string
  ix_table :: string
  ix_columns :: "string list"
  ix_unique :: bool

record schema =
  tables :: "sql_table list"
  indexes :: "sql_index list"

definition empty_schema :: schema where "empty_schema = \<lparr>tables = [], indexes = []\<rparr>"

subsection \<open>The operations\<close>

definition find_table :: "schema \<Rightarrow> string \<Rightarrow> sql_table option" where
  "find_table s t = List.find (\<lambda>x. tbl_name x = t) (tables s)"

definition row_value :: "sql_row \<Rightarrow> string \<Rightarrow> string option" where
  "row_value r c = (case map_of r c of None \<Rightarrow> None | Some v \<Rightarrow> v)"

text \<open>The tables a table's foreign keys name; every one is \<open>ON DELETE CASCADE\<close> on a column \<open>id\<close>.\<close>

definition referenced :: "sql_table \<Rightarrow> string list" where
  "referenced t = concat (map (\<lambda>c. case col_references c of None \<Rightarrow> [] | Some r \<Rightarrow> [r]) (tbl_columns t))"

definition create_table :: "sql_table \<Rightarrow> schema \<Rightarrow> schema option" where
  "create_table t s =
     (if find_table s (tbl_name t) \<noteq> None \<or> \<not> distinct (map col_name (tbl_columns t)) \<or>
         list_ex (\<lambda>r. find_table s r = None) (referenced t) then None
      else Some (s\<lparr>tables := tables s @ [t]\<rparr>))"

definition drop_table :: "string \<Rightarrow> schema \<Rightarrow> schema option" where
  "drop_table n s =
     (if find_table s n = None \<or> list_ex (\<lambda>t. tbl_name t \<noteq> n \<and> n \<in> set (referenced t)) (tables s) then None
      else Some (s\<lparr>tables := filter (\<lambda>t. tbl_name t \<noteq> n) (tables s),
                   indexes := filter (\<lambda>i. ix_table i \<noteq> n) (indexes s)\<rparr>))"

definition create_index :: "string \<Rightarrow> string \<Rightarrow> string list \<Rightarrow> bool \<Rightarrow> schema \<Rightarrow> schema option" where
  "create_index n t cols unique s =
     (case find_table s t of
        None \<Rightarrow> None
      | Some tb \<Rightarrow>
          if list_ex (\<lambda>i. ix_name i = n) (indexes s) \<or> \<not> set cols \<subseteq> col_name ` set (tbl_columns tb) \<or>
            unique \<and> \<not> distinct (map (\<lambda>r. map (row_value r) cols)
              (filter (\<lambda>r. list_all (\<lambda>c. row_value r c \<noteq> None) cols) (tbl_rows tb))) then None
          else Some (s\<lparr>indexes := indexes s @
                 [\<lparr>ix_name = n, ix_table = t, ix_columns = cols, ix_unique = unique\<rparr>]\<rparr>))"

definition drop_index :: "string \<Rightarrow> string \<Rightarrow> schema \<Rightarrow> schema option" where
  "drop_index n t s =
     (if list_ex (\<lambda>i. ix_name i = n \<and> ix_table i = t) (indexes s)
      then Some (s\<lparr>indexes := filter (\<lambda>i. ix_name i \<noteq> n) (indexes s)\<rparr>) else None)"

definition change_table :: "string \<Rightarrow> (sql_table \<Rightarrow> sql_table) \<Rightarrow> schema \<Rightarrow> schema" where
  "change_table n f s = s\<lparr>tables := map (\<lambda>t. if tbl_name t = n then f t else t) (tables s)\<rparr>"

definition has_column :: "schema \<Rightarrow> string \<Rightarrow> string \<Rightarrow> bool" where
  "has_column s t c = (case find_table s t of None \<Rightarrow> False | Some tb \<Rightarrow> c \<in> col_name ` set (tbl_columns tb))"

definition rows_of :: "schema \<Rightarrow> string \<Rightarrow> sql_row list" where
  "rows_of s t = (case find_table s t of None \<Rightarrow> [] | Some tb \<Rightarrow> tbl_rows tb)"

text \<open>Rows that are there get the default of the new column.\<close>

definition add_column :: "string \<Rightarrow> column \<Rightarrow> schema \<Rightarrow> schema option" where
  "add_column t c s =
     (if find_table s t = None \<or> has_column s t (col_name c) \<or>
         \<not> col_nullable c \<and> col_server_default c = None \<and> rows_of s t \<noteq> [] then None
      else Some (change_table t (\<lambda>tb. tb\<lparr>tbl_columns := tbl_columns tb @ [c],
             tbl_rows := map (\<lambda>r. r @ [(col_name c, col_server_default c)]) (tbl_rows tb)\<rparr>) s))"

definition drop_column :: "string \<Rightarrow> string \<Rightarrow> schema \<Rightarrow> schema option" where
  "drop_column t c s =
     (if \<not> has_column s t c then None
      else Some (change_table t
             (\<lambda>tb. tb\<lparr>tbl_columns := filter (\<lambda>x. col_name x \<noteq> c) (tbl_columns tb),
                      tbl_rows := map (filter (\<lambda>(k, v). k \<noteq> c)) (tbl_rows tb)\<rparr>) s))"

definition alter_column_nullable :: "string \<Rightarrow> string \<Rightarrow> bool \<Rightarrow> schema \<Rightarrow> schema option" where
  "alter_column_nullable t c nullable s =
     (if \<not> has_column s t c \<or> \<not> nullable \<and> list_ex (\<lambda>r. row_value r c = None) (rows_of s t) then None
      else Some (change_table t (\<lambda>tb. tb\<lparr>tbl_columns :=
             map (\<lambda>x. if col_name x = c then x\<lparr>col_nullable := nullable\<rparr> else x) (tbl_columns tb)\<rparr>) s))"

text \<open>\<open>INSERT\<close> of rows that the migration makes, possibly from what it reads.\<close>

definition insert_rows :: "string \<Rightarrow> (schema \<Rightarrow> sql_row list) \<Rightarrow> schema \<Rightarrow> schema option" where
  "insert_rows t new s =
     (if find_table s t = None then None
      else Some (change_table t (\<lambda>tb. tb\<lparr>tbl_rows := tbl_rows tb @ new s\<rparr>) s))"

text \<open>One statement after the other, in one transaction.\<close>

fun run_ops :: "(schema \<Rightarrow> schema option) list \<Rightarrow> schema \<Rightarrow> schema option" where
  "run_ops [] s = Some s"
| "run_ops (f # fs) s = (case f s of None \<Rightarrow> None | Some s' \<Rightarrow> run_ops fs s')"

subsection \<open>Columns\<close>

definition column :: "string \<Rightarrow> sql_type \<Rightarrow> bool \<Rightarrow> column" where
  "column n t nullable = \<lparr>col_name = n, col_type = t, col_nullable = nullable, col_unique = False,
     col_primary = False, col_references = None, col_server_default = None\<rparr>"

definition unique_column :: "string \<Rightarrow> sql_type \<Rightarrow> column" where
  "unique_column n t = (column n t False)\<lparr>col_unique := True\<rparr>"

definition primary_key :: "string \<Rightarrow> column" where
  "primary_key n = (column n Integer False)\<lparr>col_primary := True\<rparr>"

definition foreign_key :: "string \<Rightarrow> string \<Rightarrow> column" where
  "foreign_key n t = (column n Integer False)\<lparr>col_references := Some t\<rparr>"

definition association_key :: "string \<Rightarrow> string \<Rightarrow> column" where
  "association_key n t = (foreign_key n t)\<lparr>col_primary := True\<rparr>"

definition plain_table :: "string \<Rightarrow> column list \<Rightarrow> sql_table" where
  "plain_table n cols = \<lparr>tbl_name = n, tbl_columns = cols, tbl_uniques = [], tbl_rows = []\<rparr>"

subsection \<open>The rows of the RBAC migration\<close>

text \<open>The data of the migration, its own copy of the application's.\<close>

definition MIGRATION_PERMISSIONS :: "(string \<times> string) list" where
  "MIGRATION_PERMISSIONS =
     [(''users:read'', ''View any user's account''), (''users:write'', ''Update any user's account''),
      (''users:delete'', ''Deactivate any user's account''), (''roles:manage'', ''Assign or revoke roles'')]"

definition MIGRATION_ROLES :: "(string \<times> string) list" where
  "MIGRATION_ROLES =
     [(''admin'', ''Full administrative access''), (''moderator'', ''Can view and moderate user accounts''),
      (''user'', ''Standard authenticated user'')]"

definition MIGRATION_ROLE_PERMISSIONS :: "(string \<times> string list) list" where
  "MIGRATION_ROLE_PERMISSIONS =
     [(''admin'', [''users:read'', ''users:write'', ''users:delete'', ''roles:manage'']),
      (''moderator'', [''users:read'', ''users:write'']), (''user'', [])]"

text \<open>The tables are new, so their sequences begin at 1: the keys are the positions in the lists.\<close>

definition key_of :: "(string \<times> 'a) list \<Rightarrow> string \<Rightarrow> string option" where
  "key_of xs n = map_of (zip (map fst xs) (map py_str [1..int (length xs)])) n"

definition named_rows :: "(string \<times> string) list \<Rightarrow> sql_row list" where
  "named_rows xs =
     map (\<lambda>(n, descr). [(''id'', key_of xs n), (''name'', Some n), (''description'', Some descr)]) xs"

definition grant_rows :: "sql_row list" where
  "grant_rows =
     concat (map (\<lambda>(role_nm, names).
       map (\<lambda>n. [(''role_id'', key_of MIGRATION_ROLES role_nm), (''permission_id'', key_of MIGRATION_PERMISSIONS n)])
         names) MIGRATION_ROLE_PERMISSIONS)"

definition default_role_rows :: "sql_row list \<Rightarrow> sql_row list" where
  "default_role_rows us =
     map (\<lambda>r. [(''user_id'', row_value r ''id''), (''role_id'', key_of MIGRATION_ROLES ''user'')]) us"

subsection \<open>The migrations\<close>

record migration =
  mig_revision :: string
  mig_down_revision :: "string option"
  mig_upgrade :: "(schema \<Rightarrow> schema option) list"
  mig_downgrade :: "(schema \<Rightarrow> schema option) list"

definition create_users_table :: migration where
  "create_users_table =
     \<lparr>mig_revision = ''12e5e041ba67'', mig_down_revision = None,
      mig_upgrade =
        [create_table (plain_table ''users''
           [primary_key ''id'', column ''email'' (StringOf 255) False,
            column ''hashed_password'' (StringOf 255) False, column ''is_active'' Boolean False,
            column ''created_at'' DateTimeTz False]),
         create_index ''ix_users_email'' ''users'' [''email''] True,
         create_index ''ix_users_id'' ''users'' [''id''] False],
      mig_downgrade =
        [drop_index ''ix_users_id'' ''users'', drop_index ''ix_users_email'' ''users'', drop_table ''users'']\<rparr>"

definition add_is_verified_to_users :: migration where
  "add_is_verified_to_users =
     \<lparr>mig_revision = ''4a15f12ac674'', mig_down_revision = Some ''12e5e041ba67'',
      mig_upgrade = [add_column ''users''
        ((column ''is_verified'' Boolean False)\<lparr>col_server_default := Some ''false''\<rparr>)],
      mig_downgrade = [drop_column ''users'' ''is_verified'']\<rparr>"

definition add_oauth_accounts :: migration where
  "add_oauth_accounts =
     \<lparr>mig_revision = ''6fe368ffba4d'', mig_down_revision = Some ''4a15f12ac674'',
      mig_upgrade =
        [alter_column_nullable ''users'' ''hashed_password'' True,
         create_table \<lparr>tbl_name = ''oauth_accounts'',
           tbl_columns =
             [primary_key ''id'', foreign_key ''user_id'' ''users'', column ''provider'' (StringOf 32) False,
              column ''provider_user_id'' (StringOf 255) False, column ''email'' (StringOf 255) True,
              column ''created_at'' DateTimeTz False],
           tbl_uniques = [(''uq_oauth_provider_account'', [''provider'', ''provider_user_id''])], tbl_rows = []\<rparr>,
         create_index ''ix_oauth_accounts_user_id'' ''oauth_accounts'' [''user_id''] False],
      mig_downgrade =
        [drop_index ''ix_oauth_accounts_user_id'' ''oauth_accounts'', drop_table ''oauth_accounts'',
         alter_column_nullable ''users'' ''hashed_password'' False]\<rparr>"

definition add_rbac_tables :: migration where
  "add_rbac_tables =
     \<lparr>mig_revision = ''49f933ee3842'', mig_down_revision = Some ''6fe368ffba4d'',
      mig_upgrade =
        [create_table (plain_table ''permissions''
           [primary_key ''id'', unique_column ''name'' (StringOf 64), column ''description'' (StringOf 255) True]),
         create_table (plain_table ''roles''
           [primary_key ''id'', unique_column ''name'' (StringOf 32), column ''description'' (StringOf 255) True]),
         create_table (plain_table ''role_permissions''
           [association_key ''role_id'' ''roles'', association_key ''permission_id'' ''permissions'']),
         create_table (plain_table ''user_roles''
           [association_key ''user_id'' ''users'', association_key ''role_id'' ''roles'']),
         insert_rows ''permissions'' (\<lambda>s. named_rows MIGRATION_PERMISSIONS),
         insert_rows ''roles'' (\<lambda>s. named_rows MIGRATION_ROLES),
         insert_rows ''role_permissions'' (\<lambda>s. grant_rows),
         insert_rows ''user_roles'' (\<lambda>s. default_role_rows (rows_of s ''users''))],
      mig_downgrade =
        [drop_table ''user_roles'', drop_table ''role_permissions'', drop_table ''roles'', drop_table ''permissions'']\<rparr>"

definition add_file_uploads :: migration where
  "add_file_uploads =
     \<lparr>mig_revision = ''5d1b816d2fa2'', mig_down_revision = Some ''49f933ee3842'',
      mig_upgrade =
        [create_table (plain_table ''file_uploads''
           [primary_key ''id'', foreign_key ''user_id'' ''users'', column ''filename'' (StringOf 255) False,
            column ''content_type'' (StringOf 100) False, column ''category'' (StringOf 20) False,
            column ''size_bytes'' Integer False, unique_column ''storage_key'' (StringOf 512),
            column ''created_at'' DateTimeTz False]),
         create_index ''ix_file_uploads_user_id'' ''file_uploads'' [''user_id''] False],
      mig_downgrade = [drop_index ''ix_file_uploads_user_id'' ''file_uploads'', drop_table ''file_uploads'']\<rparr>"

definition all_migrations :: "migration list" where
  "all_migrations =
     [add_file_uploads, add_rbac_tables, create_users_table, add_oauth_accounts, add_is_verified_to_users]"

text \<open>Alembic orders the scripts by \<open>down_revision\<close>, from the one that has none.\<close>

fun revision_chain :: "nat \<Rightarrow> migration list \<Rightarrow> string option \<Rightarrow> migration list" where
  "revision_chain 0 ms down = []"
| "revision_chain (Suc n) ms down =
     (case List.find (\<lambda>m. mig_down_revision m = down) ms of
        None \<Rightarrow> [] | Some m \<Rightarrow> m # revision_chain n ms (Some (mig_revision m)))"

definition migration_order :: "migration list" where
  "migration_order = revision_chain (length all_migrations) all_migrations None"

definition upgrade_head :: "schema \<Rightarrow> schema option" where
  "upgrade_head s = run_ops (concat (map mig_upgrade migration_order)) s"

definition downgrade_base :: "schema \<Rightarrow> schema option" where
  "downgrade_base s = run_ops (concat (map mig_downgrade (rev migration_order))) s"

subsection \<open>The schema of the models\<close>

text \<open>A column with \<open>index=True\<close> has an index \<open>ix_<table>_<column>\<close>, unique with \<open>unique=True\<close>.\<close>

definition model_index :: "string \<Rightarrow> string \<Rightarrow> bool \<Rightarrow> sql_index" where
  "model_index t c unique = \<lparr>ix_name = ''ix_'' @ t @ ''_'' @ c, ix_table = t, ix_columns = [c], ix_unique = unique\<rparr>"

definition model_users :: sql_table where
  "model_users = plain_table ''users''
     [primary_key ''id'', column ''email'' (StringOf 255) False, column ''hashed_password'' (StringOf 255) True,
      column ''is_active'' Boolean False, column ''is_verified'' Boolean False,
      column ''created_at'' DateTimeTz False]"

definition model_oauth_accounts :: sql_table where
  "model_oauth_accounts =
     \<lparr>tbl_name = ''oauth_accounts'',
      tbl_columns =
        [primary_key ''id'', foreign_key ''user_id'' ''users'', column ''provider'' (StringOf 32) False,
         column ''provider_user_id'' (StringOf 255) False, column ''email'' (StringOf 255) True,
         column ''created_at'' DateTimeTz False],
      tbl_uniques = [(''uq_oauth_provider_account'', [''provider'', ''provider_user_id''])], tbl_rows = []\<rparr>"

definition model_role_permissions :: sql_table where
  "model_role_permissions = plain_table ''role_permissions''
     [association_key ''role_id'' ''roles'', association_key ''permission_id'' ''permissions'']"

definition model_user_roles :: sql_table where
  "model_user_roles = plain_table ''user_roles''
     [association_key ''user_id'' ''users'', association_key ''role_id'' ''roles'']"

definition model_permissions :: sql_table where
  "model_permissions = plain_table ''permissions''
     [primary_key ''id'', unique_column ''name'' (StringOf 64), column ''description'' (StringOf 255) True]"

definition model_roles :: sql_table where
  "model_roles = plain_table ''roles''
     [primary_key ''id'', unique_column ''name'' (StringOf 32), column ''description'' (StringOf 255) True]"

definition model_file_uploads :: sql_table where
  "model_file_uploads = plain_table ''file_uploads''
     [primary_key ''id'', foreign_key ''user_id'' ''users'', column ''filename'' (StringOf 255) False,
      column ''content_type'' (StringOf 100) False, column ''category'' (StringOf 20) False,
      column ''size_bytes'' Integer False, unique_column ''storage_key'' (StringOf 512),
      column ''created_at'' DateTimeTz False]"

definition model_schema :: schema where
  "model_schema =
     \<lparr>tables = [model_users, model_oauth_accounts, model_role_permissions, model_user_roles,
        model_permissions, model_roles, model_file_uploads],
      indexes = [model_index ''users'' ''id'' False, model_index ''users'' ''email'' True,
        model_index ''oauth_accounts'' ''id'' False, model_index ''oauth_accounts'' ''user_id'' False,
        model_index ''permissions'' ''id'' False, model_index ''roles'' ''id'' False,
        model_index ''file_uploads'' ''id'' False, model_index ''file_uploads'' ''user_id'' False]\<rparr>"

subsection \<open>The rows of the RBAC migration in the database of the handlers\<close>

text \<open>Each loop collects the keys of the rows it inserted; the sets of permission names are gone
  through in the order they are written in.\<close>

fun insert_permissions ::
  "(string \<times> string) list \<Rightarrow> (string \<times> int) list \<Rightarrow> database \<Rightarrow> (string \<times> int) list \<times> database" where
  "insert_permissions [] ids d = (ids, d)"
| "insert_permissions ((n, descr) # rest) ids d =
     (let (p, d1) = insert_permission d n (Some descr)
      in insert_permissions rest ((n, permission_id p) # ids) d1)"

fun insert_roles ::
  "(string \<times> string) list \<Rightarrow> (string \<times> int) list \<Rightarrow> database \<Rightarrow> (string \<times> int) list \<times> database" where
  "insert_roles [] ids d = (ids, d)"
| "insert_roles ((n, descr) # rest) ids d =
     (let (r, d1) = insert_role d n (Some descr)
      in insert_roles rest ((n, role_id r) # ids) d1)"

definition migration_grants ::
  "(string \<times> int) list \<Rightarrow> (string \<times> int) list \<Rightarrow> (int \<times> int) list" where
  "migration_grants role_ids permission_ids =
     concat (map (\<lambda>(role_nm, names).
       map (\<lambda>n. (the (map_of role_ids role_nm), the (map_of permission_ids n))) names)
       MIGRATION_ROLE_PERMISSIONS)"

definition seed_migration :: "database \<Rightarrow> database" where
  "seed_migration d =
     (let (permission_ids, d1) = insert_permissions MIGRATION_PERMISSIONS [] d;
          (role_ids, d2) = insert_roles MIGRATION_ROLES [] d1;
          d3 = d2\<lparr>role_permissions := role_permissions d2 @ migration_grants role_ids permission_ids\<rparr>
      in d3\<lparr>user_roles := user_roles d3 @
             map (\<lambda>u. (user_id u, the (map_of role_ids ''user''))) (users d3)\<rparr>)"

subsection \<open>Properties\<close>

text \<open>A table as a set of columns.\<close>

definition table_shape :: "sql_table \<Rightarrow> string \<times> (string \<times> string list) list \<times> column set" where
  "table_shape t = (tbl_name t, tbl_uniques t, set (tbl_columns t))"

text \<open>A table with a default that the server gives one of its columns.\<close>

definition with_default :: "string \<Rightarrow> string \<Rightarrow> string \<Rightarrow> sql_table \<Rightarrow> sql_table" where
  "with_default tn c v t =
     (if tbl_name t = tn
      then t\<lparr>tbl_columns := map (\<lambda>x. if col_name x = c then x\<lparr>col_server_default := Some v\<rparr> else x) (tbl_columns t)\<rparr>
      else t)"

text \<open>The schema of a revision, and with other rows in its tables.\<close>

definition upgraded :: "nat \<Rightarrow> schema option" where
  "upgraded k = run_ops (concat (map mig_upgrade (take k migration_order))) empty_schema"

definition with_rows :: "(string \<Rightarrow> sql_row list) \<Rightarrow> schema \<Rightarrow> schema" where
  "with_rows R s = s\<lparr>tables := map (\<lambda>t. t\<lparr>tbl_rows := R (tbl_name t)\<rparr>) (tables s)\<rparr>"

definition revision_with :: "(string \<Rightarrow> sql_row list) \<Rightarrow> nat \<Rightarrow> schema" where
  "revision_with R k = with_rows R (the (upgraded k))"

text \<open>What a migration does to the rows that are there, and its downgrade.\<close>

definition upgraded_rows :: "nat \<Rightarrow> (string \<Rightarrow> sql_row list) \<Rightarrow> string \<Rightarrow> sql_row list" where
  "upgraded_rows k R =
     (if k = 0 then R(''users'' := [])
      else if k = 1 then R(''users'' := map (\<lambda>r. r @ [(''is_verified'', Some ''false'')]) (R ''users''))
      else if k = 2 then R(''oauth_accounts'' := [])
      else if k = 3 then R(''permissions'' := named_rows MIGRATION_PERMISSIONS, ''roles'' := named_rows MIGRATION_ROLES,
        ''role_permissions'' := grant_rows, ''user_roles'' := default_role_rows (R ''users''))
      else R(''file_uploads'' := []))"

definition downgraded_rows :: "nat \<Rightarrow> (string \<Rightarrow> sql_row list) \<Rightarrow> string \<Rightarrow> sql_row list" where
  "downgraded_rows k R =
     (if k = 1 then R(''users'' := map (filter (\<lambda>(c, v). c \<noteq> ''is_verified'')) (R ''users'')) else R)"

text \<open>An account that was made by a sign-in with a provider has no password.\<close>

definition passwordless :: "(string \<Rightarrow> sql_row list) \<Rightarrow> bool" where
  "passwordless R \<longleftrightarrow> list_ex (\<lambda>r. row_value r ''hashed_password'' = None) (R ''users'')"

text \<open>The schema at the head.\<close>

definition head_tables :: "sql_table list" where
  "head_tables =
     [(plain_table ''users''
        [primary_key ''id'', column ''email'' (StringOf 255) False, column ''hashed_password'' (StringOf 255) True,
         column ''is_active'' Boolean False, column ''created_at'' DateTimeTz False,
         (column ''is_verified'' Boolean False)\<lparr>col_server_default := Some ''false''\<rparr>]),
      model_oauth_accounts, model_permissions\<lparr>tbl_rows := named_rows MIGRATION_PERMISSIONS\<rparr>,
      model_roles\<lparr>tbl_rows := named_rows MIGRATION_ROLES\<rparr>, model_role_permissions\<lparr>tbl_rows := grant_rows\<rparr>,
      model_user_roles, model_file_uploads]"

definition head_schema :: schema where
  "head_schema = \<lparr>tables = head_tables, indexes =
     [model_index ''users'' ''email'' True, model_index ''users'' ''id'' False,
      model_index ''oauth_accounts'' ''user_id'' False, model_index ''file_uploads'' ''user_id'' False]\<rparr>"

lemma upgrade_head_eq: "upgrade_head empty_schema = Some head_schema"
  by code_simp

lemma migration_order_revisions:
  "map mig_revision migration_order =
     [''12e5e041ba67'', ''4a15f12ac674'', ''6fe368ffba4d'', ''49f933ee3842'', ''5d1b816d2fa2'']"
  by code_simp

lemma revisions:
  "mig_revision create_users_table = ''12e5e041ba67''" "mig_down_revision create_users_table = None"
  "mig_revision add_is_verified_to_users = ''4a15f12ac674''"
  "mig_down_revision add_is_verified_to_users = Some ''12e5e041ba67''"
  "mig_revision add_oauth_accounts = ''6fe368ffba4d''" "mig_down_revision add_oauth_accounts = Some ''4a15f12ac674''"
  "mig_revision add_rbac_tables = ''49f933ee3842''" "mig_down_revision add_rbac_tables = Some ''6fe368ffba4d''"
  "mig_revision add_file_uploads = ''5d1b816d2fa2''" "mig_down_revision add_file_uploads = Some ''49f933ee3842''"
  by (simp_all add: create_users_table_def add_is_verified_to_users_def add_oauth_accounts_def add_rbac_tables_def
      add_file_uploads_def)

lemma migration_order_eq:
  "migration_order = [create_users_table, add_is_verified_to_users, add_oauth_accounts, add_rbac_tables, add_file_uploads]"
  by (simp add: migration_order_def all_migrations_def revisions numeral_eq_Suc)

text \<open>The revisions with any rows.\<close>

lemmas op_defs = create_table_def drop_table_def create_index_def drop_index_def add_column_def drop_column_def
  alter_column_nullable_def insert_rows_def change_table_def has_column_def rows_of_def find_table_def referenced_def
  plain_table_def primary_key_def column_def foreign_key_def association_key_def unique_column_def

lemmas step_defs = create_users_table_def add_is_verified_to_users_def add_oauth_accounts_def add_rbac_tables_def
  add_file_uploads_def

definition users_at :: "bool \<Rightarrow> bool \<Rightarrow> sql_row list \<Rightarrow> sql_table" where
  "users_at verified optional_password rs = (plain_table ''users''
     ([primary_key ''id'', column ''email'' (StringOf 255) False,
       column ''hashed_password'' (StringOf 255) optional_password,
       column ''is_active'' Boolean False, column ''created_at'' DateTimeTz False] @
      (if verified then [(column ''is_verified'' Boolean False)\<lparr>col_server_default := Some ''false''\<rparr>]
       else [])))\<lparr>tbl_rows := rs\<rparr>"

definition users_indexes :: "sql_index list" where
  "users_indexes = [model_index ''users'' ''email'' True, model_index ''users'' ''id'' False]"

lemmas with_rows_simps = revision_with_def with_rows_def users_at_def plain_table_def model_oauth_accounts_def
  model_permissions_def model_roles_def model_role_permissions_def model_user_roles_def model_file_uploads_def

lemma revision_0: "revision_with R 0 = empty_schema"
  by (simp add: revision_with_def upgraded_def with_rows_def empty_schema_def)

lemma revision_1:
  "revision_with R (Suc 0) = \<lparr>tables = [users_at False False (R ''users'')], indexes = users_indexes\<rparr>"
proof -
  have "upgraded (Suc 0) = Some \<lparr>tables = [users_at False False []], indexes = users_indexes\<rparr>" by code_simp
  then show ?thesis by (simp add: with_rows_simps)
qed

lemma revision_2:
  "revision_with R 2 = \<lparr>tables = [users_at True False (R ''users'')], indexes = users_indexes\<rparr>"
proof -
  have "upgraded 2 = Some \<lparr>tables = [users_at True False []], indexes = users_indexes\<rparr>" by code_simp
  then show ?thesis by (simp add: with_rows_simps)
qed

definition oauth_indexes :: "sql_index list" where
  "oauth_indexes = users_indexes @ [model_index ''oauth_accounts'' ''user_id'' False]"

lemma revision_3:
  "revision_with R 3 =
     \<lparr>tables = [users_at True True (R ''users''), model_oauth_accounts\<lparr>tbl_rows := R ''oauth_accounts''\<rparr>],
      indexes = oauth_indexes\<rparr>"
proof -
  have "upgraded 3 = Some \<lparr>tables = [users_at True True [], model_oauth_accounts], indexes = oauth_indexes\<rparr>"
    by code_simp
  then show ?thesis by (simp add: with_rows_simps)
qed

definition rbac_tables :: "(string \<Rightarrow> sql_row list) \<Rightarrow> sql_table list" where
  "rbac_tables R =
     [users_at True True (R ''users''), model_oauth_accounts\<lparr>tbl_rows := R ''oauth_accounts''\<rparr>,
      model_permissions\<lparr>tbl_rows := R ''permissions''\<rparr>, model_roles\<lparr>tbl_rows := R ''roles''\<rparr>,
      model_role_permissions\<lparr>tbl_rows := R ''role_permissions''\<rparr>, model_user_roles\<lparr>tbl_rows := R ''user_roles''\<rparr>]"

lemma revision_4: "revision_with R 4 = \<lparr>tables = rbac_tables R, indexes = oauth_indexes\<rparr>"
proof -
  have "upgraded 4 = Some \<lparr>tables = rbac_tables ((\<lambda>t. [])(''permissions'' := named_rows MIGRATION_PERMISSIONS,
      ''roles'' := named_rows MIGRATION_ROLES, ''role_permissions'' := grant_rows)), indexes = oauth_indexes\<rparr>"
    by code_simp
  then show ?thesis by (simp add: with_rows_simps rbac_tables_def)
qed

lemma revision_5:
  "revision_with R 5 =
     \<lparr>tables = rbac_tables R @ [model_file_uploads\<lparr>tbl_rows := R ''file_uploads''\<rparr>],
      indexes = oauth_indexes @ [model_index ''file_uploads'' ''user_id'' False]\<rparr>"
proof -
  have "upgraded 5 = Some \<lparr>tables = rbac_tables ((\<lambda>t. [])(''permissions'' := named_rows MIGRATION_PERMISSIONS,
      ''roles'' := named_rows MIGRATION_ROLES, ''role_permissions'' := grant_rows)) @ [model_file_uploads],
      indexes = oauth_indexes @ [model_index ''file_uploads'' ''user_id'' False]\<rparr>"
    by code_simp
  then show ?thesis by (simp add: with_rows_simps rbac_tables_def)
qed

lemmas revision_simps = revision_0 revision_1 revision_2 revision_3 revision_4 revision_5

lemmas index_defs = users_indexes_def oauth_indexes_def model_index_def

lemmas table_defs = users_at_def rbac_tables_def model_oauth_accounts_def model_permissions_def model_roles_def
  model_role_permissions_def model_user_roles_def model_file_uploads_def

text \<open>Every migration, and its downgrade, on every content of the tables.\<close>

lemma upgrade_1: "run_ops (mig_upgrade create_users_table) (revision_with R 0) = Some (revision_with (upgraded_rows 0 R) 1)"
  by (simp add: step_defs revision_simps op_defs table_defs index_defs upgraded_rows_def empty_schema_def)

lemma upgrade_2: "run_ops (mig_upgrade add_is_verified_to_users) (revision_with R 1) = Some (revision_with (upgraded_rows 1 R) 2)"
  by (simp add: step_defs revision_simps op_defs table_defs index_defs upgraded_rows_def)

lemma upgrade_3: "run_ops (mig_upgrade add_oauth_accounts) (revision_with R 2) = Some (revision_with (upgraded_rows 2 R) 3)"
  by (simp add: step_defs revision_simps op_defs table_defs index_defs upgraded_rows_def)

lemma upgrade_4: "run_ops (mig_upgrade add_rbac_tables) (revision_with R 3) = Some (revision_with (upgraded_rows 3 R) 4)"
  by (simp add: step_defs revision_simps op_defs table_defs index_defs upgraded_rows_def)

lemma upgrade_5: "run_ops (mig_upgrade add_file_uploads) (revision_with R 4) = Some (revision_with (upgraded_rows 4 R) 5)"
  by (simp add: step_defs revision_simps op_defs table_defs index_defs upgraded_rows_def)

lemma downgrade_1: "run_ops (mig_downgrade create_users_table) (revision_with R 1) = Some (revision_with (downgraded_rows 0 R) 0)"
  by (simp add: step_defs revision_simps op_defs table_defs index_defs downgraded_rows_def empty_schema_def)

lemma downgrade_2: "run_ops (mig_downgrade add_is_verified_to_users) (revision_with R 2) = Some (revision_with (downgraded_rows 1 R) 1)"
  by (simp add: step_defs revision_simps op_defs table_defs index_defs downgraded_rows_def)

lemma downgrade_3: "run_ops (mig_downgrade add_oauth_accounts) (revision_with R 3) =
   (if passwordless R then None else Some (revision_with (downgraded_rows 2 R) 2))"
  by (simp add: step_defs revision_simps op_defs table_defs index_defs downgraded_rows_def passwordless_def)

lemma downgrade_4: "run_ops (mig_downgrade add_rbac_tables) (revision_with R 4) = Some (revision_with (downgraded_rows 3 R) 3)"
  by (simp add: step_defs revision_simps op_defs table_defs index_defs downgraded_rows_def)

lemma downgrade_5: "run_ops (mig_downgrade add_file_uploads) (revision_with R 5) = Some (revision_with (downgraded_rows 4 R) 4)"
  by (simp add: step_defs revision_simps op_defs table_defs index_defs downgraded_rows_def)

lemma migration_steps:
  "migration_order ! 0 = create_users_table" "migration_order ! Suc 0 = add_is_verified_to_users"
  "migration_order ! 2 = add_oauth_accounts" "migration_order ! 3 = add_rbac_tables"
  "migration_order ! 4 = add_file_uploads"
  by (simp_all add: migration_order_eq)

lemma steps: "[0..<5] = [0, 1, 2, 3, 4::nat]"
  by (simp add: upt_rec)

lemma upgrade_steps:
  "list_all (\<lambda>k. run_ops (mig_upgrade (migration_order ! k)) (revision_with R k) =
     Some (revision_with (upgraded_rows k R) (Suc k))) [0..<5]"
  unfolding steps
  using upgrade_1 [of R] upgrade_2 [of R] upgrade_3 [of R] upgrade_4 [of R] upgrade_5 [of R]
  by (simp add: migration_steps flip: numeral_2_eq_2)

lemma downgrade_steps:
  "list_all (\<lambda>k. run_ops (mig_downgrade (migration_order ! k)) (revision_with R (Suc k)) =
     (if k = 2 \<and> passwordless R then None else Some (revision_with (downgraded_rows k R) k))) [0..<5]"
  unfolding steps
  using downgrade_1 [of R] downgrade_2 [of R] downgrade_3 [of R] downgrade_4 [of R] downgrade_5 [of R]
  by (simp add: migration_steps flip: numeral_2_eq_2)

lemma run_ops_append:
  "run_ops (fs @ gs) s = (case run_ops fs s of None \<Rightarrow> None | Some s' \<Rightarrow> run_ops gs s')"
  by (induction fs arbitrary: s) (auto split: option.splits)

lemma downgrade_base_eq:
  "downgrade_base (revision_with R 5) = (if passwordless R then None else Some empty_schema)"
  by (simp add: downgrade_base_def migration_order_eq run_ops_append downgrade_1 downgrade_2 downgrade_3
      downgrade_4 downgrade_5 downgraded_rows_def revision_0 passwordless_def
      del: run_ops.simps One_nat_def split: option.split)

lemma head_revision: "head_schema = revision_with (rows_of head_schema) 5"
  by code_simp

lemma with_default_name: "tbl_name (with_default tn c v t) = tbl_name t"
  by (simp add: with_default_def)

lemma rows_no_shape: "table_shape (t\<lparr>tbl_rows := rs\<rparr>) = table_shape t"
  by (simp add: table_shape_def)

lemma head_shapes:
  "table_shape ` set head_tables = table_shape ` with_default ''users'' ''is_verified'' ''false'' ` set (tables model_schema)"
proof -
  have "table_shape (hd head_tables) = table_shape (with_default ''users'' ''is_verified'' ''false'' model_users)"
    by (auto simp: head_tables_def table_shape_def with_default_def model_users_def plain_table_def primary_key_def
        column_def)
  moreover have "with_default ''users'' ''is_verified'' ''false'' t = t" if "t \<in> set (tl (tables model_schema))" for t
    using that by (auto simp: model_schema_def with_default_def table_defs plain_table_def)
  then have "table_shape ` with_default ''users'' ''is_verified'' ''false'' ` set (tl (tables model_schema)) =
      table_shape ` set (tl (tables model_schema))" by (simp add: image_image cong: image_cong)
  moreover have "set (tables model_schema) = insert model_users (set (tl (tables model_schema)))"
    by (simp add: model_schema_def)
  moreover have "set head_tables = insert (hd head_tables) (set (tl head_tables))"
    by (simp add: head_tables_def)
  moreover have "table_shape ` set (tl head_tables) = table_shape ` set (tl (tables model_schema))"
    by (simp add: head_tables_def model_schema_def rows_no_shape insert_commute)
  ultimately show ?thesis by (simp only: image_insert)
qed

lemma missing_indexes:
  "filter (\<lambda>i. i \<notin> set (indexes head_schema)) (indexes model_schema) =
     map (\<lambda>t. model_index t ''id'' False) [''oauth_accounts'', ''permissions'', ''roles'', ''file_uploads'']"
  "filter (\<lambda>i. i \<notin> set (indexes model_schema)) (indexes head_schema) = []"
  by code_simp+

lemma head_indexes:
  "set (indexes model_schema) - set (indexes head_schema) =
     {model_index t ''id'' False |t. t \<in> {''oauth_accounts'', ''permissions'', ''roles'', ''file_uploads''}}"
  "set (indexes head_schema) - set (indexes model_schema) = {}"
proof -
  show "set (indexes model_schema) - set (indexes head_schema) =
     {model_index t ''id'' False |t. t \<in> {''oauth_accounts'', ''permissions'', ''roles'', ''file_uploads''}}"
    unfolding Setcompr_eq_image set_diff_eq using arg_cong [OF missing_indexes(1), of set]
    by (simp only: set_filter set_map list.set)
  show "set (indexes head_schema) - set (indexes model_schema) = {}"
    using missing_indexes(2) by (simp only: filter_empty_conv) blast
qed

lemma head_names_distinct: "distinct (map tbl_name head_tables)"
  by code_simp

text \<open>C32. What the migrations do. Alembic finds one order of the five scripts. Running them on an
  empty database succeeds and gives the tables of the models, column by column (type, nullability,
  keys, unique constraints), but that the server has a default for \<open>users.is_verified\<close> which the
  models do not declare; the indexes are those of the models except four on primary keys, which
  the models declare and no migration creates. Whatever rows the tables hold, every upgrade
  succeeds and does to the rows what \<open>upgraded_rows\<close> says. Every downgrade leads back to the
  schema before its upgrade and keeps the rows of the tables and columns that remain, but the one
  of \<open>6fe368ffba4d\<close>, and with it the way to the empty database, is refused exactly when some account
  has no password.\<close>

theorem migrations_build_the_models:
  "map mig_revision migration_order =
      [''12e5e041ba67'', ''4a15f12ac674'', ''6fe368ffba4d'', ''49f933ee3842'', ''5d1b816d2fa2''] \<and>
   (\<exists>s. upgrade_head empty_schema = Some s \<and> s = revision_with (rows_of s) 5 \<and>
      downgrade_base s = Some empty_schema \<and>
      table_shape ` set (tables s) =
        table_shape ` with_default ''users'' ''is_verified'' ''false'' ` set (tables model_schema) \<and>
      distinct (map tbl_name (tables s)) \<and>
      set (indexes model_schema) - set (indexes s) =
        {model_index t ''id'' False |t. t \<in> {''oauth_accounts'', ''permissions'', ''roles'', ''file_uploads''}} \<and>
      set (indexes s) - set (indexes model_schema) = {}) \<and>
   list_all (\<lambda>k. run_ops (mig_upgrade (migration_order ! k)) (revision_with R k) =
      Some (revision_with (upgraded_rows k R) (Suc k))) [0..<5] \<and>
   list_all (\<lambda>k. run_ops (mig_downgrade (migration_order ! k)) (revision_with R (Suc k)) =
      (if k = 2 \<and> passwordless R then None else Some (revision_with (downgraded_rows k R) k))) [0..<5] \<and>
   downgrade_base (revision_with R 5) = (if passwordless R then None else Some empty_schema)"
proof -
  have "\<not> passwordless (rows_of head_schema)" by code_simp
  then have "downgrade_base head_schema = Some empty_schema"
    using downgrade_base_eq [of "rows_of head_schema"] head_revision by simp
  then show ?thesis
    using upgrade_head_eq head_revision head_names_distinct head_shapes head_indexes
    by (intro conjI migration_order_revisions upgrade_steps downgrade_steps downgrade_base_eq exI [of _ head_schema])
      (simp_all add: head_schema_def)
qed

lemmas seed_defs = seed_rbac_defaults_def DEFAULT_PERMISSIONS_def DEFAULT_ROLES_def
  select_permission_by_name_def insert_permission_def row_add_def seed_role_def
  select_role_by_name_def insert_role_def ROLE_PERMISSIONS_def permissions_of_def Let_def
  seed_migration_def MIGRATION_PERMISSIONS_def MIGRATION_ROLES_def MIGRATION_ROLE_PERMISSIONS_def
  migration_grants_def

lemma filter_eq_single: "distinct xs \<Longrightarrow> x \<in> set xs \<Longrightarrow> filter (\<lambda>y. y = x) xs = [x]"
  by (induction xs) (auto simp: filter_empty_conv)

lemma seed_migration_eq:
  assumes "roles d = []" and "permissions d = []" and "role_permissions d = []" and "user_roles d = []"
  obtains d' r where "seed_rbac_defaults d = Inr d'"
    "select_role_by_name d' DEFAULT_USER_ROLE_NAME = Some r"
    "seed_migration d = d'\<lparr>user_roles := map (\<lambda>u. (user_id u, role_id r)) (users d)\<rparr>"
proof
  let ?r = "\<lparr>role_id = seq_roles d + 2, role_name = ''user'',
             role_description = Some ''Standard authenticated user''\<rparr>"
  let ?d = "(seed_migration d)\<lparr>user_roles := []\<rparr>"
  show "seed_rbac_defaults d = Inr ?d" using assms by (simp add: seed_defs)
  show "select_role_by_name ?d DEFAULT_USER_ROLE_NAME = Some ?r"
    using assms by (simp add: seed_defs DEFAULT_USER_ROLE_NAME_def)
  show "seed_migration d = ?d\<lparr>user_roles := map (\<lambda>u. (user_id u, role_id ?r)) (users d)\<rparr>"
    using assms by (simp add: seed_defs)
qed

text \<open>The RBAC migration seeds like the application. On a database that has no roles and
  permissions yet, the migration writes exactly the roles, permissions and grants that
  \<open>seed_rbac_defaults\<close> writes, its copy of the data has not drifted, and beyond that gives every
  existing user the role \<open>user\<close> and nobody anything else; the database satisfies its invariant.\<close>

theorem migration_seeds_like_application:
  assumes "db_inv d" and "roles d = []" and "permissions d = []"
  shows "\<exists>d' r. seed_rbac_defaults d = Inr d' \<and> select_role_by_name d' DEFAULT_USER_ROLE_NAME = Some r \<and>
    seed_migration d = d'\<lparr>user_roles := map (\<lambda>u. (user_id u, role_id r)) (users d)\<rparr> \<and>
    (\<forall>u \<in> set (users d). roles_of (seed_migration d) (user_id u) = [r]) \<and> db_inv (seed_migration d)"
proof -
  have "x \<notin> set (role_permissions d)" "x \<notin> set (user_roles d)" for x
    using assms by (cases x; auto simp: db_inv_def db_wf_def rbac_wf_def)+
  then have none: "role_permissions d = []" "user_roles d = []" by (metis list.set_intros(1) neq_Nil_conv)+
  obtain d' r where d': "seed_rbac_defaults d = Inr d'"
    and r: "select_role_by_name d' DEFAULT_USER_ROLE_NAME = Some r"
    and m: "seed_migration d = d'\<lparr>user_roles := map (\<lambda>u. (user_id u, role_id r)) (users d)\<rparr>"
    by (rule seed_migration_eq [OF assms(2,3) none])
  have "rbac_wf d" using assms(1) by (simp add: db_inv_def db_wf_def)
  then have g: "rbac_grows d d'" "rbac_wf d'"
    by (rule seed_rbac_facts; use d' in simp)+
  have users: "users d' = users d" using g(1) by (simp add: rbac_grows_def)
  have ids: "distinct (map user_id (users d))"
    using assms(1) by (simp add: db_inv_def db_wf_def users_wf_def)
  have in_roles: "r \<in> set (roles d')" using select_role_SomeD [OF r] by simp
  have "distinct (map (\<lambda>u. (user_id u, role_id r)) (users d))"
    using ids by (simp add: distinct_map inj_on_def)
  then have "rbac_wf (seed_migration d)"
    using g(2) in_roles users by (auto simp: m rbac_wf_def)
  moreover have "db_inv d'" using rbac_grows_inv [OF g(1) assms(1) g(2)] .
  ultimately have "db_inv (seed_migration d)"
    using sign_in_ok_mono [of "seed_migration d" d']
    by (simp add: m db_inv_def db_wf_def users_wf_def oauth_wf_def files_wf_def)
  moreover have "roles_of (seed_migration d) (user_id u) = [r]" if "u \<in> set (users d)" for u
  proof -
    have "(user_id u, role_id q) \<in> set (user_roles (seed_migration d)) \<longleftrightarrow> q = r"
      if "q \<in> set (roles d')" for q
      using \<open>u \<in> set (users d)\<close> role_same_id [OF g(2) that in_roles] by (auto simp: m)
    then have "roles_of (seed_migration d) (user_id u) = filter (\<lambda>q. q = r) (roles d')"
      unfolding roles_of_def by (simp add: m cong: filter_cong)
    also have "\<dots> = [r]"
      using in_roles g(2) by (simp add: rbac_wf_def distinct_map filter_eq_single)
    finally show ?thesis .
  qed
  ultimately show ?thesis using d' r m by blast
qed

theorem migration_seeds_like_application_witness:
  "\<exists>d'. seed_rbac_defaults empty_database = Inr d' \<and> seed_migration empty_database = d'\<lparr>user_roles := []\<rparr>"
  using migration_seeds_like_application [OF db_inv_empty] by (auto simp: empty_database_def)

end
