(* ===== verification/Startup.thy ===== *)
theory Startup
  imports Router Migrations Cleanup "HOL-Library.AList"
begin

text \<open>
  How the program is put together and brought up: the application object of \<open>app/main.py\<close> (its
  options, the middlewares it adds, the routes it serves, the hook around its life, the proxy
  wrapper), the database session and its engine (\<open>app/db/session.py\<close>), the metrics route
  and middleware (\<open>app/core/metrics.py\<close>), the Celery application (\<open>app/core/celery_app.py\<close>) and the environment
  Alembic runs the migrations in (\<open>migrations/env.py\<close>) with the settings file \<open>alembic.ini\<close>. The
  configuration parser of the standard library is modelled where \<open>env.py\<close> uses it.
\<close>

subsection \<open>The application object\<close>

record fastapi_app =
  app_title :: string
  app_description :: string
  app_release :: string
  app_tags :: "(string \<times> string) list"
  app_docs_url :: "string option"
  app_redoc_url :: "string option"
  app_openapi_url :: "string option"

definition OPENAPI_TAGS :: "(string \<times> string) list" where
  "OPENAPI_TAGS =
     [(''Health'', ''Liveness/readiness probes used by deploy platforms and monitoring.''),
      (''Authentication'', ''Registration, login, token refresh, email verification, and password reset.''),
      (''Users'', ''Operations on the currently authenticated user's account.''),
      (''OAuth'', ''Login/signup and account linking via Google, GitHub, and Microsoft.''),
      (''Admin'', ''Role/permission-gated administrative operations on user accounts.''),
      (''Files'', ''Streaming uploads to S3-compatible storage (images, PDF, CSV, video).'')]"

definition create_app :: "settings \<Rightarrow> fastapi_app" where
  "create_app cfg =
     \<lparr>app_title = app_name cfg,
      app_description = ''Authentication API with JWT, PostgreSQL, Docker, and tests.'',
      app_release = app_version cfg, app_tags = OPENAPI_TAGS,
      app_docs_url = (if docs_enabled cfg then Some ''/docs'' else None),
      app_redoc_url = (if docs_enabled cfg then Some ''/redoc'' else None),
      app_openapi_url = (if docs_enabled cfg then Some ''/openapi.json'' else None)\<rparr>"

subsection \<open>Middlewares\<close>

datatype middleware =
    GZip nat
  | Cors "string list" bool "string list" "string list"
  | TrustedHost "string list"
  | SecurityHeaders bool
  | DeprecationHeaders
  | RequestContext
  | Instrumentator bool "string list"

text \<open>\<open>app.add_middleware\<close> puts a middleware before those that are there; the first of the list is
  outermost.\<close>

definition add_middleware :: "middleware \<Rightarrow> middleware list \<Rightarrow> middleware list" where
  "add_middleware m ms = m # ms"

definition user_middleware :: "settings \<Rightarrow> middleware list" where
  "user_middleware cfg =
     fold add_middleware
       [GZip 1000, Cors (cors_origins cfg) True [''*''] [''*''], TrustedHost (trusted_hosts cfg),
        SecurityHeaders (is_production cfg), DeprecationHeaders, RequestContext] []"

text \<open>\<open>lib\<close> gives the middlewares that come from libraries.\<close>

fun apply_middleware :: "(middleware \<Rightarrow> asgi_app \<Rightarrow> asgi_app) \<Rightarrow> string \<Rightarrow> middleware \<Rightarrow> asgi_app \<Rightarrow> asgi_app" where
  "apply_middleware lib new_id (SecurityHeaders hsts) app = security_headers_middleware hsts app"
| "apply_middleware lib new_id DeprecationHeaders app = deprecation_headers_middleware app"
| "apply_middleware lib new_id RequestContext app = request_context_middleware new_id app"
| "apply_middleware lib new_id m app = lib m app"

definition build_stack ::
  "(middleware \<Rightarrow> asgi_app \<Rightarrow> asgi_app) \<Rightarrow> string \<Rightarrow> middleware list \<Rightarrow> asgi_app \<Rightarrow> asgi_app" where
  "build_stack lib new_id ms app = foldr (apply_middleware lib new_id) ms app"

text \<open>The middlewares of libraries inside the program's own, in the order a request meets them.\<close>

definition library_stack :: "(middleware \<Rightarrow> asgi_app \<Rightarrow> asgi_app) \<Rightarrow> settings \<Rightarrow> asgi_app \<Rightarrow> asgi_app" where
  "library_stack lib cfg app =
     lib (TrustedHost (trusted_hosts cfg))
       (lib (Cors (cors_origins cfg) True [''*''] [''*'']) (lib (GZip 1000) app))"

lemma build_user_middleware:
  "build_stack lib new_id (user_middleware cfg) app = middleware_stack cfg new_id (library_stack lib cfg app)"
  by (simp add: build_stack_def user_middleware_def add_middleware_def middleware_stack_def library_stack_def)

text \<open>What is served: behind a proxy the forwarded client address is put into the scope first.\<close>

definition served_app :: "(string list \<Rightarrow> 'a \<Rightarrow> 'a) \<Rightarrow> settings \<Rightarrow> 'a \<Rightarrow> 'a" where
  "served_app proxy_headers cfg app =
     (if trusted_proxy_ips cfg \<noteq> [] then proxy_headers (trusted_proxy_ips cfg) app else app)"

subsection \<open>Routes\<close>

text \<open>The instrumentation adds a middleware, and its exposition a route.\<close>

definition setup_metrics :: "middleware list \<times> route list \<Rightarrow> middleware list \<times> route list" where
  "setup_metrics app =
     (case app of (ms, rs) \<Rightarrow>
        (add_middleware (Instrumentator True [''/metrics'']) ms, rs @ [route ''GET'' ''/metrics'' ''metrics'']))"

text \<open>The application \<open>main.py\<close> builds: its middlewares, and its routes in the order of their inclusion;
  \<open>docs\<close> are the routes FastAPI adds for an application object when it is made.\<close>

definition main_app :: "(fastapi_app \<Rightarrow> route list) \<Rightarrow> settings \<Rightarrow> middleware list \<times> route list" where
  "main_app docs cfg =
     (case setup_metrics (user_middleware cfg,
         docs (create_app cfg) @ under ''/api/v1'' v1_router @ under ''/api/v2'' v2_router @ v1_router) of
       (ms, rs) \<Rightarrow>
         (ms, rs @ [route ''GET'' ''/'' ''main.root'', route ''GET'' ''/health'' ''main.health_check'']))"

definition served_middleware :: "(fastapi_app \<Rightarrow> route list) \<Rightarrow> settings \<Rightarrow> middleware list" where
  "served_middleware docs cfg = fst (main_app docs cfg)"

definition served_routes :: "(fastapi_app \<Rightarrow> route list) \<Rightarrow> settings \<Rightarrow> route list" where
  "served_routes docs cfg = snd (main_app docs cfg)"

text \<open>The whole stack, with the layer for errors that no handler catches around it.\<close>

definition served_stack ::
  "error_layer \<Rightarrow> (middleware \<Rightarrow> asgi_app \<Rightarrow> asgi_app) \<Rightarrow> (fastapi_app \<Rightarrow> route list) \<Rightarrow> settings \<Rightarrow> string \<Rightarrow>
     asgi_app \<Rightarrow> asgi_app" where
  "served_stack outer lib docs cfg new_id inner =
     outer handle_unhandled_exception (build_stack lib new_id (served_middleware docs cfg) inner)"

lemma served_stack_eq:
  "served_stack outer lib docs cfg new_id inner =
     application outer (lib (Instrumentator True [''/metrics''])) cfg new_id (library_stack lib cfg inner)"
  using build_user_middleware
  by (simp add: served_stack_def served_middleware_def main_app_def setup_metrics_def add_middleware_def
      application_def build_stack_def)

definition root :: http_response where
  "root = \<lparr>resp_status = 200, resp_headers = [],
     resp_content = PDict [(''message'', PStr ''FastAPI Authentication API is running''),
                           (''status'', PStr ''healthy'')]\<rparr>"

text \<open>What is asked of FastAPI: without an \<open>openapi_url\<close> there are no documentation routes, and
  otherwise they are \<open>GET\<close> routes at the configured paths and the redirect below the first.\<close>

locale documentation =
  fixes docs :: "fastapi_app \<Rightarrow> route list"
  assumes hidden: "app_openapi_url a = None \<Longrightarrow> docs a = []"
    and places: "r \<in> set (docs a) \<Longrightarrow>
      Some (ro_path r) \<in> {app_openapi_url a, app_docs_url a, app_redoc_url a,
        map_option (\<lambda>u. u @ ''/oauth2-redirect'') (app_docs_url a)}"

definition fastapi_docs :: "fastapi_app \<Rightarrow> route list" where
  "fastapi_docs a =
     (case app_openapi_url a of
        None \<Rightarrow> []
      | Some u \<Rightarrow> route ''GET'' u ''fastapi.openapi'' #
          (case app_docs_url a of
             None \<Rightarrow> []
           | Some d \<Rightarrow> [route ''GET'' d ''fastapi.swagger_ui_html'',
                       route ''GET'' (d @ ''/oauth2-redirect'') ''fastapi.swagger_ui_redirect'']) @
          (case app_redoc_url a of None \<Rightarrow> [] | Some d \<Rightarrow> [route ''GET'' d ''fastapi.redoc_html'']))"

interpretation fastapi: documentation fastapi_docs
  by unfold_locales (auto simp: fastapi_docs_def route_def split: option.splits dest!: sym [of "Some _"])

subsection \<open>The hook around the life of the application\<close>

text \<open>The listener task as the shutdown finds it: at work, or over with an exception that its own
  handler does not catch.\<close>

datatype listener_task = Listening | Over string

text \<open>Cancelled, the task raises \<open>CancelledError\<close> at its await, which is suppressed; a task that is over
  is not changed by \<open>cancel\<close>, and awaiting it raises its exception.\<close>

definition lifespan_shutdown :: "listener_task \<Rightarrow> string + unit" where
  "lifespan_shutdown t = (case t of Listening \<Rightarrow> Inr () | Over e \<Rightarrow> if e = ''CancelledError'' then Inr () else Inl e)"

subsection \<open>The database session\<close>

definition engine_options :: "settings \<Rightarrow> pydict" where
  "engine_options cfg =
     [(''pool_pre_ping'', PBool True)] @
     (if startswith (database_url cfg) ''sqlite''
      then [(''connect_args'', PDict [(''check_same_thread'', PBool False)])] else [])"

definition session_options :: pydict where
  "session_options = [(''autocommit'', PBool False), (''autoflush'', PBool False)]"

text \<open>A session: what is committed, what it sees, whether it is closed.\<close>

record 'd session =
  ss_committed :: 'd
  ss_pending :: 'd
  ss_closed :: bool

definition SessionLocal :: "'d \<Rightarrow> 'd session" where
  "SessionLocal d = \<lparr>ss_committed = d, ss_pending = d, ss_closed = False\<rparr>"

definition session_commit :: "'d session \<Rightarrow> 'd session" where
  "session_commit s = s\<lparr>ss_committed := ss_pending s\<rparr>"

definition session_close :: "'d session \<Rightarrow> 'd session" where
  "session_close s = s\<lparr>ss_pending := ss_committed s, ss_closed := True\<rparr>"

text \<open>\<open>get_db\<close> around the handler that uses the session; \<open>Inl\<close> is an exception of the handler.\<close>

definition get_db :: "('d session \<Rightarrow> ('e + 'a) \<times> 'd session) \<Rightarrow> 'd \<Rightarrow> ('e + 'a) \<times> 'd session" where
  "get_db handler d = (let (r, s) = handler (SessionLocal d) in (r, session_close s))"

lemma get_db_discards:
  assumes "handler (SessionLocal d) = (r, s)"
  shows "get_db handler d = (r, \<lparr>ss_committed = ss_committed s, ss_pending = ss_committed s, ss_closed = True\<rparr>)"
  using assms by (cases s) (simp add: get_db_def session_close_def)

text \<open>\<open>create_all\<close> of \<open>app/db/init_db.py\<close>: the tables of the models that are missing, with their indexes.\<close>

definition init_db :: "schema \<Rightarrow> schema" where
  "init_db s =
     (let missing = filter (\<lambda>t. find_table s (tbl_name t) = None) (tables model_schema) in
      \<lparr>tables = tables s @ missing,
       indexes = indexes s @ filter (\<lambda>i. ix_table i \<in> tbl_name ` set missing) (indexes model_schema)\<rparr>)"

lemma init_db_complete:
  "init_db empty_schema = model_schema" "init_db (init_db s) = init_db s"
  "upgrade_head empty_schema = Some s' \<Longrightarrow> init_db s' = s'"
proof -
  show "init_db empty_schema = model_schema" by code_simp
  have names: "find_table s n \<noteq> None \<longleftrightarrow> n \<in> tbl_name ` set (tables s)" for s n
    by (auto simp: find_table_def find_None_iff)
  have all: "init_db s = s" if "tbl_name ` set (tables model_schema) \<subseteq> tbl_name ` set (tables s)" for s
  proof -
    have "filter (\<lambda>t. find_table s (tbl_name t) = None) (tables model_schema) = []"
      using that names by (auto simp: filter_empty_conv)
    then show ?thesis by (simp add: init_db_def)
  qed
  show "init_db (init_db s) = init_db s"
  proof (intro all subsetI)
    fix n assume "n \<in> tbl_name ` set (tables model_schema)"
    then obtain t where t: "t \<in> set (tables model_schema)" "n = tbl_name t" by blast
    show "n \<in> tbl_name ` set (tables (init_db s))"
      using names [of s n] t by (cases "find_table s n = None") (auto simp: init_db_def Let_def)
  qed
  show "init_db s' = s'" if "upgrade_head empty_schema = Some s'"
  proof (rule all)
    have "s' = head_schema" using that upgrade_head_eq by simp
    then have "set (tables s') = set head_tables" by (simp add: head_schema_def)
    moreover have "fst ` table_shape ` set head_tables =
        fst ` table_shape ` with_default ''users'' ''is_verified'' ''false'' ` set (tables model_schema)"
      by (simp add: head_shapes)
    ultimately show "tbl_name ` set (tables model_schema) \<subseteq> tbl_name ` set (tables s')"
      by (simp add: table_shape_def with_default_name image_image)
  qed
qed

subsection \<open>Celery\<close>

definition celery_urls :: "settings \<Rightarrow> string \<times> string" where
  "celery_urls cfg = (redis_url cfg, redis_url cfg)"

definition celery_conf :: pydict where
  "celery_conf =
     [(''task_serializer'', PStr ''json''), (''result_serializer'', PStr ''json''),
      (''accept_content'', PList [PStr ''json'']), (''timezone'', PStr ''UTC''), (''enable_utc'', PBool True),
      (''task_acks_late'', PBool True), (''worker_prefetch_multiplier'', PInt 1)]"

text \<open>Name of the entry, its task, its period in seconds.\<close>

definition beat_schedule :: "(string \<times> string \<times> int) list" where
  "beat_schedule =
     [(''cleanup-unverified-users-daily'', ''app.tasks.cleanup.cleanup_unverified_users'', 24 * 60 * 60)]"

text \<open>The names the task modules register under.\<close>

definition registered_tasks :: "string list" where
  "registered_tasks =
     [''app.tasks.cleanup.cleanup_unverified_users'', ''app.tasks.email.send_verification_email_task'',
      ''app.tasks.email.send_password_reset_email_task'', ''app.tasks.reports.generate_user_summary_report'']"

subsection \<open>The configuration parser\<close>

text \<open>
  \<open>ConfigParser\<close> with its basic interpolation: in a value \<open>%(name)s\<close> stands for another option
  and a doubled percent sign for one. Setting a value refuses every other percent sign.
\<close>

definition match_key :: "string \<Rightarrow> (string \<times> string) option" where
  "match_key s =
     (case s of
        p # o1 # r \<Rightarrow>
          (let name = takeWhile (\<lambda>c. c \<noteq> CHR '')'') r in
           case dropWhile (\<lambda>c. c \<noteq> CHR '')'') r of
             _ # e # rest \<Rightarrow>
               if p = CHR ''%'' \<and> o1 = CHR ''('' \<and> name \<noteq> [] \<and> e = CHR ''s'' then Some (name, rest) else None
           | _ \<Rightarrow> None)
      | _ \<Rightarrow> None)"

lemma match_key_length:
  assumes "match_key s = Some (name, rest)"
  shows "length rest < length s"
proof -
  obtain p o1 r x e where s: "s = p # o1 # r" "dropWhile (\<lambda>c. c \<noteq> CHR '')'') r = x # e # rest"
    using assms by (auto simp: match_key_def Let_def split: list.splits if_splits)
  then have "length (x # e # rest) \<le> length r" by (metis length_dropWhile_le)
  then show ?thesis using s(1) by simp
qed

lemma match_key_shorter [termination_simp]:
  "match_key (c # s) = Some (name, rest) \<Longrightarrow> length rest < Suc (length s)"
  "match_key (c # s) = Some (name, rest) \<Longrightarrow> length rest \<le> Suc (length s)"
  "match_key (c # d # t) = Some (name, rest) \<Longrightarrow> length rest < Suc (Suc (length t))"
  using match_key_length [of "c # s" name rest] match_key_length [of "c # d # t" name rest] by simp_all







subsection \<open>The migration environment\<close>






subsection \<open>Migrations reach the database of the settings, or do not start\<close>
















subsection \<open>What the assembled application serves\<close>

lemma plain_path_matches:
  assumes "list_all (\<lambda>s. \<not> is_parameter s) (segments t)"
  shows "path_matches t p \<longleftrightarrow> p = t"
  using plain_segments [OF assms] segments_eq by (auto simp: path_matches_def)

definition DOC_PATHS :: "string list" where
  "DOC_PATHS = [''/openapi.json'', ''/docs'', ''/redoc'', ''/docs/oauth2-redirect'']"

lemma doc_paths_plain: "list_all (\<lambda>t. list_all (\<lambda>s. \<not> is_parameter s) (segments t)) DOC_PATHS"
  by code_simp

lemma unserved_paths:
  "list_all (\<lambda>p. list_all (\<lambda>r. \<not> path_matches (ro_path r) p) application_routes) (''/metrics'' # DOC_PATHS)"
  by code_simp

context documentation
begin

lemma doc_places:
  assumes "r \<in> set (docs (create_app cfg))"
  shows "ro_path r \<in> set DOC_PATHS"
  using places [OF assms] by (auto simp: create_app_def DOC_PATHS_def split: if_splits)

lemma docs_aside:
  assumes "endpoint_at application_routes m p = Some e"
  shows "endpoint_at (docs (create_app cfg)) m p = None"
proof (rule ccontr)
  assume "endpoint_at (docs (create_app cfg)) m p \<noteq> None"
  then obtain r where r: "r \<in> set (docs (create_app cfg))" "path_matches (ro_path r) p"
    by (auto simp: endpoint_at_None)
  have "list_all (\<lambda>s. \<not> is_parameter s) (segments (ro_path r))"
    using doc_paths_plain doc_places [OF r(1)] unfolding list_all_iff by blast
  from plain_path_matches [OF this, of p] r(2) doc_places [OF r(1)] have "p \<in> set DOC_PATHS" by simp
  moreover obtain r' where "r' \<in> set application_routes" "path_matches (ro_path r') p"
    using endpoint_at_Some [OF assms] by blast
  ultimately show False using unserved_paths unfolding list_all_iff by auto
qed

lemma served_endpoint:
  "endpoint_at (served_routes docs cfg) m p =
    (case endpoint_at (docs (create_app cfg)) m p of
       Some e \<Rightarrow> Some e
     | None \<Rightarrow> if m = ''GET'' \<and> p = ''/metrics'' then Some ''metrics'' else endpoint_at application_routes m p)"
proof -
  define A where "A = under ''/api/v1'' v1_router @ under ''/api/v2'' v2_router @ v1_router"
  define M where "M = [route ''GET'' ''/metrics'' ''metrics'']"
  define B where "B = [route ''GET'' ''/'' ''main.root'', route ''GET'' ''/health'' ''main.health_check'']"
  have served: "served_routes docs cfg = docs (create_app cfg) @ A @ M @ B" and program: "application_routes = A @ B"
    unfolding served_routes_def main_app_def setup_metrics_def application_routes_def A_def M_def B_def
    by (simp_all only: append_assoc prod.case snd_conv)
  have "path_matches ''/metrics'' p \<longleftrightarrow> p = ''/metrics''"
    by (rule plain_path_matches) code_simp
  then have M: "endpoint_at M m p = (if m = ''GET'' \<and> p = ''/metrics'' then Some ''metrics'' else None)"
    by (auto simp: M_def endpoint_at_def route_def)
  have "\<forall>r \<in> set application_routes. \<not> path_matches (ro_path r) ''/metrics''"
    using unserved_paths unfolding list_all_iff by simp
  then have "endpoint_at (A @ B) m ''/metrics'' = None" by (simp add: endpoint_at_None program)
  then show ?thesis
    unfolding served program endpoint_at_append M by (auto simp: endpoint_at_append split: option.splits)
qed

end

text \<open>C39. The assembled application. Around whatever answers an HTTP request with a proper id, be it a
  route or one of the library middlewares that turn requests away (hosts, CORS), the middlewares
  that \<open>main.py\<close> registers leave the messages as they are but for the headers they owe (security, the
  request id, deprecation on the unversioned paths), and log the request once with its status;
  the metrics middleware, outermost, changes nothing of this. Every route of the program keeps its
  function, whatever the documentation adds. In production the application answers its own routes
  and \<open>GET /metrics\<close> and nothing else: neither the documentation nor the schema of the interface is
  served.\<close>

theorem application_assembled:
  assumes "documentation docs" and "instrumented render outer (lib (Instrumentator True [''/metrics'']))"
  shows "(\<forall>scope. sc_type scope = ''http'' \<longrightarrow> (\<forall>v. incoming_id scope = Some v \<longrightarrow> utf8_valid (map code v)) \<longrightarrow>
      (let rid = given_id scope new_id;
           answer = library_stack lib cfg app scope (Some rid);
           run = served_stack outer lib docs cfg new_id app scope None
       in run_raised run = run_raised answer \<and>
          run_sent run = map (extend_start (added_headers cfg scope rid)) (run_sent answer) @
            (if run_raised answer \<noteq> None \<and> \<not> starts_response (run_sent answer) then render internal_error else []) \<and>
          run_log run = run_log answer @ [completed scope rid (run_sent answer)] @
            (if run_raised answer \<noteq> None then [exception_log ''unhandled exception'' scope None None] else []))) \<and>
    (\<forall>m p e. endpoint_at application_routes m p = Some e \<longrightarrow> endpoint_at (served_routes docs cfg) m p = Some e) \<and>
    (is_production cfg \<longrightarrow>
      (\<forall>m p. endpoint_at (served_routes docs cfg) m p =
        (if m = ''GET'' \<and> p = ''/metrics'' then Some ''metrics'' else endpoint_at application_routes m p)) \<and>
      (\<forall>m. \<forall>p \<in> set DOC_PATHS. endpoint_at (served_routes docs cfg) m p = None))"
proof (intro conjI allI impI ballI)
  fix scope assume http: "sc_type scope = ''http''"
    and id: "\<forall>v. incoming_id scope = Some v \<longrightarrow> utf8_valid (map code v)"
  then have proper: "\<not> (\<exists>v. incoming_id scope = Some v \<and> \<not> utf8_valid (map code v))" by blast
  from response_headers_complete [OF http assms(2), where new_id = new_id and cfg = cfg and inner = "library_stack lib cfg app",
      unfolded if_not_P [OF proper]]
  show "let rid = given_id scope new_id;
           answer = library_stack lib cfg app scope (Some rid);
           run = served_stack outer lib docs cfg new_id app scope None
       in run_raised run = run_raised answer \<and>
          run_sent run = map (extend_start (added_headers cfg scope rid)) (run_sent answer) @
            (if run_raised answer \<noteq> None \<and> \<not> starts_response (run_sent answer) then render internal_error else []) \<and>
          run_log run = run_log answer @ [completed scope rid (run_sent answer)] @
            (if run_raised answer \<noteq> None then [exception_log ''unhandled exception'' scope None None] else [])"
    unfolding Let_def served_stack_eq .
next
  note served = documentation.served_endpoint [OF assms(1), of cfg]
  show "endpoint_at (served_routes docs cfg) m p = Some e" if a: "endpoint_at application_routes m p = Some e" for m p e
  proof -
    have "p \<noteq> ''/metrics''"
      using endpoint_at_Some [OF a] unserved_paths unfolding list_all_iff by auto
    then show ?thesis using served a documentation.docs_aside [OF assms(1) a] by simp
  qed
  assume "is_production cfg"
  then have "docs (create_app cfg) = []"
    using documentation.hidden [OF assms(1)] by (simp add: create_app_def docs_enabled_def)
  then have e: "endpoint_at (docs (create_app cfg)) m p = None" for m p by (simp add: endpoint_at_def)
  show all: "endpoint_at (served_routes docs cfg) m p =
      (if m = ''GET'' \<and> p = ''/metrics'' then Some ''metrics'' else endpoint_at application_routes m p)" for m p
    using served e by simp
  show "endpoint_at (served_routes docs cfg) m p = None" if "p \<in> set DOC_PATHS" for m p
  proof -
    have "\<forall>r \<in> set application_routes. \<not> path_matches (ro_path r) p"
      using that unserved_paths unfolding list_all_iff by simp
    then have "endpoint_at application_routes m p = None" by (simp add: endpoint_at_None)
    moreover have "p \<noteq> ''/metrics''" using that by (auto simp: DOC_PATHS_def)
    ultimately show ?thesis by (simp add: all)
  qed
qed

text \<open>A host that is not trusted is turned away by a library middleware, and yet the answer has the headers.\<close>

definition host_check :: "middleware \<Rightarrow> asgi_app \<Rightarrow> asgi_app" where
  "host_check m app =
     (case m of
        TrustedHost hosts \<Rightarrow> (\<lambda>_ _. \<lparr>run_sent = [ResponseStart 400 []], run_raised = None, run_log = []\<rparr>)
      | _ \<Rightarrow> app)"

definition greeting :: asgi_app where
  "greeting scope ctx = \<lparr>run_sent = [ResponseStart 200 [], ResponseBody []], run_raised = None, run_log = []\<rparr>"

theorem application_assembled_witness:
  "run_sent (served_stack (ref_error_middleware (\<lambda>_. [])) host_check fastapi_docs ex_production ''u'' greeting
     \<lparr>sc_type = ''http'', sc_method = ''GET'', sc_path = ''/api/v1/users/me'', sc_headers = []\<rparr> None) =
     [ResponseStart 400 (security_headers True @ [(''x-request-id'', ''u'')])] \<and>
   endpoint_at (served_routes fastapi_docs ex_production) ''GET'' ''/openapi.json'' = None \<and>
   endpoint_at (served_routes fastapi_docs ex_production) ''GET'' ''/health'' = Some ''main.health_check''"
proof -
  let ?scope = "\<lparr>sc_type = ''http'', sc_method = ''GET'', sc_path = ''/api/v1/users/me'', sc_headers = []\<rparr>"
  have prod: "is_production ex_production" by (simp add: ex_production_def is_production_def)
  have health: "endpoint_at application_routes ''GET'' ''/health'' = Some ''main.health_check''" by code_simp
  have doc: "''/openapi.json'' \<in> set DOC_PATHS" by (simp add: DOC_PATHS_def)
  have "host_check (Instrumentator True [''/metrics'']) = ref_instrument"
    by (intro ext) (simp add: host_check_def ref_instrument_def)
  then have "instrumented (\<lambda>_. []) (ref_error_middleware (\<lambda>_. [])) (host_check (Instrumentator True [''/metrics'']))"
    using ref_instrumented.instrumented_axioms [of "\<lambda>_. []"] by simp
  note assembled = application_assembled [where lib = host_check, OF fastapi.documentation_axioms this,
      where new_id = "''u''" and cfg = ex_production and app = greeting]
  have id: "incoming_id ?scope = None" by (simp add: incoming_id_def header_value_def)
  have "\<not> is_legacy_path ''/api/v1/users/me''" by code_simp
  then have "run_sent (served_stack (ref_error_middleware (\<lambda>_. [])) host_check fastapi_docs ex_production ''u'' greeting
      ?scope None) = [ResponseStart 400 (security_headers True @ [(''x-request-id'', ''u'')])]"
    using conjunct1 [OF assembled, rule_format, of ?scope] prod id
    by (simp add: Let_def library_stack_def host_check_def given_id_def added_headers_def REQUEST_ID_HEADER_def)
  then show ?thesis using assembled prod health doc by blast
qed

subsection \<open>The schedule\<close>

text \<open>What the beat announces is a task that some module registers; and since workers acknowledge a
  task only when it is done, one may run twice: the second run of the cleanup removes nothing.\<close>

lemma schedule_registered: "fst ` snd ` set beat_schedule \<subseteq> set registered_tasks"
  by (simp add: beat_schedule_def registered_tasks_def)

end
