(* ===== verification/Expiry.thy ===== *)
theory Expiry
  imports UserRules Startup
begin

text \<open>
  The schedule, the cleanup and the requests together: how long an account can stay unverified. The
  beat announces the cleanup once a day (\<open>core/celery_app.py\<close>), the job removes what is unverified
  for a week (\<open>tasks/cleanup.py\<close>), and no request but an administrator's makes a verified account
  unverified again or changes when one was created.
\<close>

text \<open>The period at which the beat announces the cleanup.\<close>

definition cleanup_period :: time where
  "cleanup_period =
     (case map_of (map (\<lambda>(_, task, seconds). (task, seconds)) beat_schedule)
        ''app.tasks.cleanup.cleanup_unverified_users'' of
        None \<Rightarrow> 0 | Some n \<Rightarrow> n * second)"

text \<open>What may happen from a state on: requests, but for an administrator who sets an account to
  unverified, and further runs of the cleanup.\<close>

inductive meanwhile :: "'r env \<Rightarrow> time \<Rightarrow> 'r app_state \<times> 'o \<Rightarrow> time \<Rightarrow> 'r app_state \<times> 'o \<Rightarrow> bool"
  for E t0 so0 where
  nothing: "meanwhile E t0 so0 t0 so0"
| request: "meanwhile E t0 so0 t so \<Longrightarrow> t \<le> now \<Longrightarrow>
    (\<And>cred uid a. rq \<noteq> UpdateUserStatus cred uid a (Some False)) \<Longrightarrow>
    handle E P x now rq so = (res, so') \<Longrightarrow> meanwhile E t0 so0 now so'"
| cleanup: "meanwhile E t0 so0 t (s, ob) \<Longrightarrow> t \<le> now \<Longrightarrow>
    cleanup_unverified_users now s = (n, s') \<Longrightarrow> meanwhile E t0 so0 now (s', ob)"

inductive_cases meanwhileE: "meanwhile E t0 so0 t so"

text \<open>Every unverified account was created at \<open>since\<close> or later.\<close>

definition unverified_since :: "time \<Rightarrow> user \<Rightarrow> bool" where
  "unverified_since since u \<longleftrightarrow> user_is_verified u \<or> since \<le> user_created_at u"

interpretation unverified: user_rule "unverified_since since" valid "\<lambda>_. True" "\<lambda>t. since \<le> t" "\<lambda>v. v \<noteq> Some False"
  for since :: time and valid :: email_validator
  by unfold_locales (auto simp: unverified_since_def)

lemma meanwhile_later: "meanwhile E t0 so0 t so \<Longrightarrow> t0 \<le> t"
  by (induction rule: meanwhile.induct) auto

lemma meanwhile_unverified:
  assumes "meanwhile E t0 so0 t so" and "ruled (unverified_since since) (fst so0)" and "since \<le> t0"
  shows "ruled (unverified_since since) (fst so)"
  using assms(1)
proof (induction rule: meanwhile.induct)
  case (request t so now rq P x res so')
  obtain s ob where so: "so = (s, ob)" by fastforce
  have "since \<le> now" using meanwhile_later [OF request(1)] request(2) assms(3) by simp
  moreover have "identities_ok (\<lambda>_. True) (p_clients P)" by (simp add: identities_ok_def)
  ultimately have "ruled (unverified_since since) (fst (snd (handle E P x now rq (s, ob))))"
    using request by (intro unverified.ruled_handle [where valid = "p_valid P"]) (auto simp: so)
  with request(4) show ?case by (simp add: so)
next
  case (cleanup t s ob now n s')
  then show ?case using every_user_cleanup [of "unverified_since since" s now] by simp
qed (use assms(2) in simp)

text \<open>What the job leaves behind.\<close>

lemma cleanup_leaves:
  assumes "cleanup_unverified_users t s = (n, s')"
  shows "ruled (unverified_since (t - 7 * 86400 * second)) s'"
proof -
  let ?gone = "user_id ` set (stale_users (st_db s) t)"
  have "users (st_db s') = filter (\<lambda>u. user_id u \<notin> ?gone) (users (st_db s))"
    using assms by (auto simp: cleanup_unverified_users_def Let_def fold_delete)
  then show ?thesis
    by (auto simp: every_user_def list_all_iff unverified_since_def stale_users_def
        UNVERIFIED_USER_MAX_AGE_DAYS_def Let_def not_less)
qed

text \<open>C38. No account stays unverified for more than eight days. As long as the beat announces the cleanup
  on schedule, whatever else is requested in between (but for an administrator who sets an account
  to unverified), every account that is not verified was registered less than the week of the job
  and the day of the beat ago, so an address squatted by somebody who cannot verify it is free again.\<close>

theorem unverified_accounts_expire:
  assumes "cleanup_unverified_users t s = (n, s1)" and "meanwhile E t (s1, ob) now (s2, ob2)"
    and "now - t \<le> cleanup_period"
    and "u \<in> set (users (st_db s2))" and "\<not> user_is_verified u"
  shows "now - user_created_at u \<le> 8 * 86400 * second"
proof -
  have "ruled (unverified_since (t - 7 * 86400 * second)) s2"
    using meanwhile_unverified [OF assms(2), of "t - 7 * 86400 * second"] cleanup_leaves [OF assms(1)] by simp
  then have "t - 7 * 86400 * second \<le> user_created_at u"
    using every_userD assms(4,5) unfolding unverified_since_def by blast
  moreover have "cleanup_period = 86400 * second" by (simp add: cleanup_period_def beat_schedule_def)
  ultimately show ?thesis using assms(3) by simp
qed

text \<open>The exception: an account of any age that an administrator sets to unverified goes with the next
  cleanup, and its files with it.\<close>

lemma unverified_by_administrator:
  assumes "update_user_status E now tok uid None (Some False) s = (Inr r, s1)"
    and "get_user (st_db s) uid = Some u" and "user_created_at u < t - 7 * 86400 * second"
    and "cleanup_unverified_users t s1 = (n, s2)"
  shows "get_user (st_db s2) uid = None \<and> [f \<leftarrow> file_uploads (st_db s2). file_user_id f = uid] = []"
proof -
  let ?v = "u\<lparr>user_is_verified := False\<rparr>"
  have u: "user_id u = uid" "u \<in> set (users (st_db s))" using get_user_SomeD [OF assms(2)] by simp_all
  have up: "update_user (st_db s) ?v = Inr (st_db s1)"
    using assms(1,2)
    by (auto simp: update_user_status_def Let_def dest!: require_permissions_Inr split: sum.splits)
  then have "?v \<in> set (users (st_db s1))"
    using u by (auto simp: update_user_Inr row_put_def)
  then have "?v \<in> set (stale_users (st_db s1) t)"
    using assms(3) by (simp add: stale_users_def UNVERIFIED_USER_MAX_AGE_DAYS_def)
  define ids where "ids = user_id ` set (stale_users (st_db s1) t)"
  from imageI [OF \<open>?v \<in> set (stale_users (st_db s1) t)\<close>, of user_id] u(1) have gone: "uid \<in> ids"
    by (simp add: ids_def)
  have "users (st_db s2) = filter (\<lambda>u. user_id u \<notin> ids) (users (st_db s1))"
    "file_uploads (st_db s2) = filter (\<lambda>f. file_user_id f \<notin> ids) (file_uploads (st_db s1))"
    using assms(4) by (auto simp: cleanup_unverified_users_def Let_def fold_delete ids_def)
  with gone show ?thesis by (auto simp: get_user_None filter_empty_conv)
qed

text \<open>A cleanup finds nothing yet, the account is six days old; a day later it is one of the oldest
  there can be.\<close>

theorem unverified_accounts_expire_witness:
  "meanwhile ex_env (6 * 86400 * second) (ex_registered, Map.empty :: ref_objects)
     (7 * 86400 * second) (ex_registered, Map.empty) \<and>
   7 * 86400 * second - user_created_at ex_user \<le> 8 * 86400 * second"
proof -
  have u: "users (st_db ex_registered) = [ex_user]" "\<not> user_is_verified ex_user" "user_created_at ex_user = 0"
    by (simp_all add: ex_registered_def ex_user_def)
  have clean: "cleanup_unverified_users t ex_registered = (0, ex_registered)" if "t \<le> 7 * 86400 * second" for t
    using that u by (simp add: cleanup_unverified_users_def stale_users_def UNVERIFIED_USER_MAX_AGE_DAYS_def)
  have path: "meanwhile ex_env (6 * 86400 * second) (ex_registered, Map.empty :: ref_objects)
      (7 * 86400 * second) (ex_registered, Map.empty)"
    by (rule meanwhile.cleanup [OF meanwhile.nothing _ clean]) simp_all
  moreover have "7 * 86400 * second - 6 * 86400 * second \<le> cleanup_period"
    by (simp add: cleanup_period_def beat_schedule_def)
  ultimately show ?thesis
    using unverified_accounts_expire [OF clean path, of ex_user] u by simp
qed

end
