(* ===== verification/Logging.thy ===== *)
theory Logging
  imports Middleware Json
begin

text \<open>
  The log of \<open>app/core/logging.py\<close>: the JSON formatter, \<open>setup_logging\<close>, and what Python's
  \<open>logging\<close> does with a call on the way to them (the level of a logger, the record made of the
  call). Every log call of the program is a constructor of \<open>program_log\<close>. The lemmas show that
  a call gives one line of printable ASCII which reads back as what was logged, whatever text a
  client brought into it.
\<close>

subsection \<open>Records\<close>

text \<open>\<open>set(vars(logging.makeLogRecord({})).keys())\<close> in Python 3.12, the version of the image.\<close>

definition STANDARD_RECORD_ATTRS :: "string list" where
  "STANDARD_RECORD_ATTRS =
     [''name'', ''msg'', ''args'', ''levelname'', ''levelno'', ''pathname'', ''filename'', ''module'',
      ''exc_info'', ''exc_text'', ''stack_info'', ''lineno'', ''funcName'', ''created'', ''msecs'',
      ''relativeCreated'', ''thread'', ''threadName'', ''processName'', ''process'', ''taskName'']"

text \<open>A call of a logger, with the text of the traceback when it carries an exception.\<close>

record log_call =
  lc_level :: string
  lc_logger :: string
  lc_message :: string
  lc_extra :: pydict
  lc_exception :: "string option"

text \<open>The record made of it: \<open>le_dict\<close> is its \<open>__dict__\<close>.\<close>

record log_entry =
  le_levelname :: string
  le_name :: string
  le_message :: string
  le_dict :: pydict
  le_exception :: "string option"

text \<open>\<open>Logger.makeRecord\<close>: an extra that would overwrite an attribute is a \<open>KeyError\<close>, here \<open>None\<close>.
  \<open>attrs\<close> gives the values of the standard attributes.\<close>

definition make_record :: "(string \<Rightarrow> pyval) \<Rightarrow> log_call \<Rightarrow> log_entry option" where
  "make_record attrs c =
     (if list_ex (\<lambda>(k, _). k \<in> set [''message'', ''asctime''] \<or> k \<in> set STANDARD_RECORD_ATTRS) (lc_extra c)
      then None
      else Some \<lparr>le_levelname = lc_level c, le_name = lc_logger c, le_message = lc_message c,
                 le_dict = map (\<lambda>k. (k, attrs k)) STANDARD_RECORD_ATTRS @ lc_extra c,
                 le_exception = lc_exception c\<rparr>)"

subsection \<open>The formatter\<close>

text \<open>\<open>default=str\<close>: what \<open>json\<close> does not write goes in as its text. Of the values of the model
  these are times.\<close>

fun default_str :: "(time \<Rightarrow> string) \<Rightarrow> pyval \<Rightarrow> pyval" where
  "default_str ts (PTime t) = PStr (ts t)"
| "default_str ts (PList vs) = PList (map (default_str ts) vs)"
| "default_str ts (PDict d) = PDict (map (\<lambda>kv. (fst kv, default_str ts (snd kv))) d)"
| "default_str ts v = v"

definition payload_fields :: "string \<Rightarrow> string option \<Rightarrow> log_entry \<Rightarrow> pydict" where
  "payload_fields now request_id e =
     [(''timestamp'', PStr now), (''level'', PStr (le_levelname e)), (''logger'', PStr (le_name e)),
      (''message'', PStr (le_message e)),
      (''request_id'', case request_id of None \<Rightarrow> PNone | Some r \<Rightarrow> PStr r)]"

fun add_extras :: "pydict \<Rightarrow> pydict \<Rightarrow> pydict" where
  "add_extras payload [] = payload"
| "add_extras payload ((key, v) # kvs) =
     add_extras (if key \<notin> set STANDARD_RECORD_ATTRS \<and> key \<notin> fst ` set payload
                 then dict_set payload key v else payload) kvs"

definition log_payload :: "string \<Rightarrow> string option \<Rightarrow> log_entry \<Rightarrow> pydict" where
  "log_payload now request_id e =
     (let payload = add_extras (payload_fields now request_id e) (le_dict e) in
      case le_exception e of
        None \<Rightarrow> payload
      | Some trace \<Rightarrow> dict_set payload ''exception'' (PStr trace))"

text \<open>The line, without the newline the stream handler ends it with. \<open>None\<close> is an exception of
  \<open>json.dumps\<close>, which the handler reports on the standard error stream instead of writing a line.\<close>

definition json_format ::
  "float_writer \<Rightarrow> (time \<Rightarrow> string) \<Rightarrow> string \<Rightarrow> string option \<Rightarrow> log_entry \<Rightarrow> string option" where
  "json_format fr ts now request_id e =
     json_write fr (default_str ts (PDict (log_payload now request_id e)))"

subsection \<open>Loggers\<close>

datatype log_handler = JsonStdout | OtherHandler string

text \<open>The root logger and the levels set on other loggers by name, 0 being \<open>NOTSET\<close>.\<close>

record logging_state =
  root_level :: nat
  root_handlers :: "log_handler list"
  logger_level :: "string \<Rightarrow> nat"

definition level_number :: "string \<Rightarrow> nat option" where
  "level_number name =
     map_of [(''CRITICAL'', 50), (''FATAL'', 50), (''ERROR'', 40), (''WARN'', 30), (''WARNING'', 30),
             (''INFO'', 20), (''DEBUG'', 10), (''NOTSET'', 0)] name"

definition setup_logging :: "settings \<Rightarrow> logging_state \<Rightarrow> (string + unit) \<times> logging_state" where
  "setup_logging cfg st =
     (let st = st\<lparr>root_handlers := []\<rparr>;
          st = st\<lparr>root_handlers := root_handlers st @ [JsonStdout]\<rparr>
      in case level_number (log_level cfg) of
           None \<Rightarrow> (Inl ''ValueError'', st)
         | Some n \<Rightarrow>
             (let st = st\<lparr>root_level := n\<rparr>
              in (Inr (), st\<lparr>logger_level := (logger_level st)(''uvicorn.access'' := 30)\<rparr>)))"

text \<open>The loggers above one in the hierarchy, nearest first, down to but without the root.\<close>

fun parents :: "string \<Rightarrow> string list" where
  "parents [] = []"
| "parents (c # s) = (map (\<lambda>p. c # p) (parents s)) @ (if c = CHR ''.'' then [[]] else [])"

definition effective_level :: "logging_state \<Rightarrow> string \<Rightarrow> nat" where
  "effective_level st name =
     (case filter (\<lambda>l. l \<noteq> 0) (map (logger_level st) (name # parents name)) of
        l # _ \<Rightarrow> l
      | [] \<Rightarrow> root_level st)"

text \<open>What a call sends to the handlers of the root; the program sets none on other loggers.\<close>

definition log_to ::
  "(string \<Rightarrow> pyval) \<Rightarrow> logging_state \<Rightarrow> log_call \<Rightarrow> string + (log_handler \<times> log_entry) list" where
  "log_to attrs st c =
     (case level_number (lc_level c) of
        None \<Rightarrow> Inl ''AttributeError''
      | Some n \<Rightarrow>
          if n < effective_level st (lc_logger c) then Inr []
          else (case make_record attrs c of
                  None \<Rightarrow> Inl ''KeyError''
                | Some e \<Rightarrow> Inr (map (\<lambda>h. (h, e)) (root_handlers st))))"

subsection \<open>The calls of the program\<close>

datatype program_log =
    RequestCompleted scope int rat
  | HttpExceptionLogged scope int string
  | ValidationFailed scope pyval
  | UnhandledLogged scope string
  | PublishFailed pyval string
  | MalformedMessage string
  | ListenerCrashed string

definition request_extra :: "scope \<Rightarrow> pydict" where
  "request_extra scope =
     [(''http_method'', PStr (sc_method scope)), (''http_path'', PStr (sc_path scope))]"

fun program_call :: "program_log \<Rightarrow> log_call" where
  "program_call (RequestCompleted scope status ms) =
     \<lparr>lc_level = ''INFO'', lc_logger = ''app.request'', lc_message = ''request completed'',
      lc_extra = request_extra scope @ [(''http_status'', PInt status), (''duration_ms'', PFloat ms)],
      lc_exception = None\<rparr>"
| "program_call (HttpExceptionLogged scope status detail) =
     \<lparr>lc_level = ''WARNING'', lc_logger = ''app.errors'', lc_message = ''http exception'',
      lc_extra = request_extra scope @ [(''http_status'', PInt status), (''detail'', PStr detail)],
      lc_exception = None\<rparr>"
| "program_call (ValidationFailed scope errors) =
     \<lparr>lc_level = ''WARNING'', lc_logger = ''app.errors'', lc_message = ''request validation failed'',
      lc_extra = request_extra scope @ [(''errors'', errors)], lc_exception = None\<rparr>"
| "program_call (UnhandledLogged scope trace) =
     \<lparr>lc_level = ''ERROR'', lc_logger = ''app.errors'', lc_message = ''unhandled exception'',
      lc_extra = request_extra scope, lc_exception = Some trace\<rparr>"
| "program_call (PublishFailed user_id trace) =
     \<lparr>lc_level = ''WARNING'', lc_logger = ''app.websocket'',
      lc_message = ''failed to publish ws notification, dropping'',
      lc_extra = [(''user_id'', user_id)], lc_exception = Some trace\<rparr>"
| "program_call (MalformedMessage channel) =
     \<lparr>lc_level = ''WARNING'', lc_logger = ''app.websocket'',
      lc_message = ''dropped malformed ws pubsub message'',
      lc_extra = [(''channel'', PStr channel)], lc_exception = None\<rparr>"
| "program_call (ListenerCrashed trace) =
     \<lparr>lc_level = ''ERROR'', lc_logger = ''app.websocket'',
      lc_message = ''ws pubsub listener crashed, retrying in 5s'', lc_extra = [], lc_exception = Some trace\<rparr>"

text \<open>The part of a call that the middleware model keeps.\<close>

definition kept :: "string option \<Rightarrow> log_call \<Rightarrow> log_record" where
  "kept request_id c =
     \<lparr>log_message = lc_message c,
      log_method = (case map_of (lc_extra c) ''http_method'' of Some (PStr m) \<Rightarrow> m | _ \<Rightarrow> []),
      log_path = (case map_of (lc_extra c) ''http_path'' of Some (PStr p) \<Rightarrow> p | _ \<Rightarrow> []),
      log_status = (case map_of (lc_extra c) ''http_status'' of Some (PInt n) \<Rightarrow> Some n | _ \<Rightarrow> None),
      log_request_id = request_id\<rparr>"

subsection \<open>Floats with two decimals\<close>

text \<open>The only float the program logs is a duration rounded to two decimals; below \<open>10^15\<close> Python
  writes such a number without an exponent, its last zero left out unless it is the only
  decimal.\<close>

definition two_decimals :: "rat \<Rightarrow> bool" where
  "two_decimals q \<longleftrightarrow> 0 \<le> q \<and> q < 10 ^ 15 \<and> of_int \<lfloor>q * 100\<rfloor> = q * 100"

definition decimals :: "nat \<Rightarrow> string" where
  "decimals k = (if k mod 10 = 0 then [digit_char (k div 10)] else [digit_char (k div 10), digit_char (k mod 10)])"

definition float_repr :: float_writer where
  "float_repr q =
     (if \<not> two_decimals q then None
      else (let k = nat \<lfloor>q * 100\<rfloor> in Some (nat_digits (k div 100) @ ''.'' @ decimals (k mod 100))))"

lemma decimals_decimal: "k < 100 \<Longrightarrow> c \<in> set (decimals k) \<Longrightarrow> is_decimal_char c"
  by (auto simp: decimals_def digit_char_decimal split: if_splits)

lemma take_decimals:
  assumes "\<forall>c \<in> set ds. is_decimal_char c" and "ends_number r"
  shows "digits_of (ds @ r) = ds" "after_digits (ds @ r) = r"
proof -
  have "takeWhile is_decimal_char r = []" "dropWhile is_decimal_char r = r"
    using assms(2) by (auto simp: ends_number_def split: list.splits)
  then show "digits_of (ds @ r) = ds" "after_digits (ds @ r) = r"
    using assms(1) by (simp_all add: digits_of_def after_digits_def takeWhile_append2 dropWhile_append2)
qed

lemma dot_not_decimal: "\<not> is_decimal_char CHR ''.''"
  by (simp add: is_decimal_char_def code_def)

lemma integer_part_before_dot: "integer_part (nat_digits n @ CHR ''.'' # r) = nat_digits n"
proof (cases "n = 0")
  case True
  then show ?thesis by (simp add: integer_part_def nat_digits_0)
next
  case False
  obtain c ds where c: "nat_digits n = c # ds" by (meson neq_Nil_conv nat_digits_not_Nil)
  have "c \<noteq> CHR ''0''" using False nat_digits_zero [of n] c by simp
  moreover have "digits_of (nat_digits n @ CHR ''.'' # r) = nat_digits n"
    using nat_digits_decimal dot_not_decimal by (simp add: digits_of_def takeWhile_append2)
  ultimately show ?thesis using c by (simp add: integer_part_def)
qed

lemma digits_value_snoc: "is_decimal_char c \<Longrightarrow> digits_value (s @ [c]) = 10 * digits_value s + digit_value c"
  by (simp add: digits_value_def)

lemma decimals_value:
  assumes "k < 100"
  shows "(of_nat (digits_value (nat_digits a @ decimals k)) / 10 ^ length (decimals k) :: rat) =
    of_nat (100 * a + k) / 100"
proof (cases "k mod 10 = 0")
  case True
  then have k: "k = 10 * (k div 10)" by presburger
  have "digits_value (nat_digits a @ decimals k) = 10 * a + k div 10"
    using True assms
    by (simp add: decimals_def digits_value_snoc digit_char_decimal digits_value_nat_digits digit_value_char)
  moreover have "length (decimals k) = 1" using True by (simp add: decimals_def)
  moreover have "(of_nat (100 * a + k) :: rat) = 10 * of_nat (10 * a + k div 10)"
    by (subst k) (simp add: algebra_simps)
  ultimately show ?thesis by simp
next
  case False
  have "digits_value (nat_digits a @ [digit_char (k div 10)] @ [digit_char (k mod 10)]) =
      10 * (10 * a + k div 10) + k mod 10"
    using assms
    by (simp only: append_assoc [symmetric] digits_value_snoc digit_char_decimal digits_value_nat_digits
        digit_value_char)
  moreover have "10 * (10 * a + k div 10) + k mod 10 = 100 * a + k" by presburger
  ultimately show ?thesis using False by (simp add: decimals_def)
qed

lemma read_two_decimals:
  assumes "two_decimals q" and "float_repr q = Some p" and "ends_number r"
  shows "read_value (Suc n) (p @ r) = Some (PFloat q, r)"
proof -
  let ?k = "nat \<lfloor>q * 100\<rfloor>"
  let ?a = "?k div 100" and ?ds = "decimals (?k mod 100)"
  have p: "p = nat_digits ?a @ CHR ''.'' # ?ds" using assms(1,2) by (simp add: float_repr_def Let_def)
  have k: "(of_nat ?k :: rat) = q * 100" using assms(1) by (simp add: two_decimals_def)
  have ds: "\<forall>c \<in> set ?ds. is_decimal_char c" by (auto intro: decimals_decimal [of "?k mod 100"])
  have ne: "?ds \<noteq> []" by (simp add: decimals_def)
  have frac: "read_fraction (CHR ''.'' # ?ds @ r) = (?ds, r)"
    using ne take_decimals [OF ds assms(3)] by (simp add: read_fraction_def)
  have "float_value (nat_digits ?a) ?ds None = of_nat (100 * ?a + ?k mod 100) / 100"
    using decimals_value [of "?k mod 100" ?a] by (simp add: float_value_def)
  also have "\<dots> = q" using k by simp
  finally have v: "float_value (nat_digits ?a) ?ds None = q" .
  have "read_magnitude False (p @ r) = Some (PFloat q, r)"
    using ne frac take_digits(4) [OF assms(3)] v
    by (simp add: read_magnitude_def p integer_part_before_dot)
  moreover obtain c t where c: "nat_digits ?a = c # t" by (meson neq_Nil_conv nat_digits_not_Nil)
  then have "is_decimal_char c" using nat_digits_decimal [of c ?a] by simp
  then have "c \<notin> {CHR 34, CHR ''{'', CHR ''['', CHR ''n'', CHR ''t'', CHR ''f'', CHR ''-''}"
    by (auto simp: is_decimal_char_def code_def)
  ultimately show ?thesis using c p by (simp add: read_number_def)
qed

interpretation two_decimals: float_format float_repr two_decimals
proof
  fix q assume "two_decimals q"
  then show "\<exists>p. float_repr q = Some p \<and> p \<noteq> [] \<and> printable p"
    using decimal_printable [OF decimals_decimal [of "nat \<lfloor>q * 100\<rfloor> mod 100"]]
    by (simp add: float_repr_def Let_def nat_digits_printable code_def)
next
  fix q p assume p: "float_repr q = Some p"
  obtain c t where c: "nat_digits (nat \<lfloor>q * 100\<rfloor> div 100) = c # t" by (meson neq_Nil_conv nat_digits_not_Nil)
  then have "is_decimal_char c" using nat_digits_decimal [of c] by (metis list.set_intros(1))
  then show "starts_value p"
    using p c by (auto simp: float_repr_def Let_def starts_value_Cons is_decimal_char_def is_json_space_def code_def
        split: if_splits)
qed (rule read_two_decimals)

subsection \<open>Properties\<close>

text \<open>Extras never take the place of a field of the record or of another extra.\<close>

lemma add_extras_standard:
  "set ks \<subseteq> set STANDARD_RECORD_ATTRS \<Longrightarrow> add_extras p (map (\<lambda>k. (k, attrs k)) ks @ ex) = add_extras p ex"
  by (induction ks) auto

lemma add_extras_distinct:
  "distinct (map fst ex) \<Longrightarrow>
   add_extras p ex = p @ filter (\<lambda>(k, _). k \<notin> set STANDARD_RECORD_ATTRS \<and> k \<notin> fst ` set p) ex"
proof (induction ex arbitrary: p)
  case (Cons kv ex)
  obtain k v where kv: "kv = (k, v)" by fastforce
  have "filter (\<lambda>(i, _). i \<notin> set STANDARD_RECORD_ATTRS \<and> i \<notin> fst ` set (p @ [(k, v)])) ex =
      filter (\<lambda>(i, _). i \<notin> set STANDARD_RECORD_ATTRS \<and> i \<notin> fst ` set p) ex"
    using Cons.prems kv by (intro filter_cong) (force simp: image_iff)+
  then show ?case using Cons kv by (auto simp: dict_set_new)
qed simp

definition RESERVED :: "string list" where
  "RESERVED = [''timestamp'', ''level'', ''logger'', ''message'', ''request_id'', ''exception'', ''asctime''] @
     STANDARD_RECORD_ATTRS"

text \<open>What a line says of a call.\<close>

definition logged :: "string \<Rightarrow> string option \<Rightarrow> log_call \<Rightarrow> pydict" where
  "logged now request_id c =
     [(''timestamp'', PStr now), (''level'', PStr (lc_level c)), (''logger'', PStr (lc_logger c)),
      (''message'', PStr (lc_message c)),
      (''request_id'', case request_id of None \<Rightarrow> PNone | Some r \<Rightarrow> PStr r)] @ lc_extra c @
     (case lc_exception c of None \<Rightarrow> [] | Some trace \<Rightarrow> [(''exception'', PStr trace)])"

lemma make_record_extra:
  assumes "make_record attrs c = Some e" and "distinct (map fst (lc_extra c))"
    and "\<forall>kv \<in> set (lc_extra c). fst kv \<notin> set RESERVED"
  shows "log_payload now rid e = logged now rid c"
proof -
  have e: "le_levelname e = lc_level c" "le_name e = lc_logger c" "le_message e = lc_message c"
    "le_exception e = lc_exception c"
    "le_dict e = map (\<lambda>k. (k, attrs k)) STANDARD_RECORD_ATTRS @ lc_extra c"
    using assms(1) by (auto simp: make_record_def split: if_splits)
  let ?p = "payload_fields now rid e"
  have "filter (\<lambda>(k, _). k \<notin> set STANDARD_RECORD_ATTRS \<and> k \<notin> fst ` set ?p) (lc_extra c) = lc_extra c"
    using assms(3) by (intro filter_True) (fastforce simp: RESERVED_def payload_fields_def)
  then have x: "add_extras ?p (le_dict e) = ?p @ lc_extra c"
    using add_extras_distinct [OF assms(2), of ?p] by (simp add: e(5) add_extras_standard)
  have "''exception'' \<notin> fst ` set (?p @ lc_extra c)"
    using assms(3) by (fastforce simp: RESERVED_def payload_fields_def)
  then show ?thesis
    by (simp add: log_payload_def x dict_set_new e(4) Let_def logged_def split: option.split)
      (simp add: payload_fields_def e)
qed

text \<open>No call of the program uses a reserved name, or a name twice.\<close>

lemma program_extras:
  "distinct (map fst (lc_extra (program_call pl)))"
  "\<forall>kv \<in> set (lc_extra (program_call pl)). fst kv \<notin> set RESERVED"
  by (cases pl; simp add: request_extra_def RESERVED_def STANDARD_RECORD_ATTRS_def)+

lemma program_record: "\<exists>e. make_record attrs (program_call pl) = Some e"
  using program_extras(2) [of pl]
  by (auto simp: make_record_def RESERVED_def list_ex_iff)

text \<open>The loggers of the program take their level from the root once it is set up.\<close>

lemma program_level: "\<exists>n. level_number (lc_level (program_call pl)) = Some n \<and> 20 \<le> n"
  by (cases pl) (simp_all add: level_number_def)

lemma program_logger:
  "lc_logger (program_call pl) \<in> {''app.request'', ''app.errors'', ''app.websocket''}"
  by (cases pl) simp_all

lemma setup_levels:
  assumes "build_settings raw origins hosts proxies = Inr cfg"
  shows "\<exists>n. level_number (log_level cfg) = Some n \<and> n \<in> {10, 20, 30, 40, 50} \<and>
    setup_logging cfg st = (Inr (), \<lparr>root_level = n, root_handlers = [JsonStdout],
      logger_level = (logger_level st)(''uvicorn.access'' := 30)\<rparr>)"
proof -
  have "log_level cfg \<in> set LOG_LEVELS"
    using assms by (auto simp: build_settings_Inr normalized_settings_def)
  then show ?thesis by (auto simp: LOG_LEVELS_def level_number_def setup_logging_def)
qed

text \<open>The records of the middleware model are the calls of this one.\<close>

lemma kept_calls:
  "completed scope rid sent = kept (Some rid) (program_call (RequestCompleted scope (status_code 500 sent) ms))"
  "snd (handle_http_exception D scope ctx status detail hs) =
     kept ctx (program_call (HttpExceptionLogged scope status detail))"
  "snd (handle_validation_error D scope ctx errors) =
     kept ctx (program_call (ValidationFailed scope (PStr errors)))"
  "snd (handle_unhandled_exception scope ctx exc) = kept ctx (program_call (UnhandledLogged scope trace))"
  by (simp_all add: completed_def kept_def request_extra_def handle_http_exception_def
      handle_validation_error_def handle_unhandled_exception_def exception_log_def)

context float_format
begin

lemma line_written:
  assumes "make_record attrs c = Some e" and "distinct (map fst (lc_extra c))"
    and "\<forall>kv \<in> set (lc_extra c). fst kv \<notin> set RESERVED"
    and "\<forall>kv \<in> set (lc_extra c). writable fl (default_str ts (snd kv))"
  shows "\<exists>line. json_format fr ts now rid e = Some line \<and> printable line \<and>
    json_loads line = Loaded (default_str ts (PDict (logged now rid c)))"
proof -
  let ?v = "default_str ts (PDict (logged now rid c))"
  have "distinct (map fst (logged now rid c))"
    using assms(2,3) by (force simp: logged_def RESERVED_def split: option.split)
  then have w: "writable fl ?v"
    using assms(4) by (auto simp: logged_def comp_def split: option.splits)
  then obtain line where line: "json_write fr ?v = Some line" using json_dumps_defined(1) by blast
  moreover have "json_format fr ts now rid e = json_write fr ?v"
    using make_record_extra [OF assms(1-3)] by (simp add: json_format_def)
  ultimately show ?thesis using json_printable(1) [OF w line] json_round_trip [OF line w]
    by (metis line)
qed

end

text \<open>C37. Whatever came before it, \<open>setup_logging\<close> with validated settings leaves one JSON handler on
  the root and quiets the access log. Every log call of the program that its level lets through
  is then one line, printable ASCII throughout, and it reads back as the timestamp, level, logger,
  message and request id of the call with its extras and its traceback: a path, header or
  channel name from outside cannot forge a line or a field. Calls below the level write nothing.
  What is asked of the values is that \<open>json\<close> can write them (no integer of more than 4300 digits).\<close>

theorem log_lines_are_sound:
  assumes "build_settings raw origins hosts proxies = Inr cfg"
    and "setup_logging cfg st = (res, st')"
    and "list_all (\<lambda>name. logger_level st name = 0) [''app'', ''app.request'', ''app.errors'', ''app.websocket'']"
    and "float_format fr fl"
    and "list_all (\<lambda>kv. writable fl (default_str ts (snd kv))) (lc_extra (program_call pl))"
  shows "res = Inr () \<and> root_handlers st' = [JsonStdout] \<and> effective_level st' ''uvicorn.access'' = 30 \<and>
    (case level_number (lc_level (program_call pl)) of
       None \<Rightarrow> False
     | Some n \<Rightarrow>
         if n < root_level st' then log_to attrs st' (program_call pl) = Inr []
         else \<exists>e line. log_to attrs st' (program_call pl) = Inr [(JsonStdout, e)] \<and>
                json_format fr ts now rid e = Some line \<and> printable line \<and>
                json_loads line = Loaded (default_str ts (PDict (logged now rid (program_call pl)))))"
proof -
  let ?c = "program_call pl"
  obtain m where m: "res = Inr ()" "st' = \<lparr>root_level = m, root_handlers = [JsonStdout],
      logger_level = (logger_level st)(''uvicorn.access'' := 30)\<rparr>"
    using setup_levels [OF assms(1), of st] assms(2) by auto
  obtain n where n: "level_number (lc_level ?c) = Some n" using program_level by blast
  obtain e where e: "make_record attrs ?c = Some e" using program_record by blast
  obtain line where line: "json_format fr ts now rid e = Some line" "printable line"
    "json_loads line = Loaded (default_str ts (PDict (logged now rid ?c)))"
    using float_format.line_written [OF assms(4) e program_extras assms(5) [unfolded list_all_iff]] by blast
  have "effective_level st' (lc_logger ?c) = m"
    using program_logger [of pl] assms(3) by (auto simp: m(2) effective_level_def)
  then have "log_to attrs st' ?c = (if n < m then Inr [] else Inr [(JsonStdout, e)])"
    using n e by (simp add: log_to_def m(2))
  then show ?thesis
    using m n line by (simp add: effective_level_def del: default_str.simps)
qed

definition forging_scope :: scope where
  "forging_scope = \<lparr>sc_type = ''http'', sc_method = ''GET'',
     sc_path = ''/x'' @ [char_of (10 :: nat)] @ ''{level: ERROR}'', sc_headers = []\<rparr>"

definition fresh_logging :: logging_state where
  "fresh_logging = \<lparr>root_level = 30, root_handlers = [OtherHandler ''stderr''], logger_level = (\<lambda>_. 0)\<rparr>"

theorem log_lines_are_sound_witness:
  "\<exists>e line. log_to (\<lambda>_. PNone) (snd (setup_logging ex_production fresh_logging))
       (program_call (RequestCompleted forging_scope 404 (25 / 2))) = Inr [(JsonStdout, e)] \<and>
     json_format float_repr py_str ''2026-01-01T00:00:00+00:00'' (Some ''r1'') e = Some line \<and> printable line"
proof -
  obtain cfg where cfg: "build_settings ex_production (AsList []) (CommaSeparated ''a.io, b.io'') (AsList []) = Inr cfg"
    using ex_production_builds by blast
  have same: "setup_logging cfg fresh_logging = setup_logging ex_production fresh_logging"
  proof -
    have "upper ''INFO'' = ''INFO''" by code_simp
    then have "log_level cfg = ''INFO''" "log_level ex_production = ''INFO''"
      using cfg by (simp_all add: build_settings_Inr normalized_settings_def ex_production_def default_settings_def)
    then show ?thesis by (simp add: setup_logging_def)
  qed
  obtain res st' where st: "setup_logging ex_production fresh_logging = (res, st')" by fastforce
  have level: "root_level st' = 20"
    using st by (auto simp: setup_logging_def ex_production_def default_settings_def level_number_def)
  have "(404 :: int) < 10 ^ max_str_digits" by (rule below_digit_limit) simp
  moreover have "two_decimals (25 / 2)" by (simp add: two_decimals_def)
  ultimately have "list_all (\<lambda>kv. writable two_decimals (default_str py_str (snd kv)))
      (lc_extra (program_call (RequestCompleted forging_scope 404 (25 / 2))))"
    by (simp add: request_extra_def)
  moreover have "level_number (lc_level (program_call (RequestCompleted forging_scope 404 (25 / 2)))) = Some 20"
    by (simp add: level_number_def)
  moreover have "list_all (\<lambda>name. logger_level fresh_logging name = 0)
      [''app'', ''app.request'', ''app.errors'', ''app.websocket'']"
    by (simp add: fresh_logging_def)
  ultimately show ?thesis
    using log_lines_are_sound [OF cfg same [unfolded st] _ two_decimals.float_format_axioms, of py_str
        "RequestCompleted forging_scope 404 (25 / 2)" "\<lambda>_. PNone" "''2026-01-01T00:00:00+00:00''" "Some ''r1''"]
      level st
    by (auto simp del: program_call.simps json_write.simps default_str.simps)
qed

end
