(* ===== verification/Observability.thy ===== *)
theory Observability
  imports Startup
begin

text \<open>
  The objects a worker process makes of libraries when it is loaded: the connection pool of the Redis
  client (\<open>core/redis_client.py\<close>), the asynchronous client of the bridge (\<open>services/ws_pubsub.py\<close>),
  and the Prometheus gauges (\<open>core/metrics.py\<close>) with what a scrape of \<open>GET /metrics\<close> shows of them.
  The pool of database connections is a parameter, read at the time of the scrape.
\<close>

subsection \<open>Redis clients\<close>

record redis_pool =
  pool_url :: string
  pool_decode_responses :: bool

text \<open>The module makes one pool; every client, one per request, draws its connections from it.\<close>

definition module_redis_pool :: "settings \<Rightarrow> redis_pool" where
  "module_redis_pool cfg = \<lparr>pool_url = redis_url cfg, pool_decode_responses = True\<rparr>"

record redis_client =
  client_pool :: redis_pool

definition get_redis :: "settings \<Rightarrow> redis_client" where
  "get_redis cfg = \<lparr>client_pool = module_redis_pool cfg\<rparr>"

text \<open>The bridge makes a client with a pool of its own for each publication and each subscription.\<close>

definition get_async_redis :: "settings \<Rightarrow> redis_client" where
  "get_async_redis cfg = \<lparr>client_pool = \<lparr>pool_url = redis_url cfg, pool_decode_responses = True\<rparr>\<rparr>"

text \<open>Marks and counters, the channels of the bridge and the queue of the tasks are on one server, and
  what is read from it is text (the handlers compare it with strings).\<close>

lemma one_redis_server:
  "pool_url (client_pool (get_redis cfg)) = redis_url cfg \<and>
   client_pool (get_async_redis cfg) = client_pool (get_redis cfg) \<and>
   celery_urls cfg = (pool_url (client_pool (get_redis cfg)), pool_url (client_pool (get_redis cfg))) \<and>
   pool_decode_responses (client_pool (get_redis cfg))"
  by (simp add: get_redis_def get_async_redis_def module_redis_pool_def celery_urls_def)

subsection \<open>Gauges\<close>

text \<open>A gauge is a number that was set, at first 0, or a function of the connection pool.\<close>

datatype 'p gauge = Value int | Function "'p \<Rightarrow> int"

fun gauge_value :: "'p gauge \<Rightarrow> 'p \<Rightarrow> int" where
  "gauge_value (Value v) p = v"
| "gauge_value (Function f) p = f p"

record 'p metrics =
  mt_db_pool_size :: "'p gauge"
  mt_db_pool_checked_out :: "'p gauge"
  mt_health_check_status :: "'p gauge"

definition module_gauges :: "'p metrics" where
  "module_gauges =
     \<lparr>mt_db_pool_size = Value 0, mt_db_pool_checked_out = Value 0, mt_health_check_status = Value 0\<rparr>"

text \<open>What \<open>engine.pool\<close> is asked.\<close>

record 'p pool_ops =
  pool_size :: "'p \<Rightarrow> int"
  pool_checkedout :: "'p \<Rightarrow> int"

definition set_pool_gauges :: "'p pool_ops \<Rightarrow> 'p metrics \<Rightarrow> 'p metrics" where
  "set_pool_gauges pool m =
     m\<lparr>mt_db_pool_size := Function (pool_size pool), mt_db_pool_checked_out := Function (pool_checkedout pool)\<rparr>"

definition expose_options :: pydict where
  "expose_options = [(''endpoint'', PStr ''/metrics''), (''include_in_schema'', PBool False)]"

lemma metrics_route:
  "snd (setup_metrics (ms, rs)) = rs @ [route ''GET'' p ''metrics''] \<longleftrightarrow> dict_get expose_options ''endpoint'' = PStr p"
  by (auto simp: setup_metrics_def expose_options_def dict_get_def route_def)

text \<open>The gauges in a scrape, under their names.\<close>

definition scraped :: "'p metrics \<Rightarrow> 'p \<Rightarrow> (string \<times> int) list" where
  "scraped m p =
     [(''db_pool_size'', gauge_value (mt_db_pool_size m) p),
      (''db_pool_checked_out_connections'', gauge_value (mt_db_pool_checked_out m) p),
      (''health_check_status'', gauge_value (mt_health_check_status m) p)]"

subsection \<open>The health models\<close>

record HealthCheckDetail =
  hc_status :: string
  hc_error :: "string option"

record HealthResponse =
  hr_status :: string
  hr_version :: string
  hr_environment :: string
  hr_checks :: "(string \<times> HealthCheckDetail) list"

definition detail_dump :: "HealthCheckDetail \<Rightarrow> pyval" where
  "detail_dump c = PDict [(''status'', PStr (hc_status c)),
     (''error'', case hc_error c of None \<Rightarrow> PNone | Some e \<Rightarrow> PStr e)]"

definition health_dump :: "HealthResponse \<Rightarrow> pyval" where
  "health_dump r = PDict [(''status'', PStr (hr_status r)), (''version'', PStr (hr_version r)),
     (''environment'', PStr (hr_environment r)),
     (''checks'', PDict (map (\<lambda>(name, c). (name, detail_dump c)) (hr_checks r)))]"

text \<open>The body of the route is a value of its model, with the status that matches its field.\<close>

lemma health_body:
  "\<exists>r. resp_content (fst (health_check cfg db_error)) = health_dump r \<and>
     hr_version r = app_version cfg \<and> map fst (hr_checks r) = [''database''] \<and>
     (hr_status r = ''ok'' \<longleftrightarrow> list_all (\<lambda>(_, c). hc_status c = ''ok'') (hr_checks r)) \<and>
     (hr_status r = ''ok'' \<longleftrightarrow> resp_status (fst (health_check cfg db_error)) = 200) \<and>
     (hr_status r = ''ok'' \<longleftrightarrow> db_error = None)"
proof -
  let ?r = "\<lparr>hr_status = (if db_error = None then ''ok'' else ''degraded''), hr_version = app_version cfg,
    hr_environment = environment_value (environment cfg),
    hr_checks = [(''database'', \<lparr>hc_status = (if db_error = None then ''ok'' else ''error''), hc_error = db_error\<rparr>)]\<rparr>"
  show ?thesis
    by (rule exI [of _ ?r]) (auto simp: health_check_def health_dump_def detail_dump_def Let_def split: option.split)
qed

subsection \<open>Workers\<close>

text \<open>The health route sets the gauge of the worker that answers it; \<open>None\<close> is any other request.\<close>

definition health_route :: "settings \<Rightarrow> string option \<Rightarrow> 'p metrics \<Rightarrow> http_response \<times> 'p metrics" where
  "health_route cfg db_error m =
     (let (response, v) = health_check cfg db_error in (response, m\<lparr>mt_health_check_status := Value v\<rparr>))"

fun worker_step :: "settings \<Rightarrow> 'p metrics \<Rightarrow> string option option \<Rightarrow> 'p metrics" where
  "worker_step cfg m None = m"
| "worker_step cfg m (Some db_error) = snd (health_route cfg db_error m)"

definition worker :: "settings \<Rightarrow> 'p pool_ops \<Rightarrow> string option option list \<Rightarrow> 'p metrics" where
  "worker cfg pool events = foldl (worker_step cfg) (set_pool_gauges pool module_gauges) events"

text \<open>The most recent answer of the health route, if there was one.\<close>

definition last_health :: "string option option list \<Rightarrow> string option option" where
  "last_health events = (case filter (\<lambda>e. e \<noteq> None) events of [] \<Rightarrow> None | es \<Rightarrow> last es)"

lemma last_health_snoc: "last_health (events @ [e]) = (if e = None then last_health events else e)"
  by (cases "filter (\<lambda>e. e \<noteq> None) events") (auto simp: last_health_def)

lemma health_gauge: "snd (health_check cfg db_error) = (if db_error = None then 1 else 0)"
  by (auto simp: health_check_def Let_def split: option.split)

lemma worker_gauges:
  "worker cfg pool events =
     \<lparr>mt_db_pool_size = Function (pool_size pool), mt_db_pool_checked_out = Function (pool_checkedout pool),
      mt_health_check_status = Value (if last_health events = Some None then 1 else 0)\<rparr>"
proof (induction events rule: rev_induct)
  case Nil
  then show ?case by (simp add: worker_def set_pool_gauges_def module_gauges_def last_health_def)
next
  case (snoc e events)
  then show ?case
    by (cases e) (auto simp: worker_def last_health_snoc health_route_def case_prod_unfold health_gauge)
qed

text \<open>A scrape of a worker shows the size and the use of its pool at the time of the scrape, and whether
  the last health check that this worker answered found the database.\<close>

theorem gauges_tell:
  "scraped (worker cfg pool events) p =
     [(''db_pool_size'', pool_size pool p), (''db_pool_checked_out_connections'', pool_checkedout pool p),
      (''health_check_status'', if last_health events = Some None then 1 else 0)]"
  by (simp add: scraped_def worker_gauges)

text \<open>Each worker has gauges of its own: with several of them a worker that was never asked for its health
  shows the value of a degraded service, although every health check was answered with a 200.\<close>

lemma unasked_worker_looks_degraded:
  "(''health_check_status'', 1) \<in> set (scraped (worker cfg pool [Some None]) p) \<and>
   resp_status (fst (health_check cfg None)) = 200 \<and>
   (''health_check_status'', 0) \<in> set (scraped (worker cfg pool [None]) p)"
  by (simp add: gauges_tell last_health_def health_check_def Let_def)

end
