(* ===== verification/Policy.thy ===== *)
theory Policy
  imports UserRules
begin

text \<open>
  Who may change what. The policy of the service is stated on its own, as the relation \<open>may_become\<close>
  with one rule for each way in which an account, its external identities or its privileges may
  change, and the evidence each needs: a token of the user himself, his password, a link that was
  mailed to him, the word of a provider, or a permission of the caller. Every request of the
  program is shown to do nothing else; \<open>Authority\<close> and \<open>Columns\<close> draw the consequences.
\<close>

subsection \<open>The policy\<close>


text \<open>What the policy is about: every table, and the sequence that numbers the accounts.\<close>

definition tables_of ::
  "database \<Rightarrow> user list \<times> oauth_account list \<times> role list \<times> permission list \<times> (int \<times> int) list \<times>
     (int \<times> int) list \<times> file_upload list \<times> int" where
  "tables_of d =
     (users d, oauth_accounts d, roles d, permissions d, role_permissions d, user_roles d,
      file_uploads d, seq_users d)"

definition put_user :: "database \<Rightarrow> user \<Rightarrow> database" where
  "put_user d u = d\<lparr>users := row_put user_id (users d) u\<rparr>"

definition add_user :: "database \<Rightarrow> string \<Rightarrow> string option \<Rightarrow> bool \<Rightarrow> time \<Rightarrow> database" where
  "add_user d e h verified now =
     d\<lparr>users := users d @ [\<lparr>user_id = seq_users d, user_email = e, user_hashed_password = h,
          user_is_active = True, user_is_verified = verified, user_created_at = now\<rparr>],
       seq_users := seq_users d + 1\<rparr>"

definition add_link :: "database \<Rightarrow> int \<Rightarrow> string \<Rightarrow> string \<Rightarrow> string option \<Rightarrow> time \<Rightarrow> database" where
  "add_link d uid provider puid e now =
     d\<lparr>oauth_accounts := oauth_accounts d @
         [\<lparr>oauth_id = seq_oauth_accounts d, oauth_user_id = uid, oauth_provider = provider,
           oauth_provider_user_id = puid, oauth_email = e, oauth_created_at = now\<rparr>]\<rparr>"

definition add_file :: "database \<Rightarrow> int \<Rightarrow> upload_form \<Rightarrow> string \<Rightarrow> nat \<Rightarrow> string \<Rightarrow> time \<Rightarrow> database" where
  "add_file d uid form ct n key now =
     d\<lparr>file_uploads := file_uploads d @
         [\<lparr>file_id = seq_file_uploads d, file_user_id = uid, file_filename = upload_name form,
           file_content_type = ct, file_category = up_category form, file_size_bytes = int n,
           file_storage_key = key, file_created_at = now\<rparr>]\<rparr>"

lemmas change_defs = add_link_def add_file_def set_roles_def delete_oauth_account_def delete_file_row_def

definition default_role :: "database \<Rightarrow> int \<Rightarrow> (int \<times> int) list" where
  "default_role d uid =
     (case select_role_by_name d DEFAULT_USER_ROLE_NAME of None \<Rightarrow> [] | Some r \<Rightarrow> [(uid, role_id r)])"

text \<open>\<open>told\<close>: the callback was given a stored state value and a provider's word on an identity.\<close>

definition told ::
  "'r env \<Rightarrow> 'o parties \<Rightarrow> time \<Rightarrow> 'r app_state \<Rightarrow> string \<Rightarrow> string \<Rightarrow> string \<Rightarrow> int option \<Rightarrow> string \<Rightarrow>
     string option \<Rightarrow> bool" where
  "told E P now s provider auth_code st linking puid address \<longleftrightarrow>
     (case (r_get (e_redis E) (st_redis s) now (STATE_KEY_PREFIX @ st), require_client (p_clients P) provider) of
        (Some v, Inr c) \<Rightarrow> linking_user v = Inr linking \<and>
          (case c_fetch_access_token c (p_url_for P provider) auth_code of
             Inl _ \<Rightarrow> False | Inr token \<Rightarrow> c_fetch_identity c token = Inr (puid, address))
      | _ \<Rightarrow> False)"

inductive may_become ::
  "'r env \<Rightarrow> 'o parties \<Rightarrow> drawn \<Rightarrow> time \<Rightarrow> 'r app_state \<Rightarrow> request \<Rightarrow> database \<Rightarrow> bool"
  for E P x now s where
  nothing: "may_become E P x now s rq (st_db s)"
| own_password: "rq \<in> {ChangeCurrentUserPassword tok old new, ChangeCurrentUserPasswordV2 tok old new} \<Longrightarrow>
    get_current_user E now tok s = Inr u \<Longrightarrow> user_hashed_password u = Some h \<Longrightarrow>
    verify_password (e_hash E) old h \<Longrightarrow> validate_new_password new = Inr p \<Longrightarrow>
    may_become E P x now s rq
      (put_user (st_db s) (u\<lparr>user_hashed_password := Some (hash_password (e_hash E) (dr_salt x) p)\<rparr>))"
| reset_password: "decode_password_reset_token (e_jwt E) (e_settings E) now tok = Some claims \<Longrightarrow>
    \<not> is_token_used (e_redis E) (st_redis s) now (claims_jti claims) \<Longrightarrow>
    py_int (claims_subject claims) = Some (user_id u) \<Longrightarrow> u \<in> set (users (st_db s)) \<Longrightarrow>
    user_is_active u \<Longrightarrow> validate_new_password new = Inr p \<Longrightarrow>
    may_become E P x now s (ResetPassword tok new)
      (put_user (st_db s) (u\<lparr>user_hashed_password := Some (hash_password (e_hash E) (dr_salt x) p)\<rparr>))"
| own_address: "rq \<in> {UpdateCurrentUser tok (Some e), UpdateCurrentUserV2 tok (Some e)} \<Longrightarrow>
    get_current_user E now tok s = Inr u \<Longrightarrow> p_valid P e = Some e' \<Longrightarrow>
    may_become E P x now s rq (put_user (st_db s) (u\<lparr>user_email := lower e'\<rparr>))"
| address_verified: "decode_email_verification_token (e_jwt E) (e_settings E) now tok = Some claims \<Longrightarrow>
    \<not> is_token_used (e_redis E) (st_redis s) now (claims_jti claims) \<Longrightarrow>
    py_int (claims_subject claims) = Some (user_id u) \<Longrightarrow> u \<in> set (users (st_db s)) \<Longrightarrow>
    may_become E P x now s (VerifyEmail tok) (put_user (st_db s) (u\<lparr>user_is_verified := True\<rparr>))"
| own_deactivation: "rq \<in> {DeactivateCurrentUser tok, DeactivateCurrentUserV2 tok} \<Longrightarrow>
    get_current_user E now tok s = Inr u \<Longrightarrow>
    may_become E P x now s rq (put_user (st_db s) (u\<lparr>user_is_active := False\<rparr>))"
| deactivation: "permitted E now tok s ''users:delete'' \<Longrightarrow> u \<in> set (users (st_db s)) \<Longrightarrow>
    may_become E P x now s (AdminDeactivateUser tok (user_id u)) (put_user (st_db s) (u\<lparr>user_is_active := False\<rparr>))"
| status: "permitted E now tok s ''users:write'' \<Longrightarrow> u \<in> set (users (st_db s)) \<Longrightarrow>
    a' = (case a of None \<Rightarrow> user_is_active u | Some b \<Rightarrow> b) \<Longrightarrow>
    v' = (case v of None \<Rightarrow> user_is_verified u | Some b \<Rightarrow> b) \<Longrightarrow>
    may_become E P x now s (UpdateUserStatus tok (user_id u) a v)
      (put_user (st_db s) (u\<lparr>user_is_active := a', user_is_verified := v'\<rparr>))"
| role_granted: "permitted E now tok s ''roles:manage'' \<Longrightarrow> uid \<in> user_id ` set (users (st_db s)) \<Longrightarrow>
    select_role_by_name (st_db s) n = Some r \<Longrightarrow>
    may_become E P x now s (AssignRole tok uid n)
      ((st_db s)\<lparr>user_roles := user_roles (st_db s) @ [(uid, role_id r)]\<rparr>)"
| role_revoked: "permitted E now tok s ''roles:manage'' \<Longrightarrow>
    may_become E P x now s (RevokeRole tok uid n)
      (set_roles (st_db s) uid (filter (\<lambda>r. role_name r \<noteq> n) (roles_of (st_db s) uid)))"
| registered: "validate_user_create (p_valid P) e p = Inr c \<Longrightarrow>
    select_user_by_email (st_db s) (lower (uc_email c)) = None \<Longrightarrow>
    may_become E P x now s (RegisterUser client e p)
      ((add_user (st_db s) (lower (uc_email c)) (Some (hash_password (e_hash E) (dr_salt x) (uc_password c))) False now)
         \<lparr>user_roles := user_roles (st_db s) @ default_role (st_db s) (seq_users (st_db s))\<rparr>)"
| linked: "told E P now s provider ac st (Some (user_id u)) puid address \<Longrightarrow> u \<in> set (users (st_db s)) \<Longrightarrow>
    select_oauth_account (st_db s) provider puid = None \<Longrightarrow>
    may_become E P x now s (OauthCallback provider ac st) (add_link (st_db s) (user_id u) provider puid address now)"
| joined: "told E P now s provider ac st None puid (Some (user_email u)) \<Longrightarrow> u \<in> set (users (st_db s)) \<Longrightarrow>
    select_oauth_account (st_db s) provider puid = None \<Longrightarrow>
    may_become E P x now s (OauthCallback provider ac st)
      (add_link (st_db s) (user_id u) provider puid (Some (user_email u)) now)"
| signed_up: "told E P now s provider ac st None puid (Some e) \<Longrightarrow>
    select_user_by_email (st_db s) e = None \<Longrightarrow> select_oauth_account (st_db s) provider puid = None \<Longrightarrow>
    may_become E P x now s (OauthCallback provider ac st)
      (add_link (add_user (st_db s) e None True now) (seq_users (st_db s)) provider puid (Some e) now)"
| unlinked: "get_current_user E now tok s = Inr u \<Longrightarrow> l \<in> set (oauth_accounts (st_db s)) \<Longrightarrow>
    oauth_user_id l = user_id u \<Longrightarrow> oauth_provider l = provider \<Longrightarrow>
    may_become E P x now s (UnlinkProvider tok provider) (delete_oauth_account (st_db s) (oauth_id l))"
| uploaded: "get_current_user E now tok s = Inr u \<Longrightarrow> validate_upload (e_settings E) form = Inr (n, ct) \<Longrightarrow>
    may_become E P x now s (UploadFile tok form)
      (add_file (st_db s) (user_id u) form ct n
         (build_object_key (dr_hex x) (user_id u) (up_category form) (upload_name form)) now)"
| file_deleted: "get_current_user E now tok s = Inr u \<Longrightarrow> own_file (st_db s) u i = Some f \<Longrightarrow>
    may_become E P x now s (DeleteFile tok i) (delete_file_row (st_db s) (file_id f))"

definition allowed :: "'r env \<Rightarrow> 'o parties \<Rightarrow> drawn \<Rightarrow> time \<Rightarrow> 'r app_state \<Rightarrow> request \<Rightarrow> 'r app_state \<Rightarrow> bool" where
  "allowed E P x now s rq t \<longleftrightarrow> (\<exists>d. may_become E P x now s rq d \<and> tables_of (st_db t) = tables_of d)"

lemma allowedI: "may_become E P x now s rq d \<Longrightarrow> tables_of (st_db t) = tables_of d \<Longrightarrow> allowed E P x now s rq t"
  by (auto simp: allowed_def)

lemma allowed_same: "tables_of (st_db t) = tables_of (st_db s) \<Longrightarrow> allowed E P x now s rq t"
  by (rule allowedI [OF may_become.nothing])

lemma allowed_self [simp]: "allowed E P x now s rq s"
  by (rule allowed_same) simp

lemma allowed_authenticated:
  "(\<And>u. get_current_user E now tok s = Inr u \<Longrightarrow> allowed E P x now s rq (snd (body u s))) \<Longrightarrow>
     allowed E P x now s rq (snd (authenticated E now tok body s))"
  by (rule authenticated_state) simp_all

lemma allowed_permitted:
  "(permitted E now tok s p \<Longrightarrow> allowed E P x now s rq (snd (body s))) \<Longrightarrow>
     allowed E P x now s rq (snd (require_permissions E now tok [p] body s))"
  by (rule require_permissions_cases [of E now tok s "[p]" body]) (auto simp: permitted_def)

lemma allowed_limited:
  "(\<And>r. allowed E P x now s rq (snd (body (s\<lparr>st_redis := r\<rparr>)))) \<Longrightarrow>
     allowed E P x now s rq (snd (limited E rl now client body s))"
  by (auto simp: limited_def allowed_same split: prod.split sum.split)

lemma update_user_put: "update_user d u = Inr d' \<Longrightarrow> d' = put_user d u"
  by (simp add: update_user_Inr put_user_def)

lemma allowed_update:
  "update_user (st_db s) v = Inr (st_db t) \<Longrightarrow> may_become E P x now s rq (put_user (st_db s) v) \<Longrightarrow>
     allowed E P x now s rq t"
  by (auto dest!: update_user_put intro: allowedI)

lemma allowed_put: "update_user (st_db s) v = Inr d \<Longrightarrow> may_become E P x now s rq (put_user (st_db s) v) \<Longrightarrow>
     st_db t = d \<Longrightarrow> allowed E P x now s rq t"
  using allowed_update by blast

named_theorems allowances \<open>handlers do what the policy allows\<close>

lemma allowed_reading [allowances]:
  "allowed E P x now s rq (snd (login_route E valid now client j1 j2 e p s))"
  "allowed E P x now s rq (snd (refresh_access_token E now jti tok s))"
  "allowed E P x now s rq (snd (logout E now cred rtok s))"
  "allowed E P x now s rq (snd (forgot_password_route E valid now client jti e s))"
  "allowed E P x now s rq (snd (oauth_login E clients url_for now st provider s))"
  "allowed E P x now s rq (snd (oauth_link E clients url_for now tok st provider s))"
  "allowed E P x now s rq (snd (read_current_user E now tok s))"
  "allowed E P x now s rq (snd (read_current_user_v2 E now tok s))"
  "allowed E P x now s rq (snd (list_linked_accounts E now tok s))"
  "allowed E P x now s rq (snd (list_users E Q now tok pagination a s))"
  "allowed E P x now s rq (snd (list_users_feed E Q now tok cpagination s))"
  "allowed E P x now s rq (snd (list_roles E now tok s))"
  "allowed E P x now s rq (snd (trigger_user_summary_report E backend now tok i s))"
  "allowed E P x now s rq (snd (get_report_status E backend now tok i s))"
proof -
  have start: "allowed E P x now s rq (snd (start_flow E clients url_for now st provider v s))" for v
    by (rule allowed_same) (simp add: start_flow_def split: sum.split)
  show "allowed E P x now s rq (snd (oauth_login E clients url_for now st provider s))"
    by (simp add: oauth_login_def start)
  show "allowed E P x now s rq (snd (oauth_link E clients url_for now tok st provider s))"
    "allowed E P x now s rq (snd (read_current_user E now tok s))"
    "allowed E P x now s rq (snd (read_current_user_v2 E now tok s))"
    "allowed E P x now s rq (snd (list_linked_accounts E now tok s))"
    unfolding oauth_link_def read_current_user_def read_current_user_v2_def list_linked_accounts_def
    by (rule allowed_authenticated; simp add: start)+
  show "allowed E P x now s rq (snd (list_users E Q now tok pagination a s))"
    "allowed E P x now s rq (snd (list_users_feed E Q now tok cpagination s))"
    "allowed E P x now s rq (snd (list_roles E now tok s))"
    "allowed E P x now s rq (snd (trigger_user_summary_report E backend now tok i s))"
    "allowed E P x now s rq (snd (get_report_status E backend now tok i s))"
    unfolding list_users_def list_users_feed_def list_roles_def trigger_user_summary_report_def get_report_status_def
    by (rule allowed_permitted; simp add: allowed_same Let_def split: sum.split)+
  show "allowed E P x now s rq (snd (login_route E valid now client j1 j2 e p s))"
    "allowed E P x now s rq (snd (forgot_password_route E valid now client jti e s))"
    unfolding login_route_def forgot_password_route_def
    by (rule allowed_limited; auto simp: forgot_password_def Let_def split: option.split intro!: allowed_same)+
  show "allowed E P x now s rq (snd (refresh_access_token E now jti tok s))"
    "allowed E P x now s rq (snd (logout E now cred rtok s))"
    by (auto simp: refresh_access_token_def logout_def Let_def split: option.split intro!: allowed_same)
qed

lemma allowed_files [allowances]:
  assumes "fst so = s"
  shows "allowed E P x now s (UploadFile tok form) (fst (snd (upload_file E S now tok (dr_hex x) form so)))"
    and "allowed E P x now s rq (fst (snd (list_my_files E Q now tok pagination so)))"
    and "allowed E P x now s rq (fst (snd (get_file E S now tok i so)))"
    and "allowed E P x now s (DeleteFile tok i) (fst (snd (delete_file E S now tok i so)))"
proof -
  obtain ob where so: "so = (s, ob)" using assms by (cases so) simp
  show "allowed E P x now s (UploadFile tok form) (fst (snd (upload_file E S now tok (dr_hex x) form so)))"
  proof (cases "get_current_user E now tok s")
    case (Inr u)
    have "allowed E P x now s (UploadFile tok form) (s\<lparr>st_db := d\<rparr>)"
      if v: "validate_upload (e_settings E) form = Inr (n, ct)"
        and ins: "insert_file (st_db s) (user_id u) (upload_name form) ct (up_category form) (int n)
          (build_object_key (dr_hex x) (user_id u) (up_category form) (upload_name form)) now = Inr (f, d)" for n ct f d
      by (rule allowedI [OF may_become.uploaded [OF Inr v]])
         (use ins in \<open>auto simp: insert_file_Inr add_file_def tables_of_def row_add_def\<close>)
    with Inr show ?thesis
      by (auto simp: so upload_file_def store_upload_def for_current_user_def Let_def split: prod.split sum.split)
  qed (simp add: so upload_file_def for_current_user_def)
  show "allowed E P x now s rq (fst (snd (list_my_files E Q now tok pagination so)))"
    "allowed E P x now s rq (fst (snd (get_file E S now tok i so)))"
    by (cases "get_current_user E now tok s";
        simp add: so list_my_files_def get_file_def for_current_user_def Let_def split: sum.split option.split)+
  show "allowed E P x now s (DeleteFile tok i) (fst (snd (delete_file E S now tok i so)))"
    by (cases "get_current_user E now tok s")
       (auto simp: so delete_file_def for_current_user_def Let_def split: sum.split option.split
         intro!: allowedI [OF may_become.file_deleted])
qed

lemma register_user_frame:
  assumes "register_user E now jti salt c s = (Inr resp, t)"
  shows "permissions (st_db t) = permissions (st_db s)" "role_permissions (st_db t) = role_permissions (st_db s)"
  using assms by (auto simp: register_user_def Let_def insert_user_Inr append_role_def
      split: option.splits sum.splits prod.splits if_splits)

lemma allowed_register_user:
  assumes c: "validate_user_create (p_valid P) e p = Inr c" and db: "st_db s1 = st_db s"
  shows "allowed E P x now s (RegisterUser client e p) (snd (register_user E now jti (dr_salt x) c s1))"
proof (cases "register_user E now jti (dr_salt x) c s1")
  case (Pair res t)
  show ?thesis
  proof (cases res)
    case (Inl err)
    with Pair register_user_Inl [of E now jti "dr_salt x" c s1 err t] show ?thesis by (simp add: allowed_same db)
  next
    case (Inr resp)
    note reg = register_user_Inr [OF Pair [unfolded Inr], unfolded db]
    note same = register_user_frame [OF Pair [unfolded Inr], unfolded db] reg(10)
    have "tables_of (st_db t) = tables_of
        ((add_user (st_db s) (lower (uc_email c)) (Some (hash_password (e_hash E) (dr_salt x) (uc_password c))) False now)
           \<lparr>user_roles := user_roles (st_db s) @ default_role (st_db s) (seq_users (st_db s))\<rparr>)"
      by (simp add: default_role_def tables_of_def add_user_def row_add_def reg same)
    from allowedI [OF may_become.registered [OF c reg(1)] this] Pair show ?thesis by simp
  qed
qed

lemma allowed_register [allowances]:
  "allowed E P x now s (RegisterUser client e p) (snd (register_route E (p_valid P) now client' jti (dr_salt x) e p s))"
  unfolding register_route_def
  by (rule allowed_limited) (auto split: sum.split intro: allowed_same allowed_register_user)

lemma allowed_tokens [allowances]:
  "allowed E P x now s (VerifyEmail tok) (snd (verify_email E now tok s))"
  "allowed E P x now s (ResetPassword tok p) (snd (reset_password_route E now (dr_salt x) tok p s))"
  by (auto simp: verify_email_def reset_password_route_def reset_password_def Let_def
      split: option.split sum.split elim!: allowed_put dest!: get_user_SomeD
      intro!: may_become.address_verified may_become.reset_password)

lemma allowed_updated_user:
  assumes "get_current_user E now tok s = Inr u"
    and "\<And>a. e = Some a \<Longrightarrow> rq \<in> {UpdateCurrentUser tok (Some a), UpdateCurrentUserV2 tok (Some a)}"
  shows "allowed E P x now s rq (snd (updated_user (p_valid P) e u s))"
  using may_become.own_address [OF assms(2,1)]
  by (auto simp: updated_user_def validate_user_update_def update_user_email_def Let_def
      split: option.split sum.split elim!: allowed_put)

lemma allowed_updated:
  assumes "\<And>a. e = Some a \<Longrightarrow> rq \<in> {UpdateCurrentUser tok (Some a), UpdateCurrentUserV2 tok (Some a)}"
  shows "allowed E P x now s rq (snd (authenticated E now tok (\<lambda>u s.
      case updated_user (p_valid P) e u s of
        (Inl err, s1) \<Rightarrow> (Inl err, s1) | (Inr u1, s1) \<Rightarrow> (Inr (f (st_db s1) u1), s1)) s))"
  by (rule allowed_authenticated, drule allowed_updated_user [where e = e and P = P, OF _ assms])
     (auto split: prod.split sum.split)

lemma allowed_change_password:
  assumes "get_current_user E now tok s = Inr u" and "validate_new_password new = Inr p"
    and "rq \<in> {ChangeCurrentUserPassword tok old new, ChangeCurrentUserPasswordV2 tok old new}"
  shows "allowed E P x now s rq (snd (committed s (change_user_password (e_hash E) (dr_salt x) (st_db s) u old p)))"
  using may_become.own_password [OF assms(3,1) _ _ assms(2)]
  by (auto simp: change_user_password_def split: option.split sum.split elim!: allowed_put)

lemma allowed_profile [allowances]:
  "allowed E P x now s (UpdateCurrentUser tok e) (snd (update_current_user E (p_valid P) now tok e s))"
  "allowed E P x now s (UpdateCurrentUserV2 tok e) (snd (update_current_user_v2 E (p_valid P) now tok e s))"
  "rq \<in> {ChangeCurrentUserPassword tok old new, ChangeCurrentUserPasswordV2 tok old new} \<Longrightarrow>
     allowed E P x now s rq (snd (change_current_user_password E now tok (dr_salt x) old new s))"
  "rq \<in> {DeactivateCurrentUser tok, DeactivateCurrentUserV2 tok} \<Longrightarrow>
     allowed E P x now s rq (snd (deactivate_current_user E now tok s))"
  "allowed E P x now s (UnlinkProvider tok provider) (snd (unlink_provider E now tok provider s))"
proof -
  show "allowed E P x now s (UpdateCurrentUser tok e) (snd (update_current_user E (p_valid P) now tok e s))"
    "allowed E P x now s (UpdateCurrentUserV2 tok e) (snd (update_current_user_v2 E (p_valid P) now tok e s))"
    unfolding update_current_user_def update_current_user_v2_def by (rule allowed_updated; simp)+
  show "allowed E P x now s rq (snd (change_current_user_password E now tok (dr_salt x) old new s))"
    if "rq \<in> {ChangeCurrentUserPassword tok old new, ChangeCurrentUserPasswordV2 tok old new}"
    unfolding change_current_user_password_def
    by (rule allowed_authenticated) (use that in \<open>auto split: sum.split intro!: allowed_change_password\<close>)
  show "allowed E P x now s rq (snd (deactivate_current_user E now tok s))"
    if "rq \<in> {DeactivateCurrentUser tok, DeactivateCurrentUserV2 tok}"
    unfolding deactivate_current_user_def
    by (rule allowed_authenticated)
       (auto simp: deactivate_user_def split: sum.split elim!: allowed_put intro: may_become.own_deactivation [OF that])
  show "allowed E P x now s (UnlinkProvider tok provider) (snd (unlink_provider E now tok provider s))"
    unfolding unlink_provider_def
    by (rule allowed_authenticated)
       (auto simp: unlink_from_def Let_def split: option.split dest!: find_Some_set intro!: allowedI [OF may_become.unlinked])
qed

lemma allowed_admin [allowances]:
  "allowed E P x now s (UpdateUserStatus tok uid a v) (snd (update_user_status E now tok uid a v s))"
  "allowed E P x now s (AdminDeactivateUser tok uid) (snd (admin_deactivate_user E now tok uid s))"
  "allowed E P x now s (AssignRole tok uid n) (snd (assign_role E deliver now tok uid n s))"
  "allowed E P x now s (RevokeRole tok uid n) (snd (revoke_role E now tok uid n s))"
proof -
  show "allowed E P x now s (UpdateUserStatus tok uid a v) (snd (update_user_status E now tok uid a v s))"
    unfolding update_user_status_def
  proof (rule allowed_permitted)
    assume p: "permitted E now tok s ''users:write''"
    have "allowed E P x now s (UpdateUserStatus tok uid a v) (s\<lparr>st_db := d\<rparr>)"
      if u: "get_user (st_db s) uid = Some u"
        and w: "w = (case v of None \<Rightarrow> (case a of None \<Rightarrow> u | Some b \<Rightarrow> u\<lparr>user_is_active := b\<rparr>)
          | Some b \<Rightarrow> (case a of None \<Rightarrow> u | Some b \<Rightarrow> u\<lparr>user_is_active := b\<rparr>)\<lparr>user_is_verified := b\<rparr>)"
        and d: "update_user (st_db s) w = Inr d" for u w d
    proof -
      have "w = u\<lparr>user_is_active := (case a of None \<Rightarrow> user_is_active u | Some b \<Rightarrow> b),
          user_is_verified := (case v of None \<Rightarrow> user_is_verified u | Some b \<Rightarrow> b)\<rparr>"
        by (simp add: w split: option.split)
      with may_become.status [OF p, of u _ a _ v, OF _ refl refl] get_user_SomeD [OF u]
      have "may_become E P x now s (UpdateUserStatus tok uid a v) (put_user (st_db s) w)" by simp
      from allowed_put [OF d this] show ?thesis by simp
    qed
    then show "allowed E P x now s (UpdateUserStatus tok uid a v) (snd (case get_user (st_db s) uid of
        None \<Rightarrow> (Inl user_not_found, s)
      | Some u \<Rightarrow> (let u = (case a of None \<Rightarrow> u | Some b \<Rightarrow> u\<lparr>user_is_active := b\<rparr>);
                     u = (case v of None \<Rightarrow> u | Some b \<Rightarrow> u\<lparr>user_is_verified := b\<rparr>)
                 in case update_user (st_db s) u of
                      Inl e \<Rightarrow> (Inl e, s)
                    | Inr d \<Rightarrow> (Inr (to_admin_user_response d u), s\<lparr>st_db := d\<rparr>))))"
      by (cases "get_user (st_db s) uid") (simp_all add: Let_def split: sum.split)
  qed
  show "allowed E P x now s (AdminDeactivateUser tok uid) (snd (admin_deactivate_user E now tok uid s))"
    unfolding admin_deactivate_user_def
    by (rule allowed_permitted)
       (auto split: option.split sum.split elim!: allowed_put dest!: get_user_SomeD intro: may_become.deactivation)
  show "allowed E P x now s (AssignRole tok uid n) (snd (assign_role E deliver now tok uid n s))"
    unfolding assign_role_def
    by (rule allowed_permitted)
       (auto simp: append_role_def split: option.split sum.split if_splits dest!: get_user_SomeD
         intro!: allowedI [OF may_become.role_granted])
  show "allowed E P x now s (RevokeRole tok uid n) (snd (revoke_role E now tok uid n s))"
    unfolding revoke_role_def
    by (rule allowed_permitted)
       (auto simp: Let_def split: option.split dest!: get_user_SomeD intro!: allowedI [OF may_become.role_revoked])
qed

lemma allowed_identity:
  assumes "told E P now s provider ac st linking puid address"
  shows "linking = Some uid \<Longrightarrow> tables_of (st_db t) = tables_of (snd (link_identity (st_db s) now provider puid address uid)) \<Longrightarrow>
      allowed E P x now s (OauthCallback provider ac st) t"
    and "linking = None \<Longrightarrow> tables_of (st_db t) = tables_of (snd (sign_in_identity (st_db s) now provider puid address)) \<Longrightarrow>
      allowed E P x now s (OauthCallback provider ac st) t"
proof -
  show "allowed E P x now s (OauthCallback provider ac st) t"
    if l: "linking = Some uid" "tables_of (st_db t) = tables_of (snd (link_identity (st_db s) now provider puid address uid))"
  proof (cases "select_oauth_account (st_db s) provider puid = None \<and> get_user (st_db s) uid \<noteq> None")
    case True
    then obtain u where u: "get_user (st_db s) uid = Some u" by blast
    then have "may_become E P x now s (OauthCallback provider ac st) (add_link (st_db s) uid provider puid address now)"
      using may_become.linked [of E P now s provider ac st u puid address] True assms l(1) get_user_SomeD [OF u] by simp
    then show ?thesis
      by (rule allowedI) (use True u l(2) in \<open>simp add: link_identity_eq add_link_def tables_of_def row_add_def\<close>)
  next
    case False
    then show ?thesis
      using l(2) by (intro allowed_same) (auto simp: link_identity_eq split: option.splits if_splits)
  qed
  show "allowed E P x now s (OauthCallback provider ac st) t"
    if l: "linking = None" "tables_of (st_db t) = tables_of (snd (sign_in_identity (st_db s) now provider puid address))"
  proof (cases "select_oauth_account (st_db s) provider puid")
    case (Some a)
    then show ?thesis using l(2) by (intro allowed_same) (simp add: sign_in_identity_def)
  next
    case new: None
    show ?thesis
    proof (cases address)
      case None
      with new l(2) show ?thesis by (intro allowed_same) (simp add: sign_in_identity_def)
    next
      case (Some e)
      note told = assms [unfolded l(1) Some]
      show ?thesis
      proof (cases "select_user_by_email (st_db s) e")
        case (Some u)
        with select_user_SomeD [OF Some] may_become.joined [of E P now s provider ac st puid u] told new
        have "may_become E P x now s (OauthCallback provider ac st) (add_link (st_db s) (user_id u) provider puid (Some e) now)"
          by simp
        moreover have "get_user (st_db s) (user_id u) \<noteq> None"
          using select_user_SomeD [OF Some] by (auto simp: get_user_None)
        ultimately show ?thesis
          using new \<open>address = Some e\<close> Some l(2)
          by (auto simp: sign_in_identity_def find_or_create_user_def insert_oauth_account_def Let_def tables_of_def
              add_link_def row_add_def intro: allowedI)
      next
        case None
        have "may_become E P x now s (OauthCallback provider ac st)
            (add_link (add_user (st_db s) e None True now) (seq_users (st_db s)) provider puid (Some e) now)"
          by (rule may_become.signed_up [OF told None new])
        then show ?thesis
          using new \<open>address = Some e\<close> None l(2)
          by (auto simp: sign_in_identity_def find_or_create_user_def insert_user_def insert_oauth_account_def Let_def
              tables_of_def add_link_def add_user_def row_add_def get_user_None select_oauth_account_def intro!: allowedI)
      qed
    qed
  qed
qed

lemma allowed_callback [allowances]:
  "allowed E P x now s (OauthCallback provider ac st)
     (snd (oauth_callback E (p_clients P) (p_url_for P) now j1 j2 provider ac st s))"
proof (cases "require_client (p_clients P) provider")
  case c: (Inr c)
  show ?thesis
  proof (cases "r_get (e_redis E) (st_redis s) now (STATE_KEY_PREFIX @ st)")
    case (Some v)
    show ?thesis
    proof (cases "identify c (p_url_for P provider) ac")
      case id: (Inr pa)
      obtain puid address where pa: "pa = (puid, address)" by fastforce
      have told: "told E P now s provider ac st linking puid address" if "linking_user v = Inr linking" for linking
        using that c Some id by (auto simp: told_def identify_def pa split: sum.splits)
      show ?thesis
        using allowed_identity [OF told] c Some id
        by (cases "linking_user v")
           (auto simp: oauth_callback_eq resolve_user_def pa Let_def case_prod_unfold split: option.split intro!: allowed_same)
    qed (simp add: oauth_callback_eq c Some allowed_same)
  qed (simp add: oauth_callback_eq c)
qed (simp add: oauth_callback_eq)

lemma requests_allowed: "allowed E P x now s rq (fst (snd (handle E P x now rq (s, ob))))"
  by (cases rq) (simp_all add: allowances same_in_both_versions)

text \<open>C3. Every request keeps to the policy. Whatever is requested of whatever state, with whatever the
  third parties answer, the tables afterwards are what one rule of the policy makes of those before:
  one account with one attribute changed, one grant given or taken, one identity or one file of the
  caller added or removed, one new account with the default role, or nothing, and each only with
  the evidence that the rule asks for. No request removes an account or changes what a role may do.\<close>

theorem requests_authorised:
  "\<exists>d. may_become E P x now s rq d \<and>
     tables_of (st_db (fst (snd (handle E P x now rq (s, ob))))) = tables_of d"
  using requests_allowed [of E P x now s rq ob] by (simp add: allowed_def)

end
