(* ===== verification/Authority.thy ===== *)
theory Authority
  imports Policy
begin

text \<open>
  What the policy means over time: histories of any requests and cleanups, the author of every
  change to an account, where a permission comes from, and that the first administrator does not
  come from the service.
\<close>

subsection \<open>Changes to an account\<close>

datatype attribute = Address | Password_hash | Activity | Verification | Creation

fun differs :: "attribute \<Rightarrow> user \<Rightarrow> user \<Rightarrow> bool" where
  "differs Address u v = (user_email u \<noteq> user_email v)"
| "differs Password_hash u v = (user_hashed_password u \<noteq> user_hashed_password v)"
| "differs Activity u v = (user_is_active u \<noteq> user_is_active v)"
| "differs Verification u v = (user_is_verified u \<noteq> user_is_verified v)"
| "differs Creation u v = (user_created_at u \<noteq> user_created_at v)"

text \<open>The callers: the user himself, somebody who knows his password too, somebody with an unused
  token of a kind that was made out for him.\<close>

definition is_caller :: "'r env \<Rightarrow> time \<Rightarrow> string \<Rightarrow> 'r app_state \<Rightarrow> int \<Rightarrow> bool" where
  "is_caller E now tok s i \<longleftrightarrow> (case get_current_user E now tok s of Inl _ \<Rightarrow> False | Inr u \<Rightarrow> user_id u = i)"

definition knows_password :: "'r env \<Rightarrow> string \<Rightarrow> 'r app_state \<Rightarrow> int \<Rightarrow> bool" where
  "knows_password E p s i \<longleftrightarrow>
     (case get_user (st_db s) i of None \<Rightarrow> False
      | Some u \<Rightarrow> (case user_hashed_password u of None \<Rightarrow> False | Some h \<Rightarrow> verify_password (e_hash E) p h))"

definition token_for :: "'r env \<Rightarrow> time \<Rightarrow> 'r app_state \<Rightarrow> token_claims option \<Rightarrow> int \<Rightarrow> bool" where
  "token_for E now s decoded i \<longleftrightarrow>
     (case decoded of None \<Rightarrow> False
      | Some claims \<Rightarrow> \<not> is_token_used (e_redis E) (st_redis s) now (claims_jti claims) \<and>
          py_int (claims_subject claims) = Some i)"

definition entitled :: "'r env \<Rightarrow> time \<Rightarrow> 'r app_state \<Rightarrow> request \<Rightarrow> attribute \<Rightarrow> int \<Rightarrow> bool" where
  "entitled E now s rq A i \<longleftrightarrow>
     (case rq of
        ChangeCurrentUserPassword tok old new \<Rightarrow>
          A = Password_hash \<and> is_caller E now tok s i \<and> knows_password E old s i
      | ChangeCurrentUserPasswordV2 tok old new \<Rightarrow>
          A = Password_hash \<and> is_caller E now tok s i \<and> knows_password E old s i
      | ResetPassword tok new \<Rightarrow>
          A = Password_hash \<and> token_for E now s (decode_password_reset_token (e_jwt E) (e_settings E) now tok) i
      | VerifyEmail tok \<Rightarrow>
          A = Verification \<and> token_for E now s (decode_email_verification_token (e_jwt E) (e_settings E) now tok) i
      | UpdateCurrentUser tok e \<Rightarrow> A = Address \<and> is_caller E now tok s i
      | UpdateCurrentUserV2 tok e \<Rightarrow> A = Address \<and> is_caller E now tok s i
      | DeactivateCurrentUser tok \<Rightarrow> A = Activity \<and> is_caller E now tok s i
      | DeactivateCurrentUserV2 tok \<Rightarrow> A = Activity \<and> is_caller E now tok s i
      | AdminDeactivateUser tok uid \<Rightarrow> A = Activity \<and> uid = i \<and> permitted E now tok s ''users:delete''
      | UpdateUserStatus tok uid a v \<Rightarrow>
          (A = Activity \<and> a \<noteq> None \<or> A = Verification \<and> v \<noteq> None) \<and> uid = i \<and> permitted E now tok s ''users:write''
      | _ \<Rightarrow> False)"

definition ids_ok :: "database \<Rightarrow> bool" where
  "ids_ok d \<longleftrightarrow> distinct (map user_id (users d)) \<and> list_all (\<lambda>u. user_id u < seq_users d) (users d)"

lemma ids_ok_wf: "users_wf d \<Longrightarrow> ids_ok d"
  by (simp add: users_wf_def ids_ok_def list_all_iff)

lemma ids_ok_get: "ids_ok d \<Longrightarrow> u \<in> set (users d) \<Longrightarrow> get_user d (user_id u) = Some u"
  by (simp add: get_user_def ids_ok_def row_get_in)

lemma put_user_simps [simp]:
  "seq_users (put_user d v) = seq_users d" "user_roles (put_user d v) = user_roles d"
  "users (put_user d v) = row_put user_id (users d) v"
  by (simp_all add: put_user_def)

lemma ids_ok_put: "ids_ok d \<Longrightarrow> u \<in> set (users d) \<Longrightarrow> user_id v = user_id u \<Longrightarrow> ids_ok (put_user d v)"
  by (auto simp: ids_ok_def list_all_iff intro!: distinct_row_put dest!: row_put_cases)

lemma may_become_ids:
  assumes "may_become E P x now s rq d" and "ids_ok (st_db s)"
  shows "ids_ok d \<and> seq_users (st_db s) \<le> seq_users d"
  using assms
  by (cases rule: may_become.cases)
     (auto simp: change_defs intro: ids_ok_put dest: current_user_in,
       auto simp: ids_ok_def add_user_def list_all_iff)

definition row_authorised :: "'r env \<Rightarrow> time \<Rightarrow> 'r app_state \<Rightarrow> request \<Rightarrow> user \<Rightarrow> bool" where
  "row_authorised E now s rq v \<longleftrightarrow> user_id v = seq_users (st_db s) \<or>
     (\<exists>u \<in> set (users (st_db s)). user_id u = user_id v \<and> (\<forall>A. differs A u v \<longrightarrow> entitled E now s rq A (user_id v)))"

lemma row_authorised_same: "v \<in> set (users (st_db s)) \<Longrightarrow> row_authorised E now s rq v"
  unfolding row_authorised_def by (rule disjI2) (rule bexI [of _ v], auto elim: differs.elims)

lemma row_authorised_new: "user_id v = seq_users (st_db s) \<Longrightarrow> row_authorised E now s rq v"
  by (simp add: row_authorised_def)

lemma row_authorised_put:
  assumes "w \<in> set (users (put_user (st_db s) v))" and "u \<in> set (users (st_db s))" and "user_id v = user_id u"
    and "\<And>A. differs A u v \<Longrightarrow> entitled E now s rq A (user_id u)"
  shows "row_authorised E now s rq w"
proof -
  from assms(1) have "w = v \<or> w \<in> set (users (st_db s))" by (auto dest: row_put_cases)
  with assms(2-4) row_authorised_same show ?thesis
    unfolding row_authorised_def by metis
qed

lemma may_become_row:
  assumes "may_become E P x now s rq d" and "ids_ok (st_db s)" and "w \<in> set (users d)"
  shows "row_authorised E now s rq w"
  using assms(1)
proof (cases rule: may_become.cases)
  case nothing
  then show ?thesis using assms(3) row_authorised_same by simp
next
  case (own_password tok old new u h p)
  then have "u \<in> set (users (st_db s))" by (simp add: current_user_in)
  with own_password ids_ok_get [OF assms(2)] assms(3) show ?thesis
    by (auto simp: entitled_def is_caller_def knows_password_def intro!: row_authorised_put elim!: differs.elims)
next
  case (own_address tok e u e')
  then have "u \<in> set (users (st_db s))" by (simp add: current_user_in)
  with own_address assms(3) show ?thesis
    by (auto simp: entitled_def is_caller_def intro!: row_authorised_put elim!: differs.elims)
next
  case (own_deactivation tok u)
  then have "u \<in> set (users (st_db s))" by (simp add: current_user_in)
  with own_deactivation assms(3) show ?thesis
    by (auto simp: entitled_def is_caller_def intro!: row_authorised_put elim!: differs.elims)
next
  case (reset_password tok claims u new p)
  then show ?thesis using assms(3)
    by (auto simp: entitled_def token_for_def intro!: row_authorised_put elim!: differs.elims)
next
  case (address_verified tok claims u)
  then show ?thesis using assms(3)
    by (auto simp: entitled_def token_for_def intro!: row_authorised_put elim!: differs.elims)
next
  case (deactivation tok u)
  then show ?thesis using assms(3)
    by (auto simp: entitled_def intro!: row_authorised_put elim!: differs.elims)
next
  case (status tok u a' a v' v)
  then show ?thesis using assms(3)
    by (auto simp: entitled_def intro!: row_authorised_put elim!: differs.elims split: option.splits)
qed (use assms(3) in \<open>auto simp: row_authorised_same row_authorised_new add_user_def change_defs\<close>)

subsection \<open>Histories\<close>

text \<open>Any requests and runs of the cleanup from a state on, with the requests that were made, the
  last one first, and the state each of them met.\<close>

type_synonym ('r, 'o) request_event = "time \<times> 'r app_state \<times> request \<times> 'o parties \<times> drawn"

inductive history ::
  "'r env \<Rightarrow> 'r app_state \<times> 'o \<Rightarrow> ('r, 'o) request_event list \<Rightarrow> 'r app_state \<times> 'o \<Rightarrow> bool"
  for E so0 where
  beginning: "history E so0 [] so0"
| request: "history E so0 evs (s, ob) \<Longrightarrow> handle E P x now rq (s, ob) = (res, so') \<Longrightarrow>
    history E so0 ((now, s, rq, P, x) # evs) so'"
| cleanup: "history E so0 evs (s, ob) \<Longrightarrow> cleanup_unverified_users now s = (n, s') \<Longrightarrow>
    history E so0 evs (s', ob)"

text \<open>What a policy about a single step has to show to hold over histories.\<close>

lemma history_induct [consumes 1, case_names start step clean]:
  assumes "history E (s0, ob0) evs (s, ob)" and "Q [] s0"
    and "\<And>evs t d now rq P x. Q evs t \<Longrightarrow> may_become E P x now t rq d \<Longrightarrow>
      (\<And>t'. tables_of (st_db t') = tables_of d \<Longrightarrow> Q ((now, t, rq, P, x) # evs) t')"
    and "\<And>evs t (us :: user list) t'. Q evs t \<Longrightarrow> st_db t' = fold (\<lambda>u d. delete_user d (user_id u)) us (st_db t) \<Longrightarrow> Q evs t'"
  shows "Q evs s"
proof -
  have "Q evs (fst so)" if "history E so0 evs so" "so0 = (s0, ob0)" for so0 so evs
    using that
  proof (induction rule: history.induct)
    case (request evs s ob P x now rq res so')
    then have "allowed E P x now s rq (fst so')"
      using requests_allowed [of E P x now s rq ob] by simp
    with request assms(3) show ?case by (auto simp: allowed_def)
  next
    case (cleanup evs s ob now n s')
    then show ?case using assms(4) by (auto simp: cleanup_unverified_users_def Let_def)
  qed (use assms(2) in simp)
  with assms(1) show ?thesis by fastforce
qed

lemma tables_of_eq:
  "tables_of d = tables_of d' \<longleftrightarrow> users d = users d' \<and> oauth_accounts d = oauth_accounts d' \<and>
     roles d = roles d' \<and> permissions d = permissions d' \<and> role_permissions d = role_permissions d' \<and>
     user_roles d = user_roles d' \<and>
     file_uploads d = file_uploads d' \<and> seq_users d = seq_users d'"
  by (simp add: tables_of_def)

lemma history_ids:
  assumes "history E (s0, ob0) evs (s, ob)" and "ids_ok (st_db s0)"
  shows "ids_ok (st_db s) \<and> seq_users (st_db s0) \<le> seq_users (st_db s)"
  using assms(1)
proof (induction rule: history_induct)
  case (step evs t d now rq P x t')
  then show ?case using may_become_ids [OF step(2)] by (auto simp: tables_of_eq ids_ok_def)
next
  case (clean evs t us t')
  then show ?case by (auto simp: fold_delete ids_ok_def list_all_iff distinct_map_filterI)
qed (use assms(2) in simp)

lemma change_authored:
  assumes "history E (s0, ob0) evs (s, ob)" and "db_inv (st_db s0)"
    and "u \<in> set (users (st_db s0))" and "v \<in> set (users (st_db s))" and "user_id v = user_id u"
    and "differs A u v"
  shows "\<exists>(now, t, rq, P, x) \<in> set evs. entitled E now t rq A (user_id u)"
proof -
  have ids0: "ids_ok (st_db s0)" using assms(2) by (intro ids_ok_wf) simp
  have u0: "user_id u < seq_users (st_db s0)" "distinct (map user_id (users (st_db s0)))"
    using ids0 assms(3) by (auto simp: ids_ok_def list_all_iff)
  have "ids_ok (st_db s) \<and> user_id u < seq_users (st_db s) \<and>
      (\<forall>v \<in> set (users (st_db s)). user_id v = user_id u \<longrightarrow> differs A u v \<longrightarrow>
         (\<exists>(now, t, rq, P, x) \<in> set evs. entitled E now t rq A (user_id u)))"
    using assms(1)
  proof (induction rule: history_induct)
    case start
    have "\<not> differs A u v" if "v \<in> set (users (st_db s0))" "user_id v = user_id u" for v
      using distinct_map_eq [OF u0(2) that(1) assms(3) that(2)] by (auto elim: differs.elims)
    with u0 ids0 show ?case by blast
  next
    case (step evs t d now rq P x t')
    note ids = may_become_ids [OF step(2)]
    have "\<exists>ev \<in> set ((now, t, rq, P, x) # evs). case ev of (now, t, rq, P, x) \<Rightarrow> entitled E now t rq A (user_id u)"
      if v: "v \<in> set (users d)" "user_id v = user_id u" "differs A u v" for v
    proof -
      obtain w where w: "w \<in> set (users (st_db t))" "user_id w = user_id u"
          "\<And>A. differs A w v \<Longrightarrow> entitled E now t rq A (user_id u)"
        using may_become_row [OF step(2) _ v(1)] step(1) v(2) by (auto simp: row_authorised_def)
      have "differs A u w \<or> differs A w v" using v(3) by (cases A) auto
      with step(1) w show ?thesis by auto
    qed
    with step ids show ?case by (auto simp: tables_of_eq ids_ok_def)
  next
    case (clean evs t us t')
    then show ?case by (auto simp: fold_delete ids_ok_def list_all_iff distinct_map_filterI)
  qed
  with assms(4-6) show ?thesis by blast
qed

text \<open>C4. Every change to an account has an author who was entitled to it. Over any history of requests
  and cleanups, if the address, the password hash, the activity or the verification of an account
  is not what it was, then one of the requests was by the user himself (for a new password: who
  also gave the present one), or carried an unused reset or verification token made out for that
  account, or was made with the permission that the change needs, on that account and attribute.
  The time of creation never changes.\<close>

theorem changes_have_an_author:
  assumes "history E (s0, ob0) evs (s, ob)" and "db_inv (st_db s0)"
    and "u \<in> set (users (st_db s0))" and "v \<in> set (users (st_db s))" and "user_id v = user_id u"
    and "differs A u v"
  shows "\<exists>(now, t, rq, P, x) \<in> set evs. entitled E now t rq A (user_id u)"
  by (rule change_authored [OF assms])

subsection \<open>Privileges\<close>

definition role_permission_names :: "database \<Rightarrow> int \<Rightarrow> string set" where
  "role_permission_names d rid = set (map permission_name (permissions_of d rid))"

definition default_permissions :: "database \<Rightarrow> string set" where
  "default_permissions d =
     (case select_role_by_name d DEFAULT_USER_ROLE_NAME of
        None \<Rightarrow> {} | Some r \<Rightarrow> role_permission_names d (role_id r))"

text \<open>A request that grants role \<open>rid\<close> to user \<open>i\<close>.\<close>

definition grants_role :: "'r env \<Rightarrow> time \<Rightarrow> 'r app_state \<Rightarrow> request \<Rightarrow> int \<Rightarrow> int \<Rightarrow> bool" where
  "grants_role E now s rq i rid \<longleftrightarrow>
     (case rq of
        AssignRole tok uid n \<Rightarrow> uid = i \<and> permitted E now tok s ''roles:manage'' \<and>
          (case select_role_by_name (st_db s) n of None \<Rightarrow> False | Some r \<Rightarrow> role_id r = rid)
      | _ \<Rightarrow> False)"

definition same_roles :: "database \<Rightarrow> database \<Rightarrow> bool" where
  "same_roles d d' \<longleftrightarrow> roles d' = roles d \<and> permissions d' = permissions d \<and> role_permissions d' = role_permissions d"

lemma user_permissions_iff:
  "p \<in> user_permissions d u \<longleftrightarrow>
     (\<exists>r \<in> set (roles d). (user_id u, role_id r) \<in> set (user_roles d) \<and> p \<in> role_permission_names d (role_id r))"
  by (auto simp: user_permissions_def role_permission_names_def roles_of_iff)

lemma same_roles_permissions:
  assumes "same_roles d d'"
  shows "role_permission_names d' rid = role_permission_names d rid"
    and "select_role_by_name d' n = select_role_by_name d n"
    and "default_permissions d' = default_permissions d"
    and "roles d' = roles d" and "default_role d' i = default_role d i"
  using assms
  by (simp_all add: same_roles_def role_permission_names_def permissions_of_def select_role_by_name_def
      default_permissions_def default_role_def cong: option.case_cong)

lemma may_become_roles:
  assumes "may_become E P x now s rq d"
  shows "same_roles (st_db s) d"
    and "(i, rid) \<in> set (user_roles d) \<Longrightarrow> (i, rid) \<in> set (user_roles (st_db s)) \<or>
      (i, rid) \<in> set (default_role (st_db s) i) \<or> grants_role E now s rq i rid"
  using assms
  by (cases rule: may_become.cases;
      auto simp: same_roles_def put_user_def add_user_def change_defs
        grants_role_def default_role_def split: option.splits)+

lemma history_roles:
  assumes "history E (s0, ob0) evs (s, ob)"
  shows "same_roles (st_db s0) (st_db s)"
  using assms
proof (induction rule: history_induct)
  case (step evs t d now rq P x t')
  then show ?case using may_become_roles(1) [OF step(2)] by (simp add: same_roles_def tables_of_eq)
qed (simp_all add: same_roles_def fold_delete)

lemma history_grants:
  assumes "history E (s0, ob0) evs (s, ob)" and "(i, rid) \<in> set (user_roles (st_db s))"
  shows "(i, rid) \<in> set (user_roles (st_db s0)) \<or> (i, rid) \<in> set (default_role (st_db s0) i) \<or>
    (\<exists>(now, t, rq, P, x) \<in> set evs. grants_role E now t rq i rid)"
proof -
  have "same_roles (st_db s0) (st_db s) \<and>
      ((i, rid) \<in> set (user_roles (st_db s)) \<longrightarrow> (i, rid) \<in> set (user_roles (st_db s0)) \<or>
        (i, rid) \<in> set (default_role (st_db s0) i) \<or> (\<exists>(now, t, rq, P, x) \<in> set evs. grants_role E now t rq i rid))"
    using assms(1)
  proof (induction rule: history_induct)
    case (step evs t d now rq P x t')
    have "same_roles (st_db s0) (st_db t')"
      using step may_become_roles(1) [OF step(2)] by (simp add: same_roles_def tables_of_eq)
    then show ?case
      using step may_become_roles(2) [OF step(2), of i rid] same_roles_permissions(5) [of "st_db s0" "st_db t" i]
      by (auto simp: tables_of_eq)
  qed (auto simp: same_roles_def fold_delete)
  with assms(2) show ?thesis by blast
qed

text \<open>A permission somebody did not have comes from a grant: some request of the history assigned him
  a role with that permission, by a caller who held \<open>roles:manage\<close> at that time.\<close>

theorem privileges_are_granted:
  assumes "history E (s0, ob0) evs (s, ob)" and "p \<in> user_permissions (st_db s) u"
    and "p \<notin> user_permissions (st_db s0) u" and "p \<notin> default_permissions (st_db s0)"
  shows "\<exists>(now, t, rq, P, x) \<in> set evs. \<exists>rid. grants_role E now t rq (user_id u) rid \<and> p \<in> role_permission_names (st_db s0) rid"
proof -
  note same = same_roles_permissions [OF history_roles [OF assms(1)]]
  obtain r where r: "r \<in> set (roles (st_db s0))" "(user_id u, role_id r) \<in> set (user_roles (st_db s))"
      "p \<in> role_permission_names (st_db s0) (role_id r)"
    using assms(2) by (auto simp: user_permissions_iff same)
  have "(user_id u, role_id r) \<notin> set (user_roles (st_db s0))"
    using assms(3) r(1,3) by (auto simp: user_permissions_iff)
  moreover have "(user_id u, role_id r) \<notin> set (default_role (st_db s0) (user_id u))"
    using assms(4) r(3) by (auto simp: default_role_def default_permissions_def split: option.splits)
  ultimately show ?thesis using history_grants [OF assms(1) r(2)] r(3) by fastforce
qed

text \<open>As long as only the initial grants and the default role are held, nobody has more than these give.\<close>

definition granted_at_first :: "database \<Rightarrow> database \<Rightarrow> bool" where
  "granted_at_first d0 d \<longleftrightarrow> same_roles d0 d \<and>
     (\<forall>i rid. (i, rid) \<in> set (user_roles d) \<longrightarrow> (i, rid) \<in> set (user_roles d0) \<or> (i, rid) \<in> set (default_role d0 i))"

lemma granted_at_first_permissions:
  assumes "granted_at_first d0 d"
  shows "user_permissions d u \<subseteq> user_permissions d0 u \<union> default_permissions d0"
proof
  fix p assume "p \<in> user_permissions d u"
  then obtain r where r: "r \<in> set (roles d0)" "(user_id u, role_id r) \<in> set (user_roles d)"
      "p \<in> role_permission_names d0 (role_id r)"
    using assms by (auto simp: granted_at_first_def user_permissions_iff same_roles_permissions)
  then have "(user_id u, role_id r) \<in> set (user_roles d0) \<or> (user_id u, role_id r) \<in> set (default_role d0 (user_id u))"
    using assms by (simp add: granted_at_first_def)
  then show "p \<in> user_permissions d0 u \<union> default_permissions d0"
    using r by (auto simp: user_permissions_iff default_role_def default_permissions_def split: option.splits)
qed

lemma no_manager_no_grant:
  assumes "granted_at_first d0 (st_db s)" and "\<And>u. ''roles:manage'' \<notin> user_permissions d0 u"
    and "''roles:manage'' \<notin> default_permissions d0"
  shows "\<not> permitted E now tok s ''roles:manage''"
proof -
  have "''roles:manage'' \<notin> user_permissions (st_db s) u" for u
    using granted_at_first_permissions [OF assms(1), of u] assms(2,3) by blast
  then show ?thesis by (simp add: permitted_def split: sum.split)
qed

text \<open>C5. Nobody becomes administrator through the service (README.md: there is no bootstrap endpoint by
  design). If no user holds \<open>roles:manage\<close> and the default role does not give it, then after any
  history of requests and cleanups no user has a permission beyond those he had at first and those
  of the default role, and no credentials let anybody manage roles.\<close>

theorem no_first_administrator:
  assumes "history E (s0, ob0) evs (s, ob)" and "db_inv (st_db s0)"
    and "\<And>u. u \<in> set (users (st_db s0)) \<Longrightarrow> ''roles:manage'' \<notin> user_permissions (st_db s0) u"
    and "''roles:manage'' \<notin> default_permissions (st_db s0)"
  shows "user_permissions (st_db s) u \<subseteq> user_permissions (st_db s0) u \<union> default_permissions (st_db s0) \<and>
    \<not> permitted E now tok s ''roles:manage''"
proof -
  have none: "''roles:manage'' \<notin> user_permissions (st_db s0) u" for u
  proof
    assume p: "''roles:manage'' \<in> user_permissions (st_db s0) u"
    then have "user_id u \<in> user_id ` set (users (st_db s0))"
      using assms(2) by (fastforce simp: user_permissions_iff db_inv_def db_wf_def rbac_wf_def)
    then obtain w where w: "w \<in> set (users (st_db s0))" "user_id w = user_id u" by auto
    with p have "''roles:manage'' \<in> user_permissions (st_db s0) w" by (simp add: user_permissions_iff)
    with assms(3) w(1) show False by blast
  qed
  have "granted_at_first (st_db s0) (st_db s)"
    using assms(1)
  proof (induction rule: history_induct)
    case (step evs t d now rq P x t')
    have "\<not> grants_role E now t rq i rid" for i rid
      using no_manager_no_grant [OF step(1) none assms(4)] by (auto simp: grants_role_def split: request.splits)
    moreover have "same_roles (st_db s0) (st_db t)" using step(1) by (simp add: granted_at_first_def)
    ultimately show ?case
      using step(1,3) may_become_roles [OF step(2)] same_roles_permissions(5) [of "st_db s0" "st_db t"]
      unfolding granted_at_first_def by (fastforce simp: tables_of_eq same_roles_def)
  qed (auto simp: granted_at_first_def same_roles_def fold_delete)
  with granted_at_first_permissions no_manager_no_grant [OF _ none assms(4)] show ?thesis by blast
qed

subsection \<open>An example\<close>

text \<open>The account of the examples is verified with the link that was mailed.\<close>

lemma ex_history: "history ex_env (ex_registered, ob) [(5 * second, ex_registered, VerifyEmail ex_link, p, x)] (ex_verified, ob)"
proof -
  have "handle ex_env p x (5 * second) (VerifyEmail ex_link) (ex_registered, ob) = (Inr (), (ex_verified, ob))"
    unfolding handle.simps ex_verify on_app_def outcome_def by simp
  from history.request [OF history.beginning this] show ?thesis by simp
qed

theorem changes_have_an_author_witness:
  "entitled ex_env (5 * second) ex_registered (VerifyEmail ex_link) Verification 1"
proof -
  have u: "ex_user \<in> set (users (st_db ex_registered))" "user_id ex_user = 1" "\<not> user_is_verified ex_user"
    by (simp_all add: ex_registered_def ex_user_def)
  let ?v = "ex_user\<lparr>user_is_verified := True\<rparr>"
  have v: "?v \<in> set (users (st_db ex_verified))" by (simp add: ex_verified_users)
  show ?thesis
    using changes_have_an_author [OF ex_history [of "()" undefined undefined] ex_inv(2) u(1) v, of Verification] u by simp
qed

theorem no_first_administrator_witness:
  "\<not> permitted ex_env (20 * second) ex_access ex_verified ''roles:manage''"
proof -
  have "roles (st_db ex_registered) = []" by (simp add: ex_registered_def empty_database_def)
  then have none: "user_permissions (st_db ex_registered) u = {}" "default_permissions (st_db ex_registered) = {}" for u
    by (auto simp: user_permissions_iff default_permissions_def select_role_by_name_def)
  show ?thesis
    using no_first_administrator [OF ex_history [of "()" undefined undefined] ex_inv(2)] none by simp
qed

end
