(* ===== verification/Columns.thy ===== *)
theory Columns
  imports Authority Startup
begin

text \<open>
  The limits of the columns. PostgreSQL refuses a text longer than its column and an integer beyond
  32 bits (\<open>DataError\<close>, which no handler catches); the model of the tables does not. Here the widths
  the models declare are laid over the rows, and it is shown that whatever is requested the program
  writes nothing that does not fit, as long as its third parties keep to documented lengths, with
  one exception: the name of an uploaded file is not checked.
\<close>

subsection \<open>What fits\<close>

definition column_type :: "string \<Rightarrow> string \<Rightarrow> sql_type option" where
  "column_type t c =
     (case find_table model_schema t of
        None \<Rightarrow> None
      | Some tb \<Rightarrow> map_option col_type (List.find (\<lambda>x. col_name x = c) (tbl_columns tb)))"

definition text_fits :: "string \<Rightarrow> string \<Rightarrow> string \<Rightarrow> bool" where
  "text_fits t c s \<longleftrightarrow> (case column_type t c of Some (StringOf n) \<Rightarrow> length s \<le> n | _ \<Rightarrow> False)"

definition nullable_fits :: "string \<Rightarrow> string \<Rightarrow> string option \<Rightarrow> bool" where
  "nullable_fits t c v \<longleftrightarrow> (case v of None \<Rightarrow> True | Some s \<Rightarrow> text_fits t c s)"

definition integer_fits :: "string \<Rightarrow> string \<Rightarrow> int \<Rightarrow> bool" where
  "integer_fits t c i \<longleftrightarrow> column_type t c = Some Integer \<and> - (2 ^ 31) \<le> i \<and> i < 2 ^ 31"

definition user_fits :: "user \<Rightarrow> bool" where
  "user_fits u \<longleftrightarrow> text_fits ''users'' ''email'' (user_email u) \<and>
     nullable_fits ''users'' ''hashed_password'' (user_hashed_password u)"

definition oauth_account_fits :: "oauth_account \<Rightarrow> bool" where
  "oauth_account_fits a \<longleftrightarrow> text_fits ''oauth_accounts'' ''provider'' (oauth_provider a) \<and>
     text_fits ''oauth_accounts'' ''provider_user_id'' (oauth_provider_user_id a) \<and>
     nullable_fits ''oauth_accounts'' ''email'' (oauth_email a)"

definition role_fits :: "role \<Rightarrow> bool" where
  "role_fits r \<longleftrightarrow> text_fits ''roles'' ''name'' (role_name r) \<and>
     nullable_fits ''roles'' ''description'' (role_description r)"

definition permission_fits :: "permission \<Rightarrow> bool" where
  "permission_fits p \<longleftrightarrow> text_fits ''permissions'' ''name'' (permission_name p) \<and>
     nullable_fits ''permissions'' ''description'' (permission_description p)"

definition file_fits :: "file_upload \<Rightarrow> bool" where
  "file_fits f \<longleftrightarrow> text_fits ''file_uploads'' ''filename'' (file_filename f) \<and>
     text_fits ''file_uploads'' ''content_type'' (file_content_type f) \<and>
     text_fits ''file_uploads'' ''category'' (file_category f) \<and>
     integer_fits ''file_uploads'' ''size_bytes'' (file_size_bytes f) \<and>
     text_fits ''file_uploads'' ''storage_key'' (file_storage_key f)"

definition rows_fit :: "database \<Rightarrow> bool" where
  "rows_fit d \<longleftrightarrow> list_all user_fits (users d) \<and> list_all oauth_account_fits (oauth_accounts d) \<and>
     list_all role_fits (roles d) \<and> list_all permission_fits (permissions d) \<and>
     list_all file_fits (file_uploads d)"

lemma column_types:
  "column_type ''users'' ''email'' = Some (StringOf 255)"
  "column_type ''users'' ''hashed_password'' = Some (StringOf 255)"
  "column_type ''oauth_accounts'' ''provider'' = Some (StringOf 32)"
  "column_type ''oauth_accounts'' ''provider_user_id'' = Some (StringOf 255)"
  "column_type ''oauth_accounts'' ''email'' = Some (StringOf 255)"
  "column_type ''roles'' ''name'' = Some (StringOf 32)"
  "column_type ''roles'' ''description'' = Some (StringOf 255)"
  "column_type ''permissions'' ''name'' = Some (StringOf 64)"
  "column_type ''permissions'' ''description'' = Some (StringOf 255)"
  "column_type ''file_uploads'' ''filename'' = Some (StringOf 255)"
  "column_type ''file_uploads'' ''content_type'' = Some (StringOf 100)"
  "column_type ''file_uploads'' ''category'' = Some (StringOf 20)"
  "column_type ''file_uploads'' ''size_bytes'' = Some Integer"
  "column_type ''file_uploads'' ''storage_key'' = Some (StringOf 512)"
  by code_simp+

lemmas fits_defs = user_fits_def oauth_account_fits_def role_fits_def permission_fits_def file_fits_def
  nullable_fits_def text_fits_def integer_fits_def column_types

text \<open>The rows the application seeds fit.\<close>

lemma seeded_rows_fit:
  "case seed_rbac_defaults empty_database of Inl _ \<Rightarrow> False | Inr d \<Rightarrow> rows_fit d"
  by code_simp

subsection \<open>The third parties\<close>

text \<open>An encoded argon2id hash is at most 255 characters long for any password the schemas accept.\<close>

locale short_hasher =
  fixes H :: hash_ops
  assumes hash_short: "length p \<le> 128 \<Longrightarrow> length (hash_password H salt p) \<le> 255"

interpretation ref_hash: short_hasher ref_hash
  by unfold_locales (simp add: hash_password_def ref_hash_def)


definition bounded_identities :: "oauth_clients \<Rightarrow> bool" where
  "bounded_identities clients \<longleftrightarrow>
     (\<forall>provider c tok puid a. clients provider = Some c \<longrightarrow> c_fetch_identity c tok = Inr (puid, a) \<longrightarrow>
        length puid \<le> 255 \<and> (case a of None \<Rightarrow> True | Some e \<Rightarrow> length e \<le> 255))"

text \<open>\<open>EmailStr\<close> accepts at most 254 characters, the hexadecimal text of a \<open>uuid4\<close> has 32.\<close>

fun within_limits :: "('r, 'o) request_event \<Rightarrow> bool" where
  "within_limits (now, t, rq, P, x) \<longleftrightarrow>
     ids_in_range (st_db t) \<and> length (dr_hex x) = 32 \<and> (\<forall>e e'. p_valid P e = Some e' \<longrightarrow> length e' \<le> 254) \<and>
     bounded_identities (p_clients P) \<and>
     (case rq of UploadFile cred form \<Rightarrow> length (upload_name form) \<le> 255 | _ \<Rightarrow> True)"

subsection \<open>Every change fits\<close>

lemma user_fits_found: "rows_fit d \<Longrightarrow> u \<in> set (users d) \<Longrightarrow> user_fits u"
  by (simp add: rows_fit_def list_all_iff)

lemma user_fits_flags [simp]:
  "user_fits (u\<lparr>user_is_active := b\<rparr>) = user_fits u" "user_fits (u\<lparr>user_is_verified := b\<rparr>) = user_fits u"
  by (simp_all add: user_fits_def)

lemma rows_fit_put: "rows_fit d \<Longrightarrow> user_fits v \<Longrightarrow> rows_fit (put_user d v)"
  by (auto simp: rows_fit_def put_user_def list_all_iff dest!: row_put_cases)

lemma rows_fit_grants [simp]: "rows_fit (d\<lparr>user_roles := rs\<rparr>) = rows_fit d"
  by (simp add: rows_fit_def)

lemma rows_fit_add_link:
  "rows_fit (add_link d uid provider puid e now) \<longleftrightarrow> rows_fit d \<and> text_fits ''oauth_accounts'' ''provider'' provider \<and>
     text_fits ''oauth_accounts'' ''provider_user_id'' puid \<and> nullable_fits ''oauth_accounts'' ''email'' e"
  by (auto simp: rows_fit_def add_link_def oauth_account_fits_def)

lemma rows_fit_add_user:
  "rows_fit (add_user d e h verified now) \<longleftrightarrow> rows_fit d \<and> text_fits ''users'' ''email'' e \<and>
     nullable_fits ''users'' ''hashed_password'' h"
  by (auto simp: rows_fit_def add_user_def user_fits_def)

lemma rows_fit_removed:
  "rows_fit d \<Longrightarrow> rows_fit (set_roles d uid rs)" "rows_fit d \<Longrightarrow> rows_fit (delete_oauth_account d i)"
  "rows_fit d \<Longrightarrow> rows_fit (delete_file_row d i)"
  by (auto simp: rows_fit_def set_roles_def delete_oauth_account_def delete_file_row_def row_delete_def list_all_iff)

lemma told_limits:
  assumes "told E P now s provider ac st linking puid address" and "bounded_identities (p_clients P)"
  shows "length provider \<le> 32" and "length puid \<le> 255" and "address = Some e \<Longrightarrow> length e \<le> 255"
  using assms
  by (auto simp: told_def bounded_identities_def require_client_def SUPPORTED_PROVIDERS_def
      split: option.splits sum.splits if_splits) fastforce+

lemma upload_limits:
  assumes "validate_upload cfg form = Inr (n, ct)"
  shows "length (up_category form) \<le> 5" and "length ct \<le> 24" and "n \<le> 200 * 1024 * 1024"
proof -
  obtain category where c: "map_of CATEGORIES (up_category form) = Some category"
      "ct \<in> set (cat_allowed_content_types category)" "read_and_validate_stream (up_content form) category = Inr n"
    using assms by (rule validate_upload_Inr)
  with read_and_validate_bounds [OF c(3)]
  show "length (up_category form) \<le> 5" "length ct \<le> 24" "n \<le> 200 * 1024 * 1024"
    by (auto simp: CATEGORIES_def IMAGE_def PDF_def CSV_def VIDEO_def split: if_splits)
qed

lemma object_key_length:
  assumes "0 < uid" and "uid < 2 ^ 31" and "length hex = 32" and "length category \<le> 5" and "length name \<le> 255"
  shows "length (build_object_key hex uid category name) \<le> 512"
proof -
  have "length (nat_digits (nat uid)) \<le> 10"
    using assms(1,2) by (intro length_nat_digits) simp_all
  moreover have "length (safe_name name) = length name" by (simp add: safe_name_def replace_char_def)
  ultimately show ?thesis using assms by (simp add: build_object_key_def py_str_def)
qed


lemma rows_fit_step:
  assumes "may_become E P x now t rq d" and "short_hasher (e_hash E)" and "rows_fit (st_db t)"
    and "within_limits (now, t, rq, P, x)"
  shows "rows_fit d"
proof -
  have address: "length e' \<le> 254" if "p_valid P e = Some e'" for e e'
    using assms(4) that by simp
  have hash: "length (hash_password (e_hash E) salt p) \<le> 255" if "validate_new_password q = Inr p" for salt p q
    using short_hasher.hash_short [OF assms(2)] that by (simp add: validate_new_password_Inr)
  have ids: "bounded_identities (p_clients P)" using assms(4) by simp
  have stored: "user_fits u" if "u \<in> set (users (st_db t))" for u
    using user_fits_found [OF assms(3)] that by blast
  have caller: "user_fits u" if "get_current_user E now tok t = Inr u" for u tok
    using stored current_user_in that by blast
  show ?thesis
    using assms(1)
  proof (cases rule: may_become.cases)
    case (own_password tok old new u h p)
    then show ?thesis using caller [of tok u] hash by (auto simp: fits_defs intro!: rows_fit_put assms(3))
  next
    case (reset_password tok claims u new p)
    then show ?thesis using stored [of u] hash by (auto simp: fits_defs intro!: rows_fit_put assms(3))
  next
    case (own_address tok e u e')
    then show ?thesis using caller [of tok u] address [of e e'] by (auto simp: fits_defs intro!: rows_fit_put assms(3))
  next
    case (registered e p c client)
    then have "length (uc_email c) \<le> 254" "length (hash_password (e_hash E) (dr_salt x) (uc_password c)) \<le> 255"
      using address hash by (auto simp: validate_user_create_def split: option.splits sum.splits)
    with registered show ?thesis by (simp add: rows_fit_add_user assms(3) fits_defs)
  next
    case (linked provider ac st u puid address)
    then show ?thesis using told_limits [OF linked(3) ids]
      by (auto simp: rows_fit_add_link assms(3) fits_defs split: option.split)
  next
    case (joined provider ac st puid u)
    then show ?thesis using told_limits [OF joined(3) ids] by (simp add: rows_fit_add_link assms(3) fits_defs)
  next
    case (signed_up provider ac st puid e)
    then show ?thesis using told_limits [OF signed_up(3) ids]
      by (simp add: rows_fit_add_link rows_fit_add_user assms(3) fits_defs)
  next
    case (uploaded tok u form n ct)
    then have "u \<in> set (users (st_db t))" by (simp add: current_user_in)
    with assms(4) have uid: "0 < user_id u" "user_id u < 2 ^ 31" by (auto simp: ids_in_range_def)
    have "length (upload_name form) \<le> 255" "length (dr_hex x) = 32" using assms(4) uploaded(1) by simp_all
    with object_key_length [OF uid, of "dr_hex x"] upload_limits [OF uploaded(4)] assms(3) uploaded(2)
    show ?thesis by (auto simp: rows_fit_def add_file_def fits_defs)
  qed (auto simp: assms(3) rows_fit_removed intro!: rows_fit_put intro: stored caller)
qed

text \<open>C28. What the program writes fits its columns. Over any history of requests and cleanups from a
  database whose rows fit, as long as hashes are at most 255 characters long, accepted addresses at
  most 254, provider identities at most 255, primary keys at most 32 bits long, and the names of uploaded files
  at most 255, every text is no longer than the column the models declare for it (addresses, hashes,
  providers and their identities, file names, types, categories and storage keys, role and
  permission names) and every size is a 32-bit integer: the database refuses no statement for it.\<close>

theorem rows_fit_their_columns:
  assumes "history E (s0, ob0) evs (s, ob)" and "short_hasher (e_hash E)" and "rows_fit (st_db s0)"
    and "list_all within_limits evs"
  shows "rows_fit (st_db s)"
proof -
  have "list_all within_limits evs \<longrightarrow> rows_fit (st_db s)"
    using assms(1)
  proof (induction rule: history_induct)
    case (step evs t d now rq P x t')
    with rows_fit_step [OF step(2) assms(2)] show ?case by (auto simp: rows_fit_def tables_of_eq)
  qed (use assms(3) in \<open>auto simp: rows_fit_def fold_delete list_all_iff\<close>)
  with assms(4) show ?thesis by blast
qed


theorem rows_fit_their_columns_witness:
  "rows_fit (st_db ex_verified)"
proof -
  let ?P = "\<lparr>p_valid = (\<lambda>e. if length e \<le> 254 then Some e else None), p_clients = Map.empty, p_url_for = id,
     p_users_sql = undefined, p_files_sql = undefined, p_backend = undefined, p_deliver = undefined, p_s3 = undefined\<rparr> :: unit parties"
  let ?x = "\<lparr>dr_jti1 = [], dr_jti2 = [], dr_salt = [], dr_state = [], dr_hex = replicate 32 CHR ''0'', dr_task_id = []\<rparr>"
  have fit: "rows_fit (st_db ex_registered)"
    by (simp add: rows_fit_def ex_registered_def empty_database_def ex_user_def fits_defs hash_password_def ref_hash_def)
  have short: "short_hasher (e_hash ex_env)"
    using ref_hash.short_hasher_axioms by simp
  have "within_limits (t, ex_registered, VerifyEmail l, ?P, ?x)" for t l
    by (simp add: bounded_identities_def ids_in_range_def ex_registered_def ex_user_def)
  then have "list_all within_limits [(5 * second, ex_registered, VerifyEmail ex_link, ?P, ?x)]"
    by (simp only: list.pred_inject simp_thms)
  from rows_fit_their_columns [OF ex_history short fit this] show ?thesis .
qed

subsection \<open>The exception\<close>

text \<open>Nothing an upload is checked for is its name, and the row of a name that is too long does not fit:
  PostgreSQL refuses the row when its object is already stored.\<close>

lemma file_names_unchecked:
  "validate_upload cfg (form\<lparr>up_filename := name\<rparr>) = validate_upload cfg form"
  by (cases form, hypsubst, unfold validate_upload_def upload_form.select_convs upload_form.update_convs, rule refl)

lemma long_names_do_not_fit:
  assumes "upload_file E S now tok hex form (s, ob) = (Inr resp, (s1, ob1))" and "255 < length (upload_name form)"
  shows "\<not> rows_fit (st_db s1)"
  using assms(1)
proof (rule upload_file_stages)
  fix u n ct f d
  assume "insert_file (st_db s) (user_id u) (upload_name form) ct (up_category form) (int n)
      (build_object_key hex (user_id u) (up_category form) (upload_name form)) now = Inr (f, d)"
    and "s1 = s\<lparr>st_db := d\<rparr>"
  with assms(2) show "\<not> rows_fit (st_db s1)" by (auto simp: insert_file_Inr rows_fit_def fits_defs row_add_def)
qed

end
