(* ===== verification/Provenance.thy ===== *)
theory Provenance
  imports Authority
begin

text \<open>
  Where authority comes from. A token proves something only if nobody but the service can make one.
  Under that assumption (a token that verifies under the key of the service was handed out by it
  before, in a response or in a mail) every authenticated request goes back to a sign-in, and every
  new password to a sign-in with the old one or to a mail that was sent to the account.
\<close>

subsection \<open>Tokens handed out and presented\<close>

fun token_of_task :: "task \<Rightarrow> string list" where
  "token_of_task (SendVerificationEmail a tok) = [tok]"
| "token_of_task (SendPasswordResetEmail a tok) = [tok]"
| "token_of_task (GenerateUserSummaryReport i) = []"

definition new_tasks :: "'r app_state \<Rightarrow> 'r app_state \<Rightarrow> task list" where
  "new_tasks s t = drop (length (st_queue s)) (st_queue t)"

definition bearer_pair :: "failure + token_response \<Rightarrow> string list" where
  "bearer_pair res = (case res of Inl _ \<Rightarrow> [] | Inr r \<Rightarrow> [tr_access_token r, tr_refresh_token r])"

text \<open>The tokens in the response to a request, and the tasks with mail that it queues.\<close>

fun answered :: "'r env \<Rightarrow> ('r, 'o) request_event \<Rightarrow> string list" where
  "answered E (now, s, rq, P, x) =
     (case rq of
        LoginUser client e p \<Rightarrow>
          bearer_pair (fst (login_route E (p_valid P) now client (dr_jti1 x) (dr_jti2 x) e p s))
      | RefreshAccessToken tok \<Rightarrow>
          (case fst (refresh_access_token E now (dr_jti1 x) tok s) of Inl _ \<Rightarrow> [] | Inr r \<Rightarrow> [atr_access_token r])
      | OauthCallback provider ac st \<Rightarrow>
          bearer_pair (fst (oauth_callback E (p_clients P) (p_url_for P) now (dr_jti1 x) (dr_jti2 x) provider ac st s))
      | _ \<Rightarrow> [])"

fun mailed :: "'r env \<Rightarrow> ('r, 'o) request_event \<Rightarrow> task list" where
  "mailed E (now, s, rq, P, x) =
     (case rq of
        RegisterUser client e p \<Rightarrow>
          new_tasks s (snd (register_route E (p_valid P) now client (dr_jti1 x) (dr_salt x) e p s))
      | ForgotPassword client e \<Rightarrow>
          new_tasks s (snd (forgot_password_route E (p_valid P) now client (dr_jti1 x) e s))
      | _ \<Rightarrow> [])"

definition handed_out :: "'r env \<Rightarrow> ('r, 'o) request_event \<Rightarrow> string list" where
  "handed_out E ev = answered E ev @ concat (map token_of_task (mailed E ev))"

text \<open>The tokens in a request.\<close>

definition presented :: "request \<Rightarrow> string list" where
  "presented rq =
     (case rq of
        RegisterUser client e p \<Rightarrow> [] | LoginUser client e p \<Rightarrow> [] | ForgotPassword client e \<Rightarrow> []
      | OauthLogin provider \<Rightarrow> [] | OauthCallback provider ac st \<Rightarrow> []
      | RefreshAccessToken tok \<Rightarrow> [tok] | VerifyEmail tok \<Rightarrow> [tok] | ResetPassword tok p \<Rightarrow> [tok]
      | Logout cred tok \<Rightarrow> cred # (case tok of None \<Rightarrow> [] | Some t \<Rightarrow> [t])
      | OauthLink cred provider \<Rightarrow> [cred] | ListLinkedAccounts cred \<Rightarrow> [cred] | UnlinkProvider cred provider \<Rightarrow> [cred]
      | ReadCurrentUser cred \<Rightarrow> [cred] | UpdateCurrentUser cred e \<Rightarrow> [cred]
      | ChangeCurrentUserPassword cred old new \<Rightarrow> [cred] | DeactivateCurrentUser cred \<Rightarrow> [cred]
      | ReadCurrentUserV2 cred \<Rightarrow> [cred] | UpdateCurrentUserV2 cred e \<Rightarrow> [cred]
      | ChangeCurrentUserPasswordV2 cred old new \<Rightarrow> [cred] | DeactivateCurrentUserV2 cred \<Rightarrow> [cred]
      | ListUsers cred limit offset by dir q a \<Rightarrow> [cred] | ListUsersFeed cred c limit q \<Rightarrow> [cred]
      | UpdateUserStatus cred uid a v \<Rightarrow> [cred] | AdminDeactivateUser cred uid \<Rightarrow> [cred]
      | ListRoles cred \<Rightarrow> [cred] | AssignRole cred uid n \<Rightarrow> [cred] | RevokeRole cred uid n \<Rightarrow> [cred]
      | TriggerUserSummaryReport cred \<Rightarrow> [cred] | GetReportStatus cred i \<Rightarrow> [cred]
      | UploadFile cred form \<Rightarrow> [cred] | ListMyFiles cred limit offset by dir q \<Rightarrow> [cred]
      | GetFile cred i \<Rightarrow> [cred] | DeleteFile cred i \<Rightarrow> [cred])"

definition verifies :: "'r env \<Rightarrow> time \<Rightarrow> string \<Rightarrow> bool" where
  "verifies E now tok \<longleftrightarrow> j_decode (e_jwt E) tok (secret_key (e_settings E)) [ALGORITHM] now \<noteq> None"

text \<open>Nobody forges a token: what is presented and verifies was handed out before. The list has the last
  request first, as a history does.\<close>

fun unforged :: "'r env \<Rightarrow> ('r, 'o) request_event list \<Rightarrow> bool" where
  "unforged E [] = True"
| "unforged E ((now, s, rq, P, x) # evs) \<longleftrightarrow> unforged E evs \<and>
     list_all (\<lambda>tok. verifies E now tok \<longrightarrow> tok \<in> set (concat (map (handed_out E) evs))) (presented rq)"

subsection \<open>Sign-ins\<close>

text \<open>A request that signs in to the account with address \<open>a\<close>: with its password, verified and active,
  or with an identity that a provider vouched for and that led to it.\<close>

fun signs_in :: "'r env \<Rightarrow> string \<Rightarrow> ('r, 'o) request_event \<Rightarrow> bool" where
  "signs_in E a (now, s, rq, P, x) \<longleftrightarrow>
     (case rq of
        LoginUser client e p \<Rightarrow>
          (case p_valid P e of
             None \<Rightarrow> False
           | Some e' \<Rightarrow> lower e' = a \<and>
               (case select_user_by_email (st_db s) a of
                  None \<Rightarrow> False
                | Some u \<Rightarrow> user_is_verified u \<and> user_is_active u \<and>
                      (case user_hashed_password u of None \<Rightarrow> False | Some h \<Rightarrow> verify_password (e_hash E) p h)))
      | OauthCallback provider ac st \<Rightarrow>
          (case (require_client (p_clients P) provider, r_get (e_redis E) (st_redis s) now (STATE_KEY_PREFIX @ st)) of
             (Inr c, Some v) \<Rightarrow>
               (case identify c (p_url_for P provider) ac of
                  Inl _ \<Rightarrow> False
                | Inr (puid, address) \<Rightarrow>
                    (case fst (resolve_user (st_db s) now provider puid address v) of
                       Inl _ \<Rightarrow> False | Inr u \<Rightarrow> user_email u = a))
           | _ \<Rightarrow> False)
      | _ \<Rightarrow> False)"

text \<open>A request that has a reset link mailed to the account \<open>i\<close>.\<close>

fun mails_reset :: "'r env \<Rightarrow> int \<Rightarrow> ('r, 'o) request_event \<Rightarrow> bool" where
  "mails_reset E i (now, s, rq, P, x) \<longleftrightarrow>
     list_ex (\<lambda>t. case t of
         SendPasswordResetEmail a tok \<Rightarrow>
           list_ex (\<lambda>u. user_id u = i \<and> user_email u = a \<and> user_is_active u) (users (st_db s))
       | _ \<Rightarrow> False) (mailed E (now, s, rq, P, x))"


subsection \<open>Where a token comes from\<close>

definition bearer_claims :: "'r env \<Rightarrow> time \<Rightarrow> string \<Rightarrow> token_claims \<Rightarrow> bool" where
  "bearer_claims E t tok claims \<longleftrightarrow>
     decode_access_token (e_jwt E) (e_settings E) t tok = Some claims \<or>
     decode_refresh_token (e_jwt E) (e_settings E) t tok = Some claims"

lemma decodes_verifies: "decode_token (e_jwt E) (e_settings E) t tok ty = Some claims \<Longrightarrow> verifies E t tok"
  by (auto simp: decode_token_def verifies_def split: option.splits)

lemma limited_result:
  assumes "fst (limited E rl now client body s) = Inr x"
  obtains r where "fst (body (s\<lparr>st_redis := r\<rparr>)) = Inr x"
  using assms by (auto simp: limited_def split: prod.splits sum.splits)

lemma limited_queue:
  assumes "\<And>r. P (st_queue (snd (body (s\<lparr>st_redis := r\<rparr>))))" and "P (st_queue s)"
  shows "P (st_queue (snd (limited E rl now client body s)))"
  using assms by (auto simp: limited_def split: prod.split sum.split)

lemma login_signs_in:
  assumes "fst (login_route E (p_valid P) now client j1 j2 e p s) = Inr r"
  shows "\<exists>a. r = bearer_tokens E now j1 j2 a \<and> signs_in E a (now, s, LoginUser client e p, P, x)"
proof -
  obtain rd where body: "fst (case p_valid P e of
      None \<Rightarrow> (Inl (RequestValidationError ''email''), s\<lparr>st_redis := rd\<rparr>)
    | Some e' \<Rightarrow> login_user E now j1 j2 \<lparr>login_email = e', login_password = p\<rparr> (s\<lparr>st_redis := rd\<rparr>)) = Inr r"
    using assms unfolding login_route_def by (rule limited_result) blast
  then obtain e' where e: "p_valid P e = Some e'" by (auto split: option.splits)
  from body e obtain u h where u: "select_user_by_email (st_db s) (lower e') = Some u" "user_hashed_password u = Some h"
      "verify_password (e_hash E) p h" "user_is_verified u" "user_is_active u" "r = bearer_tokens E now j1 j2 (user_email u)"
    by (auto simp: login_user_Inr)
  with select_user_SomeD [OF u(1)] e show ?thesis by (intro exI [of _ "lower e'"]) auto
qed

lemma callback_signs_in:
  assumes "fst (oauth_callback E (p_clients P) (p_url_for P) now j1 j2 provider ac st s) = Inr r"
  shows "\<exists>a. r = bearer_tokens E now j1 j2 a \<and> signs_in E a (now, s, OauthCallback provider ac st, P, x)"
  using assms
  by (auto simp: oauth_callback_eq Let_def case_prod_unfold split: sum.splits option.splits)

lemma refresh_continues:
  assumes "fst (refresh_access_token E now j tok s) = Inr r"
  shows "\<exists>claims. decode_refresh_token (e_jwt E) (e_settings E) now tok = Some claims \<and>
    atr_access_token r = create_access_token (e_jwt E) (e_settings E) now j (claims_subject claims)"
  using assms
  by (auto simp: refresh_access_token_def Let_def split: option.splits if_splits dest: select_user_SomeD)

text \<open>What is mailed: links, each for the account whose address it goes to.\<close>

lemma mailed_cases:
  assumes "task \<in> set (mailed E (now, s, rq, P, x))"
  obtains (verification) a i where "task = SendVerificationEmail a
      (create_email_verification_token (e_jwt E) (e_settings E) now (dr_jti1 x) (py_str i))"
  | (reset) u where "u \<in> set (users (st_db s))" "user_is_active u" "task = SendPasswordResetEmail (user_email u)
      (create_password_reset_token (e_jwt E) (e_settings E) now (dr_jti1 x) (py_str (user_id u)))"
proof -
  have reg: "set (new_tasks s (snd (register_user E now (dr_jti1 x) (dr_salt x) c (s\<lparr>st_redis := r\<rparr>)))) \<subseteq>
      {SendVerificationEmail (lower (uc_email c)) (create_email_verification_token (e_jwt E) (e_settings E) now (dr_jti1 x)
        (py_str (seq_users (st_db s))))}" for c r
  proof (cases "register_user E now (dr_jti1 x) (dr_salt x) c (s\<lparr>st_redis := r\<rparr>)")
    case (Pair res t)
    then show ?thesis
      using register_user_Inl [of E now "dr_jti1 x" "dr_salt x" c "s\<lparr>st_redis := r\<rparr>" _ t]
        register_user_Inr(4) [of E now "dr_jti1 x" "dr_salt x" c "s\<lparr>st_redis := r\<rparr>" _ t]
      by (cases res) (auto simp: new_tasks_def)
  qed
  show ?thesis
  proof (cases rq)
    case (RegisterUser client e p)
    have "set (new_tasks s (snd (register_route E (p_valid P) now client (dr_jti1 x) (dr_salt x) e p s))) \<subseteq>
        {SendVerificationEmail a (create_email_verification_token (e_jwt E) (e_settings E) now (dr_jti1 x) (py_str i)) | a i. True}"
      unfolding register_route_def new_tasks_def
    proof (rule limited_queue [where P = "\<lambda>q. set (drop (length (st_queue s)) q) \<subseteq> _"])
      fix r
      show "set (drop (length (st_queue s)) (st_queue (snd (case validate_user_create (p_valid P) e p of
            Inl err \<Rightarrow> (Inl err, s\<lparr>st_redis := r\<rparr>)
          | Inr user_data \<Rightarrow> register_user E now (dr_jti1 x) (dr_salt x) user_data (s\<lparr>st_redis := r\<rparr>))))) \<subseteq>
          {SendVerificationEmail a (create_email_verification_token (e_jwt E) (e_settings E) now (dr_jti1 x) (py_str i)) | a i. True}"
        using reg [of _ r] unfolding new_tasks_def by (cases "validate_user_create (p_valid P) e p") (simp, fastforce)
    qed simp
    with assms RegisterUser verification show ?thesis by auto
  next
    case (ForgotPassword client e)
    have "set (new_tasks s (snd (forgot_password_route E (p_valid P) now client (dr_jti1 x) e s))) \<subseteq>
        {SendPasswordResetEmail (user_email u) (create_password_reset_token (e_jwt E) (e_settings E) now (dr_jti1 x)
           (py_str (user_id u))) | u. u \<in> set (users (st_db s)) \<and> user_is_active u}"
      unfolding forgot_password_route_def new_tasks_def
      by (rule limited_queue [where P = "\<lambda>q. set (drop (length (st_queue s)) q) \<subseteq> _"])
         (auto simp: forgot_password_def Let_def split: option.split dest: select_user_SomeD)
    with assms ForgotPassword reset show ?thesis by auto
  qed (use assms in simp_all)
qed


context auth_services
begin

lemma bearer_claims_created:
  "bearer_claims E t (access_token t0 j a) claims \<Longrightarrow> claims_subject claims = a"
  "bearer_claims E t (refresh_token t0 j a) claims \<Longrightarrow> claims_subject claims = a"
  using decode_access_cases [of t t0 j a] decode_refresh_cases [of t t0 j a]
  by (auto simp: bearer_claims_def wrong_kind issued_claims_def)

lemma links_bear_nothing:
  "\<not> bearer_claims E t (create_email_verification_token (e_jwt E) (e_settings E) t0 j sub) claims"
  "\<not> bearer_claims E t (create_password_reset_token (e_jwt E) (e_settings E) t0 j sub) claims"
  by (simp_all add: bearer_claims_def decode_access_token_def decode_refresh_token_def decode_other_type
      create_email_verification_token_def create_password_reset_token_def)

lemma mailed_bears_nothing:
  assumes "task \<in> set (mailed E (now, s, rq, P, x))" and "tok \<in> set (token_of_task task)"
  shows "\<not> bearer_claims E t tok claims"
  using assms(1) by (rule mailed_cases) (use assms(2) links_bear_nothing in auto)

text \<open>A bearer token in an answer: from a sign-in, or for the subject of the refresh token presented.\<close>

lemma answered_origin:
  assumes "tok \<in> set (answered E (now, s, rq, P, x))" and "bearer_claims E t tok claims"
  shows "signs_in E (claims_subject claims) (now, s, rq, P, x) \<or>
    (\<exists>rt c. rq = RefreshAccessToken rt \<and> bearer_claims E now rt c \<and> claims_subject c = claims_subject claims)"
proof -
  have pair: "claims_subject claims = a" if "tok \<in> set (bearer_pair (Inr (bearer_tokens E now j1 j2 a)))" for j1 j2 a
    using that assms(2) bearer_claims_created by (auto simp: bearer_pair_def bearer_tokens_def)
  have none: "set (bearer_pair (Inl e)) = {}" for e by (simp add: bearer_pair_def)
  show ?thesis
  proof (cases rq)
    case (LoginUser client e p)
    let ?res = "fst (login_route E (p_valid P) now client (dr_jti1 x) (dr_jti2 x) e p s)"
    obtain r where "?res = Inr r" using assms(1) LoginUser none by (cases ?res) auto
    with login_signs_in [OF this, of x] assms(1) LoginUser pair show ?thesis by auto
  next
    case (OauthCallback provider ac st)
    let ?res = "fst (oauth_callback E (p_clients P) (p_url_for P) now (dr_jti1 x) (dr_jti2 x) provider ac st s)"
    obtain r where "?res = Inr r" using assms(1) OauthCallback none by (cases ?res) auto
    with callback_signs_in [OF this, of x] assms(1) OauthCallback pair show ?thesis by auto
  next
    case (RefreshAccessToken rt)
    let ?res = "fst (refresh_access_token E now (dr_jti1 x) rt s)"
    obtain r where r: "?res = Inr r" "tok = atr_access_token r" using assms(1) RefreshAccessToken by (cases ?res) auto
    from refresh_continues [OF r(1)] obtain c where
      "decode_refresh_token (e_jwt E) (e_settings E) now rt = Some c" "tok = access_token now (dr_jti1 x) (claims_subject c)"
      using r(2) by blast
    with bearer_claims_created(1) assms(2) RefreshAccessToken show ?thesis by (auto simp: bearer_claims_def)
  qed (use assms(1) in simp_all)
qed

lemma handed_out_origin:
  assumes "unforged E evs" and "ev \<in> set evs" and "tok \<in> set (handed_out E ev)" and "bearer_claims E t tok claims"
  shows "\<exists>ev \<in> set evs. signs_in E (claims_subject claims) ev"
  using assms
proof (induction evs arbitrary: ev tok t claims)
  case (Cons e evs)
  obtain now s rq P x where e: "e = (now, s, rq, P, x)" by (metis prod_cases5)
  have unforged: "unforged E evs" using Cons.prems(1) by (simp add: e)
  show ?case
  proof (cases "ev = e")
    case False
    then show ?thesis using Cons.IH [OF unforged _ Cons.prems(3,4)] Cons.prems(2) by auto
  next
    case True
    have "tok \<notin> set (token_of_task task)" if "task \<in> set (mailed E e)" for task
      using mailed_bears_nothing [OF that [unfolded e], of tok t claims] Cons.prems(4) by blast
    then have "tok \<in> set (answered E e)" using Cons.prems(3) by (auto simp: True handed_out_def)
    from answered_origin [OF this [unfolded e] Cons.prems(4)] show ?thesis
    proof (elim disjE exE conjE)
      fix rt c
      assume rq: "rq = RefreshAccessToken rt" and c: "bearer_claims E now rt c" "claims_subject c = claims_subject claims"
      have "verifies E now rt"
        using c(1) decodes_verifies by (auto simp: bearer_claims_def decode_access_token_def decode_refresh_token_def)
      then obtain ev' where "ev' \<in> set evs" "rt \<in> set (handed_out E ev')"
        using Cons.prems(1) by (auto simp: e rq presented_def)
      from Cons.IH [OF unforged this c(1)] c(2) show ?thesis by auto
    qed (auto simp: e)
  qed
qed simp

text \<open>A presented token that verifies was handed out by an earlier request.\<close>

lemma presented_origin:
  assumes "unforged E ((now, s, rq, P, x) # evs)" and "tok \<in> set (presented rq)" and "verifies E now tok"
  obtains ev where "ev \<in> set evs" and "tok \<in> set (handed_out E ev)" and "unforged E evs"
  using assms by (auto simp: list_all_iff)

lemma current_user_origin:
  assumes "unforged E ((now, s, rq, P, x) # evs)" and "tok \<in> set (presented rq)"
    and "get_current_user E now tok s = Inr u"
  shows "\<exists>ev \<in> set evs. signs_in E (user_email u) ev"
proof -
  obtain claims where c: "decode_access_token (e_jwt E) (e_settings E) now tok = Some claims"
      "claims_subject claims = user_email u"
    using assms(3) select_user_SomeD by (fastforce simp: get_current_user_Inr)
  then have "verifies E now tok" using decodes_verifies by (auto simp: decode_access_token_def)
  from presented_origin [OF assms(1,2) this] obtain ev where
    "ev \<in> set evs" "tok \<in> set (handed_out E ev)" "unforged E evs" .
  with handed_out_origin [of evs ev tok now claims] c show ?thesis
    by (auto simp: bearer_claims_def)
qed

text \<open>A reset token that verifies came with a mail to an account of its subject.\<close>

lemma answered_resets_nothing:
  assumes "tok \<in> set (answered E (now, s, rq, P, x))"
  shows "decode_password_reset_token (e_jwt E) (e_settings E) t tok = None"
proof -
  have bearer: "decode_password_reset_token (e_jwt E) (e_settings E) t (access_token t0 j a) = None"
    "decode_password_reset_token (e_jwt E) (e_settings E) t (refresh_token t0 j a) = None" for t0 j a
    by (simp_all add: decode_password_reset_token_def create_access_token_def create_refresh_token_def decode_other_type)
  show ?thesis
  proof (cases rq)
    case (LoginUser client e p)
    let ?res = "fst (login_route E (p_valid P) now client (dr_jti1 x) (dr_jti2 x) e p s)"
    show ?thesis
      using assms LoginUser bearer login_signs_in [of E P now client "dr_jti1 x" "dr_jti2 x" e p s _ x]
      by (cases ?res) (auto simp: bearer_pair_def bearer_tokens_def)
  next
    case (OauthCallback provider ac st)
    let ?res = "fst (oauth_callback E (p_clients P) (p_url_for P) now (dr_jti1 x) (dr_jti2 x) provider ac st s)"
    show ?thesis
      using assms OauthCallback bearer callback_signs_in [of E P now "dr_jti1 x" "dr_jti2 x" provider ac st s _ x]
      by (cases ?res) (auto simp: bearer_pair_def bearer_tokens_def)
  next
    case (RefreshAccessToken rt)
    let ?res = "fst (refresh_access_token E now (dr_jti1 x) rt s)"
    show ?thesis
      using assms RefreshAccessToken bearer refresh_continues [of E now "dr_jti1 x" rt s]
      by (cases ?res) auto
  qed (use assms in simp_all)
qed

end

text \<open>Reading back the number of an account.\<close>

lemma py_int_py_str_only:
  assumes "py_int (py_str n) = Some i"
  shows "i = n"
proof -
  have m: "magnitude (nat_digits k) = Some j \<Longrightarrow> j = k" for j k
    by (simp add: magnitude_def digits_value_nat_digits split: if_splits)
  show ?thesis
  proof (cases "n < 0")
    case True
    then show ?thesis using assms m [of "nat (- n)"] by (auto simp: py_str_def py_int_def strip_minus_digits)
  next
    case False
    obtain c r where cr: "nat_digits (nat n) = c # r"
      using nat_digits_not_Nil by (meson neq_Nil_conv)
    then have "is_decimal_char c" using nat_digits_decimal [of c "nat n"] by simp
    then have "c \<noteq> CHR ''-''" and "c \<noteq> CHR ''+''"
      by (auto simp: is_decimal_char_def code_def)
    then show ?thesis
      using assms False cr m [of "nat n"]
      by (auto simp: py_str_def py_int_def strip_nat_digits [of "nat n", unfolded cr])
  qed
qed

context auth_services
begin

lemma reset_token_origin:
  assumes "unforged E ((now, s, rq, P, x) # evs)" and "tok \<in> set (presented rq)"
    and "decode_password_reset_token (e_jwt E) (e_settings E) now tok = Some claims"
    and "py_int (claims_subject claims) = Some i"
  shows "\<exists>ev \<in> set evs. mails_reset E i ev"
proof -
  have "verifies E now tok" using decodes_verifies assms(3) by (auto simp: decode_password_reset_token_def)
  from presented_origin [OF assms(1,2) this] obtain ev where ev: "ev \<in> set evs" "tok \<in> set (handed_out E ev)" .
  obtain t s' rq' P' x' where e: "ev = (t, s', rq', P', x')" by (metis prod_cases5)
  have "tok \<notin> set (answered E ev)" using answered_resets_nothing assms(3) unfolding e by fastforce
  then obtain task where task: "task \<in> set (mailed E (t, s', rq', P', x'))" "tok \<in> set (token_of_task task)"
    using ev(2) by (auto simp: handed_out_def e)
  from task(1) show ?thesis
  proof (rule mailed_cases)
    fix a j assume "task = SendVerificationEmail a
        (create_email_verification_token (e_jwt E) (e_settings E) t (dr_jti1 x') (py_str j))"
    then show ?thesis
      using task(2) assms(3) by (simp add: decode_password_reset_token_def create_email_verification_token_def decode_other_type)
  next
    fix u assume u: "u \<in> set (users (st_db s'))" "user_is_active u" "task = SendPasswordResetEmail (user_email u)
        (create_password_reset_token (e_jwt E) (e_settings E) t (dr_jti1 x') (py_str (user_id u)))"
    then have "claims_subject claims = py_str (user_id u)"
      using task(2) assms(3) decode_reset_cases [of now t "dr_jti1 x'" "py_str (user_id u)"] by (simp add: issued_claims_def)
    then have "user_id u = i" using assms(4) py_int_py_str_only by auto
    with u task(1) have "mails_reset E i ev"
      unfolding e mails_reset.simps list_ex_iff by (intro bexI [of _ task]) auto
    with ev(1) show ?thesis by blast
  qed
qed

end

text \<open>C2. Nobody is authenticated without a sign-in. In any sequence of requests, made of whatever states,
  if nobody forges tokens (what verifies was handed out before), then a request whose token makes
  somebody the current user was preceded by a sign-in to the address of that user: with the
  password of the account that had the address then, verified and active, or with an identity a
  provider vouched for. Refreshed tokens go back to it as well; links from mails never do.\<close>

theorem authentication_has_an_origin:
  assumes "auth_services E" and "unforged E ((now, s, rq, P, x) # evs)" and "tok \<in> set (presented rq)"
    and "get_current_user E now tok s = Inr u"
  shows "\<exists>ev \<in> set evs. signs_in E (user_email u) ev"
  by (rule auth_services.current_user_origin [OF assms])


text \<open>The account of the examples signs in and then reads its profile.\<close>

lemma ex_login:
  "fst (login_route ex_env Some (10 * second) None ''j1'' ''j2'' ''ab@c.de'' ''Secret123'' ex_verified) =
     Inr (bearer_tokens ex_env (10 * second) ''j1'' ''j2'' ''ab@c.de'')"
proof -
  have "r_get ref_redis (st_redis ex_verified) (10 * second) (rate_limit_key login_limiter (client_host None)) = None"
    by (simp add: ref_redis_def ref_get_def ex_verified_def verified_by_def mark_token_used_def ref_set_def
        USED_KEY_PREFIX_def rate_limit_key_def)
  from ref.incr_missing [OF this] obtain r where
    r: "rate_limit_call ref_redis login_limiter (10 * second) None (st_redis ex_verified) = (Inr (), r)"
    by (simp add: rate_limit_call_def login_limiter_def Let_def case_prod_unfold)
  have "verify_password ref_hash ''Secret123'' (hash_password ref_hash ''salt'' ''Secret123'')"
    by (rule ref_hash.verify_hash_password)
  then have "fst (login_user ex_env (10 * second) ''j1'' ''j2'' \<lparr>login_email = ''ab@c.de'', login_password = ''Secret123''\<rparr>
      (ex_verified\<lparr>st_redis := r\<rparr>)) = Inr (bearer_tokens ex_env (10 * second) ''j1'' ''j2'' ''ab@c.de'')"
    using ex_verified_user(1) unfolding login_user_Inr by (simp add: ex_user_def)
  then show ?thesis unfolding login_route_def limited_def ref_env_simps r by simp
qed

theorem authentication_has_an_origin_witness:
  "signs_in ex_env ''ab@c.de'' (10 * second, ex_verified, LoginUser None ''ab@c.de'' ''Secret123'', ex_parties, ex_drawn)"
proof -
  let ?login = "(10 * second, ex_verified, LoginUser None ''ab@c.de'' ''Secret123'', ex_parties,
     ex_drawn\<lparr>dr_jti1 := ''j1'', dr_jti2 := ''j2''\<rparr>)"
  have "ex_access \<in> set (handed_out ex_env ?login)"
    unfolding handed_out_def answered.simps
    by (simp add: ex_parties_def ex_login [simplified] bearer_pair_def bearer_tokens_def ex_access_def)
  then have "unforged ex_env [(20 * second, ex_verified, ReadCurrentUser ex_access, ex_parties, ex_drawn), ?login]"
    by (simp add: presented_def)
  from authentication_has_an_origin [OF ex_services(1) this _ ex_current]
  show ?thesis by (simp add: presented_def ex_user_def)
qed

subsection \<open>Where a new password comes from\<close>

lemma unforged_append: "unforged E (later @ evs) \<Longrightarrow> unforged E evs"
  by (induction later) auto

text \<open>Over any history without forged tokens, if the password hash of an account is not what it was, then
  one of the requests changed it and either came from somebody who had signed in to the account's
  address and gave the present password, or a reset link had been mailed to the account before.\<close>

theorem new_passwords_have_an_origin:
  assumes "auth_services E" and "history E (s0, ob0) evs (s, ob)" and "db_inv (st_db s0)" and "unforged E evs"
    and "u \<in> set (users (st_db s0))" and "v \<in> set (users (st_db s))" and "user_id v = user_id u"
    and "user_hashed_password v \<noteq> user_hashed_password u"
  shows "\<exists>later now t rq P x earlier. evs = later @ (now, t, rq, P, x) # earlier \<and>
    entitled E now t rq Password_hash (user_id u) \<and>
    ((\<exists>tok w. tok \<in> set (presented rq) \<and> get_current_user E now tok t = Inr w \<and> user_id w = user_id u \<and>
        list_ex (signs_in E (user_email w)) earlier) \<or>
     list_ex (mails_reset E (user_id u)) earlier)"
proof -
  have "differs Password_hash u v" using assms(8) by simp
  from change_authored [OF assms(2,3,5-7) this] obtain now t rq P x where
    ev: "(now, t, rq, P, x) \<in> set evs" and ent: "entitled E now t rq Password_hash (user_id u)" by blast
  obtain later earlier where evs: "evs = later @ (now, t, rq, P, x) # earlier"
    using ev by (auto simp: in_set_conv_decomp)
  have unforged: "unforged E ((now, t, rq, P, x) # earlier)" using assms(4) unforged_append unfolding evs by blast
  consider (own) tok old new where "rq \<in> {ChangeCurrentUserPassword tok old new, ChangeCurrentUserPasswordV2 tok old new}"
      "is_caller E now tok t (user_id u)"
    | (reset) tok new where "rq = ResetPassword tok new"
      "token_for E now t (decode_password_reset_token (e_jwt E) (e_settings E) now tok) (user_id u)"
    using ent by (auto simp: entitled_def split: request.splits)
  then have "(\<exists>tok w. tok \<in> set (presented rq) \<and> get_current_user E now tok t = Inr w \<and> user_id w = user_id u \<and>
        list_ex (signs_in E (user_email w)) earlier) \<or> list_ex (mails_reset E (user_id u)) earlier"
  proof cases
    case own
    then obtain w where w: "get_current_user E now tok t = Inr w" "user_id w = user_id u" "tok \<in> set (presented rq)"
      by (auto simp: is_caller_def presented_def split: sum.splits)
    with auth_services.current_user_origin [OF assms(1) unforged w(3,1)] show ?thesis by (auto simp: list_ex_iff)
  next
    case reset
    then obtain claims where c: "decode_password_reset_token (e_jwt E) (e_settings E) now tok = Some claims"
        "py_int (claims_subject claims) = Some (user_id u)"
      by (auto simp: token_for_def split: option.splits)
    have "tok \<in> set (presented rq)" by (simp add: reset(1) presented_def)
    from auth_services.reset_token_origin [OF assms(1) unforged this c] show ?thesis by (simp add: list_ex_iff)
  qed
  with evs ent show ?thesis by blast
qed

end
