(* ===== verification/Answers.thy ===== *)
theory Answers
  imports Http Columns Provenance
begin

text \<open>
  The answers of the service: what the framework makes of the outcome of a handler, what the
  middlewares around it add and log, and what a client receives in the end, for every request in
  every state the service can reach.
\<close>

subsection \<open>The response\<close>

definition http_reply :: "reply \<Rightarrow> http_response" where
  "http_reply r =
     \<lparr>resp_status = rp_status r,
      resp_headers = (case rp_location r of None \<Rightarrow> [] | Some url \<Rightarrow> [(''location'', url)]),
      resp_content = (case rp_body r of None \<Rightarrow> PNone | Some v \<Rightarrow> v)\<rparr>"

text \<open>The application inside the middleware stack, for the outcome of a request: a response is sent, an
  exception with a handler is answered by it, any other leaves the application.\<close>

definition route_app ::
  "default_handlers \<Rightarrow> (http_response \<Rightarrow> message list) \<Rightarrow> failure + reply \<Rightarrow> asgi_app" where
  "route_app D render res scope ctx =
     (let raised = \<lambda>e. \<lparr>run_sent = [], run_raised = Some e, run_log = []\<rparr> in
      case res of
        Inr r \<Rightarrow> \<lparr>run_sent = render (http_reply r), run_raised = None, run_log = []\<rparr>
      | Inl (Unhandled w) \<Rightarrow> raised (Unhandled w)
      | Inl e \<Rightarrow>
          (case handle_exception D scope ctx e of
             None \<Rightarrow> raised e
           | Some (resp, entry) \<Rightarrow> \<lparr>run_sent = render resp, run_raised = None, run_log = [entry]\<rparr>))"

text \<open>What is asked of the framework beside its error layer and the instrumentation: a response is one start with its status
  and one body, and the default handlers keep the status.\<close>

locale framework = instrumented render outer instrument
  for render :: "http_response \<Rightarrow> message list" and outer :: error_layer
    and instrument :: "asgi_app \<Rightarrow> asgi_app" +
  fixes D :: default_handlers
  assumes render_shape: "\<exists>hs b. render r = [ResponseStart (resp_status r) hs, ResponseBody b]"
    and http_status: "resp_status (default_http_exception_handler D st detail hs) = st"
    and validation_status: "resp_status (default_validation_exception_handler D errors) = 422"

definition ref_render :: "http_response \<Rightarrow> message list" where
  "ref_render r =
     [ResponseStart (resp_status r) (resp_headers r),
      ResponseBody (case json_dumps (resp_content r) of None \<Rightarrow> [] | Some s \<Rightarrow> s)]"

definition ref_handlers :: default_handlers where
  "ref_handlers =
     \<lparr>default_http_exception_handler = (\<lambda>st detail hs.
        \<lparr>resp_status = st, resp_headers = hs, resp_content = PDict [(''detail'', PStr detail)]\<rparr>),
      default_validation_exception_handler = (\<lambda>errors.
        \<lparr>resp_status = 422, resp_headers = [], resp_content = PDict [(''detail'', PStr errors)]\<rparr>)\<rparr>"

interpretation ref_framework: framework ref_render "ref_error_middleware ref_render" ref_instrument ref_handlers
  by unfold_locales (simp_all add: ref_render_def ref_handlers_def)

text \<open>The third parties raise exceptions of their own, not those of FastAPI.\<close>

definition foreign_exceptions :: "'o parties \<Rightarrow> request \<Rightarrow> bool" where
  "foreign_exceptions P rq \<longleftrightarrow> (\<forall>e. third_party_raised P rq e \<longrightarrow> unforeseen e)"

text \<open>
  The database driver refuses a text with a NUL character, and PostgreSQL one that is longer than its
  column; the tables of the model take any text. So what follows is about requests whose texts they
  accept: those that a handler hands to the database, the addresses and identities that come from
  third parties, and the subjects of the tokens that are presented.
\<close>

definition no_nul :: "string \<Rightarrow> bool" where
  "no_nul s \<longleftrightarrow> list_all (\<lambda>c. code c \<noteq> 0) s"

definition database_texts :: "request \<Rightarrow> string list" where
  "database_texts rq =
     (case rq of
        ListUsers cred limit offset by dir (Some q) a \<Rightarrow> [q]
      | ListUsersFeed cred cursor limit (Some q) \<Rightarrow> [q]
      | AssignRole cred uid n \<Rightarrow> [n]
      | UnlinkProvider cred provider \<Rightarrow> [provider]
      | UploadFile cred form \<Rightarrow> [upload_name form]
      | _ \<Rightarrow> [])"

definition driver_accepts ::
  "'r env \<Rightarrow> 'o parties \<Rightarrow> drawn \<Rightarrow> time \<Rightarrow> request \<Rightarrow> 'r app_state \<Rightarrow> bool" where
  "driver_accepts E P x now rq s \<longleftrightarrow>
     within_limits (now, s, rq, P, x) \<and> list_all no_nul (database_texts rq) \<and>
     (\<forall>e e'. p_valid P e = Some e' \<longrightarrow> no_nul e') \<and>
     (\<forall>provider c tok puid a. p_clients P provider = Some c \<longrightarrow> c_fetch_identity c tok = Inr (puid, a) \<longrightarrow>
        no_nul puid \<and> (case a of None \<Rightarrow> True | Some e \<Rightarrow> no_nul e)) \<and>
     (\<forall>tok \<in> set (presented rq). \<forall>kind c. decode_token (e_jwt E) (e_settings E) now tok kind = Some c \<longrightarrow>
        no_nul (claims_subject c))"

text \<open>Why a handler can end in a 500: a third party raised, an upload met one of its two crashes, the
  database could not read an offset, or a response did not fit its model.\<close>

definition crash_cause ::
  "'r env \<Rightarrow> 'o parties \<Rightarrow> drawn \<Rightarrow> time \<Rightarrow> request \<Rightarrow> 'r app_state \<Rightarrow> failure \<Rightarrow> bool" where
  "crash_cause E P x now rq s e \<longleftrightarrow>
     third_party_raised P rq e \<or> upload_crashes E x now rq s e \<or> offset_refused rq e \<or> e = response_invalid"

lemma offset_refused_cause: "offset_refused rq e \<Longrightarrow> e = Unhandled ''DataError''"
  by (cases rq) simp_all

lemma serve_Inl:
  assumes "serve E P x now rq so = (Inl e, so')"
  shows "handle E P x now rq so = (Inl e, so') \<or> e = response_invalid"
proof (cases "fst (returns E P x now rq so)")
  case (Inl e')
  then obtain so1 where "returns E P x now rq so = (Inl e', so1)" by (metis prod.collapse)
  from serve_failed [OF this] assms show ?thesis by simp
next
  case (Inr v)
  then obtain so1 where "returns E P x now rq so = (Inr v, so1)" by (metis prod.collapse)
  from serve_returned [OF this] assms show ?thesis
    by (auto simp: reply_to_def split: returned.splits option.splits)
qed

lemma crash_unforeseen:
  "foreign_exceptions P rq \<Longrightarrow> crash_cause E P x now rq s e \<Longrightarrow> unforeseen e"
  by (auto simp: crash_cause_def foreign_exceptions_def upload_crashes_def response_invalid_def
      dest: offset_refused_cause)

lemma serve_status:
  assumes "serve E P x now rq so = (Inr r, so')"
  shows "rp_status r = fst (declared rq)"
proof (cases "fst (returns E P x now rq so)")
  case (Inl e')
  then obtain so1 where "returns E P x now rq so = (Inl e', so1)" by (metis prod.collapse)
  from serve_failed [OF this] assms show ?thesis by simp
next
  case (Inr v)
  then obtain so1 where "returns E P x now rq so = (Inr v, so1)" by (metis prod.collapse)
  from serve_returned [OF this] assms show ?thesis
    by (auto simp: reply_to_def split: returned.splits option.splits)
qed

lemma serve_fails:
  assumes "redis_server (e_redis E)" and "served E t (s, ob)" and "t \<le> now"
    and "serve E P x now rq (s, ob) = (Inl e, so)"
  shows "expected rq e \<or> crash_cause E P x now rq s e"
proof -
  have "db_inv (st_db s)" "states_ok (e_redis E) now (st_redis s)"
    using served_inv [OF assms(1,2)] states_ok_later assms(3) by auto
  then show ?thesis
    using serve_Inl [OF assms(4)] handle_failures [of s E now P x rq ob e so] unfolding crash_cause_def by blast
qed

text \<open>What a response is made of when a handler refused, and what its handler logs.\<close>

definition refusal_log :: "scope \<Rightarrow> string \<Rightarrow> failure \<Rightarrow> log_record" where
  "refusal_log scope rid e =
     (case e of
        HTTPException st _ _ \<Rightarrow> exception_log ''http exception'' scope (Some st) (Some rid)
      | _ \<Rightarrow> exception_log ''request validation failed'' scope None (Some rid))"

definition refusal_status :: "failure \<Rightarrow> int" where
  "refusal_status e = (case e of HTTPException st _ _ \<Rightarrow> st | _ \<Rightarrow> 422)"

context framework begin

abbreviation whole :: "settings \<Rightarrow> string \<Rightarrow> asgi_app \<Rightarrow> scope \<Rightarrow> asgi_run" where
  "whole cfg new_id inner scope \<equiv> application outer instrument cfg new_id inner scope None"

lemma answered_run:
  assumes "sc_type scope = ''http''" and "\<forall>v. incoming_id scope = Some v \<longrightarrow> utf8_valid (map code v)"
    and "inner scope (Some (given_id scope new_id)) = \<lparr>run_sent = render resp, run_raised = None, run_log = l\<rparr>"
  shows "\<exists>hs b. run_sent (whole cfg new_id inner scope) = [ResponseStart (resp_status resp) hs, ResponseBody b] \<and>
      set (added_headers cfg scope (given_id scope new_id)) \<subseteq> set hs \<and>
      run_log (whole cfg new_id inner scope) =
        l @ [completed scope (given_id scope new_id) [ResponseStart (resp_status resp) hs]]"
proof -
  note run = middleware_stack_run [OF assms(1,2), of cfg new_id inner None, unfolded Let_def]
  obtain hs b where render: "render resp = [ResponseStart (resp_status resp) hs, ResponseBody b]"
    using render_shape by blast
  have "run_raised (middleware_stack cfg new_id inner scope None) = None" using assms(3) by (simp add: run)
  then have "whole cfg new_id inner scope = middleware_stack cfg new_id inner scope None"
    by (rule application_quiet [OF instrumented_axioms assms(1)])
  then show ?thesis using assms(3) by (simp add: run render completed_def)
qed

lemma crashed_run:
  assumes "sc_type scope = ''http''" and "\<forall>v. incoming_id scope = Some v \<longrightarrow> utf8_valid (map code v)"
    and "inner scope (Some (given_id scope new_id)) = \<lparr>run_sent = [], run_raised = Some e, run_log = []\<rparr>"
  shows "run_sent (whole cfg new_id inner scope) = render internal_error \<and>
    run_log (whole cfg new_id inner scope) =
      [completed scope (given_id scope new_id) [], exception_log ''unhandled exception'' scope None None]"
proof -
  note run = middleware_stack_run [OF assms(1,2), of cfg new_id inner None, unfolded Let_def]
  have "run_raised (middleware_stack cfg new_id inner scope None) = Some e" using assms(3) by (simp add: run)
  from application_raised [OF instrumented_axioms assms(1) this] show ?thesis
    by (simp add: run assms(3) Let_def starts_response_def)
qed

lemma bad_id_run:
  assumes "sc_type scope = ''http''" and "incoming_id scope = Some v" and "\<not> utf8_valid (map code v)"
  shows "run_sent (whole cfg new_id inner scope) = render internal_error \<and>
    run_log (whole cfg new_id inner scope) = [exception_log ''unhandled exception'' scope None None]"
proof -
  have run: "middleware_stack cfg new_id inner scope None =
      \<lparr>run_sent = [], run_raised = Some (Unhandled ''UnicodeDecodeError''), run_log = []\<rparr>"
    using assms by (simp add: middleware_stack_def request_context_middleware_def)
  then have "run_raised (middleware_stack cfg new_id inner scope None) = Some (Unhandled ''UnicodeDecodeError'')" by simp
  from application_raised [OF instrumented_axioms assms(1) this] show ?thesis
    by (simp add: run Let_def starts_response_def)
qed

lemma internal_error_shape: "\<exists>hs b. render internal_error = [ResponseStart 500 hs, ResponseBody b]"
  using render_shape [of internal_error] by (simp add: internal_error_def)

lemma refused_run:
  assumes "expected rq e" and "\<not> unforeseen e"
  shows "\<exists>resp. route_app D render (Inl e) scope (Some rid) =
      \<lparr>run_sent = render resp, run_raised = None, run_log = [refusal_log scope rid e]\<rparr> \<and>
    resp_status resp = refusal_status e"
  using assms http_status validation_status
  by (cases e) (auto simp: expected_def route_app_def handle_exception_def handle_http_exception_def
      handle_validation_error_def refusal_log_def refusal_status_def)

end

text \<open>C33. Every request is answered, once, and logged. Requests come one after another, database and Redis
  are up; whatever state the service has reached and whatever request comes, with texts that the
  database accepts, the client gets exactly one response. A handler that succeeded answers with its declared status; one that
  refused, with the status it raised, one of those listed for the route, or 422 where something
  is validated; both with the security headers, the request id and, on an unversioned path, the
  deprecation headers, and with exactly one record of completion in the log, after that of the
  refusal. Otherwise it is a 500 that discloses nothing: because the client sent a request id that is not
  UTF-8, in which case no handler ran, or because a third party raised (an OAuth provider, the
  file store, a socket of the user who is told of a new role), an upload met one of its two
  crashes, an offset was beyond what the database reads, or a response did not fit its model.\<close>

theorem every_request_answered:
  fixes scope cfg new_id
  assumes "framework render outer instrument D" and "redis_server (e_redis E)" and "served E t (s, ob)" and "t \<le> now"
    and "foreign_exceptions P rq" and "driver_accepts E P x now rq s" and "serve E P x now rq (s, ob) = (res, so)"
    and "sc_type scope = ''http''"
  defines "rid \<equiv> given_id scope new_id"
  defines "run \<equiv> application outer instrument cfg new_id (route_app D render res) scope None"
  shows "\<exists>st hs b. run_sent run = [ResponseStart st hs, ResponseBody b] \<and>
    (if \<exists>v. incoming_id scope = Some v \<and> \<not> utf8_valid (map code v)
     then run_sent run = render internal_error \<and> run_log run = [exception_log ''unhandled exception'' scope None None]
     else case res of
       Inr r \<Rightarrow> st = fst (declared rq) \<and> set (added_headers cfg scope rid) \<subseteq> set hs \<and>
         run_log run = [completed scope rid [ResponseStart st hs]]
     | Inl e \<Rightarrow>
         if unforeseen e
         then crash_cause E P x now rq s e \<and> run_sent run = render internal_error \<and>
           run_log run = [completed scope rid [], exception_log ''unhandled exception'' scope None None]
         else st = refusal_status e \<and>
           (st \<in> fst (failure_statuses rq) \<or> st = 422 \<and> snd (failure_statuses rq)) \<and>
           set (added_headers cfg scope rid) \<subseteq> set hs \<and>
           run_log run = [refusal_log scope rid e, completed scope rid [ResponseStart st hs]])"
proof -
  note F = assms(1)
  let ?app = "route_app D render res"
  obtain hs0 b0 where error: "render internal_error = [ResponseStart 500 hs0, ResponseBody b0]"
    using framework.internal_error_shape [OF F] by blast
  show ?thesis
  proof (cases "\<exists>v. incoming_id scope = Some v \<and> \<not> utf8_valid (map code v)")
    case True
    then obtain v where "incoming_id scope = Some v" "\<not> utf8_valid (map code v)" by blast
    from framework.bad_id_run [where inner = ?app, OF F assms(8) this, of cfg new_id] show ?thesis
      using True error by (auto simp: run_def)
  next
    case False
    then have id: "\<forall>v. incoming_id scope = Some v \<longrightarrow> utf8_valid (map code v)" by blast
    show ?thesis
    proof (cases res)
      case (Inr r)
      have "?app scope (Some (given_id scope new_id)) = \<lparr>run_sent = render (http_reply r), run_raised = None, run_log = []\<rparr>"
        by (simp add: Inr route_app_def)
      from framework.answered_run [where inner = ?app, OF F assms(8) id this, of cfg] serve_status [OF assms(7) [unfolded Inr]]
      show ?thesis unfolding if_not_P [OF False] by (auto simp: Inr run_def rid_def http_reply_def)
    next
      case (Inl e)
      have why: "expected rq e \<or> crash_cause E P x now rq s e"
        by (rule serve_fails [OF assms(2-4) assms(7) [unfolded Inl]])
      show ?thesis
      proof (cases "unforeseen e")
        case True
        then obtain w where e: "e = Unhandled w" by (cases e) auto
        then have cause: "crash_cause E P x now rq s e" using why by (simp add: expected_def)
        have "?app scope (Some (given_id scope new_id)) = \<lparr>run_sent = [], run_raised = Some e, run_log = []\<rparr>"
          by (simp add: route_app_def Inl e)
        from framework.crashed_run [where inner = ?app, OF F assms(8) id this, of cfg] show ?thesis
          unfolding if_not_P [OF False] using cause True error by (simp add: Inl run_def rid_def)
      next
        case handled: False
        then have exp: "expected rq e" using why crash_unforeseen assms(5) by blast
        from framework.refused_run [OF F this handled, of scope rid] obtain resp where
          resp: "?app scope (Some (given_id scope new_id)) =
            \<lparr>run_sent = render resp, run_raised = None, run_log = [refusal_log scope rid e]\<rparr>"
          "resp_status resp = refusal_status e"
          by (auto simp: Inl rid_def)
        have "refusal_status e \<in> fst (failure_statuses rq) \<or> refusal_status e = 422 \<and> snd (failure_statuses rq)"
          using exp by (cases e) (auto simp: expected_def refusal_status_def)
        with framework.answered_run [where inner = ?app, OF F assms(8) id resp(1), of cfg] handled resp(2) show ?thesis
          unfolding if_not_P [OF False] by (auto simp: Inl run_def rid_def)
      qed
    qed
  qed
qed

text \<open>A sign-in with a provider that is not configured, on the old path.\<close>

definition ex_scope :: scope where
  "ex_scope = \<lparr>sc_type = ''http'', sc_method = ''GET'', sc_path = ''/auth/oauth/x/login'', sc_headers = []\<rparr>"

definition ex_careful_parties :: "ref_objects parties" where
  "ex_careful_parties = ex_parties\<lparr>p_valid := (\<lambda>e. if length e \<le> 254 \<and> no_nul e then Some e else None)\<rparr>"

definition ex_uuid_drawn :: drawn where
  "ex_uuid_drawn = ex_drawn\<lparr>dr_hex := replicate 32 CHR ''0''\<rparr>"

theorem every_request_answered_witness:
  "\<exists>hs b. run_sent (application (ref_error_middleware ref_render) ref_instrument ex_settings ''u''
      (route_app ref_handlers ref_render
        (fst (serve ex_env ex_careful_parties ex_uuid_drawn (6 * second) (OauthLogin ''x'') (ex_verified, Map.empty))))
      ex_scope None) = [ResponseStart 404 hs, ResponseBody b] \<and> (''x-request-id'', ''u'') \<in> set hs"
proof -
  let ?rq = "OauthLogin ''x''"
  obtain m where h: "serve ex_env ex_careful_parties ex_uuid_drawn (6 * second) ?rq (ex_verified, Map.empty) =
      (Inl (HTTPException 404 m []), (ex_verified, Map.empty :: ref_objects))"
    by (simp add: serve_def app_returns_def returning_def oauth_login_def start_flow_def require_client_def
        SUPPORTED_PROVIDERS_def)
  have redis: "redis_server (e_redis ex_env)" using ref.redis_server_axioms by simp
  have foreign: "foreign_exceptions ex_careful_parties ?rq"
    by (simp add: foreign_exceptions_def provider_raised_def ex_careful_parties_def ex_parties_def)
  have ids: "ids_in_range (st_db ex_verified)"
    by (simp add: ids_in_range_def ex_verified_users) (simp add: ex_user_def)
  then have driver: "driver_accepts ex_env ex_careful_parties ex_uuid_drawn (6 * second) ?rq ex_verified"
    by (simp add: driver_accepts_def database_texts_def presented_def bounded_identities_def
        ex_careful_parties_def ex_parties_def ex_uuid_drawn_def)
  have "sc_type ex_scope = ''http''" "incoming_id ex_scope = None"
    by (simp_all add: ex_scope_def incoming_id_def header_value_def)
  with every_request_answered [OF ref_framework.framework_axioms redis ex_served _ foreign driver h,
      of ex_scope ex_settings "''u''"]
  show ?thesis unfolding h fst_conv
    by (auto simp: refusal_status_def given_id_def added_headers_def REQUEST_ID_HEADER_def)
qed

end
