(* ===== verification/TokenUse.thy ===== *)
theory TokenUse
  imports Authority
begin

text \<open>
  What is used once, and where a token may be used. Every request changes Redis in one of a few ways
  (\<open>redis_change\<close>), so what a request spent stays spent whatever requests follow it: the link of
  a password reset and the state value of an OAuth flow. And a token of one kind is worth nothing
  where another kind is asked for, at any route and at the socket. The histories are those of
  \<open>Authority\<close>, with requests one after another in the order of time; what two requests at the same
  time can do to a link or a state value is in \<open>Races\<close> and \<open>Callbacks\<close>.
\<close>

subsection \<open>What requests do to Redis\<close>

inductive redis_change :: "'r env \<Rightarrow> time \<Rightarrow> drawn \<Rightarrow> 'r \<Rightarrow> 'r \<Rightarrow> bool" for E now x where
  same: "redis_change E now x r r"
| counted: "redis_change E now x r (snd (rate_limit_call (e_redis E) rl now client r))"
| revoked: "redis_change E now x r (blacklist_token (e_redis E) r now j ttl)"
| spent: "\<not> is_token_used (e_redis E) r now j \<Longrightarrow> redis_change E now x r (mark_token_used (e_redis E) r now j ttl)"
| flow_begun: "redis_change E now x r (r_set (e_redis E) r now (STATE_KEY_PREFIX @ dr_state x) v STATE_TTL_SECONDS)"
| flow_ended: "redis_change E now x r (r_delete (e_redis E) r now (STATE_KEY_PREFIX @ st))"
| both: "redis_change E now x r r1 \<Longrightarrow> redis_change E now x r1 r2 \<Longrightarrow> redis_change E now x r r2"

named_theorems redis_changes \<open>the routes change Redis in the ways that are listed\<close>

lemma change_limited:
  assumes "\<And>r. st_redis (snd (body (s\<lparr>st_redis := r\<rparr>))) = r"
  shows "redis_change E now x (st_redis s) (st_redis (snd (limited E rl now client body s)))"
  using redis_change.counted [of E now x "st_redis s" rl client] assms
  by (auto simp: limited_def split: prod.split sum.split)

lemma change_limited_routes [redis_changes]:
  "redis_change E now x (st_redis s) (st_redis (snd (register_route E valid now client jti salt e p s)))"
  "redis_change E now x (st_redis s) (st_redis (snd (login_route E valid now client j1 j2 e p s)))"
  "redis_change E now x (st_redis s) (st_redis (snd (forgot_password_route E valid now client jti e s)))"
  unfolding register_route_def login_route_def forgot_password_route_def
  by (rule change_limited; simp add: frame split: sum.split option.split)+

lemma change_logout [redis_changes]: "redis_change E now x (st_redis s) (st_redis (snd (logout E now cred tok s)))"
  by (auto simp: logout_def Let_def split: option.split intro: redis_change.intros)

lemma change_token_routes [redis_changes]:
  "redis_change E now x (st_redis s) (st_redis (snd (verify_email E now etok s)))"
  "redis_change E now x (st_redis s) (st_redis (snd (reset_password_route E now salt rtok p s)))"
  by (auto simp: verify_email_def reset_password_route_def reset_password_def Let_def
      split: option.split sum.split intro: redis_change.same redis_change.spent)

lemma change_start_flow:
  "redis_change E now x (st_redis s) (st_redis (snd (start_flow E clients url_for now (dr_state x) provider v s)))"
  by (auto simp: start_flow_def split: sum.split intro: redis_change.same redis_change.flow_begun)

lemma change_oauth [redis_changes]:
  "redis_change E now x (st_redis s) (st_redis (snd (oauth_login E clients url_for now (dr_state x) provider s)))"
  "redis_change E now x (st_redis s) (st_redis (snd (oauth_link E clients url_for now tok (dr_state x) provider s)))"
  "redis_change E now x (st_redis s)
     (st_redis (snd (oauth_callback E clients url_for now j1 j2 provider ac st s)))"
proof -
  show "redis_change E now x (st_redis s) (st_redis (snd (oauth_login E clients url_for now (dr_state x) provider s)))"
    unfolding oauth_login_def by (rule change_start_flow)
  show "redis_change E now x (st_redis s) (st_redis (snd (oauth_link E clients url_for now tok (dr_state x) provider s)))"
    using change_start_flow [of E now x s]
    by (cases "get_current_user E now tok s") (simp_all add: oauth_link_def authenticated_def redis_change.same)
  let ?r = "st_redis (snd (oauth_callback E clients url_for now j1 j2 provider ac st s))"
  have "?r = (if isl (require_client clients provider) \<or> r_get (e_redis E) (st_redis s) now (STATE_KEY_PREFIX @ st) = None
      then st_redis s else r_delete (e_redis E) (st_redis s) now (STATE_KEY_PREFIX @ st))"
    unfolding oauth_callback_eq
    by (cases "require_client clients provider"; cases "r_get (e_redis E) (st_redis s) now (STATE_KEY_PREFIX @ st)")
       (simp_all add: Let_def case_prod_unfold split: sum.split)
  then show "redis_change E now x (st_redis s)
     (st_redis (snd (oauth_callback E clients url_for now j1 j2 provider ac st s)))"
    using redis_change.same [of E now x "st_redis s"] redis_change.flow_ended [of E now x "st_redis s" st] by simp
qed

lemma handle_redis:
  "redis_change E now x (st_redis s) (st_redis (fst (snd (handle E P x now rq (s, ob)))))"
  by (cases rq; simp only: handle.simps on_app_simps snd_conv fst_conv;
      (rule redis_changes | (simp only: same_in_both_versions)?, (simp only: frame fst_conv)?, rule redis_change.same))

subsection \<open>What is spent stays spent\<close>

text \<open>The keys of the marks and of the state values are not those of the counters.\<close>

lemma used_key_other [simp]: "USED_KEY_PREFIX @ j \<noteq> rate_limit_key rl h" "USED_KEY_PREFIX @ j \<noteq> STATE_KEY_PREFIX @ st"
  by (simp_all add: USED_KEY_PREFIX_def STATE_KEY_PREFIX_def rate_limit_key_def)

context redis_server
begin

lemma get_counted:
  assumes "k \<noteq> rate_limit_key rl (client_host client)" and "t \<le> t'"
  shows "r_get R (snd (rate_limit_call R rl t client r)) t' k = r_get R r t' k"
proof -
  obtain n r1 where "r_incr R r t (rate_limit_key rl (client_host client)) = (n, r1)" by fastforce
  then show ?thesis
    using incr_other [OF assms, of r] expire_other [OF assms] by (simp add: rate_limit_call_def)
qed

end


lemma state_gone:
  assumes "redis_change E now x r r'" and "redis_server (e_redis E)" and "dr_state x \<noteq> st"
    and "\<And>t. now \<le> t \<Longrightarrow> r_get (e_redis E) r t (STATE_KEY_PREFIX @ st) = None" and "now \<le> t"
  shows "r_get (e_redis E) r' t (STATE_KEY_PREFIX @ st) = None"
  using assms(1,4,5)
proof (induction arbitrary: t rule: redis_change.induct)
  case (counted r rl client)
  then show ?case by (simp add: redis_server.get_counted [OF assms(2)])
next
  case (revoked r j ttl)
  then show ?case using redis_server.get_set [OF assms(2)] by (simp add: blacklist_token_def)
next
  case (spent r j ttl)
  then show ?case using redis_server.get_set [OF assms(2)] by (simp add: mark_token_used_def)
next
  case (flow_begun r v)
  then show ?case using redis_server.get_set [OF assms(2)] assms(3) by (simp add: STATE_TTL_SECONDS_def)
next
  case (flow_ended r st')
  then show ?case using redis_server.get_delete [OF assms(2)] by simp
qed blast+

text \<open>Requests one after another, none before \<open>t0\<close> and none after \<open>t1\<close>; the last is the head.\<close>

fun during :: "time \<Rightarrow> time \<Rightarrow> ('r, 'o) request_event list \<Rightarrow> bool" where
  "during t0 t1 [] \<longleftrightarrow> t0 \<le> t1"
| "during t0 t1 ((now, s, rq, P, x) # evs) \<longleftrightarrow> now \<le> t1 \<and> during t0 now evs"

lemma history_redis:
  assumes "history E (s0, ob0) evs (s, ob)" and "during t0 t1 evs" and "Q t0 (st_redis s0)"
    and mono: "\<And>t t' r. Q t r \<Longrightarrow> t \<le> t' \<Longrightarrow> Q t' r"
    and step: "\<And>now u rq P x r r'. (now, u, rq, P, x) \<in> set evs \<Longrightarrow> Q now r \<Longrightarrow> redis_change E now x r r' \<Longrightarrow> Q now r'"
  shows "Q t1 (st_redis s)"
proof -
  have "Q t (st_redis (fst so))"
    if "history E so0 es so" "so0 = (s0, ob0)" "during t0 t es" "set es \<subseteq> set evs" for so0 so es t
    using that
  proof (induction arbitrary: t rule: history.induct)
    case beginning
    then show ?case using assms(3) mono by simp
  next
    case (request es u ob P x now rq res so')
    then have "Q now (st_redis u)" by simp
    moreover have "redis_change E now x (st_redis u) (st_redis (fst so'))"
      using handle_redis [of E now x u P rq ob] request.hyps(2) by simp
    moreover have "now \<le> t" "(now, u, rq, P, x) \<in> set evs" using request.prems by simp_all
    ultimately show ?case using step mono by blast
  next
    case (cleanup es u ob now n u')
    then have "st_redis u' = st_redis u" by (auto simp: cleanup_unverified_users_def Let_def)
    with cleanup show ?case by simp
  qed
  from this [OF assms(1) refl assms(2) subset_refl] show ?thesis by simp
qed


lemma history_state_gone:
  assumes "history E (s0, ob0) evs (s, ob)" and "during t0 t1 evs" and "redis_server (e_redis E)"
    and "\<And>t. t0 \<le> t \<Longrightarrow> r_get (e_redis E) (st_redis s0) t (STATE_KEY_PREFIX @ st) = None"
    and "list_all (\<lambda>(now, u, rq, P, x). dr_state x \<noteq> st) evs"
  shows "r_get (e_redis E) (st_redis s) t1 (STATE_KEY_PREFIX @ st) = None"
proof -
  have "\<forall>t \<ge> t1. r_get (e_redis E) (st_redis s) t (STATE_KEY_PREFIX @ st) = None"
    using assms(1,2)
  proof (rule history_redis [where Q = "\<lambda>low r. \<forall>t \<ge> low. r_get (e_redis E) r t (STATE_KEY_PREFIX @ st) = None"])
    fix now u rq P x r r'
    assume ev: "(now, u, rq, P, x) \<in> set evs" and none: "\<forall>t \<ge> now. r_get (e_redis E) r t (STATE_KEY_PREFIX @ st) = None"
      and change: "redis_change E now x r r'"
    have "dr_state x \<noteq> st" using assms(5) ev by (auto simp: list_all_iff)
    from state_gone [OF change assms(3) this] none
    show "\<forall>t \<ge> now. r_get (e_redis E) r' t (STATE_KEY_PREFIX @ st) = None" by blast
  qed (use assms(4) in auto)
  then show ?thesis by simp
qed




text \<open>C12. A state value works once, as long as requests come one after another. Whatever became of the callback that
  consumed it, and whatever requests and cleanups follow it in which no flow happens to draw the
  same value again, every later callback with it, by whomever and for whichever provider, is refused
  and changes nothing. Callbacks at the same time may both get past the check
  (\<open>concurrent_state_values\<close> in \<open>Callbacks\<close>).\<close>

theorem oauth_state_once:
  assumes "auth_services E"
    and "oauth_callback E clients url_for t j1 j2 p ac st s = (res, s1)"
    and "require_client clients p = Inr c"
    and "res \<noteq> Inl (HTTPException 400 ''Invalid or expired OAuth state'' [])"
    and "history E (s1, ob1) evs (s', ob')" and "during t t' evs"
    and "list_all (\<lambda>(now, u, rq, P, x). dr_state x \<noteq> st) evs" and "require_client clients' p' = Inr c'"
  shows "oauth_callback E clients' url_for' t' k1 k2 p' ac' st s' =
    (Inl (HTTPException 400 ''Invalid or expired OAuth state'' []), s')"
proof -
  have R: "redis_server (e_redis E)" using assms(1) by (simp add: auth_services_def)
  have "r_get (e_redis E) (st_redis s1) t'' (STATE_KEY_PREFIX @ st) = None" if "t \<le> t''" for t''
    by (rule oauth_callback_spends [OF assms(1) that assms(2-4)])
  from history_state_gone [OF assms(5,6) R this assms(7)] assms(8) show ?thesis by (simp add: oauth_callback_eq)
qed

theorem oauth_state_once_witness:
  "fst (oauth_callback ex_env ex_clients (\<lambda>p. ''cb'') (60 * second) ''k1'' ''k2'' ''google'' ''y'' ''st''
     (snd (oauth_callback ex_env ex_clients (\<lambda>p. ''cb'') (5 * second) ''j1'' ''j2'' ''google'' ''x''
        ''st'' ex_flow))) = Inl (HTTPException 400 ''Invalid or expired OAuth state'' [])"
proof -
  let ?s = "snd (oauth_callback ex_env ex_clients (\<lambda>p. ''cb'') (5 * second) ''j1'' ''j2'' ''google'' ''x'' ''st'' ex_flow)"
  have "history ex_env (?s, Map.empty) [] (?s, Map.empty :: ref_objects)" by (rule history.beginning)
  note once = oauth_state_once [OF ex_services(1) surjective_pairing ex_require _ this _ _ ex_require]
  show ?thesis by (subst once) (use ex_callback in simp_all)
qed

subsection \<open>The kinds of tokens\<close>

datatype token_kind = AccessToken | RefreshToken | VerificationToken | ResetToken

fun issued :: "'r env \<Rightarrow> token_kind \<Rightarrow> time \<Rightarrow> string \<Rightarrow> string \<Rightarrow> string" where
  "issued E AccessToken t jti sub = create_access_token (e_jwt E) (e_settings E) t jti sub"
| "issued E RefreshToken t jti sub = create_refresh_token (e_jwt E) (e_settings E) t jti sub"
| "issued E VerificationToken t jti sub = create_email_verification_token (e_jwt E) (e_settings E) t jti sub"
| "issued E ResetToken t jti sub = create_password_reset_token (e_jwt E) (e_settings E) t jti sub"

text \<open>The requests with a token, and the kind each asks for: with the credential of the
  \<open>Authorization\<close> header, or in the body.\<close>

definition asks_for :: "request \<Rightarrow> (token_kind \<times> string) option" where
  "asks_for rq =
     (case rq of
        RefreshAccessToken tok \<Rightarrow> Some (RefreshToken, tok)
      | VerifyEmail tok \<Rightarrow> Some (VerificationToken, tok)
      | ResetPassword tok p \<Rightarrow> Some (ResetToken, tok)
      | Logout cred tok \<Rightarrow> Some (AccessToken, cred)
      | OauthLink cred provider \<Rightarrow> Some (AccessToken, cred)
      | ListLinkedAccounts cred \<Rightarrow> Some (AccessToken, cred)
      | UnlinkProvider cred provider \<Rightarrow> Some (AccessToken, cred)
      | ReadCurrentUser cred \<Rightarrow> Some (AccessToken, cred)
      | UpdateCurrentUser cred e \<Rightarrow> Some (AccessToken, cred)
      | ChangeCurrentUserPassword cred old new \<Rightarrow> Some (AccessToken, cred)
      | DeactivateCurrentUser cred \<Rightarrow> Some (AccessToken, cred)
      | ReadCurrentUserV2 cred \<Rightarrow> Some (AccessToken, cred)
      | UpdateCurrentUserV2 cred e \<Rightarrow> Some (AccessToken, cred)
      | ChangeCurrentUserPasswordV2 cred old new \<Rightarrow> Some (AccessToken, cred)
      | DeactivateCurrentUserV2 cred \<Rightarrow> Some (AccessToken, cred)
      | ListUsers cred limit offset by dir q a \<Rightarrow> Some (AccessToken, cred)
      | ListUsersFeed cred c limit q \<Rightarrow> Some (AccessToken, cred)
      | UpdateUserStatus cred uid a v \<Rightarrow> Some (AccessToken, cred)
      | AdminDeactivateUser cred uid \<Rightarrow> Some (AccessToken, cred)
      | ListRoles cred \<Rightarrow> Some (AccessToken, cred)
      | AssignRole cred uid n \<Rightarrow> Some (AccessToken, cred)
      | RevokeRole cred uid n \<Rightarrow> Some (AccessToken, cred)
      | TriggerUserSummaryReport cred \<Rightarrow> Some (AccessToken, cred)
      | GetReportStatus cred i \<Rightarrow> Some (AccessToken, cred)
      | UploadFile cred form \<Rightarrow> Some (AccessToken, cred)
      | ListMyFiles cred limit offset by dir q \<Rightarrow> Some (AccessToken, cred)
      | GetFile cred i \<Rightarrow> Some (AccessToken, cred)
      | DeleteFile cred i \<Rightarrow> Some (AccessToken, cred)
      | _ \<Rightarrow> None)"

lemma decode_other_kind:
  assumes "jwt_codec (e_jwt E)"
  shows "kind \<noteq> AccessToken \<Longrightarrow> decode_access_token (e_jwt E) (e_settings E) now (issued E kind t jti sub) = None"
    and "kind \<noteq> RefreshToken \<Longrightarrow> decode_refresh_token (e_jwt E) (e_settings E) now (issued E kind t jti sub) = None"
    and "kind \<noteq> VerificationToken \<Longrightarrow>
      decode_email_verification_token (e_jwt E) (e_settings E) now (issued E kind t jti sub) = None"
    and "kind \<noteq> ResetToken \<Longrightarrow>
      decode_password_reset_token (e_jwt E) (e_settings E) now (issued E kind t jti sub) = None"
  by (cases kind; simp add: jwt_codec.decode_other_type [OF assms] decode_access_token_def decode_refresh_token_def
      decode_email_verification_token_def decode_password_reset_token_def create_access_token_def
      create_refresh_token_def create_email_verification_token_def create_password_reset_token_def)+

text \<open>A route that depends on the caller, without one.\<close>

lemma turned_away_at_the_door:
  assumes "get_current_user E now tok s = Inl e"
  shows "authenticated E now tok body s = (Inl e, s)"
    "require_permissions E now tok ps body' s = (Inl e, s)"
    "for_current_user E now tok body'' (s, ob) = (Inl e, (s, ob))"
  by (simp_all add: assms authenticated_def require_permissions_def for_current_user_def)

lemma on_app_refused: "on_app (Inl e, s) ob = (Inl e, (s, ob))" "outcome (Inl e, so) = (Inl e, so)"
  by (simp_all add: on_app_def outcome_def)

text \<open>C8. A token of one kind is worth nothing where another kind is asked for. Whatever the state and the
  time, a request that presents an issued access, refresh, verification or reset token in the place of
  one of the other three is answered with a 401 and changes nothing, at every route that takes a
  token (a new password that is not acceptable is refused with a 422 before the link is looked at);
  at the socket it is a policy violation; and a logout does with it as if no refresh token had been
  sent. What a token of the right kind opens says the rest of the development.\<close>

theorem token_kinds_separated:
  fixes kind t jti sub
  assumes "auth_services E"
  defines "tok \<equiv> issued E kind t jti sub"
  shows "(\<forall>asked. asks_for rq = Some (asked, tok) \<longrightarrow> kind \<noteq> asked \<longrightarrow>
      (\<exists>e. handle E P x now rq (s, ob) = (Inl e, (s, ob)) \<and>
         ((\<exists>m hs. e = HTTPException 401 m hs) \<or>
          (\<exists>p m. rq = ResetPassword tok p \<and> validate_new_password p = Inl m \<and> e = RequestValidationError m)))) \<and>
    (kind \<noteq> AccessToken \<longrightarrow> get_current_user_ws E now tok s = Inl (WebSocketException WS_1008_POLICY_VIOLATION)) \<and>
    (kind \<noteq> RefreshToken \<longrightarrow> logout E now cred (Some tok) s = logout E now cred None s)"
proof (intro conjI impI allI)
  have "jwt_codec (e_jwt E)" using assms(1) by (simp add: auth_services_def)
  note other = decode_other_kind [OF this, where kind = kind and t = t and jti = jti and sub = sub, folded tok_def]
  show "get_current_user_ws E now tok s = Inl (WebSocketException WS_1008_POLICY_VIOLATION)" if "kind \<noteq> AccessToken"
    using other(1) [OF that] by (simp add: get_current_user_ws_def)
  show "logout E now cred (Some tok) s = logout E now cred None s" if "kind \<noteq> RefreshToken"
    using other(2) [OF that] by (simp add: logout_def split: option.split)
  fix asked assume rq: "asks_for rq = Some (asked, tok)" "kind \<noteq> asked"
  show "\<exists>e. handle E P x now rq (s, ob) = (Inl e, (s, ob)) \<and>
     ((\<exists>m hs. e = HTTPException 401 m hs) \<or>
      (\<exists>p m. rq = ResetPassword tok p \<and> validate_new_password p = Inl m \<and> e = RequestValidationError m))"
  proof (cases asked)
    case AccessToken
    with rq(2) have none: "decode_access_token (e_jwt E) (e_settings E) now tok = None" using other(1) by blast
    then have user: "get_current_user E now tok s =
        Inl (HTTPException 401 ''Invalid or expired access token'' bearer_challenge)"
      by (simp add: get_current_user_def)
    have "handle E P x now rq (s, ob) =
        (Inl (HTTPException 401 ''Invalid or expired access token'' bearer_challenge), (s, ob))"
      using rq(1) AccessToken
      by (cases rq)
        (simp_all add: asks_for_def turned_away_at_the_door [OF user] on_app_refused logout_def none
          profile_redis oauth_link_def list_users_def list_users_feed_def update_user_status_def
          admin_deactivate_user_def list_roles_def assign_role_def revoke_role_def trigger_user_summary_report_def
          get_report_status_def upload_file_def list_my_files_def get_file_def delete_file_def)
    then show ?thesis by blast
  next
    case RefreshToken
    with rq have "rq = RefreshAccessToken tok" "decode_refresh_token (e_jwt E) (e_settings E) now tok = None"
      using other(2) by (auto simp: asks_for_def split: request.splits)
    then show ?thesis by (simp add: refresh_access_token_def on_app_refused)
  next
    case VerificationToken
    with rq have "rq = VerifyEmail tok" "decode_email_verification_token (e_jwt E) (e_settings E) now tok = None"
      using other(3) by (auto simp: asks_for_def split: request.splits)
    then show ?thesis by (simp add: verify_email_def on_app_refused)
  next
    case ResetToken
    with rq obtain p where "rq = ResetPassword tok p" "decode_password_reset_token (e_jwt E) (e_settings E) now tok = None"
      using other(4) by (auto simp: asks_for_def split: request.splits)
    then show ?thesis
      by (cases "validate_new_password p") (simp_all add: reset_password_route_def reset_password_def on_app_refused)
  qed
qed

text \<open>The link that verifies an address does not set a password.\<close>

theorem token_kinds_separated_witness:
  "\<exists>m hs. fst (handle ex_env ex_parties ex_drawn 5 (ResetPassword ex_link ''Secret123'') (ex_registered, Map.empty)) =
     Inl (HTTPException 401 m hs)"
proof -
  have link: "ex_link = issued ex_env VerificationToken 0 ''j0'' (py_str 1)" by (simp add: ex_link_def)
  have ok: "validate_new_password ''Secret123'' = Inr ''Secret123''" by code_simp
  have "asks_for (ResetPassword ex_link ''Secret123'') = Some (ResetToken, issued ex_env VerificationToken 0 ''j0'' (py_str 1))"
    by (simp add: asks_for_def link)
  with token_kinds_separated [OF ex_services(1), THEN conjunct1, rule_format, OF this] ok
  show ?thesis by (metis Inl_Inr_False fst_conv request.inject(7) token_kind.distinct(11))
qed

end
